(* ===== verification/Prelude.thy ===== *)
theory Prelude
  imports Main "HOL-Library.Multiset" "HOL-Library.AList"
begin

text \<open>
  The vocabulary that every component of the development shares.

  \<^item> The model's basic types: a UUID is a natural number below \<open>2 ^ 128\<close> that the code only
    compares and prints, a timestamp is an integral number of microseconds.
  \<^item> The exceptions of \<^verbatim>\<open>src/app/core/exceptions.py\<close> as values, and the result type
    \<open>'a result\<close>: every \<^verbatim>\<open>raise\<close> of the source is an \<open>Inl\<close>, every return an \<open>Inr\<close>.
  \<^item> The pieces of the Python language the code leans on: dict comprehensions (the first
    insertion fixes the position, the last one the value), \<^verbatim>\<open>dict.fromkeys\<close>, truthiness,
    \<^verbatim>\<open>UUID.__str__\<close>, and the list chunker of \<^verbatim>\<open>src/app/utils/lists.py\<close>.
  \<^item> The named collections \<open>result_simps\<close> and \<open>dict_simps\<close> that carry the proofs of the
    components.
\<close>

named_theorems result_simps \<open>inversion rules for computations that may raise\<close>
named_theorems dict_simps \<open>lookups, keys and values of Python dictionaries\<close>

type_synonym uuid = nat
type_synonym datetime = int

section \<open>Exceptions and results\<close>

text \<open>
  One constructor per exception class that a modelled operation raises or catches. The
  messages are not modelled; the state-transition error keeps the entity and the two
  statuses that the source stores on it.
\<close>

datatype app_error =
    NotFoundError
  | SQLNotFoundError
  | SQLValueError
  | SQLIntegrityError
  | DBAPIError
  | PendingRollbackError
  | MultipleResultsFound
  | ESError
  | ESNotFoundError
  | ESMalformedDocumentError
  | ESQueryError
  | BulkIndexError
  | InvalidPayloadError
  | TaskError
  | DomainToSDKError
  | AuthError nat
  | InvalidParentEnhancementError
  | UnstoredFullTextError
  | SDKToDomainError
  | BlobStorageError
  | RemoteBlobStorageError
  | BlobSizeExceededError
  | FullTextIngestionError
  | FullTextDownloadError
  | FullTextIntegrityError
  | FullTextSizeExceededError
  | ProjectionError
  | DeduplicationError
  | DeduplicationNotFoundError
  | DeduplicationValueError
  | ParseError
  | SiblingGroupingError
  | DuplicateEnhancementError
  | StateTransitionError uuid string string
  | VocabularyFetchError
  | ExternalIdentifierNotFoundError
  | ReferenceIdNotFoundError
  | ClientNotFoundError
  | ClientBadRequestError
  | ClientApiError
  | ValidationError
  | PyValueError
  | PyRuntimeError
  | PyKeyError
  | PyTypeError
  | PyAttributeError
  | PyIndexError
  | PyNotImplementedError

type_synonym 'a result = "app_error + 'a"

fun res_bind :: "'a result \<Rightarrow> ('a \<Rightarrow> 'b result) \<Rightarrow> 'b result" where
  "res_bind (Inl e) f = Inl e"
| "res_bind (Inr x) f = f x"

text \<open>A list comprehension whose body may raise: it stops at the first exception.\<close>

fun res_mapM :: "('a \<Rightarrow> 'b result) \<Rightarrow> 'a list \<Rightarrow> 'b list result" where
  "res_mapM f [] = Inr []"
| "res_mapM f (x # xs) = res_bind (f x) (\<lambda>y. res_bind (res_mapM f xs) (\<lambda>ys. Inr (y # ys)))"

text \<open>A loop that threads a state and stops at the first exception.\<close>

fun res_foldM :: "('a \<Rightarrow> 's \<Rightarrow> 's result) \<Rightarrow> 'a list \<Rightarrow> 's \<Rightarrow> 's result" where
  "res_foldM f [] s = Inr s"
| "res_foldM f (x # xs) s = res_bind (f x s) (res_foldM f xs)"

section \<open>Python dictionaries with insertion order\<close>

text \<open>The dict comprehension \<open>{key(x): value(x) for x in xs}\<close>.\<close>

definition dict_comp :: "('a \<Rightarrow> 'k) \<Rightarrow> ('a \<Rightarrow> 'v) \<Rightarrow> 'a list \<Rightarrow> ('k \<times> 'v) list" where
  "dict_comp key val xs = fold (\<lambda>x d. AList.update (key x) (val x) d) xs []"

definition dict_keys :: "('k \<times> 'v) list \<Rightarrow> 'k list" where
  "dict_keys d = map fst d"

definition dict_values :: "('k \<times> 'v) list \<Rightarrow> 'v list" where
  "dict_values d = map snd d"

text \<open>\<open>list(dict.fromkeys(xs))\<close>: duplicates go, first occurrences stay in order.\<close>

definition dict_fromkeys :: "'a list \<Rightarrow> 'a list" where
  "dict_fromkeys xs = dict_keys (dict_comp id id xs)"

section \<open>Truthiness\<close>

definition truthy_opt_str :: "string option \<Rightarrow> bool" where
  "truthy_opt_str s = (case s of None \<Rightarrow> False | Some t \<Rightarrow> t \<noteq> [])"

definition truthy_opt_int :: "int option \<Rightarrow> bool" where
  "truthy_opt_int n = (case n of None \<Rightarrow> False | Some k \<Rightarrow> k \<noteq> 0)"

text \<open>\<open>x or y\<close> on optional strings and integers: \<open>x\<close> when it is truthy, else \<open>y\<close>.\<close>

definition or_str :: "string option \<Rightarrow> string option \<Rightarrow> string option" where
  "or_str x y = (if truthy_opt_str x then x else y)"

definition or_int :: "int option \<Rightarrow> int option \<Rightarrow> int option" where
  "or_int x y = (if truthy_opt_int x then x else y)"

section \<open>Formatting\<close>

definition hex_digit :: "nat \<Rightarrow> char" where
  "hex_digit n = ''0123456789abcdef'' ! (n mod 16)"

text \<open>The low \<open>w\<close> hexadecimal digits of a number, most significant first.\<close>

fun hex_pad :: "nat \<Rightarrow> nat \<Rightarrow> string" where
  "hex_pad 0 n = []"
| "hex_pad (Suc w) n = hex_pad w (n div 16) @ [hex_digit n]"

text \<open>\<open>str(uuid)\<close>: 32 hexadecimal digits in groups of 8, 4, 4, 4 and 12.\<close>

definition str_uuid :: "uuid \<Rightarrow> string" where
  "str_uuid u =
     (let h = hex_pad 32 u
      in take 8 h @ ''-'' @ take 4 (drop 8 h) @ ''-'' @ take 4 (drop 12 h) @ ''-''
         @ take 4 (drop 16 h) @ ''-'' @ drop 20 h)"

text \<open>\<open>sep.join(parts)\<close>.\<close>

fun str_join :: "string \<Rightarrow> string list \<Rightarrow> string" where
  "str_join sep [] = []"
| "str_join sep [s] = s"
| "str_join sep (s # t # ts) = s @ sep @ str_join sep (t # ts)"

section \<open>Chunks of a list\<close>

text \<open>
  \<open>list_chunker(lst, n)\<close>: \<open>range(0, len(lst), n)\<close> raises on a zero step, which the
  source meets only when a chunk size is configured as 0.
\<close>

function chunks :: "nat \<Rightarrow> 'a list \<Rightarrow> 'a list list" where
  "chunks n xs = (if n = 0 \<or> xs = [] then [] else take n xs # chunks n (drop n xs))"
  by pat_completeness auto
termination
  by (relation "measure (\<lambda>(n, xs). length xs)") auto

declare chunks.simps [simp del]

definition list_chunker :: "'a list \<Rightarrow> nat \<Rightarrow> 'a list list result" where
  "list_chunker lst n = (if n = 0 then Inl PyValueError else Inr (chunks n lst))"

section \<open>Lemmas on results\<close>

lemma res_bind_Inr_iff [result_simps]:
  "res_bind m f = Inr y \<longleftrightarrow> (\<exists>x. m = Inr x \<and> f x = Inr y)"
  by (cases m) auto

lemma res_bind_Inl_iff [result_simps]:
  "res_bind m f = Inl e \<longleftrightarrow> m = Inl e \<or> (\<exists>x. m = Inr x \<and> f x = Inl e)"
  by (cases m) auto

lemma res_bind_assoc: "res_bind (res_bind m f) g = res_bind m (\<lambda>x. res_bind (f x) g)"
  by (cases m) auto

text \<open>Reading off an evaluated call.\<close>

lemma run_Inr: "(case r of Inl _ \<Rightarrow> False | Inr (a, b) \<Rightarrow> P a b) \<Longrightarrow> \<exists>a b. r = Inr (a, b) \<and> P a b"
  by (cases r) auto

lemma res_mapM_Inr_length: "res_mapM f xs = Inr ys \<Longrightarrow> length ys = length xs"
  by (induction xs arbitrary: ys) (auto simp: result_simps)

lemma res_mapM_Inr_nth:
  "res_mapM f xs = Inr ys \<Longrightarrow> i < length xs \<Longrightarrow> f (xs ! i) = Inr (ys ! i)"
proof (induction xs arbitrary: ys i)
  case (Cons x xs)
  then show ?case by (cases i) (auto simp: result_simps)
qed simp

lemma res_mapM_total: "(\<And>x. x \<in> set xs \<Longrightarrow> f x = Inr (g x)) \<Longrightarrow> res_mapM f xs = Inr (map g xs)"
  by (induction xs) auto

lemma res_foldM_append: "res_foldM f (xs @ ys) s = res_bind (res_foldM f xs s) (res_foldM f ys)"
proof (induction xs arbitrary: s)
  case (Cons x xs)
  then show ?case by (cases "f x s") simp_all
qed simp

text \<open>An invariant kept by every iteration holds when the loop returns.\<close>

lemma res_foldM_invariant:
  assumes "res_foldM f xs s = Inr t" and "I s"
    and "\<And>x a b. x \<in> set xs \<Longrightarrow> I a \<Longrightarrow> f x a = Inr b \<Longrightarrow> I b"
  shows "I t"
  using assms
proof (induction xs arbitrary: s)
  case (Cons x xs)
  from Cons.prems(1) obtain u where u: "f x s = Inr u" and rest: "res_foldM f xs u = Inr t"
    by (auto simp: result_simps)
  from Cons.prems(2,3) u have "I u" by (meson list.set_intros(1))
  with rest Cons.IH Cons.prems(3) show ?case by (meson list.set_intros(2))
qed simp

section \<open>Lemmas on dictionaries\<close>

lemma find_append_cases:
  "find P (xs @ ys) = (case find P xs of None \<Rightarrow> find P ys | Some x \<Rightarrow> Some x)"
  by (induction xs) auto

lemma fold_update_keys:
  "distinct (map fst d) \<Longrightarrow>
     distinct (map fst (fold (\<lambda>x e. AList.update (key x) (val x) e) xs d)) \<and>
     fst ` set (fold (\<lambda>x e. AList.update (key x) (val x) e) xs d) = fst ` set d \<union> key ` set xs"
proof (induction xs arbitrary: d)
  case (Cons x xs)
  then have "distinct (map fst (AList.update (key x) (val x) d))"
    by (simp add: AList.distinct_update)
  from Cons.IH [OF this] show ?case by (auto simp: AList.dom_update)
qed simp

lemma distinct_dict_comp [dict_simps]: "distinct (map fst (dict_comp key val xs))"
  using fold_update_keys [of "[]" key val xs] by (simp add: dict_comp_def)

lemma set_keys_dict_comp [dict_simps]: "fst ` set (dict_comp key val xs) = key ` set xs"
  using fold_update_keys [of "[]" key val xs] by (simp add: dict_comp_def)

lemma map_of_fold_update:
  "map_of (fold (\<lambda>x e. AList.update (key x) (val x) e) xs d) k =
     (case find (\<lambda>x. key x = k) (rev xs) of None \<Rightarrow> map_of d k | Some x \<Rightarrow> Some (val x))"
proof (induction xs arbitrary: d)
  case (Cons x xs)
  show ?case
    by (cases "find (\<lambda>x. key x = k) (rev xs)")
      (auto simp: Cons.IH AList.update_conv' find_append_cases split: option.splits)
qed simp

text \<open>The value under a key is the one of the last element with that key.\<close>

lemma map_of_dict_comp [dict_simps]:
  "map_of (dict_comp key val xs) k = map_option val (find (\<lambda>x. key x = k) (rev xs))"
  by (simp add: dict_comp_def map_of_fold_update split: option.splits)

lemma distinct_dict_fromkeys [simp]: "distinct (dict_fromkeys xs)"
  by (simp add: dict_fromkeys_def dict_keys_def dict_simps)

lemma set_dict_fromkeys [simp]: "set (dict_fromkeys xs) = set xs"
  using set_keys_dict_comp [of id id xs] by (simp add: dict_fromkeys_def dict_keys_def)

section \<open>Lemmas on lists, words and formatting\<close>

lemma find_Some_set: "find P xs = Some x \<Longrightarrow> x \<in> set xs \<and> P x"
  by (auto simp: find_Some_iff)

lemma find_first_split:
  assumes "find P xs = Some x"
  obtains us vs where "xs = us @ x # vs" and "P x" and "\<forall>u \<in> set us. \<not> P u"
  using assms
proof (induction xs arbitrary: thesis)
  case (Cons y ys)
  show ?case
  proof (cases "P y")
    case True
    with Cons.prems show ?thesis using Cons.prems(1) [of "[]" ys] by simp
  next
    case False
    with Cons.prems(2) have "find P ys = Some x" by simp
    from Cons.IH [OF _ this] obtain us vs where "ys = us @ x # vs" "P x" "\<forall>u \<in> set us. \<not> P u" .
    with False show ?thesis using Cons.prems(1) [of "y # us" vs] by simp
  qed
qed simp

lemma find_rev_split:
  assumes "find P (rev xs) = Some x"
  obtains as bs where "xs = as @ x # bs" and "P x" and "\<forall>y \<in> set bs. \<not> P y"
proof -
  obtain us vs where "rev xs = us @ x # vs" "P x" "\<forall>u \<in> set us. \<not> P u"
    by (rule find_first_split [OF assms])
  moreover from this(1) have "xs = rev (us @ x # vs)" by (metis rev_rev_ident)
  ultimately show thesis using that [of "rev vs" "rev us"] by simp
qed

lemma find_None_set: "find P xs = None \<longleftrightarrow> (\<forall>x \<in> set xs. \<not> P x)"
  by (auto simp: find_None_iff)

text \<open>The first hit in a sorted list is a best one.\<close>

lemma find_sorted_best:
  fixes k :: "'a \<Rightarrow> 'k::linorder"
  assumes "find P (sort_key k xs) = Some x"
  shows "x \<in> set xs \<and> P x \<and> (\<forall>y \<in> set xs. P y \<longrightarrow> k x \<le> k y)"
proof -
  obtain us vs where split: "sort_key k xs = us @ x # vs" and P: "P x" and no: "\<forall>u \<in> set us. \<not> P u"
    by (rule find_first_split [OF assms])
  have set: "set xs = set (us @ x # vs)" unfolding split [symmetric] by simp
  have "sorted (map k (us @ x # vs))" unfolding split [symmetric] by (rule sorted_sort_key)
  then show ?thesis using P no unfolding set by (auto simp: sorted_append)
qed

lemma list_all2_right: "list_all2 R xs ys \<Longrightarrow> y \<in> set ys \<Longrightarrow> \<exists>x \<in> set xs. R x y"
  by (induction rule: list_all2_induct) auto

lemma list_all2_left: "list_all2 R xs ys \<Longrightarrow> x \<in> set xs \<Longrightarrow> \<exists>y \<in> set ys. R x y"
  by (induction rule: list_all2_induct) auto

lemma length_hex_pad [simp]: "length (hex_pad w n) = w"
  by (induction w arbitrary: n) auto

lemma chunks_Nil [simp]: "chunks n [] = []"
  by (simp add: chunks.simps)

lemma concat_chunks: "0 < n \<Longrightarrow> concat (chunks n xs) = xs"
proof (induction n xs rule: chunks.induct)
  case (1 n xs)
  then show ?case by (cases "xs = []") (auto simp: chunks.simps [of n xs])
qed

lemma chunks_bounds: "c \<in> set (chunks n xs) \<Longrightarrow> c \<noteq> [] \<and> length c \<le> n"
proof (induction n xs rule: chunks.induct)
  case (1 n xs)
  then show ?case by (cases "n = 0 \<or> xs = []") (auto simp: chunks.simps [of n xs])
qed

end
