(* ===== verification/Identifiers.thy ===== *)
theory Identifiers
  imports Python_Text
begin

text \<open>
  External identifiers of references: \<^verbatim>\<open>src/libs/sdk/src/destiny_sdk/identifiers.py\<close>, the
  identifier classes of \<^verbatim>\<open>src/app/domain/references/models/models.py\<close> and the table row of
  \<^verbatim>\<open>src/app/domain/references/models/sql.py\<close>.

  Every identifier is canonicalised and then checked against a pattern; it is stored as text and
  validated again when it is read, so what is stored has to be a fixed point of its validator.
  pydantic's own coercions (text to integer, \<^verbatim>\<open>HttpUrl\<close>, text to UUID) are the parameter
  \<open>pydantic\<close>; what the code relies on is \<open>pydantic_ok\<close>.
\<close>

section \<open>pydantic's coercions\<close>

record pydantic =
  pyd_int :: "string \<Rightarrow> int option"
  pyd_http_url :: "string \<Rightarrow> string option"
  pyd_uuid :: "string \<Rightarrow> uuid option"

text \<open>
  The documented behaviour the code relies on: decimal text is read as the integer it shows, and
  a normalised URL has no surrounding white space and normalises to itself.
\<close>

definition pydantic_ok :: "pydantic \<Rightarrow> bool" where
  "pydantic_ok P =
     ((\<forall>n > 0. pyd_int P (str_int n) = Some n) \<and>
      (\<forall>s u. pyd_http_url P s = Some u \<longrightarrow> stripped u \<and> pyd_http_url P u = Some u))"

section \<open>Identifier types and values\<close>

datatype external_identifier_type =
  ID_DOI | ID_ERIC | ID_PM_ID | ID_PRO_QUEST | ID_OPEN_ALEX | ID_URL | ID_OTHER

fun id_type_value :: "external_identifier_type \<Rightarrow> string" where
  "id_type_value ID_DOI = ''doi''"
| "id_type_value ID_ERIC = ''eric''"
| "id_type_value ID_PM_ID = ''pm_id''"
| "id_type_value ID_PRO_QUEST = ''pro_quest''"
| "id_type_value ID_OPEN_ALEX = ''open_alex''"
| "id_type_value ID_URL = ''url''"
| "id_type_value ID_OTHER = ''other''"

definition id_type_of :: "string \<Rightarrow> external_identifier_type option" where
  "id_type_of s = find (\<lambda>t. id_type_value t = s)
     [ID_DOI, ID_ERIC, ID_PM_ID, ID_PRO_QUEST, ID_OPEN_ALEX, ID_URL, ID_OTHER]"

datatype external_identifier =
    DOIIdentifier string
  | ERICIdentifier string
  | PubMedIdentifier int
  | ProQuestIdentifier string
  | OpenAlexIdentifier string
  | URLIdentifier string
  | OtherIdentifier string string

fun identifier_type :: "external_identifier \<Rightarrow> external_identifier_type" where
  "identifier_type (DOIIdentifier _) = ID_DOI"
| "identifier_type (ERICIdentifier _) = ID_ERIC"
| "identifier_type (PubMedIdentifier _) = ID_PM_ID"
| "identifier_type (ProQuestIdentifier _) = ID_PRO_QUEST"
| "identifier_type (OpenAlexIdentifier _) = ID_OPEN_ALEX"
| "identifier_type (URLIdentifier _) = ID_URL"
| "identifier_type (OtherIdentifier _ _) = ID_OTHER"

text \<open>\<open>str(identifier.identifier)\<close>.\<close>

fun identifier_str :: "external_identifier \<Rightarrow> string" where
  "identifier_str (DOIIdentifier s) = s"
| "identifier_str (ERICIdentifier s) = s"
| "identifier_str (PubMedIdentifier n) = str_int n"
| "identifier_str (ProQuestIdentifier s) = s"
| "identifier_str (OpenAlexIdentifier s) = s"
| "identifier_str (URLIdentifier s) = s"
| "identifier_str (OtherIdentifier s _) = s"

text \<open>\<open>getattr(identifier, "other_identifier_name", None)\<close>.\<close>

fun other_identifier_name :: "external_identifier \<Rightarrow> string option" where
  "other_identifier_name (OtherIdentifier _ name) = Some name"
| "other_identifier_name _ = None"

section \<open>Canonicalisation and patterns\<close>

text \<open>The translation table: a no-break space becomes a space.\<close>

definition doi_translate :: "string \<Rightarrow> string" where
  "doi_translate s = map (\<lambda>c. if (of_char c :: nat) = 160 then CHR '' '' else c) s"

text \<open>One case-insensitive literal at the start of a string.\<close>

definition strip_ci :: "string \<Rightarrow> string \<Rightarrow> string" where
  "strip_ci p s = (if py_lower (take (length p) s) = p then drop (length p) s else s)"

text \<open>
  \<^verbatim>\<open>^(?:https?://)?(?:dx\.)?doi\.org/\<close>: removed only when the whole pattern matches. The optional
  groups and what may follow them start with different letters, so no backtracking is needed.
\<close>

definition doi_url_rest :: "string \<Rightarrow> string" where
  "doi_url_rest s =
     (let a = (if strip_ci ''https://'' s \<noteq> s then strip_ci ''https://'' s
               else strip_ci ''http://'' s)
      in strip_ci ''dx.'' a)"

definition doi_strip_url :: "string \<Rightarrow> string" where
  "doi_strip_url s =
     (let b = doi_url_rest s in if strip_ci ''doi.org/'' b \<noteq> b then strip_ci ''doi.org/'' b else s)"

text \<open>\<^verbatim>\<open>^doi:\s*\<close>.\<close>

definition doi_strip_scheme :: "string \<Rightarrow> string" where
  "doi_strip_scheme s = (if strip_ci ''doi:'' s \<noteq> s then py_lstrip (strip_ci ''doi:'' s) else s)"

definition canonicalize_doi :: "string \<Rightarrow> string" where
  "canonicalize_doi value =
     py_lower (py_strip (doi_strip_scheme (doi_strip_url (py_strip (doi_translate value)))))"

text \<open>\<^verbatim>\<open>^10\.\d{4,9}/\S+$\<close>.\<close>

definition doi_pattern :: "string \<Rightarrow> bool" where
  "doi_pattern s =
     (take 3 s = ''10.'' \<and>
      (let r = drop 3 s; ds = takeWhile is_digit r; t = dropWhile is_digit r
       in 4 \<le> length ds \<and> length ds \<le> 9 \<and> t \<noteq> [] \<and> hd t = CHR ''/'' \<and>
          tl t \<noteq> [] \<and> list_all re_nonspace (tl t)))"

definition remove_proquest_url :: "string \<Rightarrow> string" where
  "remove_proquest_url value =
     py_strip (removeprefix ''docview/'' (removeprefix ''www.proquest.com/''
       (removeprefix ''search.proquest.com/'' (removeprefix ''https://''
         (removeprefix ''http://'' value)))))"

text \<open>\<^verbatim>\<open>[0-9]+$\<close>, searched: there is no anchor at the front.\<close>

definition proquest_pattern :: "string \<Rightarrow> bool" where
  "proquest_pattern s = (s \<noteq> [] \<and> is_digit (last s))"

definition remove_eric_url :: "string \<Rightarrow> string" where
  "remove_eric_url value =
     py_strip (removesuffix ''.pdf'' (removeprefix ''files.eric.ed.gov/fulltext/''
       (removeprefix ''eric.ed.gov/?id='' (removeprefix ''https://''
         (removeprefix ''http://'' value)))))"

text \<open>
  \<^verbatim>\<open>E[D|J][0-9]+$\<close>, searched: the digits at the end of the text, and before them one of
  \<^verbatim>\<open>D\<close>, \<^verbatim>\<open>|\<close> and \<^verbatim>\<open>J\<close> after an \<^verbatim>\<open>E\<close>.
\<close>

definition eric_pattern :: "string \<Rightarrow> bool" where
  "eric_pattern s =
     (let r = rev s; ds = takeWhile is_digit r; t = dropWhile is_digit r
      in ds \<noteq> [] \<and> 2 \<le> length t \<and> t ! 0 \<in> set ''D|J'' \<and> t ! 1 = CHR ''E'')"

definition remove_open_alex_url :: "string \<Rightarrow> string" where
  "remove_open_alex_url value =
     py_strip (removeprefix ''works/'' (removeprefix ''explore.openalex.org/''
       (removeprefix ''openalex.org/'' (removeprefix ''https://''
         (removeprefix ''http://'' value)))))"

text \<open>\<^verbatim>\<open>^W\d+$\<close>.\<close>

definition open_alex_pattern :: "string \<Rightarrow> bool" where
  "open_alex_pattern s = (s \<noteq> [] \<and> hd s = CHR ''W'' \<and> tl s \<noteq> [] \<and> list_all is_digit (tl s))"

definition canonicalize_url :: "pydantic \<Rightarrow> string \<Rightarrow> string option" where
  "canonicalize_url P value = pyd_http_url P (py_strip value)"

section \<open>ExternalIdentifierAdapter.validate\_python\<close>

text \<open>
  Validation of the dict \<open>{identifier, identifier_type, other_identifier_name}\<close> with a textual
  identifier, as the domain and the SQL layer build it: the type selects the class, the class
  canonicalises and then checks its pattern.
\<close>

definition validate_external_identifier ::
    "pydantic \<Rightarrow> string \<Rightarrow> external_identifier_type \<Rightarrow> string option \<Rightarrow> external_identifier result" where
  "validate_external_identifier P value ty other_name =
     (case ty of
        ID_DOI \<Rightarrow> (let v = canonicalize_doi value
                   in if doi_pattern v then Inr (DOIIdentifier v) else Inl ValidationError)
      | ID_ERIC \<Rightarrow> (let v = remove_eric_url value
                   in if eric_pattern v then Inr (ERICIdentifier v) else Inl ValidationError)
      | ID_PM_ID \<Rightarrow> (case pyd_int P value of
                      None \<Rightarrow> Inl ValidationError
                    | Some n \<Rightarrow> if 0 < n then Inr (PubMedIdentifier n) else Inl ValidationError)
      | ID_PRO_QUEST \<Rightarrow> (let v = remove_proquest_url value
                   in if proquest_pattern v then Inr (ProQuestIdentifier v)
                      else Inl ValidationError)
      | ID_OPEN_ALEX \<Rightarrow> (let v = remove_open_alex_url value
                   in if open_alex_pattern v then Inr (OpenAlexIdentifier v)
                      else Inl ValidationError)
      | ID_URL \<Rightarrow> (case canonicalize_url P value of
                    None \<Rightarrow> Inl ValidationError
                  | Some u \<Rightarrow> Inr (URLIdentifier u))
      | ID_OTHER \<Rightarrow> (case other_name of
                      None \<Rightarrow> Inl ValidationError
                    | Some name \<Rightarrow> Inr (OtherIdentifier value name)))"

section \<open>IdentifierLookup of the SDK\<close>

record generic_external_identifier =
  gei_identifier :: string
  gei_identifier_type :: "external_identifier_type option"
  gei_other_identifier_name :: "string option"

type_synonym identifier_lookup = generic_external_identifier

text \<open>An f-string prints a missing name as \<^verbatim>\<open>None\<close>.\<close>

definition serialize :: "identifier_lookup \<Rightarrow> string" where
  "serialize l =
     (case gei_identifier_type l of
        None \<Rightarrow> gei_identifier l
      | Some t \<Rightarrow>
          if t = ID_OTHER
          then ''other:'' @ (case gei_other_identifier_name l of None \<Rightarrow> ''None'' | Some n \<Rightarrow> n)
               @ '':'' @ gei_identifier l
          else py_lower (id_type_value t) @ '':'' @ gei_identifier l)"

definition parse_lookup :: "pydantic \<Rightarrow> string \<Rightarrow> identifier_lookup result" where
  "parse_lookup P s =
     (if \<not> contains_char (CHR '':'') s
      then (case pyd_uuid P s of
              None \<Rightarrow> Inl PyValueError
            | Some _ \<Rightarrow> Inr \<lparr> gei_identifier = s, gei_identifier_type = None,
                             gei_other_identifier_name = None \<rparr>)
      else (let (ty, ident) = split_once (CHR '':'') s
            in if ty = ''other''
               then (if \<not> contains_char (CHR '':'') ident then Inl PyValueError
                     else (let (name, ident') = split_once (CHR '':'') ident
                           in Inr \<lparr> gei_identifier = ident', gei_identifier_type = Some ID_OTHER,
                                   gei_other_identifier_name = Some name \<rparr>))
               else (case id_type_of ty of
                       None \<Rightarrow> Inl PyValueError
                     | Some t \<Rightarrow> Inr \<lparr> gei_identifier = ident, gei_identifier_type = Some t,
                                      gei_other_identifier_name = None \<rparr>)))"

section \<open>Domain identifiers\<close>

record linked_external_identifier =
  lei_id :: uuid
  lei_identifier :: external_identifier
  lei_reference_id :: uuid

text \<open>\<open>GenericExternalIdentifier.from_specific\<close>, also for lookups and candidate identifiers.\<close>

definition from_specific :: "external_identifier \<Rightarrow> generic_external_identifier" where
  "from_specific e =
     \<lparr> gei_identifier = identifier_str e, gei_identifier_type = Some (identifier_type e),
       gei_other_identifier_name = other_identifier_name e \<rparr>"

text \<open>An untyped identifier has no discriminator, which pydantic rejects.\<close>

definition lookup_from_generic ::
    "pydantic \<Rightarrow> generic_external_identifier \<Rightarrow> identifier_lookup result" where
  "lookup_from_generic P g =
     (case gei_identifier_type g of
        None \<Rightarrow> Inl ValidationError
      | Some t \<Rightarrow>
          res_bind (validate_external_identifier P (gei_identifier g) t
                      (gei_other_identifier_name g))
            (\<lambda>specific. Inr (from_specific specific)))"

text \<open>\<open>IdentifierLookup.to_identifier\<close>: a repository UUID or an external identifier.\<close>

definition to_identifier :: "pydantic \<Rightarrow> identifier_lookup \<Rightarrow> (uuid + external_identifier) result" where
  "to_identifier P l =
     (case gei_identifier_type l of
        None \<Rightarrow> (case pyd_uuid P (gei_identifier l) of
                  None \<Rightarrow> Inl ValidationError | Some u \<Rightarrow> Inr (Inl u))
      | Some t \<Rightarrow> res_bind (validate_external_identifier P (gei_identifier l) t
                             (gei_other_identifier_name l)) (\<lambda>e. Inr (Inr e)))"

definition lookup_from_identifier :: "uuid + external_identifier \<Rightarrow> identifier_lookup" where
  "lookup_from_identifier i =
     (case i of
        Inl u \<Rightarrow> \<lparr> gei_identifier = str_uuid u, gei_identifier_type = None,
                  gei_other_identifier_name = None \<rparr>
      | Inr e \<Rightarrow> from_specific e)"

section \<open>The table of identifiers\<close>

record external_identifier_row =
  eir_id :: uuid
  eir_reference_id :: uuid
  eir_identifier_type :: external_identifier_type
  eir_other_identifier_name :: "string option"
  eir_identifier :: string

definition external_identifier_from_domain ::
    "linked_external_identifier \<Rightarrow> external_identifier_row" where
  "external_identifier_from_domain d =
     \<lparr> eir_id = lei_id d, eir_reference_id = lei_reference_id d,
       eir_identifier_type = identifier_type (lei_identifier d),
       eir_other_identifier_name = other_identifier_name (lei_identifier d),
       eir_identifier = identifier_str (lei_identifier d) \<rparr>"

definition external_identifier_to_domain ::
    "pydantic \<Rightarrow> external_identifier_row \<Rightarrow> linked_external_identifier result" where
  "external_identifier_to_domain P r =
     res_bind (validate_external_identifier P (eir_identifier r) (eir_identifier_type r)
                 (eir_other_identifier_name r))
       (\<lambda>e. Inr \<lparr> lei_id = eir_id r, lei_identifier = e, lei_reference_id = eir_reference_id r \<rparr>)"

section \<open>Validated identifiers are fixed points\<close>

lemma strip_ci_other_start:
  "s \<noteq> [] \<Longrightarrow> p \<noteq> [] \<Longrightarrow> lower_char (hd s) \<noteq> hd p \<Longrightarrow> strip_ci p s = s"
  by (cases s; cases p) (auto simp: strip_ci_def py_lower_def)

lemma removeprefix_other_start:
  "s \<noteq> [] \<Longrightarrow> p \<noteq> [] \<Longrightarrow> hd s \<noteq> hd p \<Longrightarrow> removeprefix p s = s"
  by (cases s; cases p) (auto simp: removeprefix_def)

lemma lower_char_1 [simp]: "lower_char (CHR ''1'') = CHR ''1''"
  by (simp add: lower_char_def)

lemma doi_pattern_shape:
  assumes "doi_pattern s"
  shows "s \<noteq> []" and "hd s = CHR ''1''" and "c \<in> set s \<Longrightarrow> (of_char c :: nat) \<noteq> 160"
proof -
  let ?r = "drop 3 s"
  have pre: "take 3 s = ''10.''" and t: "dropWhile is_digit ?r \<noteq> []"
    "hd (dropWhile is_digit ?r) = CHR ''/''" "list_all re_nonspace (tl (dropWhile is_digit ?r))"
    using assms by (auto simp: doi_pattern_def Let_def)
  have s: "s = ''10.'' @ takeWhile is_digit ?r @ CHR ''/'' # tl (dropWhile is_digit ?r)"
    using pre t by (metis append_take_drop_id list.collapse takeWhile_dropWhile_id)
  show "s \<noteq> []" and "hd s = CHR ''1''"
    by (subst s, simp)+
  show "(of_char c :: nat) \<noteq> 160" if "c \<in> set s"
  proof -
    have "c \<in> set ''10./'' \<or> is_digit c \<or> re_nonspace c"
    proof -
      from that s have "c \<in> set (''10.'' @ takeWhile is_digit ?r @ CHR ''/'' # tl (dropWhile is_digit ?r))"
        by argo
      with t(3) show ?thesis by (auto simp: list_all_iff dest: set_takeWhileD)
    qed
    then show ?thesis by (auto simp: is_digit_def re_nonspace_def Let_def)
  qed
qed

lemma canonicalize_doi_fixed:
  assumes "doi_pattern s" and "stripped s" and "py_lower s = s"
  shows "canonicalize_doi s = s"
proof -
  note shape = doi_pattern_shape [OF assms(1)]
  have "doi_translate s = s"
    using shape(3) by (auto simp: doi_translate_def map_idI)
  moreover have "strip_ci p s = s" if "p \<noteq> []" "hd p \<noteq> CHR ''1''" for p
    using strip_ci_other_start [of s p] shape(1,2) that by auto
  ultimately show ?thesis
    using assms by (simp add: canonicalize_doi_def py_strip_stripped doi_strip_url_def
        doi_url_rest_def doi_strip_scheme_def)
qed

lemma canonicalize_doi_result:
  "stripped (canonicalize_doi v) \<and> py_lower (canonicalize_doi v) = canonicalize_doi v"
  by (simp add: canonicalize_doi_def)

lemma open_alex_fixed: "open_alex_pattern s \<Longrightarrow> remove_open_alex_url s = s"
proof -
  assume p: "open_alex_pattern s"
  then have ne: "s \<noteq> []" and h: "hd s = CHR ''W''" and d: "list_all is_digit (tl s)" "tl s \<noteq> []"
    by (auto simp: open_alex_pattern_def)
  have "removeprefix q s = s" if "q \<noteq> []" "hd q \<noteq> CHR ''W''" for q
    using removeprefix_other_start [of s q] ne h that by simp
  moreover have "stripped s"
  proof -
    have "last s \<in> set (tl s)" using d(2) by (metis last_in_set last_tl)
    then have "is_digit (last s)" using d(1) by (simp add: list_all_iff)
    then show ?thesis using h by (auto simp: stripped_def py_isspace_def is_digit_def Let_def)
  qed
  ultimately show ?thesis by (simp add: remove_open_alex_url_def py_strip_stripped)
qed

lemma validate_fixed_point:
  assumes P: "pydantic_ok P" and v: "validate_external_identifier P raw ty other = Inr e"
    and ty: "ty \<noteq> ID_PRO_QUEST" "ty \<noteq> ID_ERIC"
  shows "validate_external_identifier P (identifier_str e) (identifier_type e)
           (other_identifier_name e) = Inr e"
proof (cases ty)
  case ID_DOI
  with v have e: "e = DOIIdentifier (canonicalize_doi raw)" "doi_pattern (canonicalize_doi raw)"
    by (auto simp: validate_external_identifier_def Let_def split: if_splits)
  then show ?thesis
    using canonicalize_doi_fixed [OF e(2)] canonicalize_doi_result [of raw]
    by (simp add: validate_external_identifier_def)
next
  case ID_PM_ID
  with v obtain n where "e = PubMedIdentifier n" "0 < n"
    by (auto simp: validate_external_identifier_def split: if_splits option.splits)
  with P show ?thesis by (simp add: validate_external_identifier_def pydantic_ok_def)
next
  case ID_OPEN_ALEX
  with v show ?thesis
    by (auto simp: validate_external_identifier_def Let_def open_alex_fixed split: if_splits)
next
  case ID_URL
  with v obtain u where u: "e = URLIdentifier u" "pyd_http_url P (py_strip raw) = Some u"
    by (auto simp: validate_external_identifier_def canonicalize_url_def split: option.splits)
  with P have "stripped u" "pyd_http_url P u = Some u" unfolding pydantic_ok_def by blast+
  with u show ?thesis
    by (simp add: validate_external_identifier_def canonicalize_url_def py_strip_stripped)
next
  case ID_OTHER
  with v show ?thesis
    by (auto simp: validate_external_identifier_def split: option.splits)
qed (use ty in auto)

text \<open>A concrete \<open>pydantic\<close> that meets the contract, for the witnesses.\<close>

definition decimal_pydantic :: pydantic where
  "decimal_pydantic =
     \<lparr> pyd_int = (\<lambda>s. if s \<noteq> [] \<and> list_all is_digit s then Some (int (nat_of_digits s)) else None),
       pyd_http_url = (\<lambda>s. if stripped s \<and> take 4 s = ''http'' then Some s else None),
       pyd_uuid = (\<lambda>s. if length s = 36 then Some 0 else None) \<rparr>"

lemma decimal_pydantic_ok: "pydantic_ok decimal_pydantic"
  by (auto simp: pydantic_ok_def decimal_pydantic_def str_int_def list_all_iff str_nat_digits
      split: if_splits)

section \<open>Properties\<close>



text \<open>
  A lookup string names exactly the lookup it was printed from, when the untyped
  form is a UUID without a colon, typed forms carry no extra name, and the name of an
  \<^verbatim>\<open>other\<close> identifier has no colon; the identifier itself may contain colons.
\<close>

definition lookup_printable :: "pydantic \<Rightarrow> identifier_lookup \<Rightarrow> bool" where
  "lookup_printable P l =
     (case gei_identifier_type l of
        None \<Rightarrow> CHR '':'' \<notin> set (gei_identifier l) \<and> pyd_uuid P (gei_identifier l) \<noteq> None \<and>
                gei_other_identifier_name l = None
      | Some t \<Rightarrow>
          if t = ID_OTHER
          then (\<exists>n. gei_other_identifier_name l = Some n \<and> CHR '':'' \<notin> set n)
          else gei_other_identifier_name l = None)"

lemma id_type_text:
  "CHR '':'' \<notin> set (py_lower (id_type_value t))" "id_type_of (py_lower (id_type_value t)) = Some t"
  "t \<noteq> ID_OTHER \<Longrightarrow> py_lower (id_type_value t) \<noteq> ''other''"
  by (cases t; simp add: py_lower_def lower_char_def id_type_of_def)+

lemma lookup_parse_serialize:
  assumes "lookup_printable P l"
  shows "parse_lookup P (serialize l) = Inr l"
proof (cases "gei_identifier_type l")
  case None
  with assms show ?thesis
    by (auto simp: lookup_printable_def serialize_def parse_lookup_def contains_char_def
        split: option.splits)
next
  case (Some t)
  show ?thesis
  proof (cases "t = ID_OTHER")
    case True
    with Some assms obtain n where n: "gei_other_identifier_name l = Some n" "CHR '':'' \<notin> set n"
      by (auto simp: lookup_printable_def)
    have "serialize l = ''other'' @ CHR '':'' # n @ CHR '':'' # gei_identifier l"
      using Some True n by (simp add: serialize_def)
    with n Some True show ?thesis
      using split_once_append [of "CHR '':''" "''other''" "n @ CHR '':'' # gei_identifier l"]
        split_once_append [of "CHR '':''" n "gei_identifier l"]
      by (simp add: parse_lookup_def contains_char_def)
  next
    case False
    with Some have s: "serialize l = py_lower (id_type_value t) @ CHR '':'' # gei_identifier l"
      by (simp add: serialize_def)
    from Some False assms have "gei_other_identifier_name l = None"
      by (simp add: lookup_printable_def)
    with s Some False show ?thesis
      using split_once_append [OF id_type_text(1) [of t], of "gei_identifier l"] id_type_text [of t]
      by (simp add: parse_lookup_def contains_char_def)
  qed
qed

lemma lookup_parse_serialize_witness:
  "parse_lookup decimal_pydantic ''doi:10.1000/a:b'' =
     Inr \<lparr> gei_identifier = ''10.1000/a:b'', gei_identifier_type = Some ID_DOI,
          gei_other_identifier_name = None \<rparr>"
  using lookup_parse_serialize [of decimal_pydantic "\<lparr> gei_identifier = ''10.1000/a:b'',
    gei_identifier_type = Some ID_DOI, gei_other_identifier_name = None \<rparr>"]
  by (simp add: lookup_printable_def serialize_def py_lower_def lower_char_def)

text \<open>
  A stored identifier need not be stable. The ProQuest pattern is not anchored
  and the prefixes are removed in one pass, so an address with two schemes is accepted with one
  of them left in, is not made of digits only, and changes when the stored row is read back.
\<close>

lemma proquest_not_stable:
  "\<exists>raw e. validate_external_identifier decimal_pydantic raw ID_PRO_QUEST None = Inr e \<and>
     \<not> list_all is_digit (identifier_str e) \<and>
     external_identifier_to_domain decimal_pydantic
       (external_identifier_from_domain \<lparr> lei_id = 1, lei_identifier = e, lei_reference_id = 2 \<rparr>) \<noteq>
     Inr \<lparr> lei_id = 1, lei_identifier = e, lei_reference_id = 2 \<rparr>"
proof (intro exI conjI)
  show "validate_external_identifier decimal_pydantic ''https://http://12'' ID_PRO_QUEST None =
        Inr (ProQuestIdentifier ''http://12'')" by code_simp
  show "\<not> list_all is_digit (identifier_str (ProQuestIdentifier ''http://12''))" by code_simp
  show "external_identifier_to_domain decimal_pydantic
       (external_identifier_from_domain
         \<lparr> lei_id = 1, lei_identifier = ProQuestIdentifier ''http://12'', lei_reference_id = 2 \<rparr>) \<noteq>
     Inr \<lparr> lei_id = 1, lei_identifier = ProQuestIdentifier ''http://12'', lei_reference_id = 2 \<rparr>"
    by code_simp
qed

end
