(* ===== verification/Blob_Storage.thy ===== *)
theory Blob_Storage
  imports Prelude
begin

text \<open>
  Pointers into blob storage: \<^verbatim>\<open>src/app/persistence/blob/models.py\<close>. A
  \<^verbatim>\<open>BlobStorageFile\<close> is written to the database as a URI and read back by parsing it; the
  round trip is the property that makes a stored pointer usable. The string functions of Python
  that the two directions use (\<^verbatim>\<open>partition\<close>, \<^verbatim>\<open>split\<close>, \<^verbatim>\<open>rsplit\<close>, \<^verbatim>\<open>join\<close>) are defined here.
\<close>

section \<open>Python string functions\<close>

text \<open>\<open>s.split(c)\<close> for a one-character separator; the result is never empty.\<close>

fun str_split :: "char \<Rightarrow> string \<Rightarrow> string list" where
  "str_split c [] = [[]]"
| "str_split c (x # xs) =
     (if x = c then [] # str_split c xs
      else (case str_split c xs of [] \<Rightarrow> [[x]] | w # ws \<Rightarrow> (x # w) # ws))"

text \<open>\<open>s.partition(sep)\<close> for a non-empty separator; without it the rest is empty.\<close>

fun str_partition :: "string \<Rightarrow> string \<Rightarrow> string \<times> string" where
  "str_partition sep [] = ([], [])"
| "str_partition sep (x # xs) =
     (if take (length sep) (x # xs) = sep then ([], drop (length sep) (x # xs))
      else (case str_partition sep xs of (a, b) \<Rightarrow> (x # a, b)))"

section \<open>Locations and files\<close>

datatype blob_storage_location = BL_AZURE | BL_HTTP | BL_HTTPS

fun blob_location_value :: "blob_storage_location \<Rightarrow> string" where
  "blob_location_value BL_AZURE = ''azure''"
| "blob_location_value BL_HTTP = ''http''"
| "blob_location_value BL_HTTPS = ''https''"

text \<open>\<open>BlobStorageLocation(scheme)\<close>: the member with that value, or \<open>ValueError\<close>.\<close>

definition blob_location_of :: "string \<Rightarrow> blob_storage_location option" where
  "blob_location_of s = find (\<lambda>l. blob_location_value l = s) [BL_AZURE, BL_HTTP, BL_HTTPS]"

definition blob_location_remote :: "blob_storage_location list" where
  "blob_location_remote = [BL_HTTP, BL_HTTPS]"

record blob_storage_file =
  bsf_location :: blob_storage_location
  bsf_container :: string
  bsf_path :: string
  bsf_filename :: string

text \<open>The field patterns that pydantic checks on construction.\<close>

definition blob_file_valid :: "blob_storage_file \<Rightarrow> bool" where
  "blob_file_valid f = (CHR ''/'' \<notin> set (bsf_container f) \<and> CHR ''/'' \<notin> set (bsf_filename f))"

definition is_remote :: "blob_storage_file \<Rightarrow> bool" where
  "is_remote f = (bsf_location f \<in> set blob_location_remote)"

definition to_uri :: "blob_storage_file \<Rightarrow> string" where
  "to_uri f =
     (let path_segment = (if bsf_path f \<noteq> [] then bsf_path f @ ''/'' @ bsf_filename f
                          else bsf_filename f)
      in blob_location_value (bsf_location f) @ ''://'' @ bsf_container f @ ''/'' @ path_segment)"

definition parse_uri :: "string \<Rightarrow> blob_storage_file result" where
  "parse_uri uri =
     (let (scheme, rest) = str_partition ''://'' uri;
          parts = str_split (CHR ''/'') rest
      in if length parts < 2 then Inl BlobStorageError
         else (case blob_location_of scheme of
                 None \<Rightarrow> Inl BlobStorageError
               | Some location \<Rightarrow>
                   Inr \<lparr> bsf_location = location,
                        bsf_container = hd parts,
                        bsf_path = str_join ''/'' (butlast (tl parts)),
                        bsf_filename = last parts \<rparr>))"

definition from_uri :: "string \<Rightarrow> blob_storage_file result" where
  "from_uri uri =
     res_bind (parse_uri uri) (\<lambda>f. if blob_file_valid f then Inr f else Inl ValidationError)"

section \<open>Lemmas on split, join and partition\<close>

lemma str_split_not_Nil [simp]: "str_split c s \<noteq> []"
  by (induction s) (auto split: list.splits)

lemma str_split_single: "c \<notin> set s \<Longrightarrow> str_split c s = [s]"
  by (induction s) auto

lemma str_split_append: "c \<notin> set s \<Longrightarrow> str_split c (s @ c # t) = s # str_split c t"
  by (induction s) auto

lemma str_split_append_any:
  "str_split c (s @ c # t) = str_split c s @ str_split c t"
proof (induction s)
  case (Cons x xs)
  then show ?case by (cases "str_split c xs") (auto split: list.splits)
qed simp

lemma str_join_Cons: "ws \<noteq> [] \<Longrightarrow> str_join sep (w # ws) = w @ sep @ str_join sep ws"
  by (cases ws) auto

lemma str_join_split: "str_join [c] (str_split c s) = s"
proof (induction s)
  case (Cons x xs)
  show ?case
  proof (cases "x = c")
    case True
    with Cons show ?thesis by (simp add: str_join_Cons)
  next
    case False
    obtain w ws where "str_split c xs = w # ws" by (cases "str_split c xs") auto
    with Cons False show ?thesis by (cases ws) auto
  qed
qed simp

lemma no_slash_in_split: "w \<in> set (str_split c s) \<Longrightarrow> c \<notin> set w"
proof (induction s arbitrary: w)
  case (Cons x xs)
  then show ?case by (fastforce split: list.splits if_splits)
qed simp

lemma blob_location_of_value [simp]: "blob_location_of (blob_location_value l) = Some l"
  by (cases l) (simp_all add: blob_location_of_def)

lemma partition_location:
  "str_partition ''://'' (blob_location_value l @ ''://'' @ rest) = (blob_location_value l, rest)"
  by (cases l) simp_all

lemma to_uri_parts:
  assumes "blob_file_valid f"
  obtains ps where
    "str_split (CHR ''/'') (bsf_container f @ ''/'' @
       (if bsf_path f \<noteq> [] then bsf_path f @ ''/'' @ bsf_filename f else bsf_filename f)) =
     bsf_container f # ps @ [bsf_filename f]"
    and "str_join ''/'' ps = bsf_path f"
proof (cases "bsf_path f = []")
  case True
  with assms that [of "[]"] show ?thesis
    by (simp add: blob_file_valid_def str_split_append str_split_single)
next
  case False
  with assms that [of "str_split (CHR ''/'') (bsf_path f)"] show ?thesis
    by (simp add: blob_file_valid_def str_split_append str_split_append_any str_split_single
        str_join_split)
qed

lemma from_uri_to_uri:
  assumes "blob_file_valid f"
  shows "from_uri (to_uri f) = Inr f"
proof -
  obtain ps where split:
    "str_split (CHR ''/'') (bsf_container f @ ''/'' @
       (if bsf_path f \<noteq> [] then bsf_path f @ ''/'' @ bsf_filename f else bsf_filename f)) =
     bsf_container f # ps @ [bsf_filename f]"
    and path: "str_join ''/'' ps = bsf_path f"
    using to_uri_parts [OF assms] .
  have "parse_uri (to_uri f) = Inr f"
    using split path partition_location [of "bsf_location f"]
    by (simp add: parse_uri_def to_uri_def Let_def del: append.append_Cons)
  with assms show ?thesis by (simp add: from_uri_def)
qed

section \<open>Properties\<close>

text \<open>
  Every pointer that passes pydantic's field patterns is read back from the URI
  it is stored under exactly as it was: location, container, path (of any depth, empty included)
  and file name.
\<close>

lemma blob_uri_roundtrip:
  assumes "blob_file_valid f"
  shows "from_uri (to_uri f) = Inr f"
  using assms by (rule from_uri_to_uri)

lemma blob_uri_roundtrip_witness:
  "from_uri ''azure://operations/a/b/x.jsonl'' =
     Inr \<lparr> bsf_location = BL_AZURE, bsf_container = ''operations'', bsf_path = ''a/b'',
          bsf_filename = ''x.jsonl'' \<rparr>"
  using blob_uri_roundtrip [of "\<lparr> bsf_location = BL_AZURE, bsf_container = ''operations'',
    bsf_path = ''a/b'', bsf_filename = ''x.jsonl'' \<rparr>"]
  by (simp add: blob_file_valid_def to_uri_def)

end
