(* ===== verification/Enhancements.thy ===== *)
theory Enhancements
  imports Complex_Main Identifiers Blob_Storage "HOL-Library.List_Lexorder" "HOL-Library.Char_ord"
begin

text \<open>
  Enhancement contents: \<^verbatim>\<open>src/libs/sdk/src/destiny_sdk/enhancements.py\<close>, the domain's
  \<^verbatim>\<open>FullTextEnhancement\<close> and \<^verbatim>\<open>Enhancement\<close> of \<^verbatim>\<open>models.py\<close>, and the enhancement row of
  \<^verbatim>\<open>models/sql.py\<close>. One record per content class with the fields of the class, one datatype for the
  discriminated union, the validators as \<open>bool\<close> or \<open>result\<close> functions, and the fingerprints that
  decide whether two enhancements are the same.

  Floats are rationals, dates are year, month and day, JSON is the datatype \<open>json\<close>.
\<close>

section \<open>JSON and dates\<close>

datatype json =
    JNull
  | JBool bool
  | JNum rat
  | JStr string
  | JArr "json list"
  | JObj "(string \<times> json) list"

type_synonym json_dict = "(string \<times> json) list"

text \<open>\<open>bool(x)\<close> on a JSON value.\<close>

fun json_truthy :: "json \<Rightarrow> bool" where
  "json_truthy JNull = False"
| "json_truthy (JBool b) = b"
| "json_truthy (JNum q) = (q \<noteq> 0)"
| "json_truthy (JStr s) = (s \<noteq> [])"
| "json_truthy (JArr xs) = (xs \<noteq> [])"
| "json_truthy (JObj kvs) = (kvs \<noteq> [])"

text \<open>What \<open>json.dumps(..., sort_keys=True)\<close> does to the order of keys, at every depth.\<close>

fun json_sorted :: "json \<Rightarrow> json" where
  "json_sorted (JArr xs) = JArr (map json_sorted xs)"
| "json_sorted (JObj kvs) = JObj (sort_key fst (map (\<lambda>(k, v). (k, json_sorted v)) kvs))"
| "json_sorted j = j"

definition dict_sorted :: "json_dict \<Rightarrow> json_dict" where
  "dict_sorted d = sort_key fst (map (\<lambda>(k, v). (k, json_sorted v)) d)"

record py_date =
  date_year :: int
  date_month :: nat
  date_day :: nat

section \<open>Enumerations\<close>

datatype enhancement_type =
    ET_BIBLIOGRAPHIC | ET_ABSTRACT | ET_ANNOTATION | ET_LOCATION | ET_REFERENCE_ASSOCIATION
  | ET_LINKED_DATA | ET_RAW | ET_FULL_TEXT

datatype visibility = VIS_PUBLIC | VIS_RESTRICTED | VIS_HIDDEN

datatype author_position = AP_FIRST | AP_MIDDLE | AP_LAST

datatype publication_venue_type =
  VT_JOURNAL | VT_REPOSITORY | VT_CONFERENCE | VT_EBOOK_PLATFORM | VT_BOOK_SERIES | VT_OTHER

datatype abstract_process_type = AB_UNINVERTED | AB_CLOSED_API | AB_OTHER

datatype driver_version =
  DV_PUBLISHED_VERSION | DV_ACCEPTED_VERSION | DV_SUBMITTED_VERSION | DV_OTHER

datatype reference_association_type = RA_CITES | RA_IS_CITED_BY | RA_IS_SIMILAR_TO

section \<open>Contents\<close>

record authorship =
  au_display_name :: string
  au_orcid :: "string option"
  au_position :: author_position

record pagination =
  pg_volume :: "string option"
  pg_issue :: "string option"
  pg_first_page :: "string option"
  pg_last_page :: "string option"

definition replace_nbsp :: "string \<Rightarrow> string" where
  "replace_nbsp s = map (\<lambda>c. if (of_char c :: nat) = 160 then CHR '' '' else c) s"

text \<open>No-break spaces become spaces, the ends are stripped, the empty string is no value.\<close>

definition normalize_pagination_string :: "string option \<Rightarrow> string option" where
  "normalize_pagination_string s =
     (case s of
        None \<Rightarrow> None
      | Some t \<Rightarrow> let v = py_strip (replace_nbsp t) in if v \<noteq> [] then Some v else None)"

definition make_pagination ::
    "string option \<Rightarrow> string option \<Rightarrow> string option \<Rightarrow> string option \<Rightarrow> pagination" where
  "make_pagination vol iss fp lp =
     \<lparr> pg_volume = normalize_pagination_string vol, pg_issue = normalize_pagination_string iss,
       pg_first_page = normalize_pagination_string fp, pg_last_page = normalize_pagination_string lp \<rparr>"

record publication_venue =
  pv_display_name :: "string option"
  pv_venue_type :: "publication_venue_type option"
  pv_issn :: "string list option"
  pv_issn_l :: "string option"
  pv_host_organization_name :: "string option"

record bibliographic_metadata =
  bib_authorship :: "authorship list option"
  bib_cited_by_count :: "int option"
  bib_created_date :: "py_date option"
  bib_updated_date :: "py_date option"
  bib_publication_date :: "py_date option"
  bib_publication_year :: "int option"
  bib_publisher :: "string option"
  bib_title :: "string option"
  bib_pagination :: "pagination option"
  bib_publication_venue :: "publication_venue option"

record abstract_content =
  abs_process :: abstract_process_type
  abs_abstract :: string

datatype annotation =
    BooleanAnnotation string string bool "rat option" json_dict
  | ScoreAnnotation string string rat json_dict

fun ann_scheme :: "annotation \<Rightarrow> string" where
  "ann_scheme (BooleanAnnotation s _ _ _ _) = s"
| "ann_scheme (ScoreAnnotation s _ _ _) = s"

fun ann_label :: "annotation \<Rightarrow> string" where
  "ann_label (BooleanAnnotation _ l _ _ _) = l"
| "ann_label (ScoreAnnotation _ l _ _) = l"

fun ann_data :: "annotation \<Rightarrow> json_dict" where
  "ann_data (BooleanAnnotation _ _ _ _ d) = d"
| "ann_data (ScoreAnnotation _ _ _ d) = d"

definition qualified_label :: "annotation \<Rightarrow> string" where
  "qualified_label a = ann_scheme a @ ''/'' @ ann_label a"

text \<open>The scheme pattern \<^verbatim>\<open>^[^/]+$\<close>.\<close>

definition annotation_valid :: "annotation \<Rightarrow> bool" where
  "annotation_valid a = (ann_scheme a \<noteq> [] \<and> CHR ''/'' \<notin> set (ann_scheme a))"

record location =
  loc_is_oa :: "bool option"
  loc_version :: "driver_version option"
  loc_landing_page_url :: "string option"
  loc_pdf_url :: "string option"
  loc_license :: "string option"
  loc_extra :: "json_dict option"

record reference_association =
  ra_associated_reference_ids :: "(uuid + external_identifier) list"
  ra_association_type :: reference_association_type

record linked_data =
  ld_vocabulary_uri :: string
  ld_data :: json_dict

definition validate_context :: "pydantic \<Rightarrow> linked_data \<Rightarrow> bool" where
  "validate_context P ld =
     (case map_of (ld_data ld) ''@context'' of
        Some (JStr context) \<Rightarrow> pyd_http_url P context \<noteq> None
      | _ \<Rightarrow> False)"

record full_text =
  ft_blob :: blob_storage_file
  ft_byte_size :: "int option"
  ft_sha256_checksum :: "string option"
  ft_mime_type :: string
  ft_version :: "driver_version option"
  ft_is_oa :: "bool option"
  ft_license :: "string option"
  ft_source :: "string option"
  ft_source_url :: "string option"
  ft_retrieved_at :: "datetime option"

record raw_enhancement =
  raw_source_export_date :: datetime
  raw_description :: string
  raw_metadata :: json_dict
  raw_data :: json

definition forbid_no_data :: "raw_enhancement \<Rightarrow> bool" where
  "forbid_no_data r = json_truthy (raw_data r)"

datatype enhancement_content =
    BibliographicMetadataEnhancement bibliographic_metadata
  | AbstractContentEnhancement abstract_content
  | AnnotationEnhancement "annotation list"
  | LocationEnhancement "location list"
  | ReferenceAssociationEnhancement reference_association
  | LinkedDataEnhancement linked_data
  | FullTextEnhancement full_text
  | RawEnhancement raw_enhancement

fun content_type :: "enhancement_content \<Rightarrow> enhancement_type" where
  "content_type (BibliographicMetadataEnhancement _) = ET_BIBLIOGRAPHIC"
| "content_type (AbstractContentEnhancement _) = ET_ABSTRACT"
| "content_type (AnnotationEnhancement _) = ET_ANNOTATION"
| "content_type (LocationEnhancement _) = ET_LOCATION"
| "content_type (ReferenceAssociationEnhancement _) = ET_REFERENCE_ASSOCIATION"
| "content_type (LinkedDataEnhancement _) = ET_LINKED_DATA"
| "content_type (FullTextEnhancement _) = ET_FULL_TEXT"
| "content_type (RawEnhancement _) = ET_RAW"

text \<open>The validators of the content classes: minimum lengths, patterns, required data.\<close>

fun content_valid :: "pydantic \<Rightarrow> enhancement_content \<Rightarrow> bool" where
  "content_valid P (AnnotationEnhancement as) = (as \<noteq> [] \<and> list_all annotation_valid as)"
| "content_valid P (LocationEnhancement ls) = (ls \<noteq> [])"
| "content_valid P (ReferenceAssociationEnhancement r) = (ra_associated_reference_ids r \<noteq> [])"
| "content_valid P (LinkedDataEnhancement l) = validate_context P l"
| "content_valid P (RawEnhancement r) = forbid_no_data r"
| "content_valid P (FullTextEnhancement f) = blob_file_valid (ft_blob f)"
| "content_valid P (BibliographicMetadataEnhancement _) = True"
| "content_valid P (AbstractContentEnhancement _) = True"

section \<open>Fingerprints\<close>

text \<open>
  A fingerprint is the JSON dump of a content with sorted keys and without its volatile fields:
  \<^verbatim>\<open>updated_date\<close> of bibliographic metadata, \<^verbatim>\<open>source_export_date\<close> of raw data, the blob and
  \<^verbatim>\<open>retrieved_at\<close> of a full text. It is represented by the values that are dumped.
\<close>

datatype fingerprint =
    FP_Bibliographic bibliographic_metadata
  | FP_Abstract abstract_content
  | FP_Annotation "annotation list"
  | FP_Location "location list"
  | FP_Association reference_association
  | FP_LinkedData linked_data
  | FP_FullText "int option" "string option" string "driver_version option" "bool option"
      "string option" "string option" "string option"
  | FP_Raw string json_dict json

fun annotation_dump :: "annotation \<Rightarrow> annotation" where
  "annotation_dump (BooleanAnnotation s l v sc d) = BooleanAnnotation s l v sc (dict_sorted d)"
| "annotation_dump (ScoreAnnotation s l sc d) = ScoreAnnotation s l sc (dict_sorted d)"

fun content_fingerprint :: "enhancement_content \<Rightarrow> fingerprint" where
  "content_fingerprint (BibliographicMetadataEnhancement b) =
     FP_Bibliographic (b \<lparr> bib_updated_date := None \<rparr>)"
| "content_fingerprint (AbstractContentEnhancement a) = FP_Abstract a"
| "content_fingerprint (AnnotationEnhancement as) = FP_Annotation (map annotation_dump as)"
| "content_fingerprint (LocationEnhancement ls) =
     FP_Location (map (\<lambda>l. l \<lparr> loc_extra := map_option dict_sorted (loc_extra l) \<rparr>) ls)"
| "content_fingerprint (ReferenceAssociationEnhancement r) = FP_Association r"
| "content_fingerprint (LinkedDataEnhancement l) = FP_LinkedData (l \<lparr> ld_data := dict_sorted (ld_data l) \<rparr>)"
| "content_fingerprint (FullTextEnhancement f) =
     FP_FullText (ft_byte_size f) (ft_sha256_checksum f) (ft_mime_type f) (ft_version f)
       (ft_is_oa f) (ft_license f) (ft_source f) (ft_source_url f)"
| "content_fingerprint (RawEnhancement r) =
     FP_Raw (raw_description r) (dict_sorted (raw_metadata r)) (json_sorted (raw_data r))"

section \<open>Enhancement\<close>

record enhancement =
  enh_id :: uuid
  enh_created_at :: "datetime option"
  enh_updated_at :: "datetime option"
  enh_source :: string
  enh_visibility :: visibility
  enh_robot_version :: "string option"
  enh_derived_from :: "uuid list option"
  enh_supersedes :: "uuid option"
  enh_root_id :: "uuid option"
  enh_content :: enhancement_content
  enh_reference_id :: uuid

definition default_root_id_for_root :: "enhancement \<Rightarrow> enhancement" where
  "default_root_id_for_root e =
     (if enh_root_id e = None \<and> enh_supersedes e = None
      then e \<lparr> enh_root_id := Some (enh_id e) \<rparr> else e)"

text \<open>
  What is hashed: the fields of the dump that \<open>hash_data\<close> keeps. Python's \<open>hash\<close> of the dumped
  text is a parameter; equal texts have equal hashes, and different ones may collide.
\<close>

type_synonym hash_input = "string \<times> visibility \<times> string option \<times> uuid list option \<times> fingerprint"

definition enhancement_hash_input :: "enhancement \<Rightarrow> hash_input" where
  "enhancement_hash_input e =
     (enh_source e, enh_visibility e, enh_robot_version e, enh_derived_from e,
      content_fingerprint (enh_content e))"

record hasher =
  hash_enhancement :: "hash_input \<Rightarrow> int"
  hash_identifier :: "external_identifier \<Rightarrow> int"

definition hash_data :: "hasher \<Rightarrow> enhancement \<Rightarrow> int" where
  "hash_data H e = hash_enhancement H (enhancement_hash_input e)"

definition hash_data_identifier :: "hasher \<Rightarrow> linked_external_identifier \<Rightarrow> int" where
  "hash_data_identifier H l = hash_identifier H (lei_identifier l)"

section \<open>The table of enhancements\<close>

text \<open>
  A row is the domain record with a timestamp of the database; the \<open>content\<close> column is the JSON
  dump of the content, read back by the same pydantic models. The check constraints of the table
  are \<open>enhancement_row_checks\<close>, with SQL's three-valued logic: a check fails only when false.
\<close>

definition enhancement_from_domain :: "datetime \<Rightarrow> enhancement \<Rightarrow> enhancement result" where
  "enhancement_from_domain now e =
     (case enh_content e of
        FullTextEnhancement f \<Rightarrow>
          if is_remote (ft_blob f) then Inl UnstoredFullTextError
          else if enh_root_id e = None then Inl SQLValueError
          else Inr (e \<lparr> enh_created_at := Some now, enh_updated_at := Some now \<rparr>)
      | _ \<Rightarrow>
          if enh_root_id e = None then Inl SQLValueError
          else Inr (e \<lparr> enh_created_at := Some now, enh_updated_at := Some now \<rparr>))"

definition enhancement_to_domain :: "enhancement \<Rightarrow> enhancement" where
  "enhancement_to_domain row =
     default_root_id_for_root
       (row \<lparr> enh_root_id := (case enh_root_id row of None \<Rightarrow> Some (enh_id row) | Some r \<Rightarrow> Some r) \<rparr>)"

definition enhancement_row_checks :: "enhancement \<Rightarrow> bool" where
  "enhancement_row_checks e =
     (case enh_root_id e of
        None \<Rightarrow> False
      | Some rt \<Rightarrow>
          ((enh_supersedes e = None) = (rt = enh_id e)) \<and>
          (case enh_supersedes e of None \<Rightarrow> True | Some s \<Rightarrow> s < enh_id e \<or> s = rt))"

text \<open>\<open>is_head\<close>: no other enhancement supersedes this one.\<close>

definition is_head :: "enhancement list \<Rightarrow> enhancement \<Rightarrow> bool" where
  "is_head rows e = (\<not> list_ex (\<lambda>s. enh_supersedes s = Some (enh_id e)) rows)"

end
