(* ===== verification/Status_Machine.thy ===== *)
theory Status_Machine
  imports Prelude
begin

text \<open>
  Status enums with state-machine behaviour: \<^verbatim>\<open>StateMachineMixin\<close> of
  \<^verbatim>\<open>src/app/domain/base.py\<close> and its one client, \<^verbatim>\<open>PendingEnhancementStatus\<close> of
  \<^verbatim>\<open>src/app/domain/references/models/models.py\<close>.

  The mixin is a pair of functions over any transition table. What a table promises (every
  transition goes down in some rank, so a status never comes back) is the locale
  \<open>status_machine\<close>; the table of pending enhancements interprets it, and the bounds on the life
  of a pending enhancement follow.
\<close>

section \<open>StateMachineMixin\<close>

definition can_transition_to :: "('s \<Rightarrow> 's list) \<Rightarrow> 's \<Rightarrow> 's \<Rightarrow> bool" where
  "can_transition_to transitions current new_status = (new_status \<in> set (transitions current))"

definition guard_transition ::
    "('s \<Rightarrow> 's list) \<Rightarrow> ('s \<Rightarrow> string) \<Rightarrow> 's \<Rightarrow> 's \<Rightarrow> uuid \<Rightarrow> unit result" where
  "guard_transition transitions value current new_status entity_id =
     (if \<not> can_transition_to transitions current new_status
      then Inl (StateTransitionError entity_id (value current) (value new_status))
      else Inr ())"

section \<open>PendingEnhancementStatus\<close>

datatype pending_enhancement_status =
    PE_PENDING
  | PE_PROCESSING
  | PE_IMPORTING
  | PE_INDEXING
  | PE_INDEXING_FAILED
  | PE_DISCARDED
  | PE_COMPLETED
  | PE_FAILED
  | PE_EXPIRED

fun pe_status_value :: "pending_enhancement_status \<Rightarrow> string" where
  "pe_status_value PE_PENDING = ''pending''"
| "pe_status_value PE_PROCESSING = ''processing''"
| "pe_status_value PE_IMPORTING = ''importing''"
| "pe_status_value PE_INDEXING = ''indexing''"
| "pe_status_value PE_INDEXING_FAILED = ''indexing_failed''"
| "pe_status_value PE_DISCARDED = ''discarded''"
| "pe_status_value PE_COMPLETED = ''completed''"
| "pe_status_value PE_FAILED = ''failed''"
| "pe_status_value PE_EXPIRED = ''expired''"

fun pe_transitions :: "pending_enhancement_status \<Rightarrow> pending_enhancement_status list" where
  "pe_transitions PE_PENDING = [PE_PROCESSING]"
| "pe_transitions PE_PROCESSING = [PE_IMPORTING, PE_EXPIRED, PE_FAILED]"
| "pe_transitions PE_IMPORTING = [PE_INDEXING, PE_DISCARDED, PE_FAILED]"
| "pe_transitions PE_INDEXING = [PE_COMPLETED, PE_INDEXING_FAILED]"
| "pe_transitions PE_EXPIRED = []"
| "pe_transitions PE_DISCARDED = []"
| "pe_transitions PE_FAILED = []"
| "pe_transitions PE_COMPLETED = []"
| "pe_transitions PE_INDEXING_FAILED = []"

definition pe_guard ::
    "pending_enhancement_status \<Rightarrow> pending_enhancement_status \<Rightarrow> uuid \<Rightarrow> unit result" where
  "pe_guard current new_status entity_id =
     guard_transition pe_transitions pe_status_value current new_status entity_id"

definition pe_terminal :: "pending_enhancement_status \<Rightarrow> bool" where
  "pe_terminal s = (pe_transitions s = [])"

text \<open>The number of transitions that can still follow a status.\<close>

fun pe_rank :: "pending_enhancement_status \<Rightarrow> nat" where
  "pe_rank PE_PENDING = 4"
| "pe_rank PE_PROCESSING = 3"
| "pe_rank PE_IMPORTING = 2"
| "pe_rank PE_INDEXING = 1"
| "pe_rank _ = 0"

section \<open>Lives: sequences of guarded updates\<close>

text \<open>
  \<open>guarded_life t v s ss\<close>: starting from \<open>s\<close>, the statuses \<open>ss\<close> can be written one after the
  other, each update passing the guard.
\<close>

fun guarded_life ::
    "('s \<Rightarrow> 's list) \<Rightarrow> ('s \<Rightarrow> string) \<Rightarrow> 's \<Rightarrow> 's list \<Rightarrow> bool" where
  "guarded_life t v s [] = True"
| "guarded_life t v s (n # ns) = (guard_transition t v s n 0 = Inr () \<and> guarded_life t v n ns)"

lemma guard_transition_Inr_iff [result_simps]:
  "guard_transition t v s n i = Inr u \<longleftrightarrow> n \<in> set (t s)"
  by (simp add: guard_transition_def can_transition_to_def)

lemma guard_transition_Inl_iff [result_simps]:
  "guard_transition t v s n i = Inl e \<longleftrightarrow>
     n \<notin> set (t s) \<and> e = StateTransitionError i (v s) (v n)"
  by (auto simp: guard_transition_def can_transition_to_def)

lemma pe_guard_Inr_iff [result_simps]: "pe_guard s n i = Inr u \<longleftrightarrow> n \<in> set (pe_transitions s)"
  by (simp add: pe_guard_def result_simps)

lemma pe_guard_Inl_iff [result_simps]:
  "pe_guard s n i = Inl e \<longleftrightarrow> n \<notin> set (pe_transitions s) \<and>
     e = StateTransitionError i (pe_status_value s) (pe_status_value n)"
  by (simp add: pe_guard_def result_simps)

lemma guarded_life_append:
  "guarded_life t v s (xs @ ys) \<longleftrightarrow> guarded_life t v s xs \<and> guarded_life t v (last (s # xs)) ys"
  by (induction xs arbitrary: s) auto

text \<open>The contract of a transition table: a rank that every transition lowers.\<close>

locale status_machine =
  fixes transitions :: "'s \<Rightarrow> 's list"
    and status_value :: "'s \<Rightarrow> string"
    and rank :: "'s \<Rightarrow> nat"
  assumes rank_lowers: "n \<in> set (transitions s) \<Longrightarrow> rank n < rank s"
begin

lemma no_self_transition: "\<not> can_transition_to transitions s s"
  using rank_lowers by (auto simp: can_transition_to_def)

lemma life_ranks: "guarded_life transitions status_value s ns \<Longrightarrow> n \<in> set ns \<Longrightarrow> rank n < rank s"
proof (induction ns arbitrary: s)
  case (Cons m ms)
  then have m: "rank m < rank s" and rest: "guarded_life transitions status_value m ms"
    by (auto simp: result_simps rank_lowers)
  show ?case
  proof (cases "n = m")
    case False
    with Cons.prems(2) Cons.IH [OF rest] m show ?thesis by auto
  qed (use m in simp)
qed simp

lemma life_distinct: "guarded_life transitions status_value s ns \<Longrightarrow> distinct (s # ns)"
proof (induction ns arbitrary: s)
  case (Cons m ms)
  then have "distinct (m # ms)" using Cons.IH [of m] by simp
  moreover have "s \<notin> set (m # ms)" using life_ranks [OF Cons.prems] by blast
  ultimately show ?case by simp
qed simp

lemma life_bounded: "guarded_life transitions status_value s ns \<Longrightarrow> length ns \<le> rank s"
proof (induction ns arbitrary: s)
  case (Cons m ms)
  then have "rank m < rank s" and "length ms \<le> rank m"
    by (auto simp: result_simps rank_lowers)
  then show ?case by simp
qed simp

lemma terminal_life: "transitions s = [] \<Longrightarrow> guarded_life transitions status_value s ns \<Longrightarrow> ns = []"
  by (cases ns) (auto simp: result_simps)

end

lemma pe_transitions_lower_rank: "n \<in> set (pe_transitions s) \<Longrightarrow> pe_rank n < pe_rank s"
  by (cases s) auto

interpretation pe_machine: status_machine pe_transitions pe_status_value pe_rank
  by unfold_locales (rule pe_transitions_lower_rank)

lemma pe_terminal_iff:
  "pe_terminal s \<longleftrightarrow> s \<in> {PE_EXPIRED, PE_DISCARDED, PE_FAILED, PE_COMPLETED, PE_INDEXING_FAILED}"
  by (cases s) (auto simp: pe_terminal_def)

end
