(* ===== verification/Reference_Models.thy ===== *)
theory Reference_Models
  imports Enhancements Status_Machine
begin

text \<open>
  The records of \<^verbatim>\<open>src/app/domain/references/models/models.py\<close> that the database keeps:
  references, duplicate decisions, enhancement requests, pending enhancements and robot batches,
  with their validators and properties, and the conversions to and from the rows of
  \<^verbatim>\<open>models/sql.py\<close>.

  A reference holds other references (its canonical, its duplicates). The SQL layer loads these
  self-joins one level deep, so the model is a record with the type of the nested references as a
  parameter: \<open>reference\<close> holds \<open>leaf_reference\<close>s, which hold none.
\<close>

section \<open>Duplicate decisions\<close>

datatype duplicate_determination =
    DD_PENDING | DD_NOMINATED | DD_DUPLICATE | DD_EXACT_DUPLICATE | DD_CANONICAL
  | DD_UNRESOLVED | DD_UNSEARCHABLE | DD_DECOUPLED

fun determination_value :: "duplicate_determination \<Rightarrow> string" where
  "determination_value DD_PENDING = ''pending''"
| "determination_value DD_NOMINATED = ''nominated''"
| "determination_value DD_DUPLICATE = ''duplicate''"
| "determination_value DD_EXACT_DUPLICATE = ''exact_duplicate''"
| "determination_value DD_CANONICAL = ''canonical''"
| "determination_value DD_UNRESOLVED = ''unresolved''"
| "determination_value DD_UNSEARCHABLE = ''unsearchable''"
| "determination_value DD_DECOUPLED = ''decoupled''"

definition get_terminal_states :: "duplicate_determination list" where
  "get_terminal_states = [DD_DUPLICATE, DD_EXACT_DUPLICATE, DD_CANONICAL, DD_UNSEARCHABLE]"

definition terminal_determination :: "duplicate_determination \<Rightarrow> bool" where
  "terminal_determination d = (d \<in> set get_terminal_states)"

datatype decision_authority = DA_UNCLASSIFIED | DA_PERSON | DA_SYSTEM

datatype decision_trigger =
  DT_UNCLASSIFIED | DT_MANUAL_API | DT_IMPORT | DT_ENHANCEMENT | DT_INVOKE_API

record duplicate_decision =
  rdd_id :: uuid
  rdd_reference_id :: uuid
  rdd_decision_authority :: decision_authority
  rdd_decision_trigger :: decision_trigger
  rdd_enhancement_id :: "uuid option"
  rdd_active_decision :: bool
  rdd_candidate_canonical_ids :: "uuid list"
  rdd_duplicate_determination :: duplicate_determination
  rdd_canonical_reference_id :: "uuid option"
  rdd_detail :: "string option"

definition check_provenance_is_classified_together :: "duplicate_decision \<Rightarrow> bool" where
  "check_provenance_is_classified_together d =
     ((rdd_decision_authority d = DA_UNCLASSIFIED) = (rdd_decision_trigger d = DT_UNCLASSIFIED))"

definition check_canonical_iff_duplicate :: "duplicate_decision \<Rightarrow> bool" where
  "check_canonical_iff_duplicate d =
     (rdd_duplicate_determination d = DD_DECOUPLED \<or>
      ((rdd_canonical_reference_id d \<noteq> None) =
       (rdd_duplicate_determination d \<in> {DD_DUPLICATE, DD_EXACT_DUPLICATE})))"

definition check_active_decision_is_terminal :: "duplicate_decision \<Rightarrow> bool" where
  "check_active_decision_is_terminal d =
     (rdd_active_decision d \<longrightarrow> terminal_determination (rdd_duplicate_determination d))"

text \<open>The three model validators together: what holds of every decision that pydantic builds.\<close>

definition decision_valid :: "duplicate_decision \<Rightarrow> bool" where
  "decision_valid d =
     (check_provenance_is_classified_together d \<and> check_canonical_iff_duplicate d \<and>
      check_active_decision_is_terminal d)"

text \<open>The result of a determinator.\<close>

record determination_result =
  ddr_duplicate_determination :: duplicate_determination
  ddr_canonical_reference_id :: "uuid option"
  ddr_detail :: "string option"

definition make_determination_result ::
    "duplicate_determination \<Rightarrow> uuid option \<Rightarrow> string option \<Rightarrow> determination_result result" where
  "make_determination_result dd can det =
     (if dd \<notin> {DD_CANONICAL, DD_DUPLICATE, DD_UNRESOLVED, DD_UNSEARCHABLE} then Inl ValidationError
      else if (can \<noteq> None) \<noteq> (dd = DD_DUPLICATE) then Inl ValidationError
      else Inr \<lparr> ddr_duplicate_determination = dd, ddr_canonical_reference_id = can,
                ddr_detail = det \<rparr>)"

section \<open>References\<close>

record 'r reference_t =
  ref_id :: uuid
  ref_visibility :: visibility
  ref_identifiers :: "linked_external_identifier list option"
  ref_enhancements :: "enhancement list option"
  ref_duplicate_decision :: "duplicate_decision option"
  ref_canonical_reference :: "'r option"
  ref_duplicate_references :: "'r list option"

type_synonym leaf_reference = "unit reference_t"
type_synonym reference = "leaf_reference reference_t"

definition opt_list :: "'a list option \<Rightarrow> 'a list" where
  "opt_list xs = (case xs of None \<Rightarrow> [] | Some ys \<Rightarrow> ys)"

definition is_canonical :: "'r reference_t \<Rightarrow> bool option" where
  "is_canonical r =
     map_option (\<lambda>d. rdd_duplicate_determination d = DD_CANONICAL) (ref_duplicate_decision r)"

definition is_canonical_like :: "'r reference_t \<Rightarrow> bool" where
  "is_canonical_like r =
     (case ref_duplicate_decision r of
        None \<Rightarrow> True | Some d \<Rightarrow> rdd_duplicate_determination d \<noteq> DD_DUPLICATE)"

definition has_duplicates :: "'r reference_t \<Rightarrow> bool option" where
  "has_duplicates r = map_option (\<lambda>ds. ds \<noteq> []) (ref_duplicate_references r)"

text \<open>Whether an optional boolean is truthy.\<close>

definition is_true :: "bool option \<Rightarrow> bool" where
  "is_true b = (b = Some True)"

definition supersets :: "int list \<Rightarrow> int list \<Rightarrow> bool" where
  "supersets sup_hashes sub_hashes = list_all (\<lambda>h. h \<in> set sup_hashes) sub_hashes"

definition is_superset :: "hasher \<Rightarrow> 'r reference_t \<Rightarrow> 's reference_t \<Rightarrow> bool" where
  "is_superset H self reference =
     (ref_visibility reference = ref_visibility self \<and>
      supersets (map (hash_data H) (opt_list (ref_enhancements self)))
        (map (hash_data H) (opt_list (ref_enhancements reference))) \<and>
      supersets (map (hash_data_identifier H) (opt_list (ref_identifiers self)))
        (map (hash_data_identifier H) (opt_list (ref_identifiers reference))))"

section \<open>Enhancement requests, pending enhancements and batches\<close>

datatype enhancement_request_status =
    ER_RECEIVED | ER_ACCEPTED | ER_PROCESSING | ER_REJECTED | ER_PARTIAL_FAILED | ER_FAILED
  | ER_IMPORTING | ER_INDEXING | ER_INDEXING_FAILED | ER_COMPLETED

datatype request_search_status = SS_PENDING | SS_SEARCHING | SS_COMPLETED | SS_FAILED

record pending_enhancement =
  pe_id :: uuid
  pe_created_at :: datetime
  pe_reference_id :: uuid
  pe_robot_id :: uuid
  pe_enhancement_request_id :: "uuid option"
  pe_robot_enhancement_batch_id :: "uuid option"
  pe_status :: pending_enhancement_status
  pe_source :: "string option"
  pe_expires_at :: datetime
  pe_retry_of :: "uuid option"

text \<open>A UUID is truthy whatever its value; a source has to be non-empty.\<close>

definition pending_enhancement_valid :: "pending_enhancement \<Rightarrow> bool" where
  "pending_enhancement_valid p =
     (pe_enhancement_request_id p \<noteq> None \<or> truthy_opt_str (pe_source p))"

text \<open>\<open>apply_positive_timedelta\<close>.\<close>

definition apply_positive_timedelta :: "int \<Rightarrow> datetime \<Rightarrow> datetime result" where
  "apply_positive_timedelta delta base = (if delta \<le> 0 then Inl PyValueError else Inr (base + delta))"

record robot_enhancement_batch =
  reb_id :: uuid
  reb_robot_id :: uuid
  reb_reference_data_file :: "blob_storage_file option"
  reb_result_file :: "blob_storage_file option"
  reb_validation_result_file :: "blob_storage_file option"
  reb_error :: "string option"
  reb_pending_enhancements :: "pending_enhancement list option"

text \<open>The columns of a batch: files as URIs. Pending enhancements live in their own table.\<close>

record robot_enhancement_batch_row =
  rebr_id :: uuid
  rebr_robot_id :: uuid
  rebr_reference_data_file :: "string option"
  rebr_result_file :: "string option"
  rebr_validation_result_file :: "string option"
  rebr_error :: "string option"

definition batch_from_domain :: "robot_enhancement_batch \<Rightarrow> robot_enhancement_batch_row" where
  "batch_from_domain b =
     \<lparr> rebr_id = reb_id b, rebr_robot_id = reb_robot_id b,
       rebr_reference_data_file = map_option to_uri (reb_reference_data_file b),
       rebr_result_file = map_option to_uri (reb_result_file b),
       rebr_validation_result_file = map_option to_uri (reb_validation_result_file b),
       rebr_error = reb_error b \<rparr>"

text \<open>A URI column is coerced by \<open>BlobStorageFile\<close>'s own validator.\<close>

definition file_of_column :: "string option \<Rightarrow> blob_storage_file option result" where
  "file_of_column c =
     (case c of None \<Rightarrow> Inr None | Some uri \<Rightarrow> res_bind (from_uri uri) (\<lambda>f. Inr (Some f)))"

definition batch_to_domain ::
    "pending_enhancement list \<Rightarrow> bool \<Rightarrow> robot_enhancement_batch_row \<Rightarrow>
     robot_enhancement_batch result" where
  "batch_to_domain pes preload r =
     res_bind (file_of_column (rebr_reference_data_file r)) (\<lambda>f1.
     res_bind (file_of_column (rebr_result_file r)) (\<lambda>f2.
     res_bind (file_of_column (rebr_validation_result_file r)) (\<lambda>f3.
       Inr \<lparr> reb_id = rebr_id r, reb_robot_id = rebr_robot_id r,
            reb_reference_data_file = f1, reb_result_file = f2, reb_validation_result_file = f3,
            reb_error = rebr_error r,
            reb_pending_enhancements =
              Some (if preload
                    then filter (\<lambda>p. pe_robot_enhancement_batch_id p = Some (rebr_id r)) pes
                    else []) \<rparr>)))"

section \<open>Lemmas\<close>

lemma terminal_determination_iff:
  "terminal_determination d \<longleftrightarrow>
     d = DD_DUPLICATE \<or> d = DD_EXACT_DUPLICATE \<or> d = DD_CANONICAL \<or> d = DD_UNSEARCHABLE"
  by (cases d) (simp_all add: terminal_determination_def get_terminal_states_def)

lemma supersets_refl [simp]: "supersets xs xs"
  by (simp add: supersets_def list_all_iff)

lemma supersets_trans: "supersets xs ys \<Longrightarrow> supersets ys zs \<Longrightarrow> supersets xs zs"
  by (auto simp: supersets_def list_all_iff)

lemma supersets_iff: "supersets xs ys \<longleftrightarrow> set ys \<subseteq> set xs"
  by (auto simp: supersets_def list_all_iff)

lemma is_superset_refl: "is_superset H r r"
  by (simp add: is_superset_def)

lemma is_superset_trans: "is_superset H a b \<Longrightarrow> is_superset H b c \<Longrightarrow> is_superset H a c"
  by (auto simp: is_superset_def intro: supersets_trans)

lemma file_column_roundtrip:
  "pred_option blob_file_valid x \<Longrightarrow> file_of_column (map_option to_uri x) = Inr x"
  by (cases x) (simp_all add: file_of_column_def from_uri_to_uri)

end
