(* ===== verification/Sql_Repository.thy ===== *)
theory Sql_Repository
  imports Prelude
begin

text \<open>
  The generic SQL repository of \<^verbatim>\<open>src/app/persistence/sql/repository.py\<close>, over any table.

  A table is a list of rows; its order stands for the unspecified order in which a query without
  \<^verbatim>\<open>ORDER BY\<close> returns them. A repository is given by the primary key of a row, the constraints the
  database enforces when a statement is flushed (indices, foreign keys, checks), and the
  validation that \<^verbatim>\<open>to_domain\<close> runs when a row is read back. Operations return the new table or
  the exception they raise, after which the unit of work rolls the transaction back.

  The locale \<open>keyed_table\<close> states what a client relies on: lookups after a merge. Every table of
  the program interprets it.
\<close>

section \<open>Reading\<close>

definition repo_get_by_pk :: "('a \<Rightarrow> uuid) \<Rightarrow> 'a list \<Rightarrow> uuid \<Rightarrow> 'a result" where
  "repo_get_by_pk pk_of tbl pk =
     (case find (\<lambda>r. pk_of r = pk) tbl of None \<Rightarrow> Inl SQLNotFoundError | Some r \<Rightarrow> Inr r)"

text \<open>Each row once, in table order; with \<open>fail_on_missing\<close> every key has to be there.\<close>

definition repo_get_by_pks ::
    "('a \<Rightarrow> uuid) \<Rightarrow> 'a list \<Rightarrow> uuid list \<Rightarrow> bool \<Rightarrow> 'a list result" where
  "repo_get_by_pks pk_of tbl pks fail_on_missing =
     (let rows = filter (\<lambda>r. pk_of r \<in> set pks) tbl
      in if fail_on_missing \<and> \<not> set pks \<subseteq> set (map pk_of rows) then Inl SQLNotFoundError
         else Inr rows)"

definition repo_verify_pk_existence :: "('a \<Rightarrow> uuid) \<Rightarrow> 'a list \<Rightarrow> uuid list \<Rightarrow> unit result" where
  "repo_verify_pk_existence pk_of tbl pks =
     (if set pks \<subseteq> set (map pk_of tbl) then Inr () else Inl SQLNotFoundError)"

definition repo_get_some :: "'a list \<Rightarrow> nat \<Rightarrow> 'a list" where
  "repo_get_some tbl limit = take limit tbl"

text \<open>\<open>find\<close>: conjunction of the filters, optional order, optional limit.\<close>

definition repo_find ::
    "('a \<Rightarrow> 'k::linorder) option \<Rightarrow> nat option \<Rightarrow> ('a \<Rightarrow> bool) list \<Rightarrow> 'a list \<Rightarrow> 'a list" where
  "repo_find order_by limit filters tbl =
     (let rows = filter (\<lambda>r. list_all (\<lambda>f. f r) filters) tbl;
          ordered = (case order_by of None \<Rightarrow> rows | Some k \<Rightarrow> sort_key k rows)
      in case limit of None \<Rightarrow> ordered | Some n \<Rightarrow> take n ordered)"

definition repo_count :: "'a list \<Rightarrow> nat" where
  "repo_count tbl = length tbl"

definition repo_get_all_pks ::
    "('a \<Rightarrow> uuid) \<Rightarrow> 'a list \<Rightarrow> uuid option \<Rightarrow> uuid option \<Rightarrow> uuid list" where
  "repo_get_all_pks pk_of tbl min_id max_id =
     filter (\<lambda>i. (case min_id of None \<Rightarrow> True | Some m \<Rightarrow> m \<le> i) \<and>
                 (case max_id of None \<Rightarrow> True | Some m \<Rightarrow> i \<le> m)) (map pk_of tbl)"

text \<open>
  \<open>ntile(n)\<close> over rows in key order: \<open>n\<close> consecutive tiles whose sizes differ by at most one, the
  larger ones first.
\<close>

fun ntile_split :: "nat \<Rightarrow> 'a list \<Rightarrow> 'a list list" where
  "ntile_split 0 xs = []"
| "ntile_split (Suc n) xs =
     (let size = (length xs + n) div Suc n in take size xs # ntile_split n (drop size xs))"

definition ceil_div :: "nat \<Rightarrow> nat \<Rightarrow> nat" where
  "ceil_div a b = (a + b - 1) div b"

definition repo_get_partition_boundaries ::
    "('a \<Rightarrow> uuid) \<Rightarrow> 'a list \<Rightarrow> nat \<Rightarrow> (uuid \<times> uuid) list" where
  "repo_get_partition_boundaries pk_of tbl partition_size =
     (let total = repo_count tbl
      in if total = 0 then []
         else map (\<lambda>tile. (hd tile, last tile))
                (filter (\<lambda>tile. tile \<noteq> [])
                  (ntile_split (ceil_div total partition_size) (sort (map pk_of tbl)))))"

section \<open>Writing\<close>

definition replace_row :: "('a \<Rightarrow> uuid) \<Rightarrow> 'a \<Rightarrow> 'a list \<Rightarrow> 'a list" where
  "replace_row pk_of r tbl = map (\<lambda>x. if pk_of x = pk_of r then r else x) tbl"

text \<open>The row as the table holds it after an upsert by primary key.\<close>

definition upsert_row :: "('a \<Rightarrow> uuid) \<Rightarrow> 'a \<Rightarrow> 'a list \<Rightarrow> 'a list" where
  "upsert_row pk_of r tbl =
     (if pk_of r \<in> pk_of ` set tbl then replace_row pk_of r tbl else tbl @ [r])"

text \<open>The end of every write: flush under the constraints, then read the row back.\<close>

definition flush_and_read ::
    "('a list \<Rightarrow> bool) \<Rightarrow> ('a \<Rightarrow> bool) \<Rightarrow> 'a \<Rightarrow> 'a list \<Rightarrow> ('a \<times> 'a list) result" where
  "flush_and_read constraints valid r tbl =
     (if \<not> constraints tbl then Inl SQLIntegrityError
      else if \<not> valid r then Inl ValidationError
      else Inr (r, tbl))"

definition repo_merge ::
    "('a \<Rightarrow> uuid) \<Rightarrow> ('a list \<Rightarrow> bool) \<Rightarrow> ('a \<Rightarrow> bool) \<Rightarrow> 'a \<Rightarrow> 'a list \<Rightarrow> ('a \<times> 'a list) result" where
  "repo_merge pk_of constraints valid r tbl =
     flush_and_read constraints valid r (upsert_row pk_of r tbl)"

text \<open>A new persistence object with a key that is taken violates the primary key.\<close>

definition repo_add ::
    "('a \<Rightarrow> uuid) \<Rightarrow> ('a list \<Rightarrow> bool) \<Rightarrow> ('a \<Rightarrow> bool) \<Rightarrow> 'a \<Rightarrow> 'a list \<Rightarrow> ('a \<times> 'a list) result" where
  "repo_add pk_of constraints valid r tbl =
     (if pk_of r \<in> pk_of ` set tbl then Inl SQLIntegrityError
      else flush_and_read constraints valid r (tbl @ [r]))"

definition repo_add_bulk ::
    "('a \<Rightarrow> uuid) \<Rightarrow> ('a list \<Rightarrow> bool) \<Rightarrow> ('a \<Rightarrow> bool) \<Rightarrow> 'a list \<Rightarrow> 'a list \<Rightarrow> ('a list \<times> 'a list) result" where
  "repo_add_bulk pk_of constraints valid rs tbl =
     (if \<not> distinct (map pk_of rs) \<or> pk_of ` set rs \<inter> pk_of ` set tbl \<noteq> {} then Inl SQLIntegrityError
      else if \<not> constraints (tbl @ rs) then Inl SQLIntegrityError
      else if \<not> list_all valid rs then Inl ValidationError
      else Inr (rs, tbl @ rs))"

definition repo_update_by_pk ::
    "('a \<Rightarrow> uuid) \<Rightarrow> ('a list \<Rightarrow> bool) \<Rightarrow> ('a \<Rightarrow> bool) \<Rightarrow> ('a \<Rightarrow> 'a) \<Rightarrow> uuid \<Rightarrow> 'a list \<Rightarrow>
     ('a \<times> 'a list) result" where
  "repo_update_by_pk pk_of constraints valid update pk tbl =
     (case find (\<lambda>r. pk_of r = pk) tbl of
        None \<Rightarrow> Inl SQLNotFoundError
      | Some r \<Rightarrow> flush_and_read constraints valid (update r) (replace_row pk_of (update r) tbl))"

definition repo_delete_by_pk :: "('a \<Rightarrow> uuid) \<Rightarrow> uuid \<Rightarrow> 'a list \<Rightarrow> 'a list result" where
  "repo_delete_by_pk pk_of pk tbl =
     (if pk \<in> pk_of ` set tbl then Inr (filter (\<lambda>r. pk_of r \<noteq> pk) tbl) else Inl SQLNotFoundError)"

text \<open>
  One \<^verbatim>\<open>UPDATE\<close> statement over the rows that satisfy a predicate: the number of rows and the
  table. An empty list of keys returns before the statement.
\<close>

definition update_where ::
    "('a list \<Rightarrow> bool) \<Rightarrow> ('a \<Rightarrow> bool) \<Rightarrow> ('a \<Rightarrow> 'a) \<Rightarrow> 'a list \<Rightarrow> (nat \<times> 'a list) result" where
  "update_where constraints pred update tbl =
     (let tbl' = map (\<lambda>r. if pred r then update r else r) tbl
      in if constraints tbl' then Inr (length (filter pred tbl), tbl') else Inl SQLIntegrityError)"

definition repo_bulk_update ::
    "('a \<Rightarrow> uuid) \<Rightarrow> ('a list \<Rightarrow> bool) \<Rightarrow> ('a \<Rightarrow> 'a) \<Rightarrow> uuid list \<Rightarrow> 'a list \<Rightarrow> (nat \<times> 'a list) result" where
  "repo_bulk_update pk_of constraints update pks tbl =
     (if pks = [] then Inr (0, tbl)
      else update_where constraints (\<lambda>r. pk_of r \<in> set pks) update tbl)"

definition repo_bulk_update_by_filter ::
    "('a list \<Rightarrow> bool) \<Rightarrow> ('a \<Rightarrow> bool) list \<Rightarrow> ('a \<Rightarrow> 'a) \<Rightarrow> 'a list \<Rightarrow> (nat \<times> 'a list) result" where
  "repo_bulk_update_by_filter constraints filters update tbl =
     (if filters = [] then Inr (0, tbl)
      else update_where constraints (\<lambda>r. list_all (\<lambda>f. f r) filters) update tbl)"

section \<open>Lemmas\<close>

lemma repo_get_by_pk_Inr_iff [result_simps]:
  "repo_get_by_pk pk_of tbl pk = Inr r \<longleftrightarrow> find (\<lambda>x. pk_of x = pk) tbl = Some r"
  by (simp add: repo_get_by_pk_def split: option.splits)

lemma repo_get_by_pk_Inl_iff [result_simps]:
  "repo_get_by_pk pk_of tbl pk = Inl e \<longleftrightarrow> pk \<notin> pk_of ` set tbl \<and> e = SQLNotFoundError"
  by (auto simp: repo_get_by_pk_def find_None_iff image_iff split: option.splits
      dest: find_Some_set)

lemma flush_and_read_Inr_iff [result_simps]:
  "flush_and_read constraints valid r tbl = Inr p \<longleftrightarrow> constraints tbl \<and> valid r \<and> p = (r, tbl)"
  by (auto simp: flush_and_read_def)

lemma map_pk_replace_row [simp]: "map pk_of (replace_row pk_of r tbl) = map pk_of tbl"
  by (induction tbl) (auto simp: replace_row_def)

lemma replace_row_twice:
  "pk_of a = pk_of b \<Longrightarrow> replace_row pk_of b (replace_row pk_of a tbl) = replace_row pk_of b tbl"
  by (induction tbl) (auto simp: replace_row_def)

lemma distinct_upsert: "distinct (map pk_of tbl) \<Longrightarrow> distinct (map pk_of (upsert_row pk_of r tbl))"
  by (auto simp: upsert_row_def)

lemma set_replace_row:
  "set (replace_row pk_of r tbl) =
     {x \<in> set tbl. pk_of x \<noteq> pk_of r} \<union> (if pk_of r \<in> pk_of ` set tbl then {r} else {})"
  by (induction tbl) (auto simp: replace_row_def)

lemma set_upsert_row: "set (upsert_row pk_of r tbl) = insert r {x \<in> set tbl. pk_of x \<noteq> pk_of r}"
  by (auto simp: upsert_row_def set_replace_row image_iff)

lemma find_replace_row:
  "find (\<lambda>x. pk_of x = k) (replace_row pk_of r tbl) =
     (if k = pk_of r \<and> k \<in> pk_of ` set tbl then Some r else find (\<lambda>x. pk_of x = k) tbl)"
  by (induction tbl) (auto simp: replace_row_def)

lemma find_upsert_row:
  "find (\<lambda>x. pk_of x = k) (upsert_row pk_of r tbl) =
     (if k = pk_of r then Some r else find (\<lambda>x. pk_of x = k) tbl)"
proof (cases "pk_of r \<in> pk_of ` set tbl")
  case False
  then have "find (\<lambda>x. pk_of x = pk_of r) tbl = None" 
    by (auto simp: find_None_set image_iff)
  with False show ?thesis
    by (auto simp: upsert_row_def find_append_cases split: option.splits)
qed (auto simp: upsert_row_def find_replace_row)

lemma find_unique:
  "distinct (map pk_of tbl) \<Longrightarrow> r \<in> set tbl \<Longrightarrow> find (\<lambda>x. pk_of x = pk_of r) tbl = Some r"
  by (induction tbl) auto

text \<open>What a client of a table relies on, whatever the rows are.\<close>

locale keyed_table =
  fixes lookup :: "'t \<Rightarrow> uuid \<Rightarrow> 'a option"
    and upsert :: "'a \<Rightarrow> 't \<Rightarrow> 't"
    and key :: "'a \<Rightarrow> uuid"
    and ok :: "'t \<Rightarrow> bool"
  assumes lookup_upsert: "ok t \<Longrightarrow> lookup (upsert r t) k = (if k = key r then Some r else lookup t k)"
    and ok_upsert: "ok t \<Longrightarrow> ok (upsert r t)"
    and lookup_key: "ok t \<Longrightarrow> lookup t k = Some r \<Longrightarrow> key r = k"
begin

lemma lookup_after_two:
  assumes "ok t" and "key a \<noteq> key b"
  shows "lookup (upsert b (upsert a t)) (key a) = Some a"
    and "lookup (upsert b (upsert a t)) (key b) = Some b"
    and "k \<noteq> key a \<Longrightarrow> k \<noteq> key b \<Longrightarrow> lookup (upsert b (upsert a t)) k = lookup t k"
  using assms by (simp_all add: lookup_upsert ok_upsert)

lemma upsert_commute:
  assumes "ok t" and "key a \<noteq> key b"
  shows "lookup (upsert b (upsert a t)) = lookup (upsert a (upsert b t))"
  using assms by (auto simp: lookup_upsert ok_upsert)

lemma upsert_last_wins:
  assumes "ok t" and "key a = key b"
  shows "lookup (upsert b (upsert a t)) = lookup (upsert b t)"
  using assms by (auto simp: lookup_upsert ok_upsert)

end

lemma keyed_table_list:
  "keyed_table (\<lambda>tbl k. find (\<lambda>x. pk_of x = k) tbl) (upsert_row pk_of) pk_of
     (\<lambda>tbl. distinct (map pk_of tbl))"
  by unfold_locales (auto simp: find_upsert_row distinct_upsert find_Some_iff)

section \<open>Partitions of a table\<close>

lemma concat_ntile_split: "0 < n \<Longrightarrow> concat (ntile_split n xs) = xs"
proof (induction n arbitrary: xs)
  case (Suc n)
  show ?case
  proof (cases "n = 0")
    case False
    then show ?thesis using Suc.IH [of "drop ((length xs + n) div Suc n) xs"] by (simp add: Let_def)
  qed simp
qed simp

lemma length_ntile_split [simp]: "length (ntile_split n xs) = n"
  by (induction n arbitrary: xs) (simp_all add: Let_def)

lemma ceil_div_pos: "0 < a \<Longrightarrow> 0 < b \<Longrightarrow> 0 < ceil_div a b"
  by (simp add: ceil_div_def div_greater_zero_iff)

text \<open>Consecutive non-empty tiles of a sorted list: every element is between the ends of its tile.\<close>

lemma sorted_between_hd_last: "sorted t \<Longrightarrow> x \<in> set t \<Longrightarrow> hd t \<le> x \<and> x \<le> last t"
  by (induction t) (auto split: if_splits)

lemma sorted_concat_tile: "sorted (concat ts) \<Longrightarrow> t \<in> set ts \<Longrightarrow> sorted t"
  by (induction ts) (auto simp: sorted_append)

lemma partition_boundaries_cover:
  assumes "0 < partition_size" and "r \<in> set tbl"
  shows "\<exists>(lo, hi) \<in> set (repo_get_partition_boundaries pk_of tbl partition_size).
           lo \<le> pk_of r \<and> pk_of r \<le> hi"
proof -
  let ?ts = "ntile_split (ceil_div (length tbl) partition_size) (sort (map pk_of tbl))"
  have ne: "0 < length tbl" using assms(2) by (cases tbl) auto
  have c: "concat ?ts = sort (map pk_of tbl)"
    using concat_ntile_split ceil_div_pos [OF ne assms(1)] by blast
  have "pk_of r \<in> set (concat ?ts)" using assms(2) by (simp add: c)
  then obtain t where t: "t \<in> set ?ts" "pk_of r \<in> set t" by auto
  have "sorted t" using sorted_concat_tile [of ?ts t] t(1) c by simp
  then have "hd t \<le> pk_of r \<and> pk_of r \<le> last t" using sorted_between_hd_last t(2) by blast
  moreover have "(hd t, last t) \<in> set (repo_get_partition_boundaries pk_of tbl partition_size)"
    using t ne by (auto simp: repo_get_partition_boundaries_def repo_count_def Let_def)
  ultimately show ?thesis by blast
qed

end
