(* ===== verification/Reference_Store.thy ===== *)
theory Reference_Store
  imports Reference_Models Sql_Repository
begin

text \<open>
  The tables of the reference domain and the queries of \<^verbatim>\<open>ReferenceSQLRepository\<close> and
  \<^verbatim>\<open>ReferenceDuplicateDecisionSQLRepository\<close> (\<^verbatim>\<open>src/app/domain/references/repository.py\<close>), with
  the relationships of \<^verbatim>\<open>models/sql.py\<close>: the active decision of a reference, its canonical and
  its duplicates are joins on the table of decisions.
\<close>

section \<open>Tables\<close>

record reference_row =
  refr_id :: uuid
  refr_visibility :: visibility

record db =
  db_references :: "reference_row list"
  db_identifiers :: "linked_external_identifier list"
  db_enhancements :: "enhancement list"
  db_decisions :: "duplicate_decision list"

datatype preload =
  PL_identifiers | PL_enhancements | PL_duplicate_references | PL_canonical_reference
| PL_duplicate_decision

section \<open>Decisions: constraints and row conversion\<close>

text \<open>
  The partial unique index \<^verbatim>\<open>uix_reference_one_active_decision_constraint\<close>: at most one row with
  \<open>active_decision\<close> for each reference.
\<close>

definition one_active_decision :: "duplicate_decision list \<Rightarrow> bool" where
  "one_active_decision ds = distinct (map rdd_reference_id (filter rdd_active_decision ds))"

text \<open>The foreign keys of the table; \<open>reference_id\<close> is deliberately not one.\<close>

definition decision_foreign_keys :: "db \<Rightarrow> duplicate_decision \<Rightarrow> bool" where
  "decision_foreign_keys db d =
     ((case rdd_canonical_reference_id d of
         None \<Rightarrow> True | Some c \<Rightarrow> c \<in> set (map refr_id (db_references db))) \<and>
      (case rdd_enhancement_id d of
         None \<Rightarrow> True | Some e \<Rightarrow> e \<in> set (map enh_id (db_enhancements db))))"

definition decision_constraints :: "db \<Rightarrow> duplicate_decision list \<Rightarrow> bool" where
  "decision_constraints db ds =
     (distinct (map rdd_id ds) \<and> one_active_decision ds \<and> list_all (decision_foreign_keys db) ds)"

text \<open>\<open>to_domain\<close> builds a pydantic model, which runs the validators.\<close>

definition decision_to_domain :: "duplicate_decision \<Rightarrow> duplicate_decision result" where
  "decision_to_domain row = (if decision_valid row then Inr row else Inl ValidationError)"

definition decisions_merge :: "duplicate_decision \<Rightarrow> db \<Rightarrow> (duplicate_decision \<times> db) result" where
  "decisions_merge d db =
     res_bind (repo_merge rdd_id (decision_constraints db) decision_valid d (db_decisions db))
       (\<lambda>(d', ds). Inr (d', db \<lparr> db_decisions := ds \<rparr>))"

definition decisions_add :: "duplicate_decision \<Rightarrow> db \<Rightarrow> (duplicate_decision \<times> db) result" where
  "decisions_add d db =
     res_bind (repo_add rdd_id (decision_constraints db) decision_valid d (db_decisions db))
       (\<lambda>(d', ds). Inr (d', db \<lparr> db_decisions := ds \<rparr>))"

definition decisions_update_by_pk ::
    "(duplicate_decision \<Rightarrow> duplicate_decision) \<Rightarrow> uuid \<Rightarrow> db \<Rightarrow> (duplicate_decision \<times> db) result" where
  "decisions_update_by_pk update pk db =
     res_bind (repo_update_by_pk rdd_id (decision_constraints db) decision_valid update pk
                 (db_decisions db))
       (\<lambda>(d', ds). Inr (d', db \<lparr> db_decisions := ds \<rparr>))"

definition decisions_get_by_pk :: "db \<Rightarrow> uuid \<Rightarrow> duplicate_decision result" where
  "decisions_get_by_pk db pk = res_bind (repo_get_by_pk rdd_id (db_decisions db) pk) decision_to_domain"

text \<open>\<open>get_active_decision_determinations\<close>: one entry per reference with an active decision.\<close>

definition get_active_decision_determinations ::
    "db \<Rightarrow> uuid list \<Rightarrow> (uuid \<times> duplicate_determination) list" where
  "get_active_decision_determinations db reference_ids =
     (if reference_ids = [] then []
      else dict_comp rdd_reference_id rdd_duplicate_determination
             (filter (\<lambda>d. rdd_reference_id d \<in> set reference_ids \<and> rdd_active_decision d)
                (db_decisions db)))"

section \<open>References\<close>

text \<open>The relationship \<open>duplicate_decision\<close>: the active row of the reference.\<close>

definition active_decision_of :: "db \<Rightarrow> uuid \<Rightarrow> duplicate_decision option" where
  "active_decision_of db rid =
     find (\<lambda>d. rdd_active_decision d \<and> rdd_reference_id d = rid) (db_decisions db)"

text \<open>The relationship \<open>canonical_reference\<close>, through the active decision.\<close>

definition canonical_row_of :: "db \<Rightarrow> uuid \<Rightarrow> reference_row option" where
  "canonical_row_of db rid =
     (case active_decision_of db rid of
        None \<Rightarrow> None
      | Some d \<Rightarrow> (case rdd_canonical_reference_id d of
                    None \<Rightarrow> None
                  | Some c \<Rightarrow> find (\<lambda>r. refr_id r = c) (db_references db)))"

text \<open>The relationship \<open>duplicate_references\<close>: rows whose active decision points here.\<close>

definition duplicate_rows_of :: "db \<Rightarrow> uuid \<Rightarrow> reference_row list" where
  "duplicate_rows_of db rid =
     filter (\<lambda>r. list_ex (\<lambda>d. rdd_active_decision d \<and> rdd_reference_id d = refr_id r \<and>
                               rdd_canonical_reference_id d = Some rid) (db_decisions db))
       (db_references db)"

definition res_option :: "('a \<Rightarrow> 'b result) \<Rightarrow> 'a option \<Rightarrow> 'b option result" where
  "res_option f x = (case x of None \<Rightarrow> Inr None | Some y \<Rightarrow> res_bind (f y) (\<lambda>z. Inr (Some z)))"

text \<open>\<open>Reference.to_domain\<close> without the self-joins, which its caller fills in.\<close>

definition reference_base ::
    "db \<Rightarrow> preload list \<Rightarrow> 'r option \<Rightarrow> 'r list option \<Rightarrow> reference_row \<Rightarrow> 'r reference_t result" where
  "reference_base db preload canonical duplicates row =
     res_bind
       (if PL_duplicate_decision \<in> set preload
        then res_option decision_to_domain (active_decision_of db (refr_id row))
        else Inr None)
       (\<lambda>decision. Inr
          \<lparr> ref_id = refr_id row,
            ref_visibility = refr_visibility row,
            ref_identifiers =
              (if PL_identifiers \<in> set preload
               then Some (filter (\<lambda>i. lei_reference_id i = refr_id row) (db_identifiers db))
               else None),
            ref_enhancements =
              (if PL_enhancements \<in> set preload
               then Some (map enhancement_to_domain
                      (filter (\<lambda>e. enh_reference_id e = refr_id row) (db_enhancements db)))
               else None),
            ref_duplicate_decision = decision,
            ref_canonical_reference = canonical,
            ref_duplicate_references = duplicates \<rparr>)"

definition leaf_to_domain :: "db \<Rightarrow> preload list \<Rightarrow> reference_row \<Rightarrow> leaf_reference result" where
  "leaf_to_domain db preload row = reference_base db preload None None row"

definition reference_to_domain :: "db \<Rightarrow> preload list \<Rightarrow> reference_row \<Rightarrow> reference result" where
  "reference_to_domain db preload row =
     res_bind
       (if PL_canonical_reference \<in> set preload
        then res_option (leaf_to_domain db (removeAll PL_duplicate_references preload))
               (canonical_row_of db (refr_id row))
        else Inr None)
       (\<lambda>canonical.
     res_bind
       (if PL_duplicate_references \<in> set preload
        then res_bind (res_mapM (leaf_to_domain db (removeAll PL_canonical_reference preload))
                         (duplicate_rows_of db (refr_id row))) (\<lambda>ds. Inr (Some ds))
        else Inr None)
       (\<lambda>duplicates. reference_base db preload canonical duplicates row))"

definition references_get_by_pk :: "db \<Rightarrow> uuid \<Rightarrow> preload list \<Rightarrow> reference result" where
  "references_get_by_pk db pk preload =
     res_bind (repo_get_by_pk refr_id (db_references db) pk) (reference_to_domain db preload)"

definition references_get_by_pks ::
    "db \<Rightarrow> uuid list \<Rightarrow> preload list \<Rightarrow> bool \<Rightarrow> reference list result" where
  "references_get_by_pks db pks preload fail_on_missing =
     res_bind (repo_get_by_pks refr_id (db_references db) pks fail_on_missing)
       (res_mapM (reference_to_domain db preload))"

text \<open>\<open>get_hydrated\<close>: optional restriction by enhancement and identifier type.\<close>

definition get_hydrated ::
    "db \<Rightarrow> uuid list \<Rightarrow> enhancement_type list option \<Rightarrow> external_identifier_type list option \<Rightarrow>
     reference list result" where
  "get_hydrated db reference_ids enhancement_types external_identifier_types =
     (let db' = db
        \<lparr> db_enhancements := (case enhancement_types of
             Some (t # ts) \<Rightarrow> filter (\<lambda>e. content_type (enh_content e) \<in> set (t # ts)) (db_enhancements db)
           | _ \<Rightarrow> db_enhancements db),
          db_identifiers := (case external_identifier_types of
             Some (t # ts) \<Rightarrow> filter (\<lambda>i. identifier_type (lei_identifier i) \<in> set (t # ts)) (db_identifiers db)
           | _ \<Rightarrow> db_identifiers db) \<rparr>
      in res_mapM (reference_to_domain db' [PL_enhancements, PL_identifiers])
           (filter (\<lambda>r. refr_id r \<in> set reference_ids) (db_references db)))"

definition identifier_matches_row ::
    "generic_external_identifier \<Rightarrow> linked_external_identifier \<Rightarrow> bool" where
  "identifier_matches_row g l =
     (gei_identifier_type g = Some (identifier_type (lei_identifier l)) \<and>
      gei_identifier g = identifier_str (lei_identifier l) \<and>
      gei_other_identifier_name g = other_identifier_name (lei_identifier l))"

definition has_identifier :: "db \<Rightarrow> generic_external_identifier \<Rightarrow> uuid \<Rightarrow> bool" where
  "has_identifier db g rid =
     list_ex (\<lambda>l. lei_reference_id l = rid \<and> identifier_matches_row g l) (db_identifiers db)"

datatype match_mode = MATCH_ALL | MATCH_ANY

definition find_with_identifiers ::
    "db \<Rightarrow> generic_external_identifier list \<Rightarrow> preload list \<Rightarrow> match_mode \<Rightarrow> reference list result" where
  "find_with_identifiers db identifiers preload match =
     (if identifiers = [] then Inr []
      else res_mapM (reference_to_domain db preload)
             (filter (\<lambda>r. case match of
                        MATCH_ANY \<Rightarrow> list_ex (\<lambda>g. has_identifier db g (refr_id r)) identifiers
                      | MATCH_ALL \<Rightarrow> list_all (\<lambda>g. has_identifier db g (refr_id r)) identifiers)
                (db_references db)))"

section \<open>Supersession chains\<close>

text \<open>
  The members of the chain that contains an enhancement: its root (a row without \<open>root_id\<close> is its
  own root) and every successor that names this root. The chain lists the root first and the
  successors in the order of their identifiers; its head is the member that nothing supersedes,
  and \<^verbatim>\<open>one_or_none\<close> raises when there are several.
\<close>

definition supersession_members :: "db \<Rightarrow> uuid \<Rightarrow> enhancement list" where
  "supersession_members db eid =
     (case find (\<lambda>e. enh_id e = eid) (db_enhancements db) of
        None \<Rightarrow> []
      | Some e0 \<Rightarrow>
          (let rt = (case enh_root_id e0 of None \<Rightarrow> enh_id e0 | Some r \<Rightarrow> r)
           in filter (\<lambda>e. enh_id e = rt \<or> (enh_root_id e = Some rt \<and> enh_supersedes e \<noteq> None))
                (db_enhancements db)))"

definition get_supersession_chain :: "db \<Rightarrow> uuid \<Rightarrow> enhancement list result" where
  "get_supersession_chain db eid =
     (let members = supersession_members db eid;
          chain = sort_key enh_id (filter (\<lambda>e. enh_supersedes e = None) members)
                  @ sort_key enh_id (filter (\<lambda>e. enh_supersedes e \<noteq> None) members)
      in if chain = [] then Inl SQLNotFoundError else Inr (map enhancement_to_domain chain))"

definition get_supersession_chain_head :: "db \<Rightarrow> uuid \<Rightarrow> enhancement result" where
  "get_supersession_chain_head db eid =
     (case filter (is_head (db_enhancements db)) (supersession_members db eid) of
        [] \<Rightarrow> Inl SQLNotFoundError
      | [h] \<Rightarrow> Inr (enhancement_to_domain h)
      | _ \<Rightarrow> Inl MultipleResultsFound)"

section \<open>The invariant of the tables\<close>

definition db_ok :: "db \<Rightarrow> bool" where
  "db_ok db =
     (distinct (map refr_id (db_references db)) \<and> decision_constraints db (db_decisions db) \<and>
      list_all decision_valid (db_decisions db))"

section \<open>Lemmas\<close>

interpretation decisions: keyed_table
  "\<lambda>tbl k. find (\<lambda>x. rdd_id x = k) tbl" "upsert_row rdd_id" rdd_id "\<lambda>tbl. distinct (map rdd_id tbl)"
  by (rule keyed_table_list)

lemma decision_to_domain_Inr_iff [result_simps]:
  "decision_to_domain d = Inr e \<longleftrightarrow> decision_valid d \<and> e = d"
  by (auto simp: decision_to_domain_def)

lemma decisions_merge_Inr_iff [result_simps]:
  "decisions_merge d db = Inr p \<longleftrightarrow>
     decision_constraints db (upsert_row rdd_id d (db_decisions db)) \<and> decision_valid d \<and>
     p = (d, db \<lparr> db_decisions := upsert_row rdd_id d (db_decisions db) \<rparr>)"
  by (cases p) (auto simp: decisions_merge_def repo_merge_def result_simps)

lemma decisions_add_Inr_iff [result_simps]:
  "decisions_add d db = Inr p \<longleftrightarrow>
     rdd_id d \<notin> rdd_id ` set (db_decisions db) \<and>
     decision_constraints db (db_decisions db @ [d]) \<and> decision_valid d \<and>
     p = (d, db \<lparr> db_decisions := db_decisions db @ [d] \<rparr>)"
  by (cases p) (auto simp: decisions_add_def repo_add_def result_simps split: if_splits)

lemma decision_constraints_decisions_update [simp]:
  "decision_constraints (db \<lparr> db_decisions := ds' \<rparr>) ds = decision_constraints db ds"
  by (simp add: decision_constraints_def list_all_iff decision_foreign_keys_def
      cong: option.case_cong)

lemma decisions_update_by_pk_Inr_iff [result_simps]:
  "decisions_update_by_pk f pk db = Inr p \<longleftrightarrow>
     (\<exists>r. find (\<lambda>x. rdd_id x = pk) (db_decisions db) = Some r \<and>
        decision_constraints db (replace_row rdd_id (f r) (db_decisions db)) \<and> decision_valid (f r) \<and>
        p = (f r, db \<lparr> db_decisions := replace_row rdd_id (f r) (db_decisions db) \<rparr>))"
  by (cases p) (auto simp: decisions_update_by_pk_def repo_update_by_pk_def result_simps
      split: option.splits)

text \<open>Every operation of the repository of decisions keeps the invariant of the tables.\<close>

lemma list_all_upsert:
  "list_all P tbl \<Longrightarrow> P r \<Longrightarrow> list_all P (upsert_row pk_of r tbl)"
  by (auto simp: list_all_iff set_upsert_row)

lemma decisions_merge_ok: "db_ok db \<Longrightarrow> decisions_merge d db = Inr (d', db') \<Longrightarrow> db_ok db'"
  by (auto simp: db_ok_def result_simps list_all_upsert)

lemma decisions_add_ok: "db_ok db \<Longrightarrow> decisions_add d db = Inr (d', db') \<Longrightarrow> db_ok db'"
  by (auto simp: db_ok_def result_simps)

lemma decisions_update_by_pk_ok:
  "db_ok db \<Longrightarrow> decisions_update_by_pk f pk db = Inr (d', db') \<Longrightarrow> db_ok db'"
  by (auto simp: db_ok_def result_simps list_all_iff set_replace_row split: if_splits)

lemma active_decision_of_Some:
  assumes "active_decision_of db rid = Some d"
  shows "d \<in> set (db_decisions db)" and "rdd_active_decision d" and "rdd_reference_id d = rid"
  using assms find_Some_set by (fastforce simp: active_decision_of_def)+

lemma distinct_map_filter_unique:
  "distinct (map f (filter P xs)) \<Longrightarrow> x \<in> set xs \<Longrightarrow> y \<in> set xs \<Longrightarrow> P x \<Longrightarrow> P y \<Longrightarrow> f x = f y \<Longrightarrow> x = y"
  by (auto simp: distinct_map inj_on_def)

lemma active_decision_unique:
  "one_active_decision ds \<Longrightarrow> d \<in> set ds \<Longrightarrow> e \<in> set ds \<Longrightarrow> rdd_active_decision d \<Longrightarrow>
     rdd_active_decision e \<Longrightarrow> rdd_reference_id d = rdd_reference_id e \<Longrightarrow> d = e"
  unfolding one_active_decision_def by (rule distinct_map_filter_unique)

lemma active_decision_of_iff:
  assumes "db_ok db"
  shows "active_decision_of db rid = Some d \<longleftrightarrow>
           d \<in> set (db_decisions db) \<and> rdd_active_decision d \<and> rdd_reference_id d = rid"
proof
  assume r: "d \<in> set (db_decisions db) \<and> rdd_active_decision d \<and> rdd_reference_id d = rid"
  then have "active_decision_of db rid \<noteq> None" by (auto simp: active_decision_of_def find_None_set)
  then obtain e where e: "active_decision_of db rid = Some e" by blast
  have "one_active_decision (db_decisions db)"
    using assms by (simp add: db_ok_def decision_constraints_def)
  with r e show "active_decision_of db rid = Some d"
    using active_decision_of_Some [OF e] active_decision_unique by metis
qed (use active_decision_of_Some in blast)

text \<open>Under the invariant, loading an existing reference never raises.\<close>

lemma decision_loads:
  "db_ok db \<Longrightarrow> res_option decision_to_domain (active_decision_of db rid) = Inr (active_decision_of db rid)"
  using active_decision_of_Some [of db rid]
  by (cases "active_decision_of db rid")
    (auto simp: res_option_def decision_to_domain_def db_ok_def list_all_iff)

definition base_of ::
    "db \<Rightarrow> preload list \<Rightarrow> 'r option \<Rightarrow> 'r list option \<Rightarrow> reference_row \<Rightarrow> 'r reference_t" where
  "base_of db preload canonical duplicates row =
     \<lparr> ref_id = refr_id row,
       ref_visibility = refr_visibility row,
       ref_identifiers =
         (if PL_identifiers \<in> set preload
          then Some (filter (\<lambda>i. lei_reference_id i = refr_id row) (db_identifiers db)) else None),
       ref_enhancements =
         (if PL_enhancements \<in> set preload
          then Some (map enhancement_to_domain
                 (filter (\<lambda>e. enh_reference_id e = refr_id row) (db_enhancements db))) else None),
       ref_duplicate_decision =
         (if PL_duplicate_decision \<in> set preload then active_decision_of db (refr_id row) else None),
       ref_canonical_reference = canonical,
       ref_duplicate_references = duplicates \<rparr>"

lemma reference_base_ok:
  "db_ok db \<Longrightarrow> reference_base db preload canonical duplicates row =
     Inr (base_of db preload canonical duplicates row)"
  by (simp add: reference_base_def base_of_def decision_loads)

definition domain_of :: "db \<Rightarrow> preload list \<Rightarrow> reference_row \<Rightarrow> reference" where
  "domain_of db preload row =
     base_of db preload
       (if PL_canonical_reference \<in> set preload
        then map_option (base_of db (removeAll PL_duplicate_references preload) None None)
               (canonical_row_of db (refr_id row))
        else None)
       (if PL_duplicate_references \<in> set preload
        then Some (map (base_of db (removeAll PL_canonical_reference preload) None None)
               (duplicate_rows_of db (refr_id row)))
        else None) row"

lemma reference_to_domain_ok:
  "db_ok db \<Longrightarrow> reference_to_domain db preload row = Inr (domain_of db preload row)"
  by (cases "canonical_row_of db (refr_id row)")
    (auto simp: reference_to_domain_def domain_of_def leaf_to_domain_def reference_base_ok
      res_option_def res_mapM_total [where g = "base_of db (removeAll PL_canonical_reference preload) None None"])

lemma ref_id_domain_of [simp]: "ref_id (domain_of db preload row) = refr_id row"
  by (simp add: domain_of_def base_of_def)

lemma ref_decision_domain_of:
  "PL_duplicate_decision \<in> set preload \<Longrightarrow>
     ref_duplicate_decision (domain_of db preload row) = active_decision_of db (refr_id row)"
  by (simp add: domain_of_def base_of_def)

lemma has_duplicates_domain_of:
  "PL_duplicate_references \<in> set preload \<Longrightarrow>
     has_duplicates (domain_of db preload row) = Some (duplicate_rows_of db (refr_id row) \<noteq> [])"
  by (simp add: domain_of_def base_of_def has_duplicates_def)

lemma references_get_by_pk_Inr:
  assumes "db_ok db" and "references_get_by_pk db pk preload = Inr r"
  obtains row where "row \<in> set (db_references db)" and "refr_id row = pk"
    and "r = domain_of db preload row"
  using assms by (auto simp: references_get_by_pk_def result_simps reference_to_domain_ok
      dest: find_Some_set)

lemma references_get_by_pk_stored:
  assumes "db_ok db" and "pk \<in> refr_id ` set (db_references db)"
  obtains row where "references_get_by_pk db pk preload = Inr (domain_of db preload row)"
    and "refr_id row = pk"
proof (cases "find (\<lambda>r. refr_id r = pk) (db_references db)")
  case None
  with assms(2) show thesis by (auto simp: find_None_set image_iff)
next
  case (Some row)
  with find_Some_set [OF Some] assms(1) that show thesis
    by (simp add: references_get_by_pk_def repo_get_by_pk_def reference_to_domain_ok)
qed

lemma references_get_by_pk_id:
  assumes "references_get_by_pk db pk preload = Inr r"
  shows "ref_id r = pk"
proof -
  from assms obtain row where row: "find (\<lambda>x. refr_id x = pk) (db_references db) = Some row"
    and r: "reference_to_domain db preload row = Inr r"
    by (auto simp: references_get_by_pk_def result_simps)
  from r have "ref_id r = refr_id row"
    by (auto simp: reference_to_domain_def reference_base_def result_simps)
  with find_Some_set [OF row] show ?thesis by simp
qed

text \<open>The dictionary of active determinations agrees with the decisions in force.\<close>

lemma active_determinations_lookup:
  assumes ok: "db_ok db" and c: "c \<in> set ids"
  shows "map_of (get_active_decision_determinations db ids) c =
           map_option rdd_duplicate_determination (active_decision_of db c)"
proof -
  let ?rows = "filter (\<lambda>d. rdd_reference_id d \<in> set ids \<and> rdd_active_decision d) (db_decisions db)"
  have g: "get_active_decision_determinations db ids =
      dict_comp rdd_reference_id rdd_duplicate_determination ?rows"
    using c by (auto simp: get_active_decision_determinations_def)
  show ?thesis
  proof (cases "find (\<lambda>x. rdd_reference_id x = c) (rev ?rows)")
    case None
    then have "active_decision_of db c = None"
      using c by (auto simp: find_None_set active_decision_of_def)
    with None g show ?thesis by (simp add: dict_simps)
  next
    case (Some d)
    then have "active_decision_of db c = Some d"
      using find_Some_set [OF Some] by (simp add: active_decision_of_iff [OF ok])
    with Some g show ?thesis by (simp add: dict_simps)
  qed
qed

end
