(* ===== verification/Duplicate_Decisions.thy ===== *)
theory Duplicate_Decisions
  imports Reference_Store
begin

text \<open>
  Mapping duplicate decisions: the part of \<^verbatim>\<open>DeduplicationService\<close>
  (\<^verbatim>\<open>src/app/domain/references/services/deduplication_service.py\<close>) that writes decisions.

  \<^item> \<open>map_duplicate_decision\<close> applies a terminal decision to a reference. It refines the
    specification \<open>assign_decision\<close> on the abstract state \<open>decision_view\<close>, the map from references to
    their active decisions: a call either assigns the new decision to its reference or leaves the
    view alone and files the proposal as decoupled.
  \<^item> \<open>register_pending_import_decision\<close> and \<open>register_exact_duplicate_import_decision\<close> insert
    rows on import.

  The invariants are \<open>db_ok\<close> (constraints and validators) and \<open>star_forest\<close>: every reference that
  is a duplicate points at a canonical one, so the graph of duplicates has depth one.
\<close>

section \<open>map\_duplicate\_decision\<close>

definition detail_or_empty :: "string option \<Rightarrow> string" where
  "detail_or_empty d = (if truthy_opt_str d then the d else [])"

definition decouple :: "string \<Rightarrow> duplicate_decision \<Rightarrow> duplicate_decision" where
  "decouple reason d =
     d \<lparr> rdd_duplicate_determination := DD_DECOUPLED,
         rdd_detail := Some (reason @ detail_or_empty (rdd_detail d)) \<rparr>"

definition person_protected :: "duplicate_decision option \<Rightarrow> duplicate_decision \<Rightarrow> bool \<Rightarrow> bool" where
  "person_protected active new allow_destructive =
     (case active of
        None \<Rightarrow> False
      | Some a \<Rightarrow> rdd_decision_authority a = DA_PERSON \<and> rdd_decision_authority new = DA_SYSTEM \<and>
                  \<not> allow_destructive)"

definition duplicate_would_change :: "duplicate_decision option \<Rightarrow> duplicate_decision \<Rightarrow> bool \<Rightarrow> bool" where
  "duplicate_would_change active new allow_destructive =
     (case active of
        None \<Rightarrow> False
      | Some a \<Rightarrow>
          rdd_duplicate_determination a = DD_DUPLICATE \<and>
          (rdd_duplicate_determination new = DD_CANONICAL \<or>
           (rdd_duplicate_determination new = DD_DUPLICATE \<and>
            rdd_canonical_reference_id a \<noteq> rdd_canonical_reference_id new)) \<and>
          \<not> allow_destructive)"

text \<open>
  The decision table: the new decision, whether it changed, and the active decision to write back
  (deactivated when the new one replaces it).
\<close>

definition resolve_decision ::
    "duplicate_decision option \<Rightarrow> bool \<Rightarrow> bool \<Rightarrow> duplicate_decision \<Rightarrow>
     duplicate_decision \<times> bool \<times> duplicate_decision option \<times> duplicate_decision option" where
  "resolve_decision active has_dups allow_destructive new_decision =
     (let new = new_decision \<lparr> rdd_active_decision := False \<rparr>
      in if person_protected active new allow_destructive then
           (decouple (''Decouple reason: Automatic decisions cannot replace a person-made active decision. Proposed determination: ''
                      @ determination_value (rdd_duplicate_determination new) @ ''. '') new,
            False, active, None)
         else if duplicate_would_change active new allow_destructive then
           (decouple ''Decouple reason: Existing duplicate decision changed. '' new, True, active, None)
         else if rdd_duplicate_determination new = DD_DUPLICATE \<and> has_dups then
           (decouple ''Decouple reason: Reference has existing duplicates and cannot become a duplicate itself. Remap existing duplicates before retrying. '' new,
            True, active, None)
         else
           (case active of
              None \<Rightarrow> (new \<lparr> rdd_active_decision := True \<rparr>, True, None, None)
            | Some a \<Rightarrow>
                (let a' = a \<lparr> rdd_active_decision := False \<rparr>
                 in (new \<lparr> rdd_active_decision := True \<rparr>,
                     \<not> (rdd_duplicate_determination a = rdd_duplicate_determination new \<and>
                        rdd_canonical_reference_id a = rdd_canonical_reference_id new),
                     Some a', Some a'))))"

definition check_canonical_target :: "duplicate_decision \<Rightarrow> db \<Rightarrow> unit result" where
  "check_canonical_target new_decision db =
     (case rdd_canonical_reference_id new_decision of
        None \<Rightarrow> Inr ()
      | Some c \<Rightarrow>
          if c = rdd_reference_id new_decision then Inl DeduplicationValueError
          else res_bind (references_get_by_pk db c [PL_duplicate_decision, PL_canonical_reference])
                 (\<lambda>canonical_ref. if is_true (is_canonical canonical_ref) then Inr ()
                                  else Inl DeduplicationValueError))"

definition merge_active :: "duplicate_decision option \<Rightarrow> db \<Rightarrow> db result" where
  "merge_active active db =
     (case active of
        None \<Rightarrow> Inr db
      | Some a \<Rightarrow> res_bind (decisions_merge a db) (\<lambda>(_, db'). Inr db'))"

definition map_duplicate_decision ::
    "duplicate_decision \<Rightarrow> bool \<Rightarrow> db \<Rightarrow>
     (duplicate_decision \<times> bool \<times> duplicate_decision option \<times> db) result" where
  "map_duplicate_decision new_decision allow_destructive_decision db =
     (if \<not> terminal_determination (rdd_duplicate_determination new_decision)
      then Inl DeduplicationValueError
      else res_bind (check_canonical_target new_decision db) (\<lambda>_.
           res_bind (references_get_by_pk db (rdd_reference_id new_decision)
                       [PL_duplicate_decision, PL_duplicate_references]) (\<lambda>reference.
           (case resolve_decision (ref_duplicate_decision reference)
                   (is_true (has_duplicates reference)) allow_destructive_decision new_decision of
              (new, decision_changed, active, deactivated) \<Rightarrow>
                res_bind (merge_active active db) (\<lambda>db1.
                res_bind (decisions_merge new db1) (\<lambda>(new', db2).
                  Inr (new', decision_changed, deactivated, db2)))))))"

section \<open>Decisions registered on import\<close>

definition register_pending_import_decision ::
    "uuid \<Rightarrow> uuid \<Rightarrow> db \<Rightarrow> (duplicate_decision \<times> db) result" where
  "register_pending_import_decision new_id reference_id db =
     decisions_add
       \<lparr> rdd_id = new_id, rdd_reference_id = reference_id, rdd_decision_authority = DA_SYSTEM,
         rdd_decision_trigger = DT_IMPORT, rdd_enhancement_id = None, rdd_active_decision = False,
         rdd_candidate_canonical_ids = [], rdd_duplicate_determination = DD_PENDING,
         rdd_canonical_reference_id = None, rdd_detail = None \<rparr> db"

definition register_exact_duplicate_import_decision ::
    "uuid \<Rightarrow> uuid \<Rightarrow> uuid \<Rightarrow> db \<Rightarrow> (duplicate_decision \<times> db) result" where
  "register_exact_duplicate_import_decision new_id reference_id canonical_reference_id db =
     decisions_add
       \<lparr> rdd_id = new_id, rdd_reference_id = reference_id, rdd_decision_authority = DA_SYSTEM,
         rdd_decision_trigger = DT_IMPORT, rdd_enhancement_id = None, rdd_active_decision = True,
         rdd_candidate_canonical_ids = [], rdd_duplicate_determination = DD_EXACT_DUPLICATE,
         rdd_canonical_reference_id = Some canonical_reference_id, rdd_detail = None \<rparr> db"

section \<open>Abstract specification\<close>

text \<open>The abstract state: which decision is in force for each reference.\<close>

definition decision_view :: "db \<Rightarrow> uuid \<Rightarrow> duplicate_decision option" where
  "decision_view db = active_decision_of db"

definition assign_decision ::
    "duplicate_decision \<Rightarrow> (uuid \<Rightarrow> duplicate_decision option) \<Rightarrow> uuid \<Rightarrow> duplicate_decision option" where
  "assign_decision d view = view(rdd_reference_id d \<mapsto> d)"

text \<open>
  The new decision is fresh, or the row of a decision that is not in force (a pending decision
  that is being processed).
\<close>

definition not_in_force :: "duplicate_decision \<Rightarrow> db \<Rightarrow> bool" where
  "not_in_force d db = list_all (\<lambda>x. rdd_id x = rdd_id d \<longrightarrow> \<not> rdd_active_decision x) (db_decisions db)"

text \<open>
  Every reference whose decision in force is \<^verbatim>\<open>DUPLICATE\<close> is stored and points at a reference whose
  decision in force is \<^verbatim>\<open>CANONICAL\<close>.
\<close>

definition duplicate_edge_ok :: "db \<Rightarrow> duplicate_decision \<Rightarrow> bool" where
  "duplicate_edge_ok db d =
     (rdd_reference_id d \<in> refr_id ` set (db_references db) \<and>
      (case rdd_canonical_reference_id d of
         None \<Rightarrow> False
       | Some c \<Rightarrow> (case active_decision_of db c of
                     None \<Rightarrow> False
                   | Some e \<Rightarrow> rdd_duplicate_determination e = DD_CANONICAL)))"

definition star_forest :: "db \<Rightarrow> bool" where
  "star_forest db =
     list_all (\<lambda>d. rdd_active_decision d \<and> rdd_duplicate_determination d = DD_DUPLICATE \<longrightarrow>
                    duplicate_edge_ok db d) (db_decisions db)"

section \<open>The decision table\<close>

lemma decouple_fields [simp]:
  "rdd_id (decouple r d) = rdd_id d" "rdd_reference_id (decouple r d) = rdd_reference_id d"
  "rdd_active_decision (decouple r d) = rdd_active_decision d"
  "rdd_duplicate_determination (decouple r d) = DD_DECOUPLED"
  "rdd_canonical_reference_id (decouple r d) = rdd_canonical_reference_id d"
  "rdd_decision_authority (decouple r d) = rdd_decision_authority d"
  by (simp_all add: decouple_def)

text \<open>Either the proposal is filed as decoupled, or it takes over from the active decision.\<close>

lemma resolve_decision_cases:
  assumes "resolve_decision active has_dups allow new_decision = (new, changed, act, deact)"
  obtains
    (decoupled) "\<not> rdd_active_decision new" "rdd_duplicate_determination new = DD_DECOUPLED"
      "act = active" "deact = None"
      "person_protected active new_decision allow \<or> duplicate_would_change active new_decision allow \<or>
       (rdd_duplicate_determination new_decision = DD_DUPLICATE \<and> has_dups)"
  | (applied) "new = new_decision \<lparr> rdd_active_decision := True \<rparr>"
      "act = map_option (\<lambda>a. a \<lparr> rdd_active_decision := False \<rparr>) active" "deact = act"
      "\<not> person_protected active new_decision allow"
      "\<not> duplicate_would_change active new_decision allow"
      "\<not> (rdd_duplicate_determination new_decision = DD_DUPLICATE \<and> has_dups)"
  using assms
  by (auto simp: resolve_decision_def Let_def person_protected_def duplicate_would_change_def
      split: if_splits option.splits)

lemma resolve_decision_ids:
  assumes "resolve_decision active has_dups allow new_decision = (new, changed, act, deact)"
  shows "rdd_id new = rdd_id new_decision" and "rdd_reference_id new = rdd_reference_id new_decision"
    and "rdd_decision_authority new = rdd_decision_authority new_decision"
    and "rdd_canonical_reference_id new = rdd_canonical_reference_id new_decision"
  using assms by (auto simp: resolve_decision_def Let_def split: if_splits option.splits)

section \<open>Inversion of map\_duplicate\_decision\<close>

lemma check_canonical_target_Inr:
  assumes "db_ok db" and "check_canonical_target d db = Inr u" and "rdd_canonical_reference_id d = Some c"
  obtains e where "c \<noteq> rdd_reference_id d" and "active_decision_of db c = Some e"
    and "rdd_duplicate_determination e = DD_CANONICAL"
proof -
  from assms obtain r where ne: "c \<noteq> rdd_reference_id d"
    and r: "references_get_by_pk db c [PL_duplicate_decision, PL_canonical_reference] = Inr r"
    and can: "is_true (is_canonical r)"
    by (auto simp: check_canonical_target_def result_simps split: if_splits)
  from references_get_by_pk_Inr [OF assms(1) r] obtain row where
    "refr_id row = c" "r = domain_of db [PL_duplicate_decision, PL_canonical_reference] row" by auto
  with can ne that show thesis
    by (auto simp: is_true_def is_canonical_def ref_decision_domain_of)
qed

lemma map_duplicate_decision_Inr:
  assumes ok: "db_ok db" and m: "map_duplicate_decision d allow db = Inr (new, changed, deact, db')"
  obtains act db1 where
    "terminal_determination (rdd_duplicate_determination d)"
    and "check_canonical_target d db = Inr ()"
    and "rdd_reference_id d \<in> refr_id ` set (db_references db)"
    and "resolve_decision (active_decision_of db (rdd_reference_id d))
           (duplicate_rows_of db (rdd_reference_id d) \<noteq> []) allow d = (new, changed, act, deact)"
    and "merge_active act db = Inr db1" and "decisions_merge new db1 = Inr (new, db')"
proof -
  from m obtain u r where
    t: "terminal_determination (rdd_duplicate_determination d)"
    and c: "check_canonical_target d db = Inr u"
    and r: "references_get_by_pk db (rdd_reference_id d)
              [PL_duplicate_decision, PL_duplicate_references] = Inr r"
    and m': "(case resolve_decision (ref_duplicate_decision r) (is_true (has_duplicates r)) allow d of
              (new, decision_changed, active, deactivated) \<Rightarrow>
                res_bind (merge_active active db) (\<lambda>db1.
                res_bind (decisions_merge new db1) (\<lambda>(new', db2).
                  Inr (new', decision_changed, deactivated, db2)))) = Inr (new, changed, deact, db')"
    by (auto simp: map_duplicate_decision_def res_bind_Inr_iff split: if_splits)
  obtain new0 changed0 act deact0 where
    res: "resolve_decision (ref_duplicate_decision r) (is_true (has_duplicates r)) allow d =
              (new0, changed0, act, deact0)" by (metis prod_cases4)
  with m' obtain db1 where m1: "merge_active act db = Inr db1"
    and m2: "decisions_merge new0 db1 = Inr (new, db')" and eq: "changed0 = changed" "deact0 = deact"
    by (auto simp: res_bind_Inr_iff)
  from references_get_by_pk_Inr [OF ok r] obtain row where row: "row \<in> set (db_references db)"
    "refr_id row = rdd_reference_id d" "r = domain_of db [PL_duplicate_decision, PL_duplicate_references] row" .
  from m2 have "new0 = new" by (simp add: result_simps)
  with that t c res m1 m2 eq row show thesis
    by (force simp: ref_decision_domain_of has_duplicates_domain_of is_true_def)
qed

lemma merge_active_ok: "db_ok db \<Longrightarrow> merge_active act db = Inr db1 \<Longrightarrow> db_ok db1"
  by (cases act) (auto simp: merge_active_def result_simps intro: decisions_merge_ok)

lemma map_duplicate_decision_ok:
  assumes "db_ok db" and "map_duplicate_decision d allow db = Inr (new, changed, deact, db')"
  shows "db_ok db'"
  using map_duplicate_decision_Inr [OF assms] merge_active_ok [OF assms(1)] decisions_merge_ok
  by metis

lemma merge_active_fields:
  "merge_active act db = Inr db1 \<Longrightarrow>
     db_references db1 = db_references db \<and> db_enhancements db1 = db_enhancements db \<and>
     db_identifiers db1 = db_identifiers db \<and>
     db_decisions db1 = (case act of None \<Rightarrow> db_decisions db | Some a \<Rightarrow> upsert_row rdd_id a (db_decisions db))"
  by (cases act) (auto simp: merge_active_def result_simps)

text \<open>The rows after a call.\<close>

lemma map_duplicate_decision_rows:
  assumes ok: "db_ok db" and m: "map_duplicate_decision d allow db = Inr (new, changed, deact, db')"
    and res: "resolve_decision (active_decision_of db (rdd_reference_id d))
           (duplicate_rows_of db (rdd_reference_id d) \<noteq> []) allow d = (new, changed, act, deact)"
  shows "set (db_decisions db') =
           insert new {x \<in> (case act of None \<Rightarrow> set (db_decisions db)
                              | Some a \<Rightarrow> insert a {x \<in> set (db_decisions db). rdd_id x \<noteq> rdd_id a}).
                        rdd_id x \<noteq> rdd_id new}"
    and "db_references db' = db_references db"
proof -
  obtain act' db1 where *: "resolve_decision (active_decision_of db (rdd_reference_id d))
           (duplicate_rows_of db (rdd_reference_id d) \<noteq> []) allow d = (new, changed, act', deact)"
    "merge_active act' db = Inr db1" "decisions_merge new db1 = Inr (new, db')"
    using map_duplicate_decision_Inr [OF ok m] by metis
  then have a: "act' = act" using res by simp
  note f = merge_active_fields [OF *(2)]
  show "db_references db' = db_references db" using *(3) f by (simp add: result_simps)
  show "set (db_decisions db') =
           insert new {x \<in> (case act of None \<Rightarrow> set (db_decisions db)
                              | Some a \<Rightarrow> insert a {x \<in> set (db_decisions db). rdd_id x \<noteq> rdd_id a}).
                        rdd_id x \<noteq> rdd_id new}"
    using *(3) f a by (auto simp: result_simps set_upsert_row split: option.splits)
qed

lemma decision_view_eqI:
  assumes "db_ok db'"
    and "\<And>k d. d \<in> set (db_decisions db') \<and> rdd_active_decision d \<and> rdd_reference_id d = k \<longleftrightarrow> v k = Some d"
  shows "decision_view db' = v"
proof
  fix k
  show "decision_view db' k = v k"
    using assms(2) [where k = k] active_decision_of_iff [OF assms(1), of k]
    by (cases "v k"; cases "decision_view db' k") (auto simp: decision_view_def)
qed

lemma same_id_same_row:
  "db_ok db \<Longrightarrow> x \<in> set (db_decisions db) \<Longrightarrow> y \<in> set (db_decisions db) \<Longrightarrow> rdd_id x = rdd_id y \<Longrightarrow> x = y"
  by (auto simp: db_ok_def decision_constraints_def distinct_map inj_on_def)

section \<open>Refinement\<close>

lemma view_after_decoupled:
  assumes ok: "db_ok db" and nf: "not_in_force d db"
    and m: "map_duplicate_decision d allow db = Inr (new, changed, deact, db')"
    and res: "resolve_decision (active_decision_of db (rdd_reference_id d))
           (duplicate_rows_of db (rdd_reference_id d) \<noteq> []) allow d = (new, changed, act, deact)"
    and act: "act = active_decision_of db (rdd_reference_id d)" and inact: "\<not> rdd_active_decision new"
  shows "decision_view db' = decision_view db"
proof (rule decision_view_eqI [OF map_duplicate_decision_ok [OF ok m]])
  fix k x
  have id: "rdd_id new = rdd_id d" using resolve_decision_ids [OF res] by simp
  have rows: "set (db_decisions db') = insert new {x \<in> set (db_decisions db). rdd_id x \<noteq> rdd_id new}"
  proof (cases act)
    case (Some a)
    then have "a \<in> set (db_decisions db)" using act active_decision_of_Some by metis
    then have "insert a {x \<in> set (db_decisions db). rdd_id x \<noteq> rdd_id a} = set (db_decisions db)"
      using same_id_same_row [OF ok] by auto
    then show ?thesis using map_duplicate_decision_rows(1) [OF ok m res] Some by simp
  qed (use map_duplicate_decision_rows(1) [OF ok m res] in simp)
  show "x \<in> set (db_decisions db') \<and> rdd_active_decision x \<and> rdd_reference_id x = k \<longleftrightarrow>
        decision_view db k = Some x"
    using nf inact by (auto simp: rows decision_view_def active_decision_of_iff [OF ok] id
        not_in_force_def list_all_iff)
qed

lemma view_after_applied:
  assumes ok: "db_ok db" and nf: "not_in_force d db"
    and m: "map_duplicate_decision d allow db = Inr (new, changed, deact, db')"
    and res: "resolve_decision (active_decision_of db (rdd_reference_id d))
           (duplicate_rows_of db (rdd_reference_id d) \<noteq> []) allow d = (new, changed, act, deact)"
    and act: "act = map_option (\<lambda>a. a \<lparr> rdd_active_decision := False \<rparr>)
                (active_decision_of db (rdd_reference_id d))"
    and inact: "rdd_active_decision new"
  shows "decision_view db' = assign_decision new (decision_view db)"
proof (rule decision_view_eqI [OF map_duplicate_decision_ok [OF ok m]])
  fix k x
  note ids = resolve_decision_ids [OF res]
  note rows = map_duplicate_decision_rows(1) [OF ok m res]
  have old: "x \<in> set (db_decisions db) \<and> rdd_active_decision x \<longleftrightarrow>
             active_decision_of db (rdd_reference_id x) = Some x"
    using active_decision_of_iff [OF ok] by auto
  have keep: "active_decision_of db (rdd_reference_id x) = Some x \<Longrightarrow> rdd_id x \<noteq> rdd_id new"
    using nf old by (auto simp: not_in_force_def list_all_iff ids)
  show "x \<in> set (db_decisions db') \<and> rdd_active_decision x \<and> rdd_reference_id x = k \<longleftrightarrow>
        assign_decision new (decision_view db) k = Some x"
  proof (cases "active_decision_of db (rdd_reference_id d)")
    case None
    have "rdd_reference_id x \<noteq> rdd_reference_id d" if "x \<in> set (db_decisions db)" "rdd_active_decision x"
      using that old None by auto
    with None show ?thesis
      using rows act old keep inact ids active_decision_of_iff [OF ok]
      by (auto simp: assign_decision_def decision_view_def)
  next
    case (Some a)
    note a = active_decision_of_Some [OF Some]
    have "rdd_id x = rdd_id a \<Longrightarrow> x \<in> set (db_decisions db) \<Longrightarrow> x = a"
      using same_id_same_row [OF ok _ a(1)] by blast
    moreover have "x = a" if "x \<in> set (db_decisions db)" "rdd_active_decision x"
      "rdd_reference_id x = rdd_reference_id d"
      using that old Some by auto
    ultimately show ?thesis
      using rows act old keep inact ids Some a active_decision_of_iff [OF ok]
      by (auto simp: assign_decision_def decision_view_def)
  qed
qed

lemma map_decision_effect:
  assumes ok: "db_ok db" and nf: "not_in_force d db"
    and m: "map_duplicate_decision d allow db = Inr (new, changed, deact, db')"
  shows "(new = d \<lparr> rdd_active_decision := True \<rparr> \<and>
            decision_view db' = assign_decision new (decision_view db)) \<or>
         (rdd_duplicate_determination new = DD_DECOUPLED \<and> \<not> rdd_active_decision new \<and>
            deact = None \<and> decision_view db' = decision_view db)"
proof -
  obtain act where res: "resolve_decision (active_decision_of db (rdd_reference_id d))
       (duplicate_rows_of db (rdd_reference_id d) \<noteq> []) allow d = (new, changed, act, deact)"
    using map_duplicate_decision_Inr [OF ok m] by metis
  from res show ?thesis
  proof (cases rule: resolve_decision_cases)
    case decoupled
    then show ?thesis using view_after_decoupled [OF ok nf m res] by blast
  next
    case applied
    then show ?thesis using view_after_applied [OF ok nf m res] by simp
  qed
qed

section \<open>The graph of duplicates\<close>

lemma star_forest_iff:
  assumes "db_ok db"
  shows "star_forest db \<longleftrightarrow>
    (\<forall>k d. decision_view db k = Some d \<and> rdd_duplicate_determination d = DD_DUPLICATE \<longrightarrow>
       k \<in> refr_id ` set (db_references db) \<and>
       (\<exists>c e. rdd_canonical_reference_id d = Some c \<and> decision_view db c = Some e \<and>
              rdd_duplicate_determination e = DD_CANONICAL))"
proof -
  have edge: "duplicate_edge_ok db d \<longleftrightarrow> rdd_reference_id d \<in> refr_id ` set (db_references db) \<and>
      (\<exists>c e. rdd_canonical_reference_id d = Some c \<and> decision_view db c = Some e \<and>
             rdd_duplicate_determination e = DD_CANONICAL)" for d
    by (cases "rdd_canonical_reference_id d")
      (auto simp: duplicate_edge_ok_def decision_view_def split: option.splits)
  have view: "decision_view db k = Some d \<longleftrightarrow>
      d \<in> set (db_decisions db) \<and> rdd_active_decision d \<and> rdd_reference_id d = k" for k d
    unfolding decision_view_def by (rule active_decision_of_iff [OF assms])
  define Q where "Q d \<longleftrightarrow> (\<exists>c e. rdd_canonical_reference_id d = Some c \<and> decision_view db c = Some e \<and>
             rdd_duplicate_determination e = DD_CANONICAL)" for d
  show ?thesis unfolding star_forest_def list_all_iff edge Q_def [symmetric] by (auto simp: view)
qed

lemma no_duplicates_no_edges:
  assumes "star_forest db" and "db_ok db" and "duplicate_rows_of db rid = []"
    and "decision_view db k = Some d" and "rdd_duplicate_determination d = DD_DUPLICATE"
  shows "rdd_canonical_reference_id d \<noteq> Some rid"
proof
  assume c: "rdd_canonical_reference_id d = Some rid"
  have d: "d \<in> set (db_decisions db)" "rdd_active_decision d" "rdd_reference_id d = k"
    using assms(4) active_decision_of_Some by (auto simp: decision_view_def)
  obtain r where r: "r \<in> set (db_references db)" "refr_id r = k"
    using assms star_forest_iff [OF assms(2)] by blast
  then have "r \<in> set (duplicate_rows_of db rid)"
    using c d by (auto simp: duplicate_rows_of_def list_ex_iff)
  with assms(3) show False by simp
qed

lemma star_forest_assign:
  assumes ok: "db_ok db" "db_ok db'" and sf: "star_forest db"
    and refs: "db_references db' = db_references db"
    and view: "decision_view db' = assign_decision new (decision_view db)"
    and here: "rdd_reference_id new \<in> refr_id ` set (db_references db)"
    and det: "rdd_duplicate_determination new = DD_CANONICAL \<or>
       (rdd_duplicate_determination new = DD_DUPLICATE \<and>
        duplicate_rows_of db (rdd_reference_id new) = [] \<and>
        (\<exists>c e. rdd_canonical_reference_id new = Some c \<and> c \<noteq> rdd_reference_id new \<and>
               decision_view db c = Some e \<and> rdd_duplicate_determination e = DD_CANONICAL))"
  shows "star_forest db'"
  unfolding star_forest_iff [OF ok(2)]
proof (intro allI impI)
  fix k d
  assume "decision_view db' k = Some d \<and> rdd_duplicate_determination d = DD_DUPLICATE"
  then have k: "assign_decision new (decision_view db) k = Some d" "rdd_duplicate_determination d = DD_DUPLICATE"
    using view by auto
  show "k \<in> refr_id ` set (db_references db') \<and>
       (\<exists>c e. rdd_canonical_reference_id d = Some c \<and> decision_view db' c = Some e \<and>
              rdd_duplicate_determination e = DD_CANONICAL)"
  proof (cases "k = rdd_reference_id new")
    case True
    with k have "d = new" by (simp add: assign_decision_def)
    with True k(2) det here refs view show ?thesis by (auto simp: assign_decision_def)
  next
    case False
    with k have old: "decision_view db k = Some d" by (simp add: assign_decision_def)
    then obtain c e where c: "rdd_canonical_reference_id d = Some c" "decision_view db c = Some e"
      "rdd_duplicate_determination e = DD_CANONICAL" "k \<in> refr_id ` set (db_references db)"
      using sf k(2) star_forest_iff [OF ok(1)] by blast
    show ?thesis
    proof (cases "c = rdd_reference_id new")
      case True
      then have "rdd_duplicate_determination new = DD_CANONICAL"
        using det no_duplicates_no_edges [OF sf ok(1) _ old k(2)] c(1) by auto
      with True c refs view show ?thesis by (auto simp: assign_decision_def)
    next
      case False
      with c refs view show ?thesis by (auto simp: assign_decision_def)
    qed
  qed
qed

lemma star_forest_same_view:
  assumes "db_ok db" "db_ok db'" "star_forest db" "db_references db' = db_references db"
    and "decision_view db' = decision_view db"
  shows "star_forest db'"
  using assms star_forest_iff [OF assms(1)] star_forest_iff [OF assms(2)] by simp

lemma map_decision_star_forest:
  assumes ok: "db_ok db" and sf: "star_forest db" and nf: "not_in_force d db"
    and det: "rdd_duplicate_determination d = DD_CANONICAL \<or> rdd_duplicate_determination d = DD_DUPLICATE"
    and dv: "check_canonical_iff_duplicate d"
    and m: "map_duplicate_decision d allow db = Inr (new, changed, deact, db')"
  shows "star_forest db'"
proof -
  note ok' = map_duplicate_decision_ok [OF ok m]
  obtain act where chk: "check_canonical_target d db = Inr ()"
    and here: "rdd_reference_id d \<in> refr_id ` set (db_references db)"
    and res: "resolve_decision (active_decision_of db (rdd_reference_id d))
       (duplicate_rows_of db (rdd_reference_id d) \<noteq> []) allow d = (new, changed, act, deact)"
    using map_duplicate_decision_Inr [OF ok m] by metis
  note refs = map_duplicate_decision_rows(2) [OF ok m res]
  from res show ?thesis
  proof (cases rule: resolve_decision_cases)
    case decoupled
    then show ?thesis
      using view_after_decoupled [OF ok nf m res] star_forest_same_view [OF ok ok' sf refs] by blast
  next
    case applied
    have view: "decision_view db' = assign_decision new (decision_view db)"
      using view_after_applied [OF ok nf m res applied(2)] applied(1) by simp
    have "\<exists>c e. rdd_canonical_reference_id new = Some c \<and> c \<noteq> rdd_reference_id new \<and>
               decision_view db c = Some e \<and> rdd_duplicate_determination e = DD_CANONICAL"
      if "rdd_duplicate_determination d = DD_DUPLICATE"
    proof -
      from that dv obtain c where c: "rdd_canonical_reference_id d = Some c"
        by (auto simp: check_canonical_iff_duplicate_def)
      from check_canonical_target_Inr [OF ok chk c] c show ?thesis
        by (auto simp: applied(1) decision_view_def)
    qed
    then show ?thesis
      using star_forest_assign [OF ok ok' sf refs view] here det applied by auto
  qed
qed

section \<open>Calls return\<close>

lemma one_active_iff:
  assumes "distinct (map rdd_id ds)"
  shows "one_active_decision ds \<longleftrightarrow>
    (\<forall>x \<in> set ds. \<forall>y \<in> set ds. rdd_active_decision x \<and> rdd_active_decision y \<and>
        rdd_reference_id x = rdd_reference_id y \<longrightarrow> x = y)"
proof -
  have "distinct ds" using assms by (simp add: distinct_map)
  then show ?thesis by (auto simp: one_active_decision_def distinct_map inj_on_def)
qed

lemma upsert_constraints:
  assumes c: "decision_constraints db ds" and fk: "decision_foreign_keys db d"
    and free: "\<And>x. rdd_active_decision d \<Longrightarrow> x \<in> set ds \<Longrightarrow> rdd_active_decision x \<Longrightarrow>
                 rdd_reference_id x = rdd_reference_id d \<Longrightarrow> rdd_id x = rdd_id d"
  shows "decision_constraints db (upsert_row rdd_id d ds)"
proof -
  have dist: "distinct (map rdd_id ds)" and one: "one_active_decision ds"
    and fks: "list_all (decision_foreign_keys db) ds"
    using c by (auto simp: decision_constraints_def)
  have "one_active_decision (upsert_row rdd_id d ds)"
    unfolding one_active_iff [OF distinct_upsert [OF dist]] set_upsert_row
    using one free by (auto simp: one_active_iff [OF dist])
  then show ?thesis
    using dist fks fk by (simp add: decision_constraints_def distinct_upsert list_all_upsert)
qed

lemma decision_foreign_keys_fields:
  "decision_foreign_keys db (d \<lparr> rdd_active_decision := b \<rparr>) = decision_foreign_keys db d"
  "decision_foreign_keys db (decouple r d) = decision_foreign_keys db d"
  by (simp_all add: decision_foreign_keys_def decouple_def)

lemma decision_valid_applied:
  "decision_valid (d \<lparr> rdd_active_decision := False \<rparr>) \<Longrightarrow>
     terminal_determination (rdd_duplicate_determination d) \<Longrightarrow>
     decision_valid (d \<lparr> rdd_active_decision := True \<rparr>)"
  by (simp add: decision_valid_def check_provenance_is_classified_together_def
      check_canonical_iff_duplicate_def check_active_decision_is_terminal_def)

lemma decision_valid_deactivated: "decision_valid d \<Longrightarrow> decision_valid (d \<lparr> rdd_active_decision := False \<rparr>)"
  by (simp add: decision_valid_def check_provenance_is_classified_together_def
      check_canonical_iff_duplicate_def check_active_decision_is_terminal_def)

lemma decision_valid_decoupled:
  "decision_valid d \<Longrightarrow> decision_valid (decouple r (d \<lparr> rdd_active_decision := False \<rparr>))"
  by (simp add: decision_valid_def check_provenance_is_classified_together_def decouple_def
      check_canonical_iff_duplicate_def check_active_decision_is_terminal_def)

text \<open>The new row a call writes is valid and respects the foreign keys when the proposal does.\<close>

lemma resolve_decision_valid:
  assumes "resolve_decision active has_dups allow d = (new, changed, act, deact)"
    and "decision_valid d" and "terminal_determination (rdd_duplicate_determination d)"
    and "decision_foreign_keys db d"
  shows "decision_valid new" and "decision_foreign_keys db new"
  using assms decision_valid_applied [OF decision_valid_deactivated [OF assms(2)] assms(3)]
  by (auto simp: resolve_decision_def Let_def decision_valid_decoupled decision_foreign_keys_fields
      split: if_splits option.splits)

lemma merge_active_returns:
  assumes ok: "db_ok db" and res: "resolve_decision (active_decision_of db rid) has_dups allow d =
    (new, changed, act, deact)"
  shows "\<exists>db1. merge_active act db = Inr db1"
proof (cases act)
  case (Some a)
  from res obtain a0 where a0: "active_decision_of db rid = Some a0"
    and a: "a = a0 \<or> a = a0 \<lparr> rdd_active_decision := False \<rparr>"
    using Some by (cases rule: resolve_decision_cases) auto
  have c: "decision_constraints db (db_decisions db)" "list_all decision_valid (db_decisions db)"
    using ok by (simp_all add: db_ok_def)
  have mem: "a0 \<in> set (db_decisions db)" using active_decision_of_Some(1) [OF a0] .
  have valid: "decision_valid a" and fk: "decision_foreign_keys db a" and id: "rdd_id a = rdd_id a0"
    using c mem a decision_valid_deactivated [of a0]
    by (auto simp: list_all_iff decision_foreign_keys_fields decision_constraints_def)
  have "decision_constraints db (upsert_row rdd_id a (db_decisions db))"
  proof (rule upsert_constraints [OF c(1) fk])
    fix x
    assume x: "rdd_active_decision a" "x \<in> set (db_decisions db)" "rdd_active_decision x"
      "rdd_reference_id x = rdd_reference_id a"
    then have "a = a0" using a by auto
    then show "rdd_id x = rdd_id a"
      using x mem active_decision_unique [of "db_decisions db" x a0] c(1)
      by (auto simp: decision_constraints_def)
  qed
  with valid Some show ?thesis by (auto simp: merge_active_def result_simps)
qed (simp add: merge_active_def)

lemma map_duplicate_decision_returns:
  assumes ok: "db_ok db" and valid: "decision_valid d"
    and tdet: "terminal_determination (rdd_duplicate_determination d)"
    and here: "rdd_reference_id d \<in> refr_id ` set (db_references db)"
    and fk: "decision_foreign_keys db d"
    and target: "check_canonical_target d db = Inr ()"
  shows "\<exists>new changed deact db'. map_duplicate_decision d allow db = Inr (new, changed, deact, db')"
proof -
  let ?pl = "[PL_duplicate_decision, PL_duplicate_references]"
  obtain row where r: "references_get_by_pk db (rdd_reference_id d) ?pl = Inr (domain_of db ?pl row)"
    and rid: "refr_id row = rdd_reference_id d"
    by (rule references_get_by_pk_stored [OF ok here])
  let ?a = "active_decision_of db (rdd_reference_id d)"
  let ?h = "duplicate_rows_of db (rdd_reference_id d) \<noteq> []"
  obtain new changed act deact where res: "resolve_decision ?a ?h allow d = (new, changed, act, deact)"
    by (metis prod_cases4)
  obtain db1 where m1: "merge_active act db = Inr db1" using merge_active_returns [OF ok res] by blast
  note f = merge_active_fields [OF m1]
  have fk1: "decision_foreign_keys db1 x = decision_foreign_keys db x" for x
    using f by (simp add: decision_foreign_keys_def cong: option.case_cong)
  have c1: "decision_constraints db1 (db_decisions db1)"
    using merge_active_ok [OF ok m1] by (simp add: db_ok_def)
  have "decision_constraints db1 (upsert_row rdd_id new (db_decisions db1))"
  proof (rule upsert_constraints [OF c1])
    show "decision_foreign_keys db1 new" using resolve_decision_valid(2) [OF res valid tdet fk] fk1 by simp
    fix x
    assume x: "rdd_active_decision new" "x \<in> set (db_decisions db1)" "rdd_active_decision x"
      "rdd_reference_id x = rdd_reference_id new"
    from res have act: "act = map_option (\<lambda>a. a \<lparr> rdd_active_decision := False \<rparr>) ?a"
      using x(1) by (cases rule: resolve_decision_cases) auto
    have ne: "x \<noteq> a \<lparr> rdd_active_decision := False \<rparr>" for a
    proof
      assume "x = a \<lparr> rdd_active_decision := False \<rparr>"
      then have "\<not> rdd_active_decision x" by simp
      with x(3) show False by simp
    qed
    have "active_decision_of db (rdd_reference_id d) \<noteq> Some x"
      using x f act ne by (cases ?a) (auto simp: set_upsert_row)
    moreover have "x \<in> set (db_decisions db)"
      using x f act ne by (cases ?a) (auto simp: set_upsert_row)
    ultimately show "rdd_id x = rdd_id new"
      using x resolve_decision_ids(2) [OF res] active_decision_of_iff [OF ok] by auto
  qed
  then have "decisions_merge new db1 = Inr (new, db1 \<lparr> db_decisions := upsert_row rdd_id new (db_decisions db1) \<rparr>)"
    using resolve_decision_valid(1) [OF res valid tdet fk] by (simp add: result_simps)
  then show ?thesis
    using tdet target r res m1 rid
    by (simp add: map_duplicate_decision_def ref_decision_domain_of has_duplicates_domain_of is_true_def)
qed

definition in_force_canonical :: "db \<Rightarrow> uuid \<Rightarrow> bool" where
  "in_force_canonical db c =
     (case decision_view db c of None \<Rightarrow> False | Some e \<Rightarrow> rdd_duplicate_determination e = DD_CANONICAL)"

lemma check_canonical_target_eq:
  assumes ok: "db_ok db" and c: "rdd_canonical_reference_id d = Some c" "c \<noteq> rdd_reference_id d"
    and stored: "c \<in> refr_id ` set (db_references db)"
  shows "check_canonical_target d db =
           (if in_force_canonical db c then Inr () else Inl DeduplicationValueError)"
proof -
  let ?pl = "[PL_duplicate_decision, PL_canonical_reference]"
  obtain row where "references_get_by_pk db c ?pl = Inr (domain_of db ?pl row)" "refr_id row = c"
    by (rule references_get_by_pk_stored [OF ok stored])
  then show ?thesis
    using c by (auto simp: check_canonical_target_def is_true_def is_canonical_def
        ref_decision_domain_of in_force_canonical_def decision_view_def split: option.splits)
qed

section \<open>A concrete database for the witnesses\<close>

text \<open>
  Three stored references: 1 is canonical, 2 is pending, 3 was made a duplicate of 1 by a person.
\<close>

definition sample_decision ::
    "uuid \<Rightarrow> uuid \<Rightarrow> decision_authority \<Rightarrow> duplicate_determination \<Rightarrow> uuid option \<Rightarrow> bool \<Rightarrow> duplicate_decision" where
  "sample_decision i r auth det can act =
     \<lparr> rdd_id = i, rdd_reference_id = r, rdd_decision_authority = auth,
       rdd_decision_trigger = (if auth = DA_PERSON then DT_MANUAL_API else DT_IMPORT),
       rdd_enhancement_id = None, rdd_active_decision = act, rdd_candidate_canonical_ids = [],
       rdd_duplicate_determination = det, rdd_canonical_reference_id = can, rdd_detail = None \<rparr>"

definition sample_db :: db where
  "sample_db =
     \<lparr> db_references = map (\<lambda>i. \<lparr> refr_id = i, refr_visibility = VIS_PUBLIC \<rparr>) [1, 2, 3],
       db_identifiers = [], db_enhancements = [],
       db_decisions =
         [sample_decision 11 1 DA_SYSTEM DD_CANONICAL None True,
          sample_decision 12 2 DA_SYSTEM DD_PENDING None False,
          sample_decision 13 3 DA_PERSON DD_DUPLICATE (Some 1) True] \<rparr>"

lemma sample_db_ok: "db_ok sample_db"
  by code_simp

lemma sample_db_star_forest: "star_forest sample_db"
  by code_simp

section \<open>Properties\<close>

text \<open>
  C1 (refinement). Applying a decision that is not in force refines the abstract assignment: the
  call either puts exactly the proposed decision in force for its reference and changes the
  decision in force of no other reference, or files it as an inactive decoupled decision and
  changes no decision in force at all.
\<close>

theorem map_duplicate_decision_refines:
  assumes "db_ok db" and "not_in_force d db"
    and "map_duplicate_decision d allow db = Inr (new, changed, deact, db')"
  shows "(new = d \<lparr> rdd_active_decision := True \<rparr> \<and>
            decision_view db' = assign_decision new (decision_view db)) \<or>
         (rdd_duplicate_determination new = DD_DECOUPLED \<and> \<not> rdd_active_decision new \<and>
            deact = None \<and> decision_view db' = decision_view db)"
  using assms by (rule map_decision_effect)

theorem map_duplicate_decision_refines_witness:
  "\<exists>new changed deact db'.
     map_duplicate_decision (sample_decision 12 2 DA_SYSTEM DD_DUPLICATE (Some 1) False) False sample_db
       = Inr (new, changed, deact, db') \<and>
     decision_view db' 2 = Some new \<and> decision_view db' 1 = decision_view sample_db 1"
proof -
  let ?d = "sample_decision 12 2 DA_SYSTEM DD_DUPLICATE (Some 1) False"
  obtain new changed deact db' where m: "map_duplicate_decision ?d False sample_db = Inr (new, changed, deact, db')"
    and n: "rdd_active_decision new"
  proof -
    have "case map_duplicate_decision ?d False sample_db of
            Inr (new, changed, deact, db') \<Rightarrow> rdd_active_decision new | Inl _ \<Rightarrow> False"
      by code_simp
    then show thesis using that by (auto split: sum.splits)
  qed
  have "not_in_force ?d sample_db" by code_simp
  from map_duplicate_decision_refines [OF sample_db_ok this m] n
  have "new = ?d \<lparr> rdd_active_decision := True \<rparr>"
    "decision_view db' = assign_decision new (decision_view sample_db)" by auto
  then have "decision_view db' 2 = Some new" "decision_view db' 1 = decision_view sample_db 1"
    by (simp_all add: assign_decision_def sample_decision_def)
  with m show ?thesis by blast
qed

text \<open>
  A call that returns keeps the constraints of the tables (primary keys, one
  decision in force per reference, foreign keys) and leaves only decisions that pass the model's
  validators.
\<close>

lemma map_duplicate_decision_invariant:
  assumes "db_ok db" and "map_duplicate_decision d allow db = Inr (new, changed, deact, db')"
  shows "db_ok db' \<and> new \<in> set (db_decisions db') \<and> decision_valid new"
proof -
  have "db_ok db'" using map_duplicate_decision_ok [OF assms] .
  moreover obtain db1 where "decisions_merge new db1 = Inr (new, db')"
    using map_duplicate_decision_Inr [OF assms] by metis
  ultimately show ?thesis by (auto simp: result_simps set_upsert_row)
qed

lemma map_duplicate_decision_invariant_witness:
  "\<exists>new changed deact db'.
     map_duplicate_decision (sample_decision 12 2 DA_SYSTEM DD_CANONICAL None False) False sample_db
       = Inr (new, changed, deact, db') \<and> db_ok db'"
proof -
  have "case map_duplicate_decision (sample_decision 12 2 DA_SYSTEM DD_CANONICAL None False) False sample_db
        of Inr _ \<Rightarrow> True | Inl _ \<Rightarrow> False"
    by code_simp
  then obtain new changed deact db' where
    m: "map_duplicate_decision (sample_decision 12 2 DA_SYSTEM DD_CANONICAL None False) False sample_db
       = Inr (new, changed, deact, db')"
    by (auto split: sum.splits)
  with map_duplicate_decision_invariant [OF sample_db_ok m] show ?thesis by blast
qed

text \<open>
  C2 (invariant). The graph of duplicates stays a forest of depth one: when every reference that is
  in force a duplicate points at a reference that is in force canonical, this still holds after a
  canonical or duplicate decision is applied, destructive or not.
\<close>

theorem map_duplicate_decision_star_forest:
  assumes "db_ok db" and "star_forest db" and "not_in_force d db" and "decision_valid d"
    and "rdd_duplicate_determination d = DD_CANONICAL \<or> rdd_duplicate_determination d = DD_DUPLICATE"
    and "map_duplicate_decision d allow db = Inr (new, changed, deact, db')"
  shows "star_forest db'"
  using map_decision_star_forest [OF assms(1,2,3,5) _ assms(6)] assms(4) by (simp add: decision_valid_def)

theorem map_duplicate_decision_star_forest_witness:
  "\<exists>new changed deact db'.
     map_duplicate_decision (sample_decision 12 2 DA_SYSTEM DD_DUPLICATE (Some 1) False) False sample_db
       = Inr (new, changed, deact, db') \<and> star_forest db'"
proof -
  let ?d = "sample_decision 12 2 DA_SYSTEM DD_DUPLICATE (Some 1) False"
  have "case map_duplicate_decision ?d False sample_db of Inr _ \<Rightarrow> True | Inl _ \<Rightarrow> False"
    by code_simp
  then obtain new changed deact db' where
    m: "map_duplicate_decision ?d False sample_db = Inr (new, changed, deact, db')"
    by (auto split: sum.splits)
  have "not_in_force ?d sample_db" "decision_valid ?d" by code_simp+
  from map_duplicate_decision_star_forest [OF sample_db_ok sample_db_star_forest this _ m] m
  show ?thesis by (auto simp: sample_decision_def)
qed

text \<open>
  C3 (safety). An automatic decision never displaces one that a person made: without the
  destructive flag the call leaves every decision in force as it is, reports no change, and keeps
  the proposal as a decoupled decision.
\<close>

theorem person_decision_protected:
  assumes "db_ok db" and "not_in_force d db"
    and "decision_view db (rdd_reference_id d) = Some a" and "rdd_decision_authority a = DA_PERSON"
    and "rdd_decision_authority d = DA_SYSTEM"
    and "map_duplicate_decision d False db = Inr (new, changed, deact, db')"
  shows "decision_view db' = decision_view db \<and> \<not> changed \<and>
         rdd_duplicate_determination new = DD_DECOUPLED"
proof -
  obtain act where res: "resolve_decision (active_decision_of db (rdd_reference_id d))
       (duplicate_rows_of db (rdd_reference_id d) \<noteq> []) False d = (new, changed, act, deact)"
    using map_duplicate_decision_Inr [OF assms(1,6)] by metis
  have p: "person_protected (active_decision_of db (rdd_reference_id d)) d False"
    using assms(3-5) by (simp add: person_protected_def decision_view_def)
  then have *: "act = active_decision_of db (rdd_reference_id d)" "\<not> rdd_active_decision new" "\<not> changed"
    "rdd_duplicate_determination new = DD_DECOUPLED"
    using res by (auto simp: resolve_decision_def Let_def person_protected_def split: option.splits)
  then show ?thesis using view_after_decoupled [OF assms(1,2,6) res] by blast
qed

theorem person_decision_protected_witness:
  "\<exists>new changed deact db'.
     map_duplicate_decision (sample_decision 14 3 DA_SYSTEM DD_CANONICAL None False) False sample_db
       = Inr (new, changed, deact, db') \<and> decision_view db' = decision_view sample_db"
proof -
  let ?d = "sample_decision 14 3 DA_SYSTEM DD_CANONICAL None False"
  have "case map_duplicate_decision ?d False sample_db of Inr _ \<Rightarrow> True | Inl _ \<Rightarrow> False"
    by code_simp
  then obtain new changed deact db' where
    m: "map_duplicate_decision ?d False sample_db = Inr (new, changed, deact, db')"
    by (auto split: sum.splits)
  have nf: "not_in_force ?d sample_db" by code_simp
  have v: "decision_view sample_db (rdd_reference_id ?d) =
        Some (sample_decision 13 3 DA_PERSON DD_DUPLICATE (Some 1) True)" by code_simp
  from person_decision_protected [OF sample_db_ok nf v _ _ m] m
  show ?thesis by (auto simp: sample_decision_def)
qed

text \<open>
  C4 (termination and errors). The call returns for every proposal that passes the validators, is
  terminal, belongs to a stored reference, respects the foreign keys and, if it names a canonical,
  names another stored reference whose decision in force is canonical. It raises a
  \<^verbatim>\<open>DeduplicationValueError\<close> when the determination is not terminal, when the reference is its
  own canonical, or when the canonical is stored but not in force canonical.
\<close>

theorem map_duplicate_decision_outcome:
  assumes "db_ok db"
  shows "(decision_valid d \<and> terminal_determination (rdd_duplicate_determination d) \<and>
          rdd_reference_id d \<in> refr_id ` set (db_references db) \<and> decision_foreign_keys db d \<and>
          (\<forall>c. rdd_canonical_reference_id d = Some c \<longrightarrow> c \<noteq> rdd_reference_id d \<and> in_force_canonical db c) \<longrightarrow>
          (\<exists>r. map_duplicate_decision d allow db = Inr r)) \<and>
         (\<not> terminal_determination (rdd_duplicate_determination d) \<or>
          rdd_canonical_reference_id d = Some (rdd_reference_id d) \<or>
          (\<exists>c. rdd_canonical_reference_id d = Some c \<and> c \<in> refr_id ` set (db_references db) \<and>
             \<not> in_force_canonical db c) \<longrightarrow>
          map_duplicate_decision d allow db = Inl DeduplicationValueError)"
proof (intro conjI impI)
  assume h: "decision_valid d \<and> terminal_determination (rdd_duplicate_determination d) \<and>
         rdd_reference_id d \<in> refr_id ` set (db_references db) \<and> decision_foreign_keys db d \<and>
         (\<forall>c. rdd_canonical_reference_id d = Some c \<longrightarrow> c \<noteq> rdd_reference_id d \<and> in_force_canonical db c)"
  have "check_canonical_target d db = Inr ()"
  proof (cases "rdd_canonical_reference_id d")
    case (Some c)
    with h have "c \<in> refr_id ` set (db_references db)"
      by (auto simp: decision_foreign_keys_def)
    with check_canonical_target_eq [OF assms Some] h Some show ?thesis by auto
  qed (simp add: check_canonical_target_def)
  with map_duplicate_decision_returns [OF assms] h show "\<exists>r. map_duplicate_decision d allow db = Inr r"
    by blast
next
  assume "\<not> terminal_determination (rdd_duplicate_determination d) \<or>
          rdd_canonical_reference_id d = Some (rdd_reference_id d) \<or>
          (\<exists>c. rdd_canonical_reference_id d = Some c \<and> c \<in> refr_id ` set (db_references db) \<and>
             \<not> in_force_canonical db c)"
  then show "map_duplicate_decision d allow db = Inl DeduplicationValueError"
    using check_canonical_target_eq [OF assms, of d]
    by (auto simp: map_duplicate_decision_def check_canonical_target_def split: if_splits)
qed

theorem map_duplicate_decision_outcome_witness:
  "map_duplicate_decision (sample_decision 12 2 DA_SYSTEM DD_DUPLICATE (Some 3) False) False sample_db =
     Inl DeduplicationValueError"
proof -
  have "decision_view sample_db 3 = Some (sample_decision 13 3 DA_PERSON DD_DUPLICATE (Some 1) True)"
    by code_simp
  moreover have "3 \<in> refr_id ` set (db_references sample_db)" by code_simp
  ultimately show ?thesis
    using map_duplicate_decision_outcome [OF sample_db_ok,
      of "sample_decision 12 2 DA_SYSTEM DD_DUPLICATE (Some 3) False" False]
    by (auto simp: sample_decision_def in_force_canonical_def)
qed

text \<open>
  A canonical reference with
  duplicates that is processed again and found unsearchable goes through: the decision in force
  becomes \<^verbatim>\<open>UNSEARCHABLE\<close> while its duplicates keep pointing at it, and the graph is no longer a
  forest of depth one. The guard on references with duplicates covers only \<^verbatim>\<open>DUPLICATE\<close>.
\<close>

lemma unsearchable_breaks_star_forest:
  "\<exists>db d new changed deact db'. db_ok db \<and> star_forest db \<and> not_in_force d db \<and> decision_valid d \<and>
     rdd_decision_authority d = DA_SYSTEM \<and>
     map_duplicate_decision d False db = Inr (new, changed, deact, db') \<and> \<not> star_forest db'"
proof -
  let ?d = "sample_decision 14 1 DA_SYSTEM DD_UNSEARCHABLE None False"
  have "case map_duplicate_decision ?d False sample_db of
          Inr (new, changed, deact, db') \<Rightarrow> \<not> star_forest db' | Inl _ \<Rightarrow> False"
    by code_simp
  then obtain new changed deact db' where
    "map_duplicate_decision ?d False sample_db = Inr (new, changed, deact, db')" "\<not> star_forest db'"
    by (auto split: sum.splits)
  moreover have "not_in_force ?d sample_db" "decision_valid ?d" "rdd_decision_authority ?d = DA_SYSTEM"
    by code_simp+
  ultimately show ?thesis using sample_db_ok sample_db_star_forest by blast
qed

end
