(* ===== verification/Identifier_Shortcut.thy ===== *)
theory Identifier_Shortcut
  imports Duplicate_Decisions
begin

text \<open>
  Deduplication through trusted identifiers:
  \<^verbatim>\<open>DeduplicationService.shortcut_deduplication_using_identifiers\<close>.

  References that share a trusted identifier (an OpenAlex work, say) with the one being processed
  are its candidates. They are pulled into one tree of duplicates, unless they already belong to
  several trees. The operation is a sequence of calls of \<open>map_duplicate_decision\<close>, so the
  invariants of that operation carry over to the whole sequence.

  Two things come from outside: \<open>set_order\<close>, the order in which Python iterates over a set, and
  \<open>fresh_id\<close>, the generated identifier of the decision written for a candidate.
\<close>

section \<open>The operation\<close>

text \<open>The canonical a candidate leads to, and whether it is undecided.\<close>

definition candidate_undecided :: "reference \<Rightarrow> bool" where
  "candidate_undecided candidate =
     (case ref_duplicate_decision candidate of
        None \<Rightarrow> True
      | Some d \<Rightarrow> rdd_duplicate_determination d = DD_UNSEARCHABLE)"

definition candidate_canonical_id :: "reference \<Rightarrow> uuid option" where
  "candidate_canonical_id candidate =
     (if candidate_undecided candidate then None
      else if is_true (is_canonical candidate) then Some (ref_id candidate)
      else (case ref_duplicate_decision candidate of
              None \<Rightarrow> None | Some d \<Rightarrow> rdd_canonical_reference_id d))"

definition side_effect_decision ::
    "uuid \<Rightarrow> uuid \<Rightarrow> uuid \<Rightarrow> uuid \<Rightarrow> decision_trigger \<Rightarrow> duplicate_decision" where
  "side_effect_decision new_id candidate_id canonical_id proxy_id trigger =
     \<lparr> rdd_id = new_id, rdd_reference_id = candidate_id, rdd_decision_authority = DA_SYSTEM,
       rdd_decision_trigger = (if trigger \<noteq> DT_UNCLASSIFIED then trigger else DT_IMPORT),
       rdd_enhancement_id = None, rdd_active_decision = False, rdd_candidate_canonical_ids = [],
       rdd_duplicate_determination = DD_DUPLICATE, rdd_canonical_reference_id = Some canonical_id,
       rdd_detail = Some (''Shortcutted via proxy reference '' @ str_uuid proxy_id
                          @ '' with trusted identifier(s)'') \<rparr>"

text \<open>The loop over the undecided candidates, with the guard against concurrent decisions.\<close>

fun shortcut_side_effects ::
    "(uuid \<times> duplicate_determination) list \<Rightarrow> (uuid \<Rightarrow> uuid) \<Rightarrow> uuid \<Rightarrow> uuid \<Rightarrow> decision_trigger \<Rightarrow>
     uuid list \<Rightarrow> db \<Rightarrow> (duplicate_decision list \<times> db) result" where
  "shortcut_side_effects existing fresh_id canonical_id proxy_id trigger [] db = Inr ([], db)"
| "shortcut_side_effects existing fresh_id canonical_id proxy_id trigger (c # cs) db =
     (if (case map_of existing c of None \<Rightarrow> False | Some det \<Rightarrow> det \<noteq> DD_UNSEARCHABLE)
      then shortcut_side_effects existing fresh_id canonical_id proxy_id trigger cs db
      else res_bind
             (map_duplicate_decision
                (side_effect_decision (fresh_id c) c canonical_id proxy_id trigger) False db)
             (\<lambda>(decision, _, _, db1).
           res_bind (shortcut_side_effects existing fresh_id canonical_id proxy_id trigger cs db1)
             (\<lambda>(ds, db2). Inr (decision # ds, db2))))"

definition multiple_canonicals_detail :: "uuid list \<Rightarrow> string" where
  "multiple_canonicals_detail ids =
     ''Multiple canonical references found for trusted unique identifiers. This may indicate we have disconnected duplicate relationship graphs. Manual review required. Canonical IDs: ''
     @ str_join '', '' (map str_uuid ids)"

text \<open>The end of the operation, once the canonical of the tree is known.\<close>

definition shortcut_apply ::
    "(uuid list \<Rightarrow> uuid list) \<Rightarrow> (uuid \<Rightarrow> uuid) \<Rightarrow> uuid \<Rightarrow> uuid list \<Rightarrow> uuid \<Rightarrow> duplicate_decision \<Rightarrow> db \<Rightarrow>
     (duplicate_decision list option \<times> db) result" where
  "shortcut_apply set_order fresh_id canonical_id undeduplicated_ids proxy_id decision db =
     res_bind (map_duplicate_decision decision False db) (\<lambda>(decision', _, _, db1).
       (let existing = get_active_decision_determinations db1 undeduplicated_ids
        in res_bind
             (shortcut_side_effects existing fresh_id canonical_id proxy_id
                (rdd_decision_trigger decision') (set_order undeduplicated_ids) db1)
             (\<lambda>(side_effects, db2). Inr (Some (decision' # side_effects), db2))))"

text \<open>The cases of the operation, on the candidates other than the reference itself.\<close>

definition shortcut_on_candidates ::
    "(uuid list \<Rightarrow> uuid list) \<Rightarrow> (uuid \<Rightarrow> uuid) \<Rightarrow> uuid \<Rightarrow> bool \<Rightarrow> reference list \<Rightarrow>
     duplicate_decision \<Rightarrow> db \<Rightarrow> (duplicate_decision list option \<times> db) result" where
  "shortcut_on_candidates set_order fresh_id reference_id has_trusted candidates decision db =
     (if candidates = [] then
        (if \<not> has_trusted then Inr (None, db)
         else res_bind (map_duplicate_decision
                (decision \<lparr> rdd_duplicate_determination := DD_CANONICAL,
                   rdd_detail := Some ''New reference with trusted identifier(s), no existing matches'' \<rparr>)
                False db) (\<lambda>(decision', _, _, db1). Inr (Some [decision'], db1)))
      else
        (let canonical_ids = dict_fromkeys (List.map_filter candidate_canonical_id candidates);
             undeduplicated_ids = dict_fromkeys (map ref_id (filter candidate_undecided candidates))
         in case canonical_ids of
              [] \<Rightarrow>
                shortcut_apply set_order fresh_id reference_id undeduplicated_ids reference_id
                  (decision \<lparr> rdd_duplicate_determination := DD_CANONICAL,
                     rdd_detail := Some ''Shortcutted with trusted identifier(s)'' \<rparr>) db
            | [canonical_id] \<Rightarrow>
                shortcut_apply set_order fresh_id canonical_id undeduplicated_ids reference_id
                  (decision \<lparr> rdd_duplicate_determination := DD_DUPLICATE,
                     rdd_canonical_reference_id := Some canonical_id,
                     rdd_detail := Some ''Shortcutted with trusted identifier(s)'' \<rparr>) db
            | _ \<Rightarrow>
                res_bind (decisions_update_by_pk
                  (\<lambda>d. d \<lparr> rdd_duplicate_determination := DD_DECOUPLED,
                     rdd_detail := Some (multiple_canonicals_detail (set_order canonical_ids)) \<rparr>)
                  (rdd_id decision) db) (\<lambda>(d', db1). Inr (Some [d'], db1))))"

definition shortcut_deduplication_using_identifiers ::
    "(uuid list \<Rightarrow> uuid list) \<Rightarrow> (uuid \<Rightarrow> uuid) \<Rightarrow> external_identifier_type list \<Rightarrow>
     duplicate_decision \<Rightarrow> db \<Rightarrow> (duplicate_decision list option \<times> db) result" where
  "shortcut_deduplication_using_identifiers set_order fresh_id trusted decision db =
     (if rdd_duplicate_determination decision \<noteq> DD_PENDING then Inl DeduplicationValueError
      else res_bind (references_get_by_pk db (rdd_reference_id decision)
                       [PL_identifiers, PL_duplicate_decision]) (\<lambda>reference.
      (if opt_list (ref_identifiers reference) = [] then Inr (None, db)
       else
         (let trusted_identifiers =
                map (\<lambda>i. from_specific (lei_identifier i))
                  (filter (\<lambda>i. identifier_type (lei_identifier i) \<in> set trusted)
                     (opt_list (ref_identifiers reference)))
          in res_bind (find_with_identifiers db trusted_identifiers [PL_duplicate_decision] MATCH_ANY)
               (\<lambda>found. shortcut_on_candidates set_order fresh_id (ref_id reference)
                  (trusted_identifiers \<noteq> []) (filter (\<lambda>c. ref_id c \<noteq> ref_id reference) found)
                  decision db)))))"

text \<open>What the sequence relies on: the set order enumerates the set, the identifiers are new.\<close>

definition set_order_ok :: "(uuid list \<Rightarrow> uuid list) \<Rightarrow> bool" where
  "set_order_ok f = (\<forall>xs. distinct (f xs) \<and> set (f xs) = set xs)"

definition fresh_ids_ok :: "(uuid \<Rightarrow> uuid) \<Rightarrow> uuid \<Rightarrow> db \<Rightarrow> bool" where
  "fresh_ids_ok fresh_id own db =
     (inj fresh_id \<and> own \<notin> range fresh_id \<and>
      list_all (\<lambda>d. rdd_id d \<notin> range fresh_id) (db_decisions db))"

section \<open>Sequences of mapped decisions\<close>

lemma map_decision_ids:
  assumes "db_ok db" and "map_duplicate_decision d allow db = Inr (new, changed, deact, db')"
    and "x \<in> set (db_decisions db')"
  shows "rdd_id x = rdd_id d \<or> (\<exists>y \<in> set (db_decisions db). rdd_id y = rdd_id x)"
proof -
  obtain act where res: "resolve_decision (active_decision_of db (rdd_reference_id d))
       (duplicate_rows_of db (rdd_reference_id d) \<noteq> []) allow d = (new, changed, act, deact)"
    using map_duplicate_decision_Inr [OF assms(1,2)] by metis
  have "rdd_id a \<in> rdd_id ` set (db_decisions db)" if "act = Some a" for a
    using res that active_decision_of_Some(1) [of db "rdd_reference_id d"]
    by (cases rule: resolve_decision_cases) (auto simp: image_iff)
  then show ?thesis
    using assms(3) map_duplicate_decision_rows(1) [OF assms(1,2) res] resolve_decision_ids(1) [OF res]
    by (fastforce split: option.splits)
qed

lemma side_effect_decision_fields [simp]:
  "rdd_id (side_effect_decision i c k p t) = i"
  "rdd_reference_id (side_effect_decision i c k p t) = c"
  "rdd_duplicate_determination (side_effect_decision i c k p t) = DD_DUPLICATE"
  "rdd_canonical_reference_id (side_effect_decision i c k p t) = Some k"
  "rdd_decision_authority (side_effect_decision i c k p t) = DA_SYSTEM"
  by (simp_all add: side_effect_decision_def)

lemma side_effect_decision_valid: "decision_valid (side_effect_decision i c k p t)"
  by (simp add: decision_valid_def check_provenance_is_classified_together_def
      check_canonical_iff_duplicate_def check_active_decision_is_terminal_def side_effect_decision_def)

lemma side_effect_ids_fresh:
  assumes "db_ok db"
    and "map_duplicate_decision (side_effect_decision (fresh_id c) c k p t) False db = Inr (new, ch, de, db1)"
    and "x \<in> set (db_decisions db1)" and "inj fresh_id" and "distinct (c # cs)"
    and "\<And>d. d \<in> set (db_decisions db) \<Longrightarrow> rdd_id d \<notin> fresh_id ` set (c # cs)"
  shows "rdd_id x \<notin> fresh_id ` set cs"
  using map_decision_ids [OF assms(1-3)]
proof
  assume "rdd_id x = rdd_id (side_effect_decision (fresh_id c) c k p t)"
  with assms(4,5) show ?thesis by (auto dest: injD)
next
  assume "\<exists>y \<in> set (db_decisions db). rdd_id y = rdd_id x"
  with assms(6) show ?thesis by fastforce
qed

lemma side_effects_invariant:
  assumes "shortcut_side_effects existing fresh_id k p t cs db = Inr (ds, db')"
    and "db_ok db" and "star_forest db" and "inj fresh_id" and "distinct cs"
    and "\<And>d. d \<in> set (db_decisions db) \<Longrightarrow> rdd_id d \<notin> fresh_id ` set cs"
  shows "db_ok db' \<and> star_forest db'"
  using assms
proof (induction cs arbitrary: db ds)
  case (Cons c cs)
  show ?case
  proof (cases "case map_of existing c of None \<Rightarrow> False | Some det \<Rightarrow> det \<noteq> DD_UNSEARCHABLE")
    case True
    with Cons.prems show ?thesis by (intro Cons.IH) auto
  next
    case False
    let ?d = "side_effect_decision (fresh_id c) c k p t"
    from Cons.prems(1) False obtain new ch de db1 ds1 where
      m: "map_duplicate_decision ?d False db = Inr (new, ch, de, db1)"
      and rest: "shortcut_side_effects existing fresh_id k p t cs db1 = Inr (ds1, db')"
      by (auto simp: res_bind_Inr_iff)
    have nf: "not_in_force ?d db"
      using Cons.prems(6) by (fastforce simp: not_in_force_def list_all_iff)
    have sf: "star_forest db1"
      using map_decision_star_forest [OF Cons.prems(2,3) nf _ _ m] side_effect_decision_valid
      by (simp add: decision_valid_def)
    have "rdd_id x \<notin> fresh_id ` set cs" if "x \<in> set (db_decisions db1)" for x
      using side_effect_ids_fresh [OF Cons.prems(2) m that Cons.prems(4,5,6)] .
    with Cons.IH [OF rest map_duplicate_decision_ok [OF Cons.prems(2) m] sf Cons.prems(4)]
      Cons.prems(5) show ?thesis by simp
  qed
qed simp

text \<open>Updating a row that is not in force, without activating it, changes no decision in force.\<close>

lemma update_inactive_view:
  assumes ok: "db_ok db" and u: "decisions_update_by_pk f pk db = Inr (d', db')"
    and inact: "\<And>d. d \<in> set (db_decisions db) \<Longrightarrow> rdd_id d = pk \<Longrightarrow> \<not> rdd_active_decision d"
    and f: "\<And>d. rdd_id (f d) = rdd_id d \<and> rdd_active_decision (f d) = rdd_active_decision d"
  shows "db_ok db'" and "decision_view db' = decision_view db" and "db_references db' = db_references db"
proof -
  from u obtain r where r: "find (\<lambda>x. rdd_id x = pk) (db_decisions db) = Some r"
    and db': "d' = f r" "db' = db \<lparr> db_decisions := replace_row rdd_id (f r) (db_decisions db) \<rparr>"
    by (auto simp: result_simps)
  note r' = find_Some_set [OF r]
  show "db_references db' = db_references db" using db' by simp
  show ok': "db_ok db'" using decisions_update_by_pk_ok [OF ok u] .
  have rows: "x \<in> set (db_decisions db') \<and> rdd_active_decision x \<longleftrightarrow>
      x \<in> set (db_decisions db) \<and> rdd_active_decision x" for x
    using db' r' inact f by (auto simp: set_replace_row split: if_splits)
  show "decision_view db' = decision_view db"
    by (rule decision_view_eqI [OF ok'])
      (use rows active_decision_of_iff [OF ok] in \<open>auto simp: decision_view_def\<close>)
qed

lemma shortcut_apply_invariant:
  assumes a: "shortcut_apply set_order fresh_id k und p d db = Inr (ds, db')"
    and ok: "db_ok db" and sf: "star_forest db" and nf: "not_in_force d db"
    and det: "rdd_duplicate_determination d = DD_CANONICAL \<or> rdd_duplicate_determination d = DD_DUPLICATE"
    and dv: "check_canonical_iff_duplicate d"
    and so: "set_order_ok set_order" and fr: "fresh_ids_ok fresh_id (rdd_id d) db"
  shows "db_ok db' \<and> star_forest db'"
proof -
  from a obtain d' ch de db1 ds1 where
    m: "map_duplicate_decision d False db = Inr (d', ch, de, db1)"
    and s: "shortcut_side_effects (get_active_decision_determinations db1 und) fresh_id k p
              (rdd_decision_trigger d') (set_order und) db1 = Inr (ds1, db')"
    by (auto simp: shortcut_apply_def Let_def res_bind_Inr_iff)
  note ok1 = map_duplicate_decision_ok [OF ok m]
  note sf1 = map_decision_star_forest [OF ok sf nf det dv m]
  have "rdd_id x \<notin> fresh_id ` set (set_order und)" if "x \<in> set (db_decisions db1)" for x
    using map_decision_ids [OF ok m that] fr by (auto simp: fresh_ids_ok_def list_all_iff)
  then show ?thesis
    using side_effects_invariant [OF s ok1 sf1] so fr by (simp add: set_order_ok_def fresh_ids_ok_def)
qed

text \<open>The three shapes of a call that returns: nothing, one decoupled decision, or an application.\<close>

lemma shortcut_cases:
  assumes "shortcut_deduplication_using_identifiers set_order fresh_id trusted d db = Inr (res, db')"
  obtains
    (unchanged) "res = None" "db' = db"
  | (fresh) d' ch de where "map_duplicate_decision
        (d \<lparr> rdd_duplicate_determination := DD_CANONICAL,
             rdd_detail := Some ''New reference with trusted identifier(s), no existing matches'' \<rparr>) False db =
        Inr (d', ch, de, db')" "res = Some [d']"
  | (root) und where "shortcut_apply set_order fresh_id (rdd_reference_id d) und (rdd_reference_id d)
        (d \<lparr> rdd_duplicate_determination := DD_CANONICAL,
             rdd_detail := Some ''Shortcutted with trusted identifier(s)'' \<rparr>) db = Inr (res, db')"
  | (child) k und where "shortcut_apply set_order fresh_id k und (rdd_reference_id d)
        (d \<lparr> rdd_duplicate_determination := DD_DUPLICATE, rdd_canonical_reference_id := Some k,
             rdd_detail := Some ''Shortcutted with trusted identifier(s)'' \<rparr>) db = Inr (res, db')"
  | (several) d' ids where "decisions_update_by_pk
        (\<lambda>d. d \<lparr> rdd_duplicate_determination := DD_DECOUPLED,
                rdd_detail := Some (multiple_canonicals_detail (set_order ids)) \<rparr>) (rdd_id d) db =
        Inr (d', db')" "res = Some [d']"
proof -
  have "(res = None \<and> db' = db) \<or>
      (\<exists>t cs. shortcut_on_candidates set_order fresh_id (rdd_reference_id d) t cs d db = Inr (res, db'))"
    using assms by (auto simp: shortcut_deduplication_using_identifiers_def Let_def res_bind_Inr_iff
        dest: references_get_by_pk_id split: if_splits)
  then consider "res = None \<and> db' = db"
    | t cs where "shortcut_on_candidates set_order fresh_id (rdd_reference_id d) t cs d db = Inr (res, db')"
    by blast
  then show thesis
  proof cases
    case 1
    with unchanged show thesis by blast
  next
    case (2 t cs)
    note sc = 2 [unfolded shortcut_on_candidates_def Let_def]
    show thesis
    proof (cases "cs = []")
      case True
      with sc unchanged fresh show thesis by (auto simp: res_bind_Inr_iff split: if_splits)
    next
      case False
      show thesis
      proof (cases "dict_fromkeys (List.map_filter candidate_canonical_id cs)")
        case Nil
        with False sc root show thesis by simp
      next
        case (Cons k ks)
        with False sc child several [where ids = "k # ks"] show thesis
          by (cases ks) (auto simp: res_bind_Inr_iff)
      qed
    qed
  qed
qed

lemma shortcut_invariant:
  assumes s: "shortcut_deduplication_using_identifiers set_order fresh_id trusted d db = Inr (res, db')"
    and ok: "db_ok db" and sf: "star_forest db" and nf: "not_in_force d db" and dv: "decision_valid d"
    and pend: "rdd_duplicate_determination d = DD_PENDING"
    and so: "set_order_ok set_order" and fr: "fresh_ids_ok fresh_id (rdd_id d) db"
  shows "db_ok db' \<and> star_forest db'"
proof -
  have can: "rdd_canonical_reference_id d = None"
    using dv pend by (simp add: decision_valid_def check_canonical_iff_duplicate_def)
  have nf': "not_in_force (d \<lparr> rdd_duplicate_determination := x, rdd_canonical_reference_id := y, rdd_detail := z \<rparr>) db"
    "not_in_force (d \<lparr> rdd_duplicate_determination := x, rdd_detail := z \<rparr>) db" for x y z
    using nf by (simp_all add: not_in_force_def)
  from s show ?thesis
  proof (cases rule: shortcut_cases)
    case unchanged
    with ok sf show ?thesis by simp
  next
    case (fresh d' ch de)
    then show ?thesis
      using map_duplicate_decision_ok [OF ok fresh(1)] map_decision_star_forest [OF ok sf nf'(2) _ _ fresh(1)] can
      by (simp add: check_canonical_iff_duplicate_def)
  next
    case (root und)
    show ?thesis
      by (rule shortcut_apply_invariant [OF root ok sf nf'(2) _ _ so])
        (use can fr in \<open>simp_all add: check_canonical_iff_duplicate_def\<close>)
  next
    case (child k und)
    show ?thesis
      by (rule shortcut_apply_invariant [OF child ok sf nf'(1) _ _ so])
        (use fr in \<open>simp_all add: check_canonical_iff_duplicate_def\<close>)
  next
    case (several d' ids)
    have "\<not> rdd_active_decision x" if "x \<in> set (db_decisions db)" "rdd_id x = rdd_id d" for x
      using nf that by (simp add: not_in_force_def list_all_iff)
    then have *: "db_ok db'" "decision_view db' = decision_view db" "db_references db' = db_references db"
      using update_inactive_view [OF ok several(1)] by simp_all
    then show ?thesis using star_forest_same_view [OF ok *(1) sf *(3,2)] by simp
  qed
qed

section \<open>What a call changes\<close>

lemma map_decision_other_view:
  assumes "db_ok db" and "not_in_force d db"
    and "map_duplicate_decision d allow db = Inr (new, changed, deact, db')"
    and "r \<noteq> rdd_reference_id d"
  shows "decision_view db' r = decision_view db r"
  using map_decision_effect [OF assms(1-3)] assms(4)
  by (auto simp: assign_decision_def)

lemma side_effects_view:
  assumes "shortcut_side_effects existing fresh_id k p t cs db = Inr (ds, db')"
    and "db_ok db" and "inj fresh_id" and "distinct cs"
    and "\<And>d. d \<in> set (db_decisions db) \<Longrightarrow> rdd_id d \<notin> fresh_id ` set cs"
    and "r \<in> set cs \<Longrightarrow> \<exists>det. map_of existing r = Some det \<and> det \<noteq> DD_UNSEARCHABLE"
  shows "decision_view db' r = decision_view db r"
  using assms
proof (induction cs arbitrary: db ds)
  case (Cons c cs)
  show ?case
  proof (cases "case map_of existing c of None \<Rightarrow> False | Some det \<Rightarrow> det \<noteq> DD_UNSEARCHABLE")
    case True
    with Cons.prems show ?thesis by (intro Cons.IH) auto
  next
    case False
    let ?d = "side_effect_decision (fresh_id c) c k p t"
    from Cons.prems(1) False obtain new ch de db1 ds1 where
      m: "map_duplicate_decision ?d False db = Inr (new, ch, de, db1)"
      and rest: "shortcut_side_effects existing fresh_id k p t cs db1 = Inr (ds1, db')"
      by (auto simp: res_bind_Inr_iff)
    have nf: "not_in_force ?d db"
      using Cons.prems(5) by (fastforce simp: not_in_force_def list_all_iff)
    have "r \<noteq> c" using False Cons.prems(6) by auto
    then have "decision_view db1 r = decision_view db r"
      using map_decision_other_view [OF Cons.prems(2) nf m] by simp
    moreover have "rdd_id x \<notin> fresh_id ` set cs" if "x \<in> set (db_decisions db1)" for x
      using side_effect_ids_fresh [OF Cons.prems(2) m that Cons.prems(3,4,5)] .
    ultimately show ?thesis
      using Cons.IH [OF rest map_duplicate_decision_ok [OF Cons.prems(2) m] Cons.prems(3)] Cons.prems(4,6)
      by simp
  qed
qed simp

lemma shortcut_apply_view:
  assumes a: "shortcut_apply set_order fresh_id k und p d db = Inr (ds, db')"
    and ok: "db_ok db" and nf: "not_in_force d db"
    and so: "set_order_ok set_order" and fr: "fresh_ids_ok fresh_id (rdd_id d) db"
    and r: "r \<noteq> rdd_reference_id d" "decision_view db r = Some e"
      "rdd_duplicate_determination e \<noteq> DD_UNSEARCHABLE"
  shows "decision_view db' r = decision_view db r"
proof -
  from a obtain d' ch de db1 ds1 where
    m: "map_duplicate_decision d False db = Inr (d', ch, de, db1)"
    and s: "shortcut_side_effects (get_active_decision_determinations db1 und) fresh_id k p
              (rdd_decision_trigger d') (set_order und) db1 = Inr (ds1, db')"
    by (auto simp: shortcut_apply_def Let_def res_bind_Inr_iff)
  note ok1 = map_duplicate_decision_ok [OF ok m]
  have v1: "decision_view db1 r = decision_view db r"
    using map_decision_other_view [OF ok nf m r(1)] .
  have ids: "rdd_id x \<notin> fresh_id ` set (set_order und)" if "x \<in> set (db_decisions db1)" for x
    using map_decision_ids [OF ok m that] fr by (auto simp: fresh_ids_ok_def list_all_iff)
  have "decision_view db' r = decision_view db1 r"
  proof (rule side_effects_view [OF s ok1 _ _ ids])
    show "inj fresh_id" using fr by (simp add: fresh_ids_ok_def)
    show "distinct (set_order und)" using so by (simp add: set_order_ok_def)
    assume "r \<in> set (set_order und)"
    then have "r \<in> set und" using so by (simp add: set_order_ok_def)
    then show "\<exists>det. map_of (get_active_decision_determinations db1 und) r = Some det \<and> det \<noteq> DD_UNSEARCHABLE"
      using r v1 active_determinations_lookup [OF ok1] by (simp add: decision_view_def)
  qed
  with v1 show ?thesis by simp
qed

section \<open>A concrete database for the witnesses\<close>

text \<open>
  References 1 (canonical), 2 (being processed), 3 (undecided) and 4 (a duplicate of 1) carry the
  same OpenAlex identifier.
\<close>

definition works_db :: db where
  "works_db =
     \<lparr> db_references = map (\<lambda>i. \<lparr> refr_id = i, refr_visibility = VIS_PUBLIC \<rparr>) [1, 2, 3, 4],
       db_identifiers =
         map (\<lambda>i. \<lparr> lei_id = 100 + i, lei_identifier = OpenAlexIdentifier ''W1'', lei_reference_id = i \<rparr>)
           [1, 2, 3, 4],
       db_enhancements = [],
       db_decisions =
         [sample_decision 11 1 DA_SYSTEM DD_CANONICAL None True,
          sample_decision 12 2 DA_SYSTEM DD_PENDING None False,
          sample_decision 14 4 DA_SYSTEM DD_DUPLICATE (Some 1) True] \<rparr>"

definition works_pending :: duplicate_decision where
  "works_pending = sample_decision 12 2 DA_SYSTEM DD_PENDING None False"

lemma works_db_ok: "db_ok works_db" "star_forest works_db" "not_in_force works_pending works_db"
  "decision_valid works_pending" "rdd_duplicate_determination works_pending = DD_PENDING"
  by code_simp+

lemma works_fresh: "fresh_ids_ok (\<lambda>c. 1000 + c) (rdd_id works_pending) works_db"
  by (auto simp: fresh_ids_ok_def inj_def works_db_def works_pending_def sample_decision_def)

lemma set_order_dict_fromkeys: "set_order_ok dict_fromkeys"
  by (simp add: set_order_ok_def)

lemma works_shortcut:
  obtains ds db' where "shortcut_deduplication_using_identifiers dict_fromkeys (\<lambda>c. 1000 + c)
      [ID_OPEN_ALEX] works_pending works_db = Inr (Some ds, db')" and "length ds = 2"
proof -
  have "case shortcut_deduplication_using_identifiers dict_fromkeys (\<lambda>c. 1000 + c) [ID_OPEN_ALEX]
          works_pending works_db of
          Inr (Some ds, db') \<Rightarrow> length ds = 2 | _ \<Rightarrow> False"
    by code_simp
  then show thesis using that by (auto split: sum.splits option.splits)
qed

section \<open>Properties\<close>

text \<open>
  C6 (invariant). A whole run of the shortcut (the processed reference and every undecided
  candidate, in whatever order Python iterates over the set) keeps the constraints and validators
  of the tables and the forest of depth one.
\<close>

theorem shortcut_keeps_forest:
  assumes "db_ok db" and "star_forest db" and "not_in_force d db" and "decision_valid d"
    and "set_order_ok set_order" and "fresh_ids_ok fresh_id (rdd_id d) db"
    and "shortcut_deduplication_using_identifiers set_order fresh_id trusted d db = Inr (res, db')"
  shows "db_ok db' \<and> star_forest db'"
proof -
  have "rdd_duplicate_determination d = DD_PENDING"
    using assms(7) by (auto simp: shortcut_deduplication_using_identifiers_def split: if_splits)
  then show ?thesis using shortcut_invariant [OF assms(7,1-4) _ assms(5,6)] by blast
qed

theorem shortcut_keeps_forest_witness:
  "\<exists>ds db'. shortcut_deduplication_using_identifiers dict_fromkeys (\<lambda>c. 1000 + c) [ID_OPEN_ALEX]
     works_pending works_db = Inr (Some ds, db') \<and> length ds = 2 \<and> db_ok db' \<and> star_forest db'"
proof -
  obtain ds db' where s: "shortcut_deduplication_using_identifiers dict_fromkeys (\<lambda>c. 1000 + c)
      [ID_OPEN_ALEX] works_pending works_db = Inr (Some ds, db')" "length ds = 2"
    by (rule works_shortcut)
  with shortcut_keeps_forest [OF works_db_ok(1-4) set_order_dict_fromkeys works_fresh s(1)]
  show ?thesis by blast
qed

text \<open>
  C7 (safety). The shortcut never changes a decision that is already made: every reference other
  than the processed one whose decision in force is anything but \<^verbatim>\<open>UNSEARCHABLE\<close> keeps exactly
  that decision, whichever identifiers match.
\<close>

theorem shortcut_keeps_decided:
  assumes "db_ok db" and "not_in_force d db"
    and "set_order_ok set_order" and "fresh_ids_ok fresh_id (rdd_id d) db"
    and "shortcut_deduplication_using_identifiers set_order fresh_id trusted d db = Inr (res, db')"
    and "r \<noteq> rdd_reference_id d" and "decision_view db r = Some e"
    and "rdd_duplicate_determination e \<noteq> DD_UNSEARCHABLE"
  shows "decision_view db' r = Some e"
proof -
  have nf: "not_in_force (d \<lparr> rdd_duplicate_determination := x, rdd_canonical_reference_id := y, rdd_detail := z \<rparr>) db"
    "not_in_force (d \<lparr> rdd_duplicate_determination := x, rdd_detail := z \<rparr>) db" for x y z
    using assms(2) by (simp_all add: not_in_force_def)
  have "decision_view db' r = decision_view db r"
    using assms(5)
  proof (cases rule: shortcut_cases)
    case unchanged
    then show ?thesis by simp
  next
    case (fresh d' ch de)
    then show ?thesis using map_decision_other_view [OF assms(1) nf(2) fresh(1)] assms(6) by simp
  next
    case (root und)
    show ?thesis
      by (rule shortcut_apply_view [OF root assms(1) nf(2) assms(3) _ _ assms(7,8)])
        (use assms(4,6) in simp_all)
  next
    case (child k und)
    show ?thesis
      by (rule shortcut_apply_view [OF child assms(1) nf(1) assms(3) _ _ assms(7,8)])
        (use assms(4,6) in simp_all)
  next
    case (several d' ids)
    have "\<not> rdd_active_decision x" if "x \<in> set (db_decisions db)" "rdd_id x = rdd_id d" for x
      using assms(2) that by (simp add: not_in_force_def list_all_iff)
    then show ?thesis using update_inactive_view(2) [OF assms(1) several(1)] by simp
  qed
  with assms(7) show ?thesis by simp
qed

theorem shortcut_keeps_decided_witness:
  "\<exists>ds db'. shortcut_deduplication_using_identifiers dict_fromkeys (\<lambda>c. 1000 + c) [ID_OPEN_ALEX]
     works_pending works_db = Inr (Some ds, db') \<and>
     decision_view db' 4 = Some (sample_decision 14 4 DA_SYSTEM DD_DUPLICATE (Some 1) True)"
proof -
  obtain ds db' where s: "shortcut_deduplication_using_identifiers dict_fromkeys (\<lambda>c. 1000 + c)
      [ID_OPEN_ALEX] works_pending works_db = Inr (Some ds, db')" "length ds = 2"
    by (rule works_shortcut)
  have "decision_view works_db 4 = Some (sample_decision 14 4 DA_SYSTEM DD_DUPLICATE (Some 1) True)"
    by code_simp
  from shortcut_keeps_decided [OF works_db_ok(1,3) set_order_dict_fromkeys works_fresh s(1) _ this] s
  show ?thesis by (auto simp: works_pending_def sample_decision_def)
qed

end
