(* ===== verification/Projections.thy ===== *)
theory Projections
  imports Reference_Models "HOL-Library.Product_Lexorder"
begin

text \<open>
  Projections of references: \<^verbatim>\<open>src/app/domain/references/models/projections.py\<close>, with the projected
  models of \<^verbatim>\<open>models.py\<close>. A projection folds over the enhancements of a reference in increasing
  priority (those of the canonical last, then by time), so that the last value present wins.

  Python's order of iteration over a set of strings and pydantic's coercion of a JSON value to a
  float are the parameter \<open>projector\<close>.
\<close>

record projector =
  prj_set_order :: "string list \<Rightarrow> string list"
  prj_float :: "json \<Rightarrow> rat option"

definition projector_ok :: "projector \<Rightarrow> bool" where
  "projector_ok pr = (\<forall>xs. distinct (prj_set_order pr xs) \<and> set (prj_set_order pr xs) = set xs)"

section \<open>Priority order\<close>

text \<open>The sort key is evaluated on every element before the sort; a missing timestamp raises.\<close>

definition enhancement_priority :: "uuid \<Rightarrow> enhancement \<Rightarrow> bool \<times> int" where
  "enhancement_priority canonical_id e =
     (enh_reference_id e = canonical_id, case enh_created_at e of None \<Rightarrow> 0 | Some t \<Rightarrow> t)"

definition priority_sorted_enhancements ::
    "uuid \<Rightarrow> enhancement list option \<Rightarrow> enhancement list result" where
  "priority_sorted_enhancements canonical_id enhancements =
     (let es = opt_list enhancements
      in if list_ex (\<lambda>e. enh_created_at e = None) es then Inl PyRuntimeError
         else Inr (sort_key (enhancement_priority canonical_id) es))"

definition position_rank :: "author_position \<Rightarrow> int" where
  "position_rank p = (case p of AP_FIRST \<Rightarrow> -1 | AP_LAST \<Rightarrow> 1 | AP_MIDDLE \<Rightarrow> 0)"

definition order_authorship_by_position :: "bool \<Rightarrow> authorship list \<Rightarrow> string list" where
  "order_authorship_by_position alphabetize authorship =
     map au_display_name
       (sort_key (\<lambda>a. (position_rank (au_position a), if alphabetize then au_display_name a else []))
          authorship)"

section \<open>ReferenceSearchFields\<close>

record reference_search_fields =
  rsf_abstract :: "string option"
  rsf_authors :: "string list"
  rsf_publication_date :: "py_date option"
  rsf_publication_year :: "int option"
  rsf_title :: "string option"
  rsf_annotations :: "string list"
  rsf_evaluated_schemes :: "string list"
  rsf_destiny_inclusion_score :: "rat option"
  rsf_linked_data_content :: "linked_data option"

record candidate_search_fields =
  csf_publication_year :: "int option"
  csf_authors :: "string list"
  csf_title :: "string option"

definition csf_is_searchable :: "candidate_search_fields \<Rightarrow> bool" where
  "csf_is_searchable f =
     (truthy_opt_int (csf_publication_year f) \<and> csf_authors f \<noteq> [] \<and> truthy_opt_str (csf_title f))"

definition to_canonical_candidate_search_fields ::
    "reference_search_fields \<Rightarrow> candidate_search_fields" where
  "to_canonical_candidate_search_fields f =
     \<lparr> csf_publication_year = rsf_publication_year f, csf_authors = rsf_authors f,
       csf_title = rsf_title f \<rparr>"

definition normalise_string_validator :: "string option \<Rightarrow> string option" where
  "normalise_string_validator v = (if truthy_opt_str v then map_option py_strip v else v)"

definition normalise_string_list_validator :: "string list \<Rightarrow> string list" where
  "normalise_string_list_validator vs = map py_strip (filter (\<lambda>v. v \<noteq> []) vs)"

text \<open>\<open>x or y\<close> for lists and optional lists, and for objects that are always truthy.\<close>

definition or_list :: "'a list option \<Rightarrow> 'a list \<Rightarrow> 'a list" where
  "or_list x y = (case x of Some (a # as) \<Rightarrow> a # as | _ \<Rightarrow> y)"

definition or_opt :: "'a option \<Rightarrow> 'a option \<Rightarrow> 'a option" where
  "or_opt x y = (case x of None \<Rightarrow> y | Some a \<Rightarrow> Some a)"

definition bib_year :: "bibliographic_metadata \<Rightarrow> int option" where
  "bib_year b = or_int (bib_publication_year b) (map_option date_year (bib_publication_date b))"

text \<open>The variables of the loop.\<close>

record search_acc =
  sa_title :: "string option"
  sa_year :: "int option"
  sa_date :: "py_date option"
  sa_abstract :: "string option"
  sa_authorship :: "authorship list"
  sa_annotations :: "((string \<times> string) \<times> annotation list) list"
  sa_inclusion :: "annotation option"
  sa_linked_data :: "linked_data option"

definition search_acc0 :: search_acc where
  "search_acc0 = \<lparr> sa_title = None, sa_year = None, sa_date = None, sa_abstract = None,
     sa_authorship = [], sa_annotations = [], sa_inclusion = None, sa_linked_data = None \<rparr>"

text \<open>\<^verbatim>\<open>_annotations[(source, scheme)].append(annotation)\<close> over one enhancement.\<close>

definition annotations_by_scheme ::
    "string \<Rightarrow> annotation list \<Rightarrow> ((string \<times> string) \<times> annotation list) list" where
  "annotations_by_scheme src as =
     fold (\<lambda>a d. AList.update (src, ann_scheme a)
             ((case map_of d (src, ann_scheme a) of None \<Rightarrow> [] | Some xs \<Rightarrow> xs) @ [a]) d) as []"

text \<open>\<^verbatim>\<open>d |= e\<close>.\<close>

definition dict_update :: "('k \<times> 'v) list \<Rightarrow> ('k \<times> 'v) list \<Rightarrow> ('k \<times> 'v) list" where
  "dict_update d e = fold (\<lambda>(k, v) d. AList.update k v d) e d"

text \<open>The registry of singly projected annotations has one entry, a scheme without a label.\<close>

definition last_inclusion :: "annotation list \<Rightarrow> annotation option \<Rightarrow> annotation option" where
  "last_inclusion as prev = or_opt (find (\<lambda>a. ann_scheme a = ''inclusion:destiny'') (rev as)) prev"

definition search_step :: "enhancement \<Rightarrow> search_acc \<Rightarrow> search_acc" where
  "search_step e acc =
     (case enh_content e of
        BibliographicMetadataEnhancement b \<Rightarrow>
          acc \<lparr> sa_title := or_str (bib_title b) (sa_title acc),
                sa_authorship := or_list (bib_authorship b) (sa_authorship acc),
                sa_year := or_int (bib_year b) (sa_year acc),
                sa_date := or_opt (bib_publication_date b) (sa_date acc) \<rparr>
      | AbstractContentEnhancement a \<Rightarrow> acc \<lparr> sa_abstract := Some (abs_abstract a) \<rparr>
      | LinkedDataEnhancement l \<Rightarrow> acc \<lparr> sa_linked_data := Some l \<rparr>
      | AnnotationEnhancement as \<Rightarrow>
          acc \<lparr> sa_inclusion := last_inclusion as (sa_inclusion acc),
                sa_annotations :=
                  dict_update (sa_annotations acc) (annotations_by_scheme (enh_source e) as) \<rparr>
      | _ \<Rightarrow> acc)"

definition positive_boolean :: "annotation \<Rightarrow> bool" where
  "positive_boolean a = (case a of BooleanAnnotation _ _ v _ _ \<Rightarrow> v | ScoreAnnotation _ _ _ _ \<Rightarrow> False)"

definition positive_boolean_annotations ::
    "((string \<times> string) \<times> annotation list) list \<Rightarrow> string list" where
  "positive_boolean_annotations d =
     map qualified_label (filter positive_boolean (concat (dict_values d)))"

text \<open>The score: the free-form datum wins and is whatever JSON it is, then the typed score.\<close>

definition positive_annotation_score :: "annotation option \<Rightarrow> json option" where
  "positive_annotation_score a =
     (case a of
        None \<Rightarrow> None
      | Some ann \<Rightarrow>
          (case map_of (ann_data ann) ''inclusion_score'' of
             Some j \<Rightarrow>
               if j \<noteq> JNull then Some j
               else (case ann of
                       BooleanAnnotation _ _ v (Some sc) _ \<Rightarrow> Some (JNum (if v then sc else 1 - sc))
                     | BooleanAnnotation _ _ _ None _ \<Rightarrow> None
                     | ScoreAnnotation _ _ sc _ \<Rightarrow> Some (JNum sc))
           | None \<Rightarrow>
               (case ann of
                  BooleanAnnotation _ _ v (Some sc) _ \<Rightarrow> Some (JNum (if v then sc else 1 - sc))
                | BooleanAnnotation _ _ _ None _ \<Rightarrow> None
                | ScoreAnnotation _ _ sc _ \<Rightarrow> Some (JNum sc))))"

definition coerce_score :: "projector \<Rightarrow> json option \<Rightarrow> rat option result" where
  "coerce_score pr j =
     (case j of
        None \<Rightarrow> Inr None
      | Some v \<Rightarrow> (case prj_float pr v of None \<Rightarrow> Inl ValidationError | Some q \<Rightarrow> Inr (Some q)))"

definition search_fields_of :: "projector \<Rightarrow> search_acc \<Rightarrow> reference_search_fields result" where
  "search_fields_of pr acc =
     res_bind (coerce_score pr (positive_annotation_score (sa_inclusion acc))) (\<lambda>score. Inr
       \<lparr> rsf_abstract = normalise_string_validator (sa_abstract acc),
         rsf_authors = normalise_string_list_validator (order_authorship_by_position True (sa_authorship acc)),
         rsf_publication_date = sa_date acc,
         rsf_publication_year = sa_year acc,
         rsf_title = normalise_string_validator (sa_title acc),
         rsf_annotations = normalise_string_list_validator
           (prj_set_order pr (positive_boolean_annotations (sa_annotations acc))),
         rsf_evaluated_schemes = normalise_string_list_validator
           (prj_set_order pr (map snd (dict_keys (sa_annotations acc)))),
         rsf_destiny_inclusion_score = score,
         rsf_linked_data_content = sa_linked_data acc \<rparr>)"

text \<open>Every exception inside becomes a \<^verbatim>\<open>ProjectionError\<close>.\<close>

definition as_projection_error :: "'a result \<Rightarrow> 'a result" where
  "as_projection_error r = (case r of Inl _ \<Rightarrow> Inl ProjectionError | Inr x \<Rightarrow> Inr x)"

definition search_fields_from_reference ::
    "projector \<Rightarrow> 'r reference_t \<Rightarrow> reference_search_fields result" where
  "search_fields_from_reference pr reference =
     as_projection_error
       (res_bind (priority_sorted_enhancements (ref_id reference) (ref_enhancements reference))
          (\<lambda>es. search_fields_of pr (fold search_step es search_acc0)))"

definition get_canonical_candidate_search_fields ::
    "projector \<Rightarrow> 'r reference_t \<Rightarrow> candidate_search_fields result" where
  "get_canonical_candidate_search_fields pr reference =
     res_bind (search_fields_from_reference pr reference)
       (\<lambda>f. Inr (to_canonical_candidate_search_fields f))"

section \<open>CandidateReference\<close>

record candidate_reference =
  cr_title :: "string option"
  cr_authors :: "string list"
  cr_publication_year :: "int option"
  cr_identifiers :: "generic_external_identifier list"

definition candidate_reference_from_reference ::
    "projector \<Rightarrow> 'r reference_t \<Rightarrow> candidate_reference result" where
  "candidate_reference_from_reference pr reference =
     res_bind (search_fields_from_reference pr reference) (\<lambda>f. Inr
       \<lparr> cr_title = rsf_title f, cr_authors = rsf_authors f,
         cr_publication_year = rsf_publication_year f,
         cr_identifiers = map (\<lambda>l. from_specific (lei_identifier l)) (opt_list (ref_identifiers reference)) \<rparr>)"

section \<open>DeduplicationPaper\<close>

record deduplication_paper =
  dp_doi :: "external_identifier option"
  dp_openalex_id :: "external_identifier option"
  dp_pubmed_id :: "external_identifier option"
  dp_title :: "string option"
  dp_authors :: "authorship list option"
  dp_year :: "int option"
  dp_venue :: "string option"
  dp_venue_type :: "publication_venue_type option"
  dp_issn :: "string option"
  dp_publisher :: "string option"
  dp_pages :: "string option"
  dp_volume :: "string option"
  dp_issue :: "string option"

text \<open>\<open>validate_not_empty\<close>.\<close>

definition paper_not_empty :: "deduplication_paper \<Rightarrow> bool" where
  "paper_not_empty p =
     (dp_doi p \<noteq> None \<or> dp_openalex_id p \<noteq> None \<or> dp_pubmed_id p \<noteq> None \<or> dp_title p \<noteq> None \<or>
      dp_authors p \<noteq> None \<or> dp_year p \<noteq> None \<or> dp_venue p \<noteq> None \<or> dp_venue_type p \<noteq> None \<or>
      dp_issn p \<noteq> None \<or> dp_publisher p \<noteq> None \<or> dp_pages p \<noteq> None \<or> dp_volume p \<noteq> None \<or>
      dp_issue p \<noteq> None)"

definition scored_contents_by_priority_untimed_lowest ::
    "'r reference_t \<Rightarrow> bibliographic_metadata list result" where
  "scored_contents_by_priority_untimed_lowest reference =
     (let scored = filter (\<lambda>e. content_type (enh_content e) = ET_BIBLIOGRAPHIC)
                     (opt_list (ref_enhancements reference));
          untimed = filter (\<lambda>e. enh_created_at e = None) scored;
          timed = filter (\<lambda>e. enh_created_at e \<noteq> None) scored
      in res_bind (priority_sorted_enhancements (ref_id reference) (Some timed)) (\<lambda>sorted_timed.
           Inr (List.map_filter (\<lambda>e. case enh_content e of
                    BibliographicMetadataEnhancement b \<Rightarrow> Some b | _ \<Rightarrow> None)
                  (untimed @ sorted_timed))))"

definition page_range :: "pagination \<Rightarrow> string option" where
  "page_range p =
     (if truthy_opt_str (pg_first_page p) \<and> truthy_opt_str (pg_last_page p)
      then Some (the (pg_first_page p) @ ''-'' @ the (pg_last_page p)) else None)"

definition or_list_opt :: "'a list option \<Rightarrow> 'a list option \<Rightarrow> 'a list option" where
  "or_list_opt x y = (case x of Some (a # as) \<Rightarrow> Some (a # as) | _ \<Rightarrow> y)"

definition paper_venue :: "publication_venue option \<Rightarrow> deduplication_paper \<Rightarrow> deduplication_paper" where
  "paper_venue v p =
     (case v of
        None \<Rightarrow> p
      | Some venue \<Rightarrow>
          (let p' = (if truthy_opt_str (pv_display_name venue)
                     then p \<lparr> dp_venue := pv_display_name venue, dp_venue_type := pv_venue_type venue,
                              dp_issn := pv_issn_l venue \<rparr>
                     else p)
           in p' \<lparr> dp_publisher := or_str (pv_host_organization_name venue) (dp_publisher p') \<rparr>))"

definition paper_pagination :: "pagination option \<Rightarrow> deduplication_paper \<Rightarrow> deduplication_paper" where
  "paper_pagination g p =
     (case g of
        None \<Rightarrow> p
      | Some pg \<Rightarrow> p \<lparr> dp_volume := or_str (pg_volume pg) (dp_volume p),
                      dp_issue := or_str (pg_issue pg) (dp_issue p),
                      dp_pages := or_str (page_range pg) (dp_pages p) \<rparr>)"

definition paper_step :: "bibliographic_metadata \<Rightarrow> deduplication_paper \<Rightarrow> deduplication_paper" where
  "paper_step b p =
     (let p1 = p \<lparr> dp_title := or_str (bib_title b) (dp_title p),
                   dp_authors := or_list_opt (bib_authorship b) (dp_authors p),
                   dp_year := or_int (bib_year b) (dp_year p) \<rparr>;
          p2 = paper_venue (bib_publication_venue b) p1;
          p3 = p2 \<lparr> dp_publisher := or_str (bib_publisher b) (dp_publisher p2) \<rparr>
      in paper_pagination (bib_pagination b) p3)"

definition identifier_of_type ::
    "external_identifier_type \<Rightarrow> linked_external_identifier list \<Rightarrow> external_identifier option" where
  "identifier_of_type t ids =
     map_of (dict_comp (\<lambda>l. identifier_type (lei_identifier l)) lei_identifier ids) t"

definition deduplication_paper_from_reference :: "'r reference_t \<Rightarrow> deduplication_paper result" where
  "deduplication_paper_from_reference reference =
     as_projection_error
       (res_bind (scored_contents_by_priority_untimed_lowest reference) (\<lambda>contents.
          (let ids = opt_list (ref_identifiers reference);
               p = fold paper_step contents
                 \<lparr> dp_doi = identifier_of_type ID_DOI ids,
                   dp_openalex_id = identifier_of_type ID_OPEN_ALEX ids,
                   dp_pubmed_id = identifier_of_type ID_PM_ID ids,
                   dp_title = None, dp_authors = None, dp_year = None, dp_venue = None,
                   dp_venue_type = None, dp_issn = None, dp_publisher = None, dp_pages = None,
                   dp_volume = None, dp_issue = None \<rparr>
           in if paper_not_empty p then Inr p else Inl ValidationError)))"

section \<open>DeduplicatedReference\<close>

definition deduplicated_reference_from_reference :: "reference \<Rightarrow> reference result" where
  "deduplicated_reference_from_reference reference =
     (case ref_duplicate_references reference of
        None \<Rightarrow> Inl ProjectionError
      | Some dups \<Rightarrow> Inr (reference
          \<lparr> ref_duplicate_references := None,
            ref_enhancements := map_option (\<lambda>es. es @ concat (map (\<lambda>r. opt_list (ref_enhancements r)) dups))
              (ref_enhancements reference),
            ref_identifiers := map_option (\<lambda>is. is @ concat (map (\<lambda>r. opt_list (ref_identifiers r)) dups))
              (ref_identifiers reference) \<rparr>))"

section \<open>EnhancementRequestStatus\<close>

text \<open>The status that a set of pending statuses gives a request whose stored status is \<open>original\<close>.\<close>

definition request_status_from_set ::
    "enhancement_request_status \<Rightarrow> pending_enhancement_status list \<Rightarrow> enhancement_request_status" where
  "request_status_from_set original statuses =
     (let ss = remdups (filter (\<lambda>s. s \<noteq> PE_EXPIRED) statuses)
      in if ss = [] then original
         else if ss = [PE_PENDING] then ER_RECEIVED
         else if list_ex (\<lambda>s. s \<in> {PE_PENDING, PE_PROCESSING, PE_IMPORTING, PE_INDEXING}) ss
              then ER_PROCESSING
         else if ss = [PE_COMPLETED] then ER_COMPLETED
         else if ss = [PE_FAILED] then ER_FAILED
         else ER_PARTIAL_FAILED)"

section \<open>The last value present wins\<close>

definition title_of :: "enhancement \<Rightarrow> string option" where
  "title_of e = (case enh_content e of BibliographicMetadataEnhancement b \<Rightarrow> bib_title b | _ \<Rightarrow> None)"

lemma sa_title_step [simp]: "sa_title (search_step e acc) = or_str (title_of e) (sa_title acc)"
  by (auto simp: search_step_def title_of_def or_str_def truthy_opt_str_def
      split: enhancement_content.splits)

lemma fold_or_str:
  "(\<And>x a. get (f x a) = or_str (g x) (get a)) \<Longrightarrow>
     get (fold f xs a0) = (case find (\<lambda>x. truthy_opt_str (g x)) (rev xs) of
                              None \<Rightarrow> get a0 | Some x \<Rightarrow> g x)"
proof (induction xs arbitrary: a0)
  case (Cons x xs)
  then show ?case by (auto simp: find_append_cases or_str_def split: option.splits)
qed simp

lemma priority_sorted_Inr:
  "priority_sorted_enhancements i es = Inr xs \<Longrightarrow>
     xs = sort_key (enhancement_priority i) (opt_list es) \<and> (\<forall>e \<in> set (opt_list es). enh_created_at e \<noteq> None)"
  by (auto simp: priority_sorted_enhancements_def Let_def list_ex_iff split: if_splits)

lemma search_fields_title:
  assumes "search_fields_from_reference pr r = Inr f"
  shows "rsf_title f = normalise_string_validator
    (case find (\<lambda>e. truthy_opt_str (title_of e))
            (rev (sort_key (enhancement_priority (ref_id r)) (opt_list (ref_enhancements r)))) of
       None \<Rightarrow> None | Some e \<Rightarrow> title_of e)"
proof -
  from assms obtain es where es: "priority_sorted_enhancements (ref_id r) (ref_enhancements r) = Inr es"
    and f: "search_fields_of pr (fold search_step es search_acc0) = Inr f"
    by (auto simp: search_fields_from_reference_def as_projection_error_def result_simps
        split: sum.splits)
  have "rsf_title f = normalise_string_validator (sa_title (fold search_step es search_acc0))"
    using f by (auto simp: search_fields_of_def result_simps)
  also have "sa_title (fold search_step es search_acc0) =
      (case find (\<lambda>e. truthy_opt_str (title_of e)) (rev es) of
         None \<Rightarrow> sa_title search_acc0 | Some e \<Rightarrow> title_of e)"
    by (rule fold_or_str) simp
  finally show ?thesis using priority_sorted_Inr [OF es]
    by (simp add: search_acc0_def cong: option.case_cong)
qed

lemma priority_le_of_canonical:
  "enhancement_priority i a \<le> enhancement_priority i b \<Longrightarrow> enh_reference_id a = i \<Longrightarrow>
     enh_reference_id b = i \<and> (enh_created_at a \<noteq> None \<longrightarrow> enh_created_at b \<noteq> None \<longrightarrow>
       the (enh_created_at a) \<le> the (enh_created_at b))"
  by (auto simp: enhancement_priority_def less_eq_prod_def split: option.splits)

section \<open>Properties\<close>

text \<open>
  When some bibliographic enhancement of the canonical reference itself has a
  non-empty title, the projected title is that of an enhancement of the canonical, the most recent
  one among those with a title, stripped; titles of duplicates never override it.
\<close>

lemma canonical_title_wins:
  assumes "search_fields_from_reference pr r = Inr f"
    and "e \<in> set (opt_list (ref_enhancements r))" and "enh_reference_id e = ref_id r"
    and "truthy_opt_str (title_of e)"
  shows "\<exists>e' \<in> set (opt_list (ref_enhancements r)). enh_reference_id e' = ref_id r \<and>
           truthy_opt_str (title_of e') \<and> rsf_title f = map_option py_strip (title_of e') \<and>
           (\<forall>x \<in> set (opt_list (ref_enhancements r)).
              enh_reference_id x = ref_id r \<and> truthy_opt_str (title_of x) \<longrightarrow>
              the (enh_created_at x) \<le> the (enh_created_at e'))"
proof -
  let ?es = "sort_key (enhancement_priority (ref_id r)) (opt_list (ref_enhancements r))"
  have timed: "\<forall>x \<in> set (opt_list (ref_enhancements r)). enh_created_at x \<noteq> None"
    using assms(1) priority_sorted_Inr
    by (fastforce simp: search_fields_from_reference_def as_projection_error_def result_simps
        split: sum.splits)
  obtain e' where fd: "find (\<lambda>e. truthy_opt_str (title_of e)) (rev ?es) = Some e'"
    using assms(2,4) by (cases "find (\<lambda>e. truthy_opt_str (title_of e)) (rev ?es)")
      (auto simp: find_None_set)
  then obtain as bs where es: "?es = as @ e' # bs" and t: "truthy_opt_str (title_of e')"
    and none: "\<forall>y \<in> set bs. \<not> truthy_opt_str (title_of y)"
    by (rule find_rev_split)
  have le: "enhancement_priority (ref_id r) x \<le> enhancement_priority (ref_id r) e'"
    if "x \<in> set (opt_list (ref_enhancements r))" "truthy_opt_str (title_of x)" for x
  proof -
    have "x \<in> set ?es" using that(1) by simp
    then have "x \<in> set as \<or> x = e'" using none that(2) unfolding es by auto
    moreover have "sorted (map (enhancement_priority (ref_id r)) (as @ e' # bs))"
      using sorted_sort_key [of "enhancement_priority (ref_id r)"] es by metis
    ultimately show ?thesis by (auto simp: sorted_append)
  qed
  have mem: "e' \<in> set (opt_list (ref_enhancements r))"
    using es by (metis in_set_conv_decomp set_sort)
  have "enh_reference_id e' = ref_id r"
    using priority_le_of_canonical [OF le [OF assms(2,4)] assms(3)] by simp
  moreover have "rsf_title f = map_option py_strip (title_of e')"
    using search_fields_title [OF assms(1)] fd t by (simp add: normalise_string_validator_def)
  ultimately show ?thesis
    using mem t timed priority_le_of_canonical [OF le] by (intro bexI [of _ e']) auto
qed

definition sample_bib :: "string \<Rightarrow> enhancement_content" where
  "sample_bib t = BibliographicMetadataEnhancement
     \<lparr> bib_authorship = None, bib_cited_by_count = None, bib_created_date = None,
       bib_updated_date = None, bib_publication_date = None, bib_publication_year = None,
       bib_publisher = None, bib_title = Some t, bib_pagination = None, bib_publication_venue = None \<rparr>"

definition sample_enhancement :: "uuid \<Rightarrow> uuid \<Rightarrow> datetime \<Rightarrow> string \<Rightarrow> enhancement" where
  "sample_enhancement i r t title =
     \<lparr> enh_id = i, enh_created_at = Some t, enh_updated_at = Some t, enh_source = ''s'',
       enh_visibility = VIS_PUBLIC, enh_robot_version = None, enh_derived_from = None,
       enh_supersedes = None, enh_root_id = Some i, enh_content = sample_bib title,
       enh_reference_id = r \<rparr>"

definition sample_reference :: reference where
  "sample_reference =
     \<lparr> ref_id = 1, ref_visibility = VIS_PUBLIC, ref_identifiers = Some [],
       ref_enhancements = Some [sample_enhancement 10 1 5 '' On pigs '', sample_enhancement 11 2 9 ''Other''],
       ref_duplicate_decision = None, ref_canonical_reference = None, ref_duplicate_references = None \<rparr>"

definition sample_projector :: projector where
  "sample_projector = \<lparr> prj_set_order = dict_fromkeys,
     prj_float = (\<lambda>j. case j of JNum q \<Rightarrow> Some q | _ \<Rightarrow> None) \<rparr>"

lemma canonical_title_wins_witness:
  "\<exists>f. search_fields_from_reference sample_projector sample_reference = Inr f \<and>
     rsf_title f = Some ''On pigs''"
proof -
  have "case search_fields_from_reference sample_projector sample_reference of
          Inr f \<Rightarrow> True | Inl _ \<Rightarrow> False" by code_simp
  then obtain f where f: "search_fields_from_reference sample_projector sample_reference = Inr f"
    by (auto split: sum.splits)
  have strip: "py_strip '' On pigs '' = ''On pigs''" by code_simp
  from canonical_title_wins [OF f, of "sample_enhancement 10 1 5 '' On pigs ''"]
  have "rsf_title f = Some ''On pigs''"
    by (auto simp: sample_reference_def opt_list_def sample_enhancement_def title_of_def sample_bib_def
        truthy_opt_str_def strip)
  with f show ?thesis by blast
qed

text \<open>
  Ordering authors loses and invents none, puts first authors before middle and
  middle before last ones, and, when names are not alphabetised, keeps the stored order of the
  authors that share a position.
\<close>

lemma authorship_order:
  "\<exists>as. mset as = mset authorship \<and> order_authorship_by_position alphabetize authorship = map au_display_name as \<and>
     sorted (map (\<lambda>a. position_rank (au_position a)) as) \<and>
     (alphabetize \<or> (\<forall>p. filter (\<lambda>a. au_position a = p) as = filter (\<lambda>a. au_position a = p) authorship))"
proof (intro exI conjI)
  let ?k = "\<lambda>a. (position_rank (au_position a), if alphabetize then au_display_name a else [])"
  let ?as = "sort_key ?k authorship"
  show "mset ?as = mset authorship" by simp
  show "order_authorship_by_position alphabetize authorship = map au_display_name ?as"
    by (simp add: order_authorship_by_position_def)
  have "sorted (map ?k ?as)" by (rule sorted_sort_key)
  then have "sorted (map fst (map ?k ?as))"
    by (induction "map ?k ?as" arbitrary: authorship) (auto simp: sorted_map less_eq_prod_def elim!: sorted_wrt_mono_rel [rotated])
  then show "sorted (map (\<lambda>a. position_rank (au_position a)) ?as)" by (simp add: comp_def)
  show "alphabetize \<or> (\<forall>p. filter (\<lambda>a. au_position a = p) ?as = filter (\<lambda>a. au_position a = p) authorship)"
  proof (cases alphabetize)
    case False
    have inj: "position_rank x = position_rank y \<longleftrightarrow> x = y" for x y
      by (cases x; cases y) (simp_all add: position_rank_def)
    have "filter (\<lambda>a. au_position a = p) ?as = filter (\<lambda>a. au_position a = p) authorship" for p
      using sort_key_stable [of ?k "(position_rank p, [])" authorship] False by (simp add: inj)
    then show ?thesis by blast
  qed simp
qed

lemma remdups_singleton_iff: "remdups xs = [x] \<longleftrightarrow> set xs = {x}"
proof
  assume "set xs = {x}"
  then have "set (remdups xs) = {x}" "distinct (remdups xs)" by auto
  then show "remdups xs = [x]" by (cases "remdups xs" rule: list.exhaust) (auto simp: subset_singleton_iff)
qed (metis list.set(1,2) set_remdups)

text \<open>
  The projected status of an enhancement request depends only on the set of
  statuses of its pending enhancements that have not expired: nothing left keeps the stored status,
  otherwise received means all pending, processing means some work is left, completed and failed
  mean that all ended so, and partially failed is every other mixture of terminal statuses.
\<close>

lemma request_status_classified:
  fixes statuses :: "pending_enhancement_status list"
  defines "S \<equiv> set statuses - {PE_EXPIRED}"
  shows "(request_status_from_set original statuses = original \<or> S \<noteq> {}) \<and>
    (S \<noteq> {} \<longrightarrow>
      (request_status_from_set original statuses = ER_RECEIVED \<longleftrightarrow> S = {PE_PENDING}) \<and>
      (request_status_from_set original statuses = ER_PROCESSING \<longleftrightarrow>
         S \<noteq> {PE_PENDING} \<and> (\<exists>s \<in> S. \<not> pe_terminal s)) \<and>
      (request_status_from_set original statuses = ER_COMPLETED \<longleftrightarrow> S = {PE_COMPLETED}) \<and>
      (request_status_from_set original statuses = ER_FAILED \<longleftrightarrow> S = {PE_FAILED}) \<and>
      (request_status_from_set original statuses = ER_PARTIAL_FAILED \<longleftrightarrow>
         (\<forall>s \<in> S. pe_terminal s) \<and> S \<noteq> {PE_COMPLETED} \<and> S \<noteq> {PE_FAILED}))"
proof -
  let ?ss = "filter (\<lambda>s. s \<noteq> PE_EXPIRED) statuses"
  have S: "set ?ss = S" by (auto simp: S_def)
  have one: "remdups ?ss = [x] \<longleftrightarrow> S = {x}" for x unfolding remdups_singleton_iff S ..
  have nil: "remdups ?ss = [] \<longleftrightarrow> S = {}" using S by (metis set_empty set_remdups)
  have ex: "list_ex P (remdups ?ss) \<longleftrightarrow> (\<exists>s \<in> S. P s)" for P
    unfolding list_ex_iff set_remdups S ..
  have live: "s \<in> {PE_PENDING, PE_PROCESSING, PE_IMPORTING, PE_INDEXING} \<longleftrightarrow> \<not> pe_terminal s" for s
    by (cases s) (simp_all add: pe_terminal_def)
  have "\<not> pe_terminal PE_PENDING" "pe_terminal PE_COMPLETED" "pe_terminal PE_FAILED"
    by (simp_all add: pe_terminal_def)
  then show ?thesis
    unfolding request_status_from_set_def Let_def one nil ex live by auto
qed

lemma request_status_classified_witness:
  "request_status_from_set ER_RECEIVED [PE_COMPLETED, PE_EXPIRED, PE_COMPLETED] = ER_COMPLETED"
proof -
  have "set [PE_COMPLETED, PE_EXPIRED, PE_COMPLETED] - {PE_EXPIRED} = {PE_COMPLETED}" by auto
  then show ?thesis
    using request_status_classified [of ER_RECEIVED "[PE_COMPLETED, PE_EXPIRED, PE_COMPLETED]"] by simp
qed

end
