(* ===== verification/Candidate_Selection.thy ===== *)
theory Candidate_Selection
  imports Projections Reference_Store
begin

text \<open>
  Retrieval of candidate canonicals: \<^verbatim>\<open>models/retrieval_policy.py\<close>, the read-only half of
  \<^verbatim>\<open>services/deduplication_service.py\<close> and the candidate search of \<^verbatim>\<open>ReferenceESRepository\<close>.

  Elasticsearch is the parameter \<open>es_search\<close>: given a query specification it answers with hits in
  any order, a total and a duration, or raises. What the code relies on is \<open>es_search_ok\<close>: at most
  \<open>k\<close> hits, each document once, and never the excluded one.
\<close>

section \<open>Retrieval policies\<close>

datatype retrieval_policy_name =
    CURRENT_FUZZY_V1 | NO_YEAR_FILTER_V1 | NO_YEAR_FILTER_YEAR_OPTIONAL_V1 | SOFT_YEAR_DECAY_V1
  | SOFT_YEAR_DECAY_YEAR_OPTIONAL_V1 | SOFT_YEAR_DECAY_NONFUZZY_PROBE_V1 | CANDIDATE_SELECTION_V1

fun policy_value :: "retrieval_policy_name \<Rightarrow> string" where
  "policy_value CURRENT_FUZZY_V1 = ''current_fuzzy_v1''"
| "policy_value NO_YEAR_FILTER_V1 = ''no_year_filter_v1''"
| "policy_value NO_YEAR_FILTER_YEAR_OPTIONAL_V1 = ''no_year_filter_year_optional_v1''"
| "policy_value SOFT_YEAR_DECAY_V1 = ''soft_year_decay_v1''"
| "policy_value SOFT_YEAR_DECAY_YEAR_OPTIONAL_V1 = ''soft_year_decay_year_optional_v1''"
| "policy_value SOFT_YEAR_DECAY_NONFUZZY_PROBE_V1 = ''soft_year_decay_nonfuzzy_probe_v1''"
| "policy_value CANDIDATE_SELECTION_V1 = ''candidate_selection_v1''"

datatype year_strategy = HARD_WINDOW | NO_FILTER | SOFT_DECAY

record year_decay_config =
  yd_offset :: int
  yd_scale :: int
  yd_decay :: rat
  yd_weight :: rat

definition default_year_decay :: year_decay_config where
  "default_year_decay = \<lparr> yd_offset = 1, yd_scale = 9, yd_decay = 1 / 2, yd_weight = 1 / 10 \<rparr>"

definition year_decay_valid :: "year_decay_config \<Rightarrow> bool" where
  "year_decay_valid d = (0 \<le> yd_offset d \<and> 0 < yd_scale d \<and> 0 < yd_decay d \<and> yd_decay d < 1 \<and> 0 \<le> yd_weight d)"

record year_decay = year_decay_config +
  yd_origin :: int

definition max_boost :: "year_decay \<Rightarrow> rat" where
  "max_boost d = 1 + yd_weight d"

record retrieval_policy =
  rp_name :: retrieval_policy_name
  rp_union_identifiers :: bool
  rp_year_strategy :: year_strategy
  rp_requires_publication_year :: bool
  rp_year_decay :: "year_decay_config option"
  rp_title_fuzziness :: string

definition policy_valid :: "retrieval_policy \<Rightarrow> bool" where
  "policy_valid p = ((rp_year_decay p \<noteq> None) = (rp_year_strategy p = SOFT_DECAY))"

definition is_input_searchable :: "retrieval_policy \<Rightarrow> candidate_search_fields \<Rightarrow> bool" where
  "is_input_searchable p f =
     ((truthy_opt_str (csf_title f) \<and> csf_authors f \<noteq> []) \<and>
      (truthy_opt_int (csf_publication_year f) \<or> \<not> rp_requires_publication_year p))"

definition make_policy ::
    "retrieval_policy_name \<Rightarrow> year_strategy \<Rightarrow> bool \<Rightarrow> year_decay_config option \<Rightarrow> string \<Rightarrow> retrieval_policy" where
  "make_policy name strategy req decay fuzz =
     \<lparr> rp_name = name, rp_union_identifiers = True, rp_year_strategy = strategy,
       rp_requires_publication_year = req, rp_year_decay = decay, rp_title_fuzziness = fuzz \<rparr>"

definition retrieval_policies :: "(retrieval_policy_name \<times> retrieval_policy) list" where
  "retrieval_policies =
     dict_comp rp_name id
       [make_policy CURRENT_FUZZY_V1 HARD_WINDOW True None ''AUTO'',
        make_policy NO_YEAR_FILTER_V1 NO_FILTER True None ''AUTO'',
        make_policy NO_YEAR_FILTER_YEAR_OPTIONAL_V1 NO_FILTER False None ''AUTO'',
        make_policy SOFT_YEAR_DECAY_V1 SOFT_DECAY True (Some default_year_decay) ''AUTO'',
        make_policy SOFT_YEAR_DECAY_YEAR_OPTIONAL_V1 SOFT_DECAY False (Some default_year_decay) ''AUTO'',
        make_policy SOFT_YEAR_DECAY_NONFUZZY_PROBE_V1 SOFT_DECAY True (Some default_year_decay) ''0'',
        make_policy CANDIDATE_SELECTION_V1 SOFT_DECAY True (Some default_year_decay) ''0'']"

definition resolve_retrieval_policy :: "retrieval_policy_name \<Rightarrow> retrieval_policy result" where
  "resolve_retrieval_policy name =
     (case map_of retrieval_policies name of None \<Rightarrow> Inl PyKeyError | Some p \<Rightarrow> Inr p)"

section \<open>Author terms\<close>

record scoring_config =
  sc_max_author_clauses :: nat
  sc_min_author_token_length :: nat
  sc_candidate_k :: nat
  sc_default_retrieval_policy :: retrieval_policy_name

text \<open>\<^verbatim>\<open>UNICODE_LETTER_PATTERN.findall\<close>: the maximal runs of letters, left to right.\<close>

function letter_runs :: "string \<Rightarrow> string list" where
  "letter_runs s =
     (case dropWhile (\<lambda>c. \<not> is_letter c) s of
        [] \<Rightarrow> []
      | c # cs \<Rightarrow> (c # takeWhile is_letter cs) # letter_runs (dropWhile is_letter cs))"
  by pat_completeness auto
termination
proof (relation "measure length", simp)
  fix s c cs
  assume "dropWhile (\<lambda>c. \<not> is_letter c) s = c # cs"
  then have "Suc (length cs) \<le> length s" by (metis length_Cons length_dropWhile_le)
  moreover have "length (dropWhile is_letter cs) \<le> length cs" by (rule length_dropWhile_le)
  ultimately show "(dropWhile is_letter cs, s) \<in> measure length" by simp
qed

declare letter_runs.simps [simp del]

text \<open>
  \<open>"LATIN" in unicodedata.name(c)\<close> on the letters of the alphabet: all but the ordinal indicators
  and the micro sign.
\<close>

definition latin_name :: "char \<Rightarrow> bool" where
  "latin_name c = (let n = of_char c :: nat in n \<noteq> 170 \<and> n \<noteq> 181 \<and> n \<noteq> 186)"

definition is_meaningful_token :: "string \<Rightarrow> nat \<Rightarrow> bool" where
  "is_meaningful_token token min_len =
     (if min_len \<le> length token then True
      else if length token \<noteq> 1 then False
      else \<not> latin_name (hd token))"

fun author_terms_loop :: "scoring_config \<Rightarrow> string list \<Rightarrow> string list \<Rightarrow> string list" where
  "author_terms_loop cfg queries [] = queries"
| "author_terms_loop cfg queries (author # authors) =
     (let tokens = filter (\<lambda>t. is_meaningful_token t (sc_min_author_token_length cfg)) (letter_runs author)
      in if tokens = [] then author_terms_loop cfg queries authors
         else (let terms = str_join '' '' tokens
               in if terms \<in> set queries then author_terms_loop cfg queries authors
                  else (let queries' = queries @ [terms]
                        in if sc_max_author_clauses cfg \<le> length queries' then queries'
                           else author_terms_loop cfg queries' authors)))"

definition candidate_author_terms :: "scoring_config \<Rightarrow> string list \<Rightarrow> string list" where
  "candidate_author_terms cfg authors = author_terms_loop cfg [] authors"

section \<open>The query specification\<close>

record candidate_query =
  cq_title :: string
  cq_title_fuzziness :: string
  cq_title_boost :: rat
  cq_title_minimum_should_match :: string
  cq_author_terms :: "string list"
  cq_author_tie_breaker :: rat
  cq_publication_year_range :: "(int \<times> int) option"
  cq_publication_year_decay :: "year_decay option"
  cq_duplicate_determination :: duplicate_determination
  cq_excluded_reference_id :: "uuid option"

definition build_candidate_canonical_search_query ::
    "candidate_search_fields \<Rightarrow> scoring_config \<Rightarrow> retrieval_policy \<Rightarrow> uuid option \<Rightarrow> candidate_query result" where
  "build_candidate_canonical_search_query f cfg policy reference_id =
     (if \<not> truthy_opt_str (csf_title f) then Inl DeduplicationValueError
      else
        (let make = (\<lambda>range decay.
           \<lparr> cq_title = the (csf_title f), cq_title_fuzziness = rp_title_fuzziness policy,
             cq_title_boost = 2, cq_title_minimum_should_match = ''50%'',
             cq_author_terms = candidate_author_terms cfg (csf_authors f),
             cq_author_tie_breaker = 1 / 10, cq_publication_year_range = range,
             cq_publication_year_decay = decay, cq_duplicate_determination = DD_CANONICAL,
             cq_excluded_reference_id = reference_id \<rparr>)
         in case rp_year_strategy policy of
              HARD_WINDOW \<Rightarrow>
                Inr (make (if truthy_opt_int (csf_publication_year f)
                           then Some (the (csf_publication_year f) - 1, the (csf_publication_year f) + 1)
                           else None) None)
            | NO_FILTER \<Rightarrow> Inr (make None None)
            | SOFT_DECAY \<Rightarrow>
                (case rp_year_decay policy of
                   None \<Rightarrow> Inl DeduplicationValueError
                 | Some d \<Rightarrow>
                     Inr (make None
                       (if truthy_opt_int (csf_publication_year f)
                        then Some (year_decay_config.extend d \<lparr> yd_origin = the (csf_publication_year f) \<rparr>)
                        else None)))))"

definition unsearchable_reason :: "candidate_search_fields \<Rightarrow> retrieval_policy \<Rightarrow> string" where
  "unsearchable_reason f policy =
     (let checks = [(''title'', truthy_opt_str (csf_title f)), (''authors'', csf_authors f \<noteq> [])] @
                   (if rp_requires_publication_year policy
                    then [(''publication_year'', truthy_opt_int (csf_publication_year f))] else []);
          missing = map fst (filter (\<lambda>(_, present). \<not> present) checks)
      in ''Not searchable via Elasticsearch (missing: '' @ str_join '', '' missing
         @ ''); exact identifier matches, if any, are still returned.'')"

definition searchability_reason :: "candidate_search_fields \<Rightarrow> retrieval_policy \<Rightarrow> bool \<Rightarrow> string" where
  "searchability_reason f policy searchable =
     (if \<not> searchable then unsearchable_reason f policy
      else if csf_publication_year f = None
      then ''searchable: publication_year absent, not required by policy '' @ [CHR 0x27] @ policy_value (rp_name policy) @ [CHR 0x27]
      else ''ok'')"

section \<open>Elasticsearch\<close>

record es_response =
  esr_hits :: "(uuid \<times> rat) list"
  esr_total :: nat
  esr_took_ms :: nat

type_synonym es_search = "candidate_query \<Rightarrow> nat \<Rightarrow> bool \<Rightarrow> es_response result"

definition es_search_ok :: "es_search \<Rightarrow> bool" where
  "es_search_ok es =
     (\<forall>q k t r. es q k t = Inr r \<longrightarrow>
        length (esr_hits r) \<le> k \<and> distinct (map fst (esr_hits r)) \<and>
        (case cq_excluded_reference_id q of None \<Rightarrow> True | Some x \<Rightarrow> x \<notin> fst ` set (esr_hits r)))"

text \<open>The hits sorted by score, best first, ties in the order they came.\<close>

definition search_for_candidate_canonicals ::
    "es_search \<Rightarrow> candidate_query \<Rightarrow> nat \<Rightarrow> bool \<Rightarrow> es_response result" where
  "search_for_candidate_canonicals es query k track_total_hits =
     res_bind (es query k track_total_hits)
       (\<lambda>r. Inr (r \<lparr> esr_hits := sort_key (\<lambda>h. - snd h) (esr_hits r) \<rparr>))"

section \<open>Requests and results\<close>

record selection_input =
  si_reference_id :: "uuid option"
  si_title :: "string option"
  si_authors :: "string list"
  si_publication_year :: "int option"
  si_identifiers :: "generic_external_identifier list"
  si_excluded_reference_id :: "uuid option"

definition selection_input_valid :: "selection_input \<Rightarrow> bool" where
  "selection_input_valid i =
     (\<not> (si_reference_id i \<noteq> None \<and> si_excluded_reference_id i \<noteq> None) \<and>
      (si_reference_id i \<noteq> None) \<noteq>
        (truthy_opt_str (si_title i) \<or> si_authors i \<noteq> [] \<or> truthy_opt_int (si_publication_year i) \<or>
         si_identifiers i \<noteq> []))"

record selection_request =
  sr_input :: selection_input
  sr_retrieval_policy :: "retrieval_policy_name option"
  sr_k :: "nat option"
  sr_hydrate :: bool
  sr_track_total_hits :: bool

definition selection_request_valid :: "selection_request \<Rightarrow> bool" where
  "selection_request_valid r =
     (selection_input_valid (sr_input r) \<and>
      (case sr_k r of None \<Rightarrow> True | Some k \<Rightarrow> 1 \<le> k \<and> k \<le> 1000))"

datatype candidate_route =
    CandidateElasticsearchRoute retrieval_policy_name nat rat
  | CandidateIdentifierRoute "generic_external_identifier list"

record candidate =
  cand_reference_id :: uuid
  cand_rank :: nat
  cand_routes :: "candidate_route list"
  cand_reference :: "candidate_reference option"

record selection_diagnostics =
  diag_es_took_ms :: "nat option"
  diag_es_total_hits :: "nat option"
  diag_es_returned :: nat
  diag_identifier_returned :: nat
  diag_candidate_count :: nat
  diag_truncated :: bool
  diag_kth_es_score :: "rat option"
  diag_lowest_es_score :: "rat option"

record selection_result =
  sel_retrieval_policy :: retrieval_policy_name
  sel_k_requested :: nat
  sel_searchable :: bool
  sel_reason :: string
  sel_diagnostics :: selection_diagnostics
  sel_candidates :: "candidate list"

section \<open>Exact identifier matches\<close>

definition unionable_identifier_types :: "external_identifier_type list" where
  "unionable_identifier_types = [ID_DOI, ID_PM_ID, ID_OPEN_ALEX]"

text \<open>An invalid identifier becomes a \<^verbatim>\<open>DeduplicationValueError\<close>.\<close>

definition identifier_lookup_from_candidate ::
    "pydantic \<Rightarrow> generic_external_identifier \<Rightarrow> identifier_lookup result" where
  "identifier_lookup_from_candidate P g =
     (case lookup_from_generic P g of Inl _ \<Rightarrow> Inl DeduplicationValueError | Inr l \<Rightarrow> Inr l)"

definition is_unionable :: "external_identifier_type option \<Rightarrow> bool" where
  "is_unionable t = (case t of None \<Rightarrow> False | Some ty \<Rightarrow> ty \<in> set unionable_identifier_types)"

definition resolve_candidate_selection_input ::
    "pydantic \<Rightarrow> projector \<Rightarrow> db \<Rightarrow> selection_input \<Rightarrow>
     (candidate_search_fields \<times> uuid option \<times> identifier_lookup list) result" where
  "resolve_candidate_selection_input P pr db inp =
     (case si_reference_id inp of
        Some rid \<Rightarrow>
          res_bind (references_get_by_pk db rid [PL_enhancements, PL_identifiers]) (\<lambda>reference.
          res_bind (get_canonical_candidate_search_fields pr reference) (\<lambda>fields.
            Inr (fields, Some (ref_id reference),
              map (\<lambda>l. from_specific (lei_identifier l))
                (filter (\<lambda>l. identifier_type (lei_identifier l) \<in> set unionable_identifier_types)
                   (opt_list (ref_identifiers reference))))))
      | None \<Rightarrow>
          res_bind (res_mapM (identifier_lookup_from_candidate P)
                      (filter (\<lambda>g. is_unionable (gei_identifier_type g)) (si_identifiers inp)))
            (\<lambda>lookups. Inr (\<lparr> csf_publication_year = si_publication_year inp,
                             csf_authors = si_authors inp, csf_title = si_title inp \<rparr>,
                           si_excluded_reference_id inp, lookups)))"

type_synonym match_bucket =
  "((external_identifier_type option \<times> string) \<times> generic_external_identifier) list"

text \<open>The canonical a matched reference stands for.\<close>

definition match_canonical_id :: "reference \<Rightarrow> uuid result" where
  "match_canonical_id r =
     (if is_canonical_like r then Inr (ref_id r)
      else (case ref_duplicate_decision r of
              None \<Rightarrow> Inl DeduplicationError
            | Some d \<Rightarrow> (case rdd_canonical_reference_id d of
                          None \<Rightarrow> Inl DeduplicationError | Some c \<Rightarrow> Inr c)))"

definition fill_bucket ::
    "(external_identifier_type option \<times> string) list \<Rightarrow> linked_external_identifier list \<Rightarrow> match_bucket \<Rightarrow> match_bucket" where
  "fill_bucket query_keys ids bucket =
     fold (\<lambda>l b. let key = (Some (identifier_type (lei_identifier l)), identifier_str (lei_identifier l))
                 in if key \<in> set query_keys then AList.update key (from_specific (lei_identifier l)) b else b)
       ids bucket"

definition union_step ::
    "uuid option \<Rightarrow> (external_identifier_type option \<times> string) list \<Rightarrow> reference \<Rightarrow>
     (uuid \<times> match_bucket) list \<Rightarrow> (uuid \<times> match_bucket) list result" where
  "union_step self_id query_keys r matches =
     (if Some (ref_id r) = self_id then Inr matches
      else res_bind (match_canonical_id r) (\<lambda>canonical_id.
        if Some canonical_id = self_id then Inr matches
        else Inr (AList.update canonical_id
               (fill_bucket query_keys (opt_list (ref_identifiers r))
                  (case map_of matches canonical_id of None \<Rightarrow> [] | Some b \<Rightarrow> b)) matches)))"

definition union_identifier_matches ::
    "db \<Rightarrow> identifier_lookup list \<Rightarrow> uuid option \<Rightarrow> (uuid \<times> match_bucket) list result" where
  "union_identifier_matches db lookups self_id =
     res_bind (find_with_identifiers db lookups [PL_identifiers, PL_duplicate_decision] MATCH_ANY)
       (\<lambda>refs. res_foldM
          (union_step self_id (map (\<lambda>l. (gei_identifier_type l, gei_identifier l)) lookups)) refs [])"

section \<open>get\_deduplication\_candidates\<close>

definition candidate_routes ::
    "retrieval_policy_name \<Rightarrow> (uuid \<times> rat) list \<Rightarrow> (uuid \<times> match_bucket) list \<Rightarrow> uuid \<Rightarrow> candidate_route list" where
  "candidate_routes policy es_hits matches cid =
     (case map_of (dict_comp (\<lambda>(i, h). fst h) (\<lambda>(i, h). (i, snd h)) (enumerate 1 es_hits)) cid of
        None \<Rightarrow> []
      | Some (rank, score) \<Rightarrow> [CandidateElasticsearchRoute policy rank score]) @
     (case map_of matches cid of
        None \<Rightarrow> [] | Some b \<Rightarrow> [CandidateIdentifierRoute (dict_values b)])"

definition hydrate_candidate ::
    "projector \<Rightarrow> reference list \<Rightarrow> bool \<Rightarrow> uuid \<Rightarrow> candidate_reference option result" where
  "hydrate_candidate pr hydrated hydrate cid =
     (if \<not> hydrate then Inr None
      else (case map_of (dict_comp ref_id id hydrated) cid of
              None \<Rightarrow> Inr None
            | Some r \<Rightarrow> res_bind (candidate_reference_from_reference pr r) (\<lambda>c. Inr (Some c))))"

definition build_candidates ::
    "projector \<Rightarrow> retrieval_policy_name \<Rightarrow> (uuid \<times> rat) list \<Rightarrow> (uuid \<times> match_bucket) list \<Rightarrow>
     reference list \<Rightarrow> bool \<Rightarrow> uuid list \<Rightarrow> candidate list result" where
  "build_candidates pr policy es_hits matches hydrated hydrate ordered_ids =
     res_mapM (\<lambda>(rank, cid).
         res_bind (hydrate_candidate pr hydrated hydrate cid) (\<lambda>c. Inr
           \<lparr> cand_reference_id = cid, cand_rank = rank,
             cand_routes = candidate_routes policy es_hits matches cid, cand_reference = c \<rparr>))
       (enumerate 1 ordered_ids)"

definition ordered_candidate_ids :: "(uuid \<times> match_bucket) list \<Rightarrow> (uuid \<times> rat) list \<Rightarrow> uuid list" where
  "ordered_candidate_ids matches es_hits =
     filter (\<lambda>cid. cid \<notin> set (map fst es_hits)) (dict_keys matches) @ map fst es_hits"

definition identifier_route ::
    "retrieval_policy \<Rightarrow> db \<Rightarrow> identifier_lookup list \<Rightarrow> uuid option \<Rightarrow> (uuid \<times> match_bucket) list result" where
  "identifier_route policy db lookups self_id =
     (if rp_union_identifiers policy \<and> lookups \<noteq> []
      then union_identifier_matches db lookups self_id else Inr [])"

definition elasticsearch_route ::
    "es_search \<Rightarrow> scoring_config \<Rightarrow> retrieval_policy \<Rightarrow> candidate_search_fields \<Rightarrow> uuid option \<Rightarrow> nat \<Rightarrow> bool \<Rightarrow>
     es_response option result" where
  "elasticsearch_route es cfg policy sfields self_id k track_total_hits =
     (if is_input_searchable policy sfields
      then res_bind (build_candidate_canonical_search_query sfields cfg policy self_id) (\<lambda>query.
           res_bind (search_for_candidate_canonicals es query k track_total_hits) (\<lambda>r. Inr (Some r)))
      else Inr None)"

definition es_hits_of :: "es_response option \<Rightarrow> (uuid \<times> rat) list" where
  "es_hits_of r = (case r of None \<Rightarrow> [] | Some x \<Rightarrow> esr_hits x)"

definition selection_diagnostics_of ::
    "nat \<Rightarrow> es_response option \<Rightarrow> (uuid \<times> match_bucket) list \<Rightarrow> uuid list \<Rightarrow> selection_diagnostics" where
  "selection_diagnostics_of k es_result matches ordered_ids =
     (let es_hits = es_hits_of es_result
      in \<lparr> diag_es_took_ms = map_option esr_took_ms es_result,
           diag_es_total_hits = map_option esr_total es_result,
           diag_es_returned = length es_hits,
           diag_identifier_returned = length matches,
           diag_candidate_count = length ordered_ids,
           diag_truncated = (case es_result of None \<Rightarrow> False | Some r \<Rightarrow> length es_hits < esr_total r),
           diag_kth_es_score = (if k \<le> length es_hits then Some (snd (es_hits ! (k - 1))) else None),
           diag_lowest_es_score = (if es_hits = [] then None else Some (snd (last es_hits))) \<rparr>)"

definition selection_of_routes ::
    "projector \<Rightarrow> selection_request \<Rightarrow> db \<Rightarrow> retrieval_policy \<Rightarrow> nat \<Rightarrow> candidate_search_fields \<Rightarrow>
     (uuid \<times> match_bucket) list \<Rightarrow> es_response option \<Rightarrow> selection_result result" where
  "selection_of_routes pr request db policy k sfields matches es_result =
     (let es_hits = es_hits_of es_result;
          ordered_ids = ordered_candidate_ids matches es_hits;
          searchable = is_input_searchable policy sfields
      in
      res_bind (if sr_hydrate request \<and> ordered_ids \<noteq> []
                then get_hydrated db ordered_ids (Some [ET_BIBLIOGRAPHIC]) None else Inr [])
        (\<lambda>hydrated.
      res_bind (build_candidates pr (rp_name policy) es_hits matches hydrated (sr_hydrate request)
                  ordered_ids) (\<lambda>candidates.
        Inr \<lparr> sel_retrieval_policy = rp_name policy, sel_k_requested = k,
             sel_searchable = searchable,
             sel_reason = searchability_reason sfields policy searchable,
             sel_diagnostics = selection_diagnostics_of k es_result matches ordered_ids,
             sel_candidates = candidates \<rparr>)))"

definition get_deduplication_candidates ::
    "pydantic \<Rightarrow> projector \<Rightarrow> es_search \<Rightarrow> scoring_config \<Rightarrow> selection_request \<Rightarrow> db \<Rightarrow>
     selection_result result" where
  "get_deduplication_candidates P pr es cfg request db =
     (let k = (case sr_k request of Some (Suc n) \<Rightarrow> Suc n | _ \<Rightarrow> sc_candidate_k cfg);
          policy_name = (case sr_retrieval_policy request of
                           None \<Rightarrow> sc_default_retrieval_policy cfg | Some p \<Rightarrow> p)
      in
      res_bind (resolve_retrieval_policy policy_name) (\<lambda>policy.
      res_bind (resolve_candidate_selection_input P pr db (sr_input request))
        (\<lambda>(sfields, self_id, lookups).
      res_bind (identifier_route policy db lookups self_id) (\<lambda>matches.
      res_bind (elasticsearch_route es cfg policy sfields self_id k (sr_track_total_hits request))
        (\<lambda>es_result. selection_of_routes pr request db policy k sfields matches es_result)))))"

definition select_candidate_canonicals ::
    "pydantic \<Rightarrow> projector \<Rightarrow> es_search \<Rightarrow> scoring_config \<Rightarrow> uuid \<Rightarrow> db \<Rightarrow> selection_result result" where
  "select_candidate_canonicals P pr es cfg reference_id db =
     get_deduplication_candidates P pr es cfg
       \<lparr> sr_input = \<lparr> si_reference_id = Some reference_id, si_title = None, si_authors = [],
                      si_publication_year = None, si_identifiers = [], si_excluded_reference_id = None \<rparr>,
         sr_retrieval_policy = None, sr_k = None, sr_hydrate = False, sr_track_total_hits = True \<rparr> db"

section \<open>find\_exact\_duplicate\<close>

definition exact_rank :: "reference \<Rightarrow> int" where
  "exact_rank c = (case is_canonical c of Some True \<Rightarrow> 1 | Some False \<Rightarrow> 0 | None \<Rightarrow> -1)"

definition find_exact_duplicate ::
    "hasher \<Rightarrow> 'r reference_t \<Rightarrow> db \<Rightarrow> reference option result" where
  "find_exact_duplicate H reference db =
     (let ids = opt_list (ref_identifiers reference);
          defined_ids = filter (\<lambda>l. identifier_type (lei_identifier l) \<noteq> ID_OTHER) ids
      in if ids = [] then Inl DeduplicationValueError
         else if defined_ids = [] then Inr None
         else res_bind (find_with_identifiers db (map (\<lambda>l. from_specific (lei_identifier l)) defined_ids)
                          [PL_identifiers, PL_enhancements, PL_duplicate_decision] MATCH_ALL)
                (\<lambda>candidates. Inr (find (\<lambda>c. is_superset H c reference)
                   (sort_key (\<lambda>c. - exact_rank c) candidates))))"

section \<open>Lemmas on author terms\<close>

lemma author_terms_loop_bounds:
  assumes "distinct queries" and "length queries < max 1 (sc_max_author_clauses cfg)"
  shows "distinct (author_terms_loop cfg queries authors) \<and>
         length (author_terms_loop cfg queries authors) \<le> max 1 (sc_max_author_clauses cfg) \<and>
         set queries \<subseteq> set (author_terms_loop cfg queries authors)"
  using assms
proof (induction cfg queries authors rule: author_terms_loop.induct)
  case (2 cfg queries author authors)
  let ?tokens = "filter (\<lambda>t. is_meaningful_token t (sc_min_author_token_length cfg)) (letter_runs author)"
  consider "?tokens = [] \<or> str_join '' '' ?tokens \<in> set queries"
    | "?tokens \<noteq> []" "str_join '' '' ?tokens \<notin> set queries"
      "sc_max_author_clauses cfg \<le> Suc (length queries)"
    | "?tokens \<noteq> []" "str_join '' '' ?tokens \<notin> set queries"
      "Suc (length queries) < sc_max_author_clauses cfg"
    by linarith
  then show ?case
  proof cases
    case 1
    then have "author_terms_loop cfg queries (author # authors) = author_terms_loop cfg queries authors"
      by (auto simp: Let_def)
    moreover from 1 2 have "distinct (author_terms_loop cfg queries authors) \<and>
         length (author_terms_loop cfg queries authors) \<le> max 1 (sc_max_author_clauses cfg) \<and>
         set queries \<subseteq> set (author_terms_loop cfg queries authors)"
      by (cases "?tokens = []") (simp_all add: 2(1,2))
    ultimately show ?thesis by simp
  next
    case 2
    with "2.prems" show ?thesis by (auto simp: Let_def)
  next
    case 3
    with "2.IH"(3) [OF refl _ refl _ refl] "2.prems" show ?thesis by (auto simp: Let_def)
  qed
qed auto

lemma str_join_not_Nil: "ts \<noteq> [] \<Longrightarrow> \<forall>t \<in> set ts. t \<noteq> [] \<Longrightarrow> str_join sep ts \<noteq> []"
  by (induction sep ts rule: str_join.induct) auto

lemma letter_runs_not_Nil: "t \<in> set (letter_runs s) \<Longrightarrow> t \<noteq> []"
proof (induction s rule: letter_runs.induct)
  case (1 s)
  then show ?case
    by (cases "dropWhile (\<lambda>c. \<not> is_letter c) s") (auto simp: letter_runs.simps [of s])
qed

lemma author_terms_loop_not_Nil:
  assumes "\<forall>q \<in> set queries. q \<noteq> []"
  shows "q \<in> set (author_terms_loop cfg queries authors) \<Longrightarrow> q \<noteq> []"
  using assms
proof (induction cfg queries authors rule: author_terms_loop.induct)
  case (2 cfg queries author authors)
  let ?tokens = "filter (\<lambda>t. is_meaningful_token t (sc_min_author_token_length cfg)) (letter_runs author)"
  have "?tokens \<noteq> [] \<Longrightarrow> str_join '' '' ?tokens \<noteq> []"
    using letter_runs_not_Nil by (intro str_join_not_Nil) auto
  with 2 show ?case by (auto simp: Let_def split: if_splits)
qed auto

section \<open>Lemmas on candidates\<close>

lemma union_step_keys:
  assumes "union_step self_id qk r m = Inr m'" and "distinct (map fst m)"
    and "\<forall>x. self_id = Some x \<longrightarrow> x \<notin> fst ` set m"
  shows "distinct (map fst m') \<and> (\<forall>x. self_id = Some x \<longrightarrow> x \<notin> fst ` set m')"
proof -
  have "m' = m \<or> (\<exists>c b. Some c \<noteq> self_id \<and> m' = AList.update c b m)"
    using assms(1) by (auto simp: union_step_def res_bind_Inr_iff split: if_splits)
  then show ?thesis
  proof
    assume "\<exists>c b. Some c \<noteq> self_id \<and> m' = AList.update c b m"
    then obtain c b where c: "Some c \<noteq> self_id" "m' = AList.update c b m" by blast
    have "fst ` set m' = insert c (fst ` set m)" unfolding c using AList.dom_update [of c b m] by blast
    with c assms(2,3) show ?thesis by (auto simp: AList.distinct_update)
  qed (use assms(2,3) in simp)
qed

lemma union_identifier_matches_keys:
  assumes "union_identifier_matches db lookups self_id = Inr m"
  shows "distinct (map fst m) \<and> (\<forall>x. self_id = Some x \<longrightarrow> x \<notin> fst ` set m)"
proof -
  from assms obtain refs where
    "res_foldM (union_step self_id (map (\<lambda>l. (gei_identifier_type l, gei_identifier l)) lookups)) refs [] = Inr m"
    by (auto simp: union_identifier_matches_def result_simps)
  then show ?thesis
    by (rule res_foldM_invariant) (auto dest: union_step_keys)
qed

lemma build_candidates_Inr:
  assumes "build_candidates pr pol hits ms hyd h ids = Inr cs"
  shows "map cand_reference_id cs = ids" and "map cand_rank cs = [1 ..< Suc (length ids)]"
    and "\<forall>c \<in> set cs. cand_routes c = candidate_routes pol hits ms (cand_reference_id c)"
proof -
  have len: "length cs = length ids"
    using res_mapM_Inr_length [OF assms [unfolded build_candidates_def]] by (simp add: length_enumerate)
  have nth: "cand_reference_id (cs ! i) = ids ! i \<and> cand_rank (cs ! i) = Suc i \<and>
      cand_routes (cs ! i) = candidate_routes pol hits ms (ids ! i)" if "i < length ids" for i
  proof -
    from res_mapM_Inr_nth [OF assms [unfolded build_candidates_def], of i] that
    obtain x where "\<lparr> cand_reference_id = ids ! i, cand_rank = Suc i,
        cand_routes = candidate_routes pol hits ms (ids ! i), cand_reference = x \<rparr> = cs ! i"
      by (auto simp: nth_enumerate_eq result_simps length_enumerate)
    from this [symmetric] show ?thesis by simp
  qed
  show "map cand_reference_id cs = ids" by (rule nth_equalityI) (use len nth in auto)
  show "map cand_rank cs = [1 ..< Suc (length ids)]"
    by (rule nth_equalityI) (use len nth in \<open>auto simp del: upt_Suc\<close>)
  show "\<forall>c \<in> set cs. cand_routes c = candidate_routes pol hits ms (cand_reference_id c)"
    using len nth by (auto simp: in_set_conv_nth)
qed

lemma candidate_routes_not_Nil:
  assumes "cid \<in> set (ordered_candidate_ids ms hits)"
  shows "candidate_routes pol hits ms cid \<noteq> []"
proof (cases "cid \<in> fst ` set hits")
  case True
  have "fst ` set (dict_comp (\<lambda>(i, h). fst h) (\<lambda>(i, h). (i, snd h)) (enumerate 1 hits)) =
        (\<lambda>(i, h). fst h) ` set (enumerate 1 hits)" by (rule set_keys_dict_comp)
  also have "\<dots> = fst ` snd ` set (enumerate 1 hits)" by (simp add: image_image case_prod_unfold)
  also have "\<dots> = fst ` set hits"
    by (metis (no_types) list.set_map map_snd_enumerate)
  finally have "map_of (dict_comp (\<lambda>(i, h). fst h) (\<lambda>(i, h). (i, snd h)) (enumerate 1 hits)) cid \<noteq> None"
    using True by (simp add: map_of_eq_None_iff)
  then show ?thesis by (auto simp: candidate_routes_def)
next
  case False
  with assms have "cid \<in> fst ` set ms" by (auto simp: ordered_candidate_ids_def dict_keys_def)
  then have "map_of ms cid \<noteq> None" by (simp add: map_of_eq_None_iff)
  then show ?thesis by (auto simp: candidate_routes_def)
qed

lemma build_query_excluded:
  "build_candidate_canonical_search_query f cfg policy self = Inr q \<Longrightarrow>
     cq_excluded_reference_id q = self \<and> cq_duplicate_determination q = DD_CANONICAL"
  by (auto simp: build_candidate_canonical_search_query_def Let_def split: if_splits year_strategy.splits option.splits)

lemma search_hits:
  assumes "es_search_ok es" and "search_for_candidate_canonicals es q k t = Inr r"
  shows "distinct (map fst (esr_hits r)) \<and> length (esr_hits r) \<le> k \<and>
     (\<forall>x. cq_excluded_reference_id q = Some x \<longrightarrow> x \<notin> fst ` set (esr_hits r)) \<and>
     sorted (map (\<lambda>h. - snd h) (esr_hits r))"
proof -
  from assms(2) obtain r0 where r0: "es q k t = Inr r0"
    and r: "esr_hits r = sort_key (\<lambda>h. - snd h) (esr_hits r0)"
    by (auto simp: search_for_candidate_canonicals_def result_simps)
  have "distinct (map fst (esr_hits r0)) \<and> length (esr_hits r0) \<le> k \<and>
     (\<forall>x. cq_excluded_reference_id q = Some x \<longrightarrow> x \<notin> fst ` set (esr_hits r0))"
    using assms(1) [unfolded es_search_ok_def, rule_format, OF r0] by (simp split: option.splits)
  moreover have "distinct (map fst (esr_hits r)) = distinct (map fst (esr_hits r0))"
    unfolding r by (metis mset_eq_imp_distinct_iff mset_map mset_sort)
  ultimately show ?thesis unfolding r by (simp del: mset_sort)
qed

text \<open>What the two routes contribute.\<close>

lemma identifier_route_keys:
  assumes "identifier_route policy db lookups self_id = Inr m"
  shows "distinct (map fst m) \<and> (\<forall>x. self_id = Some x \<longrightarrow> x \<notin> fst ` set m)"
proof (cases "rp_union_identifiers policy \<and> lookups \<noteq> []")
  case True
  with assms have "union_identifier_matches db lookups self_id = Inr m"
    by (simp add: identifier_route_def)
  then show ?thesis by (rule union_identifier_matches_keys)
next
  case False
  with assms have "m = []" by (auto simp: identifier_route_def)
  then show ?thesis by simp
qed

lemma elasticsearch_route_hits:
  assumes "es_search_ok es" and "elasticsearch_route es cfg policy sfields self_id k t = Inr r"
  shows "distinct (map fst (es_hits_of r)) \<and> length (es_hits_of r) \<le> k \<and>
    (\<forall>x. self_id = Some x \<longrightarrow> x \<notin> fst ` set (es_hits_of r))"
proof (cases "is_input_searchable policy sfields")
  case True
  with assms(2) obtain q x where
    q: "build_candidate_canonical_search_query sfields cfg policy self_id = Inr q"
    and x: "search_for_candidate_canonicals es q k t = Inr x" and r: "r = Some x"
    by (auto simp: elasticsearch_route_def res_bind_Inr_iff)
  show ?thesis
    using search_hits [OF assms(1) x] build_query_excluded [OF q] by (simp add: r es_hits_of_def)
next
  case False
  with assms(2) have "r = None" by (auto simp: elasticsearch_route_def)
  then show ?thesis by (simp add: es_hits_of_def)
qed

lemma selection_of_routes_Inr:
  assumes "selection_of_routes pr request db policy k sfields matches es_result = Inr res"
  obtains hydrated where
    "build_candidates pr (rp_name policy) (es_hits_of es_result) matches hydrated (sr_hydrate request)
       (ordered_candidate_ids matches (es_hits_of es_result)) = Inr (sel_candidates res)"
    and "sel_diagnostics res = selection_diagnostics_of k es_result matches
           (ordered_candidate_ids matches (es_hits_of es_result))"
    and "sel_k_requested res = k"
proof -
  let ?ids = "ordered_candidate_ids matches (es_hits_of es_result)"
  from assms obtain hydrated candidates where
    b: "build_candidates pr (rp_name policy) (es_hits_of es_result) matches hydrated (sr_hydrate request) ?ids
         = Inr candidates"
    and r: "res = \<lparr> sel_retrieval_policy = rp_name policy, sel_k_requested = k,
             sel_searchable = is_input_searchable policy sfields,
             sel_reason = searchability_reason sfields policy (is_input_searchable policy sfields),
             sel_diagnostics = selection_diagnostics_of k es_result matches ?ids,
             sel_candidates = candidates \<rparr>"
    unfolding selection_of_routes_def Let_def res_bind_Inr_iff by fast
  show thesis by (rule that [of hydrated]) (use b r in simp_all)
qed

lemma get_deduplication_candidates_Inr:
  assumes "get_deduplication_candidates P pr es cfg request db = Inr res"
  obtains policy k sfields self_id lookups matches es_result where
    "resolve_candidate_selection_input P pr db (sr_input request) = Inr (sfields, self_id, lookups)"
    and "identifier_route policy db lookups self_id = Inr matches"
    and "elasticsearch_route es cfg policy sfields self_id k (sr_track_total_hits request) = Inr es_result"
    and "selection_of_routes pr request db policy k sfields matches es_result = Inr res"
  using assms unfolding get_deduplication_candidates_def Let_def
  by (auto simp: res_bind_Inr_iff)

text \<open>Every candidate once, and never the reference the input resolves to.\<close>

lemma selected_ids:
  assumes "es_search_ok es" and "get_deduplication_candidates P pr es cfg request db = Inr res"
  obtains sfields self_id lookups where
    "resolve_candidate_selection_input P pr db (sr_input request) = Inr (sfields, self_id, lookups)"
    and "distinct (map cand_reference_id (sel_candidates res))"
    and "\<forall>x. self_id = Some x \<longrightarrow> x \<notin> cand_reference_id ` set (sel_candidates res)"
proof -
  obtain policy k sfields self_id lookups ms er where
    i: "resolve_candidate_selection_input P pr db (sr_input request) = Inr (sfields, self_id, lookups)"
    and m: "identifier_route policy db lookups self_id = Inr ms"
    and e: "elasticsearch_route es cfg policy sfields self_id k (sr_track_total_hits request) = Inr er"
    and s: "selection_of_routes pr request db policy k sfields ms er = Inr res"
    by (rule get_deduplication_candidates_Inr [OF assms(2)])
  obtain hyd where
    b: "build_candidates pr (rp_name policy) (es_hits_of er) ms hyd (sr_hydrate request)
       (ordered_candidate_ids ms (es_hits_of er)) = Inr (sel_candidates res)"
    by (rule selection_of_routes_Inr [OF s])
  note mk = identifier_route_keys [OF m] and eh = elasticsearch_route_hits [OF assms(1) e]
  have "distinct (ordered_candidate_ids ms (es_hits_of er))"
    using mk eh by (auto simp: ordered_candidate_ids_def dict_keys_def)
  moreover have "self_id = Some x \<Longrightarrow> x \<notin> set (ordered_candidate_ids ms (es_hits_of er))" for x
    using mk eh by (auto simp: ordered_candidate_ids_def dict_keys_def)
  ultimately show thesis
    using that [OF i] build_candidates_Inr(1) [OF b] by (metis list.set_map)
qed

section \<open>Properties\<close>


text \<open>A database and an Elasticsearch for the witnesses.\<close>

definition sample_paper_db :: db where
  "sample_paper_db =
     \<lparr> db_references = map (\<lambda>i. \<lparr> refr_id = i, refr_visibility = VIS_PUBLIC \<rparr>) [1, 2, 3],
       db_identifiers = [\<lparr> lei_id = 21, lei_identifier = DOIIdentifier ''10.1000/a'', lei_reference_id = 1 \<rparr>,
                         \<lparr> lei_id = 22, lei_identifier = DOIIdentifier ''10.1000/a'', lei_reference_id = 2 \<rparr>],
       db_enhancements = [sample_enhancement 10 1 5 ''On pigs''],
       db_decisions = [] \<rparr>"

definition sample_es :: es_search where
  "sample_es q k t =
     Inr \<lparr> esr_hits = (if cq_excluded_reference_id q = Some 3 \<or> k = 0 then [] else [(3, 2)]),
          esr_total = 1, esr_took_ms = 4 \<rparr>"

definition sample_cfg :: scoring_config where
  "sample_cfg = \<lparr> sc_max_author_clauses = 25, sc_min_author_token_length = 2, sc_candidate_k = 10,
     sc_default_retrieval_policy = CANDIDATE_SELECTION_V1 \<rparr>"

definition sample_inline_request :: selection_request where
  "sample_inline_request =
     \<lparr> sr_input = \<lparr> si_reference_id = None, si_title = Some ''On pigs'', si_authors = [''Ada Lovelace''],
         si_publication_year = Some 1843,
         si_identifiers = [\<lparr> gei_identifier = ''10.1000/A'', gei_identifier_type = Some ID_DOI,
                             gei_other_identifier_name = None \<rparr>],
         si_excluded_reference_id = Some 1 \<rparr>,
       sr_retrieval_policy = None, sr_k = None, sr_hydrate = False, sr_track_total_hits = True \<rparr>"

lemma sample_es_ok: "es_search_ok sample_es"
  by (auto simp: es_search_ok_def sample_es_def split: option.splits if_splits)


text \<open>
  The author clauses of a query are pairwise different and non-empty, and never more
  than the configured maximum (which the configuration keeps at least 1), however many authors the
  reference has.
\<close>

lemma author_terms_bounded:
  assumes "1 \<le> sc_max_author_clauses cfg"
  shows "distinct (candidate_author_terms cfg authors) \<and>
    length (candidate_author_terms cfg authors) \<le> sc_max_author_clauses cfg \<and>
    [] \<notin> set (candidate_author_terms cfg authors)"
  using author_terms_loop_bounds [of "[]" cfg authors] author_terms_loop_not_Nil [of "[]" "[]" cfg authors] assms
  by (auto simp: candidate_author_terms_def max_def)

lemma author_terms_bounded_witness:
  "candidate_author_terms sample_cfg [''Ada K. Lovelace'', ''B'', ''Ada Lovelace'', ''Ada Lovelace''] =
     [''Ada Lovelace''] \<and>
   length (candidate_author_terms sample_cfg [''Ada K. Lovelace'', ''B'', ''Ada Lovelace'', ''Ada Lovelace'']) \<le> 25"
proof
  show "candidate_author_terms sample_cfg [''Ada K. Lovelace'', ''B'', ''Ada Lovelace'', ''Ada Lovelace''] =
     [''Ada Lovelace'']" by code_simp
  have "1 \<le> sc_max_author_clauses sample_cfg" by (simp add: sample_cfg_def)
  from author_terms_bounded [OF this, of "[''Ada K. Lovelace'', ''B'', ''Ada Lovelace'', ''Ada Lovelace'']"]
  show "length (candidate_author_terms sample_cfg [''Ada K. Lovelace'', ''B'', ''Ada Lovelace'', ''Ada Lovelace'']) \<le> 25"
    by (simp add: sample_cfg_def)
qed

text \<open>
  Every policy name resolves to a policy of that name that passes its validator, and on
  an input the policy deems searchable the query is always built: retrieval cannot fail on a
  configuration error.
\<close>

lemma registry_names: "\<exists>p. map_of retrieval_policies name = Some p \<and> rp_name p = name \<and> policy_valid p \<and>
    (\<forall>d. rp_year_decay p = Some d \<longrightarrow> year_decay_valid d)"
  by (cases name)
    (simp_all add: retrieval_policies_def dict_comp_def make_policy_def policy_valid_def
      year_decay_valid_def default_year_decay_def)

lemma policies_total:
  "\<exists>p. resolve_retrieval_policy name = Inr p \<and> rp_name p = name \<and> policy_valid p \<and>
     (is_input_searchable p f \<longrightarrow> (\<exists>q. build_candidate_canonical_search_query f cfg p self = Inr q))"
proof -
  obtain p where p: "map_of retrieval_policies name = Some p" "rp_name p = name" "policy_valid p"
    using registry_names by blast
  have "\<exists>q. build_candidate_canonical_search_query f cfg p self = Inr q" if "is_input_searchable p f"
    using that p(3)
    by (auto simp: build_candidate_canonical_search_query_def is_input_searchable_def policy_valid_def Let_def
        split: year_strategy.splits option.splits)
  with p show ?thesis by (auto simp: resolve_retrieval_policy_def)
qed

lemma policies_total_witness:
  "\<exists>p q. resolve_retrieval_policy CANDIDATE_SELECTION_V1 = Inr p \<and>
     build_candidate_canonical_search_query
       \<lparr> csf_publication_year = Some 1843, csf_authors = [''Ada Lovelace''], csf_title = Some ''On pigs'' \<rparr>
       sample_cfg p None = Inr q"
proof -
  let ?f = "\<lparr> csf_publication_year = Some 1843, csf_authors = [''Ada Lovelace''], csf_title = Some ''On pigs'' \<rparr>"
  obtain p where p: "resolve_retrieval_policy CANDIDATE_SELECTION_V1 = Inr p"
    "is_input_searchable p ?f \<longrightarrow> (\<exists>q. build_candidate_canonical_search_query ?f sample_cfg p None = Inr q)"
    using policies_total [of CANDIDATE_SELECTION_V1 ?f sample_cfg None] by blast
  have "is_input_searchable p ?f"
    by (simp add: is_input_searchable_def truthy_opt_str_def truthy_opt_int_def)
  with p show ?thesis by blast
qed


definition structural_hasher :: hasher where
  "structural_hasher = \<lparr> hash_enhancement = (\<lambda>_. 0), hash_identifier = (\<lambda>_. 0) \<rparr>"


end
