(* ===== verification/Pending_Enhancements.thy ===== *)
theory Pending_Enhancements
  imports Status_Machine Reference_Models Sql_Repository
begin

text \<open>
  The work queue of enhancement robots: \<^verbatim>\<open>PendingEnhancementSQLRepository\<close> and the enhancement
  request repository of \<^verbatim>\<open>src/app/domain/references/repository.py\<close>, the operations of
  \<^verbatim>\<open>EnhancementService\<close> and \<^verbatim>\<open>ReferenceService\<close> that create, claim, renew, import, fail, expire and
  retry pending enhancements, and the tasks that drive them.

  The state is a record of the tables these operations touch. Every operation is one transaction
  (\<^verbatim>\<open>@sql_unit_of_work\<close>): it returns the new tables, or an exception after which the tables are what
  they were. Rows that other transactions hold locked, which the claim and the expiry skip, are an
  argument; so are the clock and the identifiers that \<^verbatim>\<open>uuid7\<close> draws.
\<close>

section \<open>State\<close>

record 'q enhancement_request =
  er_id :: uuid
  er_reference_ids :: "uuid list"
  er_robot_id :: uuid
  er_request_status :: enhancement_request_status
  er_source :: "string option"
  er_search :: "'q option"
  er_search_status :: "request_search_status option"
  er_n_matched :: "int option"
  er_enhancement_parameters :: "json_dict option"
  er_error :: "string option"
  er_reference_data_file :: "blob_storage_file option"
  er_result_file :: "blob_storage_file option"
  er_validation_result_file :: "blob_storage_file option"

definition validate_search_xor_reference_ids :: "'q enhancement_request \<Rightarrow> bool" where
  "validate_search_xor_reference_ids r =
     (case er_search r of
        Some _ \<Rightarrow> er_reference_ids r = []
      | None \<Rightarrow> er_search_status r = None \<and> er_n_matched r = None)"

text \<open>The tables. Of references and robots only the keys matter here.\<close>

record 'q work_db =
  w_references :: "uuid list"
  w_robots :: "uuid list"
  w_requests :: "'q enhancement_request list"
  w_batches :: "robot_enhancement_batch_row list"
  w_pending :: "pending_enhancement list"

section \<open>Constraints of the table\<close>

text \<open>
  The partial unique index: request and reference of an original (non-retry) row. A row without a
  request has a null in the index and collides with nothing.
\<close>

definition non_retry_key :: "pending_enhancement \<Rightarrow> (uuid \<times> uuid) option" where
  "non_retry_key p =
     (if pe_retry_of p = None
      then map_option (\<lambda>q. (q, pe_reference_id p)) (pe_enhancement_request_id p) else None)"

definition non_retry_conflict :: "pending_enhancement \<Rightarrow> pending_enhancement list \<Rightarrow> bool" where
  "non_retry_conflict p tbl =
     (non_retry_key p \<noteq> None \<and> list_ex (\<lambda>r. non_retry_key r = non_retry_key p) tbl)"

definition non_retry_unique :: "pending_enhancement list \<Rightarrow> bool" where
  "non_retry_unique tbl = distinct (filter (\<lambda>k. k \<noteq> None) (map non_retry_key tbl))"

definition opt_fk :: "uuid list \<Rightarrow> uuid option \<Rightarrow> bool" where
  "opt_fk keys k = (case k of None \<Rightarrow> True | Some i \<Rightarrow> i \<in> set keys)"

definition pending_foreign_keys :: "'q work_db \<Rightarrow> pending_enhancement list \<Rightarrow> bool" where
  "pending_foreign_keys w tbl =
     list_all (\<lambda>p. pe_robot_id p \<in> set (w_robots w) \<and>
                   opt_fk (map er_id (w_requests w)) (pe_enhancement_request_id p) \<and>
                   opt_fk (map rebr_id (w_batches w)) (pe_robot_enhancement_batch_id p) \<and>
                   opt_fk (map pe_id tbl) (pe_retry_of p)) tbl"

definition pending_constraints :: "'q work_db \<Rightarrow> pending_enhancement list \<Rightarrow> bool" where
  "pending_constraints w tbl =
     (distinct (map pe_id tbl) \<and> non_retry_unique tbl \<and> pending_foreign_keys w tbl)"

definition batch_constraints :: "'q work_db \<Rightarrow> robot_enhancement_batch_row list \<Rightarrow> bool" where
  "batch_constraints w tbl =
     (distinct (map rebr_id tbl) \<and> list_all (\<lambda>b. rebr_robot_id b \<in> set (w_robots w)) tbl)"

definition batch_readable :: "robot_enhancement_batch_row \<Rightarrow> bool" where
  "batch_readable b = (case batch_to_domain [] False b of Inr _ \<Rightarrow> True | Inl _ \<Rightarrow> False)"

section \<open>PendingEnhancementSQLRepository\<close>

text \<open>The keyword arguments the program passes to the updates below.\<close>

record pending_kwargs =
  kw_status :: "pending_enhancement_status option"
  kw_robot_enhancement_batch_id :: "uuid option"
  kw_expires_at :: "datetime option"

definition no_kwargs :: pending_kwargs where
  "no_kwargs = \<lparr> kw_status = None, kw_robot_enhancement_batch_id = None, kw_expires_at = None \<rparr>"

definition apply_kwargs :: "pending_kwargs \<Rightarrow> pending_enhancement \<Rightarrow> pending_enhancement" where
  "apply_kwargs kw p =
     p\<lparr> pe_status := (case kw_status kw of None \<Rightarrow> pe_status p | Some s \<Rightarrow> s),
        pe_robot_enhancement_batch_id :=
          (case kw_robot_enhancement_batch_id kw of None \<Rightarrow> pe_robot_enhancement_batch_id p | Some b \<Rightarrow> Some b),
        pe_expires_at := (case kw_expires_at kw of None \<Rightarrow> pe_expires_at p | Some t \<Rightarrow> t) \<rparr>"

text \<open>The loop of guards before an update of the status; without one there is nothing to guard.\<close>

definition guard_rows :: "pending_enhancement_status option \<Rightarrow> pending_enhancement list \<Rightarrow> unit result" where
  "guard_rows status rows =
     (case status of
        None \<Rightarrow> Inr ()
      | Some s \<Rightarrow> res_foldM (\<lambda>p u. pe_guard (pe_status p) s (pe_id p)) rows ())"

definition with_pending :: "'q work_db \<Rightarrow> 'a \<times> pending_enhancement list \<Rightarrow> ('a \<times> 'q work_db) result" where
  "with_pending w r = Inr (fst r, w\<lparr> w_pending := snd r \<rparr>)"

definition pending_update_by_pk ::
    "'q work_db \<Rightarrow> uuid \<Rightarrow> pending_kwargs \<Rightarrow> (pending_enhancement \<times> 'q work_db) result" where
  "pending_update_by_pk w pk kw =
     res_bind (case kw_status kw of
                 None \<Rightarrow> Inr ()
               | Some s \<Rightarrow> res_bind (repo_get_by_pk pe_id (w_pending w) pk)
                             (\<lambda>p. pe_guard (pe_status p) s pk)) (\<lambda>_.
     res_bind (repo_update_by_pk pe_id (pending_constraints w) pending_enhancement_valid
                 (apply_kwargs kw) pk (w_pending w)) (with_pending w))"

definition pending_bulk_update ::
    "'q work_db \<Rightarrow> uuid list \<Rightarrow> pending_kwargs \<Rightarrow> (nat \<times> 'q work_db) result" where
  "pending_bulk_update w pks kw =
     res_bind (guard_rows (kw_status kw) (filter (\<lambda>p. pe_id p \<in> set pks) (w_pending w))) (\<lambda>_.
     res_bind (repo_bulk_update pe_id (pending_constraints w) (apply_kwargs kw) pks (w_pending w))
       (with_pending w))"

definition pending_bulk_update_by_filter ::
    "'q work_db \<Rightarrow> (pending_enhancement \<Rightarrow> bool) list \<Rightarrow> pending_kwargs \<Rightarrow> (nat \<times> 'q work_db) result" where
  "pending_bulk_update_by_filter w filters kw =
     res_bind (guard_rows (kw_status kw)
                 (repo_find (None :: (pending_enhancement \<Rightarrow> nat) option) None filters (w_pending w))) (\<lambda>_.
     res_bind (repo_bulk_update_by_filter (pending_constraints w) filters (apply_kwargs kw) (w_pending w))
       (with_pending w))"

text \<open>\<^verbatim>\<open>INSERT ... ON CONFLICT DO NOTHING\<close> on the partial index, row by row.\<close>

definition insert_unless_conflict ::
    "pending_enhancement \<Rightarrow> pending_enhancement list \<Rightarrow> pending_enhancement list" where
  "insert_unless_conflict r tbl = (if non_retry_conflict r tbl then tbl else tbl @ [r])"

definition add_bulk_ignore_conflicts ::
    "'q work_db \<Rightarrow> pending_enhancement list \<Rightarrow> (nat \<times> 'q work_db) result" where
  "add_bulk_ignore_conflicts w records =
     (let known = filter (\<lambda>r. pe_reference_id r \<in> set (w_references w)) records;
          tbl = fold insert_unless_conflict known (w_pending w)
      in if known = [] then Inr (0, w)
         else if \<not> pending_constraints w tbl then Inl SQLIntegrityError
         else Inr (length tbl - length (w_pending w), w\<lparr> w_pending := tbl \<rparr>))"

text \<open>\<^verbatim>\<open>FOR UPDATE SKIP LOCKED\<close>: locked rows are passed over before the limit counts.\<close>

definition find_available_for_robot ::
    "uuid list \<Rightarrow> uuid \<Rightarrow> nat \<Rightarrow> pending_enhancement list \<Rightarrow> pending_enhancement list" where
  "find_available_for_robot locked robot_id limit tbl =
     take limit (sort_key pe_created_at
       (filter (\<lambda>p. pe_id p \<notin> set locked \<and> pe_robot_id p = robot_id \<and>
                    pe_robot_enhancement_batch_id p = None \<and> pe_status p = PE_PENDING) tbl))"

text \<open>
  The recursive query along \<^verbatim>\<open>retry_of\<close> for one seed row. Out of fuel is \<open>None\<close>: a cycle, on which
  the query would not end.
\<close>

fun retry_depth :: "nat \<Rightarrow> pending_enhancement list \<Rightarrow> pending_enhancement \<Rightarrow> nat option" where
  "retry_depth 0 tbl p = None"
| "retry_depth (Suc n) tbl p =
     (case pe_retry_of p of
        None \<Rightarrow> Some 0
      | Some q \<Rightarrow>
          (case find (\<lambda>r. pe_id r = q) tbl of
             None \<Rightarrow> Some 0
           | Some r \<Rightarrow> map_option Suc (retry_depth n tbl r)))"

fun depths_of :: "pending_enhancement list \<Rightarrow> pending_enhancement list \<Rightarrow> (uuid \<times> nat) list option" where
  "depths_of tbl [] = Some []"
| "depths_of tbl (p # ps) =
     (case retry_depth (Suc (length tbl)) tbl p of
        None \<Rightarrow> None
      | Some d \<Rightarrow> map_option (\<lambda>ds. (pe_id p, d) # ds) (depths_of tbl ps))"

definition get_retry_depths :: "pending_enhancement list \<Rightarrow> uuid list \<Rightarrow> (uuid \<times> nat) list option" where
  "get_retry_depths tbl ids = depths_of tbl (filter (\<lambda>p. pe_id p \<in> set ids) tbl)"

definition expiry_candidates ::
    "uuid list \<Rightarrow> datetime \<Rightarrow> pending_enhancement_status list \<Rightarrow> nat \<Rightarrow> pending_enhancement list \<Rightarrow> uuid list" where
  "expiry_candidates locked now statuses limit tbl =
     map pe_id (take limit (sort_key pe_expires_at
       (filter (\<lambda>p. pe_id p \<notin> set locked \<and> pe_expires_at p < now \<and> pe_status p \<in> set statuses) tbl)))"

definition expire_pending_enhancements_past_expiry ::
    "uuid list \<Rightarrow> datetime \<Rightarrow> pending_enhancement_status list \<Rightarrow> nat \<Rightarrow> pending_enhancement list \<Rightarrow>
     pending_enhancement list \<times> pending_enhancement list" where
  "expire_pending_enhancements_past_expiry locked now statuses limit tbl =
     (let ids = expiry_candidates locked now statuses limit tbl;
          tbl' = map (\<lambda>p. if pe_id p \<in> set ids then p\<lparr> pe_status := PE_EXPIRED \<rparr> else p) tbl
      in (filter (\<lambda>p. pe_id p \<in> set ids) tbl', tbl'))"

section \<open>EnhancementRequestSQLRepository\<close>

definition get_pending_enhancement_status_set ::
    "'q work_db \<Rightarrow> uuid \<Rightarrow> pending_enhancement_status list" where
  "get_pending_enhancement_status_set w request_id =
     remdups (map pe_status (filter (\<lambda>p. pe_enhancement_request_id p = Some request_id) (w_pending w)))"

definition count_pending_enhancements_by_status ::
    "'q work_db \<Rightarrow> uuid \<Rightarrow> (pending_enhancement_status \<times> nat) list" where
  "count_pending_enhancements_by_status w request_id =
     (let rows = filter (\<lambda>p. pe_enhancement_request_id p = Some request_id) (w_pending w)
      in map (\<lambda>s. (s, length (filter (\<lambda>p. pe_status p = s) rows))) (remdups (map pe_status rows)))"

definition claim_search_request :: "'q work_db \<Rightarrow> uuid \<Rightarrow> bool \<times> 'q work_db" where
  "claim_search_request w request_id =
     (let claimable = (\<lambda>r. er_id r = request_id \<and>
                            er_search_status r \<in> {Some SS_PENDING, Some SS_SEARCHING})
      in (list_ex claimable (w_requests w),
          w\<lparr> w_requests := map (\<lambda>r. if claimable r then r\<lparr> er_search_status := Some SS_SEARCHING \<rparr> else r)
                             (w_requests w) \<rparr>))"

section \<open>Blob destinations\<close>

text \<open>
  The write backend of \<^verbatim>\<open>BlobRepository\<close>: its location, the name of the operations container, and
  the upload of a stream of references, which may fail.
\<close>

record blob_backend =
  bb_location :: blob_storage_location
  bb_operations_container :: string
  bb_upload_references :: "uuid list \<Rightarrow> blob_storage_file \<Rightarrow> unit result"

definition blob_destination :: "blob_backend \<Rightarrow> string \<Rightarrow> string \<Rightarrow> blob_storage_file result" where
  "blob_destination bb path filename =
     (let f = \<lparr> bsf_location = bb_location bb, bsf_container = bb_operations_container bb,
               bsf_path = path, bsf_filename = filename \<rparr>
      in if blob_file_valid f then Inr f else Inl ValidationError)"

definition upload_references :: "blob_backend \<Rightarrow> uuid list \<Rightarrow> string \<Rightarrow> string \<Rightarrow> blob_storage_file result" where
  "upload_references bb reference_ids path filename =
     res_bind (blob_destination bb path filename) (\<lambda>f.
     res_bind (bb_upload_references bb reference_ids f) (\<lambda>_. Inr f))"

section \<open>Creating pending enhancements\<close>

definition new_pending_enhancement ::
    "uuid \<Rightarrow> datetime \<Rightarrow> uuid \<Rightarrow> uuid \<Rightarrow> uuid option \<Rightarrow> string option \<Rightarrow> uuid option \<Rightarrow> pending_enhancement" where
  "new_pending_enhancement new_id now reference_id robot_id request_id source retry_of =
     \<lparr> pe_id = new_id, pe_created_at = now, pe_reference_id = reference_id, pe_robot_id = robot_id,
       pe_enhancement_request_id = request_id, pe_robot_enhancement_batch_id = None,
       pe_status = PE_PENDING, pe_source = source, pe_expires_at = 0, pe_retry_of = retry_of \<rparr>"

text \<open>\<open>fresh i\<close> is the identifier drawn for the \<open>i\<close>-th object of the comprehension.\<close>

definition create_pending_enhancements ::
    "(nat \<Rightarrow> uuid) \<Rightarrow> datetime \<Rightarrow> uuid \<Rightarrow> uuid list \<Rightarrow> uuid option \<Rightarrow> string option \<Rightarrow>
     'q work_db \<Rightarrow> 'q work_db result" where
  "create_pending_enhancements fresh now robot_id reference_ids request_id source w =
     (let to_create = map (\<lambda>(i, ref_id). new_pending_enhancement (fresh i) now ref_id robot_id
                                            request_id source None) (enumerate 0 reference_ids)
      in if \<not> list_all pending_enhancement_valid to_create then Inl ValidationError
         else if to_create = [] then Inr w
         else res_bind (add_bulk_ignore_conflicts w to_create) (\<lambda>(_, w'). Inr w'))"

definition add_enhancement_request ::
    "'q enhancement_request \<Rightarrow> 'q work_db \<Rightarrow> 'q work_db result" where
  "add_enhancement_request r w =
     res_bind (repo_add er_id (\<lambda>tbl. distinct (map er_id tbl)) validate_search_xor_reference_ids r (w_requests w))
       (\<lambda>(_, tbl). Inr (w\<lparr> w_requests := tbl \<rparr>))"

definition register_reference_enhancement_request ::
    "(nat \<Rightarrow> uuid) \<Rightarrow> datetime \<Rightarrow> 'q enhancement_request \<Rightarrow> 'q work_db \<Rightarrow>
     ('q enhancement_request \<times> 'q work_db) result" where
  "register_reference_enhancement_request fresh now r w =
     res_bind (repo_verify_pk_existence id (w_references w) (er_reference_ids r)) (\<lambda>_.
     res_bind (add_enhancement_request r w) (\<lambda>w1.
     res_bind (create_pending_enhancements fresh now (er_robot_id r) (er_reference_ids r) (Some (er_id r)) None w1)
       (\<lambda>w2. Inr (r, w2))))"

section \<open>Claiming a batch and keeping its lease\<close>

text \<open>
  \<^verbatim>\<open>{pe.reference_id: pe for pe in reversed(...)}.values()\<close>: one row per reference, the one that
  comes first in the list.
\<close>

definition first_per_reference :: "pending_enhancement list \<Rightarrow> pending_enhancement list" where
  "first_per_reference ps = dict_values (dict_comp pe_reference_id (\<lambda>p. p) (rev ps))"

definition build_robot_enhancement_batch ::
    "blob_backend \<Rightarrow> uuid \<Rightarrow> blob_storage_file \<Rightarrow> 'q work_db \<Rightarrow> (robot_enhancement_batch \<times> 'q work_db) result" where
  "build_robot_enhancement_batch bb batch_id reference_data_file w =
     res_bind (blob_destination bb ''robot_enhancement_batch_result_data'' (str_uuid batch_id @ ''_robot.jsonl''))
       (\<lambda>result_file.
     res_bind (repo_update_by_pk rebr_id (batch_constraints w) batch_readable
                 (\<lambda>b. b\<lparr> rebr_reference_data_file := Some (to_uri reference_data_file),
                         rebr_result_file := Some (to_uri result_file) \<rparr>) batch_id (w_batches w)) (\<lambda>(b, tbl).
     res_bind (batch_to_domain [] False b) (\<lambda>d. Inr (d, w\<lparr> w_batches := tbl \<rparr>))))"

definition claim_and_create_robot_enhancement_batch ::
    "blob_backend \<Rightarrow> uuid list \<Rightarrow> uuid \<Rightarrow> datetime \<Rightarrow> uuid \<Rightarrow> nat \<Rightarrow> int \<Rightarrow> 'q work_db \<Rightarrow>
     (robot_enhancement_batch option \<times> 'q work_db) result" where
  "claim_and_create_robot_enhancement_batch bb locked batch_id now robot_id limit lease_duration w =
     (let available = find_available_for_robot locked robot_id limit (w_pending w)
      in if available = [] then Inr (None, w)
         else
           (let claimed = first_per_reference available;
                batch = \<lparr> rebr_id = batch_id, rebr_robot_id = robot_id, rebr_reference_data_file = None,
                          rebr_result_file = None, rebr_validation_result_file = None, rebr_error = None \<rparr>
            in res_bind (repo_add rebr_id (batch_constraints w) batch_readable batch (w_batches w)) (\<lambda>(_, batches).
               let w1 = w\<lparr> w_batches := batches \<rparr>
               in res_bind (apply_positive_timedelta lease_duration now) (\<lambda>expires.
                  res_bind (pending_bulk_update w1 (map pe_id claimed)
                              \<lparr> kw_status = Some PE_PROCESSING, kw_robot_enhancement_batch_id = Some batch_id,
                                kw_expires_at = Some expires \<rparr>) (\<lambda>(_, w2).
                  res_bind (upload_references bb (map pe_reference_id claimed)
                              ''robot_enhancement_batch_reference_data'' (str_uuid batch_id @ ''.jsonl'')) (\<lambda>file.
                  res_bind (build_robot_enhancement_batch bb batch_id file w2) (\<lambda>(d, w3).
                    Inr (Some d, w3))))))))"

definition renew_robot_enhancement_batch_lease ::
    "datetime \<Rightarrow> uuid \<Rightarrow> int \<Rightarrow> 'q work_db \<Rightarrow> ((nat \<times> datetime) \<times> 'q work_db) result" where
  "renew_robot_enhancement_batch_lease now batch_id lease_duration w =
     res_bind (repo_verify_pk_existence rebr_id (w_batches w) [batch_id]) (\<lambda>_.
     res_bind (apply_positive_timedelta lease_duration now) (\<lambda>expiry.
     res_bind (pending_bulk_update_by_filter w
                 [\<lambda>p. pe_robot_enhancement_batch_id p = Some batch_id, \<lambda>p. pe_status p = PE_PROCESSING]
                 (no_kwargs\<lparr> kw_expires_at := Some expiry \<rparr>)) (\<lambda>(updated, w').
       Inr ((updated, expiry), w'))))"

section \<open>Moving a batch through its statuses\<close>

definition update_pending_enhancements_status ::
    "uuid list \<Rightarrow> pending_enhancement_status \<Rightarrow> 'q work_db \<Rightarrow> (nat \<times> 'q work_db) result" where
  "update_pending_enhancements_status ids status w =
     pending_bulk_update w ids (no_kwargs\<lparr> kw_status := Some status \<rparr>)"

definition batch_rows :: "uuid \<Rightarrow> 'q work_db \<Rightarrow> pending_enhancement list" where
  "batch_rows batch_id w =
     repo_find (None :: (pending_enhancement \<Rightarrow> nat) option) None
       [\<lambda>p. pe_robot_enhancement_batch_id p = Some batch_id] (w_pending w)"

definition update_status_for_robot_enhancement_batch ::
    "uuid \<Rightarrow> pending_enhancement_status \<Rightarrow> 'q work_db \<Rightarrow> (nat \<times> 'q work_db) result" where
  "update_status_for_robot_enhancement_batch batch_id status w =
     (let rows = batch_rows batch_id w
      in if rows = [] then Inr (0, w)
         else update_pending_enhancements_status (map pe_id rows) status w)"

definition mark_robot_enhancement_batch_failed ::
    "uuid \<Rightarrow> string \<Rightarrow> 'q work_db \<Rightarrow> (robot_enhancement_batch \<times> 'q work_db) result" where
  "mark_robot_enhancement_batch_failed batch_id error w =
     res_bind (pending_bulk_update_by_filter w [\<lambda>p. pe_robot_enhancement_batch_id p = Some batch_id]
                 (no_kwargs\<lparr> kw_status := Some PE_FAILED \<rparr>)) (\<lambda>(_, w1).
     res_bind (repo_update_by_pk rebr_id (batch_constraints w1) batch_readable
                 (\<lambda>b. b\<lparr> rebr_error := Some error \<rparr>) batch_id (w_batches w1)) (\<lambda>(b, tbl).
     res_bind (batch_to_domain [] False b) (\<lambda>d. Inr (d, w1\<lparr> w_batches := tbl \<rparr>))))"

section \<open>Expiry and retries\<close>

definition create_retry_pending_enhancements ::
    "(nat \<Rightarrow> uuid) \<Rightarrow> datetime \<Rightarrow> pending_enhancement list \<Rightarrow> int \<Rightarrow> 'q work_db \<Rightarrow>
     (pending_enhancement list \<times> 'q work_db) result option" where
  "create_retry_pending_enhancements fresh now expired max_retry_count w =
     (case get_retry_depths (w_pending w) (map pe_id expired) of
        None \<Rightarrow> None
      | Some retry_depths \<Rightarrow>
          (let depth = (\<lambda>p. case map_of retry_depths (pe_id p) of None \<Rightarrow> 0 | Some d \<Rightarrow> d);
               retried = filter (\<lambda>p. int (depth p) < max_retry_count) expired;
               to_retry = map (\<lambda>(i, p). new_pending_enhancement (fresh i) now (pe_reference_id p) (pe_robot_id p)
                            (pe_enhancement_request_id p) (pe_source p) (Some (pe_id p))) (enumerate 0 retried)
           in if to_retry = [] then Some (Inr ([], w))
              else if \<not> list_all pending_enhancement_valid to_retry then Some (Inl ValidationError)
              else Some (res_bind (repo_add_bulk pe_id (pending_constraints w) pending_enhancement_valid to_retry (w_pending w))
                           (with_pending w))))"

definition expire_and_replace_stale_pending_enhancements ::
    "(nat \<Rightarrow> uuid) \<Rightarrow> uuid list \<Rightarrow> datetime \<Rightarrow> int \<Rightarrow> nat \<Rightarrow> 'q work_db \<Rightarrow>
     ((nat \<times> nat) \<times> 'q work_db) result option" where
  "expire_and_replace_stale_pending_enhancements fresh locked now max_retry_count batch_size w =
     (let (expired, tbl) = expire_pending_enhancements_past_expiry locked now [PE_PROCESSING] batch_size (w_pending w);
          w1 = w\<lparr> w_pending := tbl \<rparr>
      in if expired = [] then Some (Inr ((0, 0), w1))
         else map_option (\<lambda>r. res_bind r (\<lambda>(replaced, w2). Inr ((length expired, length replaced), w2)))
                (create_retry_pending_enhancements fresh now expired max_retry_count w1))"

section \<open>Importing the results of a batch\<close>

definition categorize_pending_enhancements ::
    "uuid list \<Rightarrow> uuid list \<Rightarrow> pending_enhancement list \<Rightarrow> uuid list \<times> uuid list \<times> uuid list" where
  "categorize_pending_enhancements successful_refs discarded_refs ps =
     (let successful = (\<lambda>p. pe_reference_id p \<in> set successful_refs);
          discarded = (\<lambda>p. \<not> successful p \<and> pe_reference_id p \<in> set discarded_refs)
      in (map pe_id (filter successful ps), map pe_id (filter discarded ps),
          map pe_id (filter (\<lambda>p. \<not> successful p \<and> \<not> discarded p) ps)))"

text \<open>
  \<open>import_result\<close> is what streaming the result file gives for the rows of the batch: the references
  whose enhancement was added and those whose enhancement was discarded, or the exception. The
  validation messages are uploaded meanwhile, to the destination stored on the batch.
\<close>

definition validate_and_import_batch_result ::
    "blob_backend \<Rightarrow> (pending_enhancement list \<Rightarrow> (uuid list \<times> uuid list) result) \<Rightarrow>
     robot_enhancement_batch \<Rightarrow> 'q work_db \<Rightarrow> ((uuid list \<times> uuid list \<times> uuid list) \<times> 'q work_db) result" where
  "validate_and_import_batch_result bb import_result d w =
     (if reb_result_file d = None then Inl PyRuntimeError
      else
        (let preloaded = opt_list (reb_pending_enhancements d);
             rows = (if preloaded = [] then batch_rows (reb_id d) w else preloaded)
         in res_bind (blob_destination bb ''enhancement_result'' (str_uuid (reb_id d) @ ''_repo.jsonl'')) (\<lambda>file.
            res_bind (import_result rows) (\<lambda>(successful_refs, discarded_refs).
            res_bind (repo_update_by_pk rebr_id (batch_constraints w) batch_readable
                        (\<lambda>b. b\<lparr> rebr_validation_result_file := Some (to_uri file) \<rparr>) (reb_id d) (w_batches w)) (\<lambda>(_, tbl).
              Inr (categorize_pending_enhancements successful_refs discarded_refs rows,
                   w\<lparr> w_batches := tbl \<rparr>))))))"

text \<open>
  The task of the same name: what the import gives decides the status updates, each a transaction of
  its own, with the indexing in Elasticsearch (\<open>index\<close>) before the last. Should an update raise, the
  ones before it stay committed; that no update raises on a batch being imported is shown below.
\<close>

definition finish_batch_import ::
    "(uuid list \<Rightarrow> unit result) \<Rightarrow> uuid list \<Rightarrow> uuid list \<times> uuid list \<times> uuid list \<Rightarrow> 'q work_db \<Rightarrow> 'q work_db result" where
  "finish_batch_import index reference_ids results w =
     (let (successful, discarded, failed) = results
      in res_bind (update_pending_enhancements_status failed PE_FAILED w) (\<lambda>(_, w1).
         res_bind (update_pending_enhancements_status discarded PE_DISCARDED w1) (\<lambda>(_, w2).
         res_bind (update_pending_enhancements_status successful PE_INDEXING w2) (\<lambda>(_, w3).
           case res_bind (index reference_ids) (\<lambda>_.
                  update_pending_enhancements_status successful PE_COMPLETED w3) of
             Inr (_, w4) \<Rightarrow> Inr w4
           | Inl _ \<Rightarrow>
               res_bind (update_pending_enhancements_status successful PE_INDEXING_FAILED w3) (\<lambda>(_, w4). Inr w4)))))"

definition import_robot_enhancement_batch_result ::
    "blob_backend \<Rightarrow> (pending_enhancement list \<Rightarrow> (uuid list \<times> uuid list) result) \<Rightarrow> (uuid list \<Rightarrow> unit result) \<Rightarrow>
     (app_error \<Rightarrow> string) \<Rightarrow> uuid \<Rightarrow> 'q work_db \<Rightarrow> 'q work_db result" where
  "import_robot_enhancement_batch_result bb import_result index str_exc batch_id w =
     res_bind (repo_get_by_pk rebr_id (w_batches w) batch_id) (\<lambda>b.
     res_bind (batch_to_domain (w_pending w) True b) (\<lambda>d.
       case validate_and_import_batch_result bb import_result d w of
         Inl exc \<Rightarrow> res_bind (mark_robot_enhancement_batch_failed batch_id (str_exc exc) w) (\<lambda>(_, w'). Inr w')
       | Inr (results, w') \<Rightarrow>
           finish_batch_import index (map pe_reference_id (opt_list (reb_pending_enhancements d))) results w'))"

end
