(* ===== verification/Enhancement_Queue.thy ===== *)
theory Enhancement_Queue
  imports Pending_Enhancements
begin

text \<open>
  The queue of pending enhancements as a state machine: an invariant of its tables, a step relation
  with one rule per transaction of the program, and what holds of every state reached by any
  interleaving of such transactions.
\<close>

section \<open>The invariant\<close>

definition batch_heads :: "'q work_db \<Rightarrow> (uuid \<times> uuid) list" where
  "batch_heads w = map (\<lambda>b. (rebr_id b, rebr_robot_id b)) (w_batches w)"

text \<open>No chain of retries is longer than \<open>m\<close>; in particular there is no cycle.\<close>

definition retry_bounded :: "nat \<Rightarrow> pending_enhancement list \<Rightarrow> bool" where
  "retry_bounded m tbl = (\<forall>p \<in> set tbl. \<exists>d \<le> m. \<exists>n. retry_depth n tbl p = Some d)"

text \<open>A row waits exactly as long as it is in no batch.\<close>

definition pending_iff_unbatched :: "pending_enhancement \<Rightarrow> bool" where
  "pending_iff_unbatched p = ((pe_status p = PE_PENDING) = (pe_robot_enhancement_batch_id p = None))"

text \<open>A batch belongs to one robot and names each reference once.\<close>

definition batches_proper :: "(uuid \<times> uuid) list \<Rightarrow> pending_enhancement list \<Rightarrow> bool" where
  "batches_proper heads tbl =
     ((\<forall>p \<in> set tbl. \<forall>b. pe_robot_enhancement_batch_id p = Some b \<longrightarrow> (b, pe_robot_id p) \<in> set heads) \<and>
      (\<forall>b. distinct (map pe_reference_id (filter (\<lambda>p. pe_robot_enhancement_batch_id p = Some b) tbl))))"

definition queue_ok :: "nat \<Rightarrow> 'q work_db \<Rightarrow> bool" where
  "queue_ok m w =
     (pending_constraints w (w_pending w) \<and> batch_constraints w (w_batches w) \<and>
      distinct (map er_id (w_requests w)) \<and>
      list_all pending_iff_unbatched (w_pending w) \<and>
      batches_proper (batch_heads w) (w_pending w) \<and> retry_bounded m (w_pending w))"

section \<open>How a row changes\<close>

definition spine ::
    "pending_enhancement \<Rightarrow> uuid \<times> datetime \<times> uuid \<times> uuid \<times> uuid option \<times> string option \<times> uuid option" where
  "spine p = (pe_id p, pe_created_at p, pe_reference_id p, pe_robot_id p, pe_enhancement_request_id p,
              pe_source p, pe_retry_of p)"

definition row_kept :: "pending_enhancement \<Rightarrow> pending_enhancement \<Rightarrow> bool" where
  "row_kept p p' =
     (spine p' = spine p \<and> pe_robot_enhancement_batch_id p' = pe_robot_enhancement_batch_id p \<and>
      (pe_status p' = pe_status p \<or>
       pe_status p \<noteq> PE_PENDING \<and> pe_status p' \<in> set (pe_transitions (pe_status p))))"

definition row_claimed :: "uuid \<Rightarrow> pending_enhancement \<Rightarrow> pending_enhancement \<Rightarrow> bool" where
  "row_claimed b p p' =
     (spine p' = spine p \<and> pe_status p = PE_PENDING \<and> pe_robot_enhancement_batch_id p = None \<and>
      pe_status p' = PE_PROCESSING \<and> pe_robot_enhancement_batch_id p' = Some b)"

definition row_evolves :: "pending_enhancement \<Rightarrow> pending_enhancement \<Rightarrow> bool" where
  "row_evolves p p' = (row_kept p p' \<or> (\<exists>b. row_claimed b p p'))"

definition row_new :: "pending_enhancement \<Rightarrow> bool" where
  "row_new p = (pe_status p = PE_PENDING \<and> pe_robot_enhancement_batch_id p = None)"

text \<open>Rows are never deleted: a table grows at its end while its rows evolve in place.\<close>

definition table_evolves :: "pending_enhancement list \<Rightarrow> pending_enhancement list \<Rightarrow> bool" where
  "table_evolves tbl tbl' = (\<exists>old new. tbl' = old @ new \<and> list_all2 row_evolves tbl old \<and> list_all row_new new)"

lemma row_kept_refl [simp]: "row_kept p p"
  by (simp add: row_kept_def)

lemma row_kept_spine:
  "row_kept p p' \<Longrightarrow> pe_id p' = pe_id p \<and> pe_reference_id p' = pe_reference_id p \<and> pe_robot_id p' = pe_robot_id p \<and>
     pe_retry_of p' = pe_retry_of p \<and> pe_enhancement_request_id p' = pe_enhancement_request_id p"
  by (simp add: row_kept_def spine_def)

lemma not_pending_transition: "PE_PENDING \<notin> set (pe_transitions s)"
  by (cases s) auto

lemma row_kept_pending: "row_kept p p' \<Longrightarrow> pe_status p' = PE_PENDING \<longleftrightarrow> pe_status p = PE_PENDING"
  using not_pending_transition by (auto simp: row_kept_def)

lemma row_kept_iff_unbatched: "row_kept p p' \<Longrightarrow> pending_iff_unbatched p \<Longrightarrow> pending_iff_unbatched p'"
  using row_kept_pending by (auto simp: pending_iff_unbatched_def row_kept_def)

lemma row_new_ok: "row_new p \<Longrightarrow> pending_iff_unbatched p"
  by (simp add: row_new_def pending_iff_unbatched_def)

lemma table_evolves_in_place: "list_all2 row_evolves tbl tbl' \<Longrightarrow> table_evolves tbl tbl'"
  unfolding table_evolves_def by (rule exI [of _ tbl'], rule exI [of _ "[]"]) simp

lemma table_evolves_grow:
  assumes "list_all2 row_kept tbl old" and "list_all row_new new"
  shows "table_evolves tbl (old @ new)"
proof -
  have "list_all2 row_evolves tbl old"
    using assms(1) by (rule list_all2_mono) (simp add: row_evolves_def)
  with assms(2) show ?thesis unfolding table_evolves_def by blast
qed

lemma table_evolves_kept: "list_all2 row_kept tbl tbl' \<Longrightarrow> table_evolves tbl tbl'"
  using table_evolves_grow [of tbl tbl' "[]"] by simp

lemma table_evolves_refl: "table_evolves tbl tbl"
  by (rule table_evolves_kept) (simp add: list_all2_refl)

section \<open>Chains of retries\<close>

lemma retry_depth_more_fuel: "retry_depth n tbl p = Some d \<Longrightarrow> n \<le> n' \<Longrightarrow> retry_depth n' tbl p = Some d"
proof (induction n tbl p arbitrary: n' d rule: retry_depth.induct)
  case (2 n tbl p)
  then obtain k where k: "n' = Suc k" "n \<le> k" by (cases n') auto
  show ?case
  proof (cases "pe_retry_of p")
    case (Some q)
    show ?thesis
    proof (cases "find (\<lambda>r. pe_id r = q) tbl")
      case (Some r)
      with 2(2) \<open>pe_retry_of p = Some q\<close> obtain e where e: "retry_depth n tbl r = Some e" "d = Suc e" by auto
      from 2(1) [OF \<open>pe_retry_of p = Some q\<close> Some e(1) k(2)] k e Some \<open>pe_retry_of p = Some q\<close>
      show ?thesis by simp
    qed (use 2(2) Some k in simp)
  qed (use 2(2) k in simp)
qed simp

lemma retry_depth_unique:
  assumes "retry_depth i tbl p = Some d" and "retry_depth j tbl p = Some e"
  shows "d = e"
proof -
  have "retry_depth (max i j) tbl p = Some d" by (rule retry_depth_more_fuel [OF assms(1)]) simp
  moreover have "retry_depth (max i j) tbl p = Some e" by (rule retry_depth_more_fuel [OF assms(2)]) simp
  ultimately show ?thesis by simp
qed

text \<open>A depth needs no more fuel than itself, and every smaller depth occurs on the way.\<close>

lemma retry_depth_fuel: "retry_depth n tbl p = Some d \<Longrightarrow> retry_depth (Suc d) tbl p = Some d"
  by (induction n tbl p arbitrary: d rule: retry_depth.induct) (auto split: option.splits)

lemma retry_depth_below:
  "retry_depth n tbl p = Some d \<Longrightarrow> p \<in> set tbl \<Longrightarrow> k \<le> d \<Longrightarrow> \<exists>r \<in> set tbl. retry_depth (Suc k) tbl r = Some k"
proof (induction n tbl p arbitrary: d rule: retry_depth.induct)
  case (2 n tbl p)
  show ?case
  proof (cases "k = d")
    case True
    with 2 show ?thesis using retry_depth_fuel by blast
  next
    case False
    with 2 obtain q r e where "pe_retry_of p = Some q" "find (\<lambda>r. pe_id r = q) tbl = Some r"
      "retry_depth n tbl r = Some e" "d = Suc e"
      by (auto split: option.splits)
    with 2 False show ?thesis using find_Some_set by fastforce
  qed
qed simp

text \<open>The fuel of the query is enough: chains are no longer than the table.\<close>

lemma retry_depth_table_fuel:
  assumes "retry_depth n tbl p = Some d" and "p \<in> set tbl"
  shows "retry_depth (Suc (length tbl)) tbl p = Some d"
proof -
  let ?row = "\<lambda>k. SOME r. r \<in> set tbl \<and> retry_depth (Suc k) tbl r = Some k"
  have row: "?row k \<in> set tbl \<and> retry_depth (Suc k) tbl (?row k) = Some k" if "k \<le> d" for k
    using retry_depth_below [OF assms that] by (metis (mono_tags, lifting) someI_ex)
  have "inj_on ?row {0..d}"
  proof (rule inj_onI)
    fix i j assume ij: "i \<in> {0..d}" "j \<in> {0..d}" and eq: "?row i = ?row j"
    have "retry_depth (Suc i) tbl (?row i) = Some i" using row [of i] ij(1) by (meson atLeastAtMost_iff)
    moreover have "retry_depth (Suc j) tbl (?row i) = Some j"
      unfolding eq using row [of j] ij(2) by (meson atLeastAtMost_iff)
    ultimately show "i = j" by (rule retry_depth_unique)
  qed
  moreover have "?row ` {0..d} \<subseteq> set tbl"
  proof
    fix r assume "r \<in> ?row ` {0..d}"
    then obtain k where "k \<le> d" "r = ?row k" by (meson atLeastAtMost_iff imageE)
    with row [of k] show "r \<in> set tbl" by blast
  qed
  ultimately have "card {0..d} \<le> card (set tbl)" by (rule card_inj_on_le) simp
  then have "Suc d \<le> Suc (length tbl)" using card_length [of tbl] by simp
  then show ?thesis using retry_depth_more_fuel retry_depth_fuel [OF assms(1)] by blast
qed

lemma depths_of_total:
  assumes "\<forall>p \<in> set ps. \<exists>d. retry_depth (Suc (length tbl)) tbl p = Some d"
  shows "\<exists>ds. depths_of tbl ps = Some ds \<and>
           (\<forall>i. map_of ds i = Option.bind (find (\<lambda>p. pe_id p = i) ps) (retry_depth (Suc (length tbl)) tbl))"
  using assms
proof (induction ps)
  case (Cons p ps)
  obtain d where d: "retry_depth (Suc (length tbl)) tbl p = Some d"
    using Cons.prems by (meson list.set_intros(1))
  have "\<forall>p \<in> set ps. \<exists>d. retry_depth (Suc (length tbl)) tbl p = Some d"
    using Cons.prems by (meson list.set_intros(2))
  from Cons.IH [OF this] obtain ds where ds: "depths_of tbl ps = Some ds"
    "\<forall>i. map_of ds i = Option.bind (find (\<lambda>p. pe_id p = i) ps) (retry_depth (Suc (length tbl)) tbl)"
    by blast
  have "depths_of tbl (p # ps) = Some ((pe_id p, d) # ds)"
    by (simp only: depths_of.simps d ds(1) option.case option.map)
  moreover have "map_of ((pe_id p, d) # ds) i =
      Option.bind (find (\<lambda>p. pe_id p = i) (p # ps)) (retry_depth (Suc (length tbl)) tbl)" for i
    using ds(2) d by (simp del: retry_depth.simps)
  ultimately show ?case by blast
qed simp

lemma retry_depth_same_spine:
  assumes "list_all2 (\<lambda>p p'. spine p' = spine p) tbl tbl'" and "spine p' = spine p"
  shows "retry_depth n tbl' p' = retry_depth n tbl p"
  using assms
proof (induction n tbl p arbitrary: p' rule: retry_depth.induct)
  case (2 n tbl p)
  have same: "pe_retry_of p' = pe_retry_of p" using 2(3) by (simp add: spine_def)
  have rel: "rel_option (\<lambda>p p'. spine p' = spine p) (find (\<lambda>r. pe_id r = q) tbl) (find (\<lambda>r. pe_id r = q) tbl')" for q
    using 2(2) by (induction) (auto simp: spine_def)
  show ?case
  proof (cases "pe_retry_of p")
    case (Some q)
    with rel [of q] same 2(1) [OF Some] 2(2) show ?thesis
      by (cases "find (\<lambda>r. pe_id r = q) tbl"; cases "find (\<lambda>r. pe_id r = q) tbl'") auto
  qed (simp add: same)
qed simp

lemma retry_depth_append:
  assumes "retry_depth n tbl p = Some d" and "opt_fk (map pe_id tbl) (pe_retry_of p)"
    and "\<forall>r \<in> set tbl. opt_fk (map pe_id tbl) (pe_retry_of r)"
  shows "retry_depth n (tbl @ new) p = Some d"
  using assms
proof (induction n tbl p arbitrary: d rule: retry_depth.induct)
  case (2 n tbl p)
  show ?case
  proof (cases "pe_retry_of p")
    case (Some q)
    with 2(3) have "q \<in> pe_id ` set tbl" by (simp add: opt_fk_def)
    then obtain r where r: "find (\<lambda>r. pe_id r = q) tbl = Some r"
      by (cases "find (\<lambda>r. pe_id r = q) tbl") (auto simp: find_None_set)
    with 2(2) Some obtain e where e: "retry_depth n tbl r = Some e" "d = Suc e" by auto
    have "retry_depth n (tbl @ new) r = Some e"
      using 2(1) [OF Some r e(1)] 2(4) find_Some_set [OF r] by blast
    with Some r e show ?thesis by (simp add: find_append_cases)
  qed (use 2 in simp)
qed simp

section \<open>Preservation of the invariant\<close>

definition same_spines :: "pending_enhancement list \<Rightarrow> pending_enhancement list \<Rightarrow> bool" where
  "same_spines tbl tbl' = list_all2 (\<lambda>p p'. spine p' = spine p) tbl tbl'"

lemma same_spines_map:
  assumes "same_spines tbl tbl'" and "\<And>p p'. spine p' = spine p \<Longrightarrow> f p' = f p"
  shows "map f tbl' = map f tbl"
  using assms(1) unfolding same_spines_def
  by (induction rule: list_all2_induct) (auto intro: assms(2))

lemma same_spines_maps:
  assumes "same_spines tbl tbl'"
  shows "map pe_id tbl' = map pe_id tbl" "map non_retry_key tbl' = map non_retry_key tbl"
  by (rule same_spines_map [OF assms], simp add: spine_def non_retry_key_def)+

lemma kept_same_spines: "list_all2 row_kept tbl tbl' \<Longrightarrow> same_spines tbl tbl'"
  unfolding same_spines_def by (erule list_all2_mono) (simp add: row_kept_def)

lemma list_all_list_all2:
  "list_all2 R xs ys \<Longrightarrow> list_all P xs \<Longrightarrow> (\<And>x y. R x y \<Longrightarrow> P x \<Longrightarrow> Q y) \<Longrightarrow> list_all Q ys"
  by (induction rule: list_all2_induct) auto

lemma kept_constraints:
  assumes "list_all2 row_kept tbl tbl'" and "pending_constraints w tbl"
  shows "pending_constraints w tbl'"
proof -
  note maps = same_spines_maps [OF kept_same_spines [OF assms(1)]]
  have "list_all (\<lambda>p. pe_robot_id p \<in> set (w_robots w) \<and>
                   opt_fk (map er_id (w_requests w)) (pe_enhancement_request_id p) \<and>
                   opt_fk (map rebr_id (w_batches w)) (pe_robot_enhancement_batch_id p) \<and>
                   opt_fk (map pe_id tbl) (pe_retry_of p)) tbl"
    using assms(2) by (simp add: pending_constraints_def pending_foreign_keys_def)
  with assms(1) have "pending_foreign_keys w tbl'"
    unfolding pending_foreign_keys_def maps
    by (rule list_all_list_all2) (auto simp: row_kept_def spine_def)
  with assms(2) show ?thesis
    by (simp add: pending_constraints_def non_retry_unique_def maps)
qed

lemma same_spines_retry_bounded:
  assumes "same_spines tbl tbl'" and "retry_bounded m tbl"
  shows "retry_bounded m tbl'"
  unfolding retry_bounded_def
proof
  fix p' assume "p' \<in> set tbl'"
  then obtain p where p: "p \<in> set tbl" "spine p' = spine p"
    using list_all2_right [OF assms(1) [unfolded same_spines_def]] by blast
  then have "retry_depth n tbl' p' = retry_depth n tbl p" for n
    using retry_depth_same_spine [OF assms(1) [unfolded same_spines_def]] by blast
  with assms(2) p(1) show "\<exists>d \<le> m. \<exists>n. retry_depth n tbl' p' = Some d" by (simp add: retry_bounded_def)
qed

lemmas kept_retry_bounded = same_spines_retry_bounded [OF kept_same_spines]

lemma kept_batches_proper:
  assumes "list_all2 row_kept tbl tbl'" and "batches_proper heads tbl"
  shows "batches_proper heads tbl'"
proof -
  have "map pe_reference_id (filter (\<lambda>p. pe_robot_enhancement_batch_id p = Some b) tbl') =
        map pe_reference_id (filter (\<lambda>p. pe_robot_enhancement_batch_id p = Some b) tbl)" for b
    using assms(1) by (induction rule: list_all2_induct) (auto simp: row_kept_def spine_def)
  moreover have "(b, pe_robot_id p') \<in> set heads"
    if "p' \<in> set tbl'" "pe_robot_enhancement_batch_id p' = Some b" for p' b
  proof -
    from list_all2_right [OF assms(1) that(1)] obtain p where "p \<in> set tbl" "row_kept p p'" by blast
    with assms(2) that(2) show ?thesis by (simp add: batches_proper_def row_kept_def spine_def)
  qed
  ultimately show ?thesis using assms(2) by (simp add: batches_proper_def)
qed

lemma pending_constraints_cong:
  "w_robots w' = w_robots w \<Longrightarrow> w_requests w' = w_requests w \<Longrightarrow> w_batches w' = w_batches w \<Longrightarrow>
     pending_constraints w' tbl = pending_constraints w tbl"
  by (simp add: pending_constraints_def pending_foreign_keys_def)

lemma queue_ok_pending:
  "queue_ok m (w\<lparr> w_pending := tbl \<rparr>) \<longleftrightarrow>
     pending_constraints w tbl \<and> batch_constraints w (w_batches w) \<and> distinct (map er_id (w_requests w)) \<and>
     list_all pending_iff_unbatched tbl \<and> batches_proper (batch_heads w) tbl \<and> retry_bounded m tbl"
  by (simp add: queue_ok_def batch_heads_def batch_constraints_def pending_constraints_def
      pending_foreign_keys_def)

lemma queue_ok_kept:
  assumes "queue_ok m w" and "list_all2 row_kept (w_pending w) tbl"
  shows "queue_ok m (w\<lparr> w_pending := tbl \<rparr>)"
  unfolding queue_ok_pending
  using assms(1) kept_constraints [OF assms(2)] kept_batches_proper [OF assms(2)] kept_retry_bounded [OF assms(2)]
    list_all_list_all2 [OF assms(2), of pending_iff_unbatched pending_iff_unbatched] row_kept_iff_unbatched
  by (auto simp: queue_ok_def)

text \<open>New rows at the end: originals, or retries of rows whose chain is not full.\<close>

definition retry_room :: "nat \<Rightarrow> pending_enhancement list \<Rightarrow> pending_enhancement \<Rightarrow> bool" where
  "retry_room m tbl p =
     (case pe_retry_of p of
        None \<Rightarrow> True
      | Some q \<Rightarrow> (\<exists>r n d. find (\<lambda>r. pe_id r = q) tbl = Some r \<and> retry_depth n tbl r = Some d \<and> d < m))"

lemma queue_ok_append:
  assumes "queue_ok m w" and "pending_constraints w (w_pending w @ new)"
    and "list_all row_new new" and "list_all (retry_room m (w_pending w)) new"
  shows "queue_ok m (w\<lparr> w_pending := w_pending w @ new \<rparr>)"
proof -
  let ?tbl = "w_pending w"
  have fk: "\<forall>r \<in> set ?tbl. opt_fk (map pe_id ?tbl) (pe_retry_of r)"
    using assms(1) by (auto simp: queue_ok_def pending_constraints_def pending_foreign_keys_def list_all_iff)
  have "\<exists>d \<le> m. \<exists>n. retry_depth n (?tbl @ new) p = Some d" if p: "p \<in> set (?tbl @ new)" for p
  proof (cases "p \<in> set ?tbl")
    case True
    with assms(1) obtain d n where "d \<le> m" "retry_depth n ?tbl p = Some d"
      by (auto simp: queue_ok_def retry_bounded_def)
    with True fk show ?thesis using retry_depth_append by blast
  next
    case False
    with p assms(4) have room: "retry_room m ?tbl p" by (simp add: list_all_iff)
    show ?thesis
    proof (cases "pe_retry_of p")
      case None
      then have "retry_depth (Suc 0) (?tbl @ new) p = Some 0" by simp
      then show ?thesis by blast
    next
      case (Some q)
      with room obtain r n d where r: "find (\<lambda>r. pe_id r = q) ?tbl = Some r" "retry_depth n ?tbl r = Some d" "d < m"
        by (auto simp: retry_room_def)
      have "retry_depth n (?tbl @ new) r = Some d"
        using retry_depth_append [OF r(2)] fk find_Some_set [OF r(1)] by blast
      with Some r have "retry_depth (Suc n) (?tbl @ new) p = Some (Suc d)" by (simp add: find_append_cases)
      with r(3) show ?thesis by (meson Suc_leI)
    qed
  qed
  then have "retry_bounded m (?tbl @ new)" by (simp add: retry_bounded_def)
  moreover have "filter (\<lambda>p. pe_robot_enhancement_batch_id p = Some b) new = []" for b
    using assms(3) by (auto simp: list_all_iff row_new_def filter_empty_conv)
  then have "batches_proper (batch_heads w) (?tbl @ new)"
    using assms(1,3) by (auto simp: queue_ok_def batches_proper_def list_all_iff row_new_def)
  moreover have "list_all pending_iff_unbatched (?tbl @ new)"
    using assms(1,3) row_new_ok by (auto simp: queue_ok_def list_all_iff)
  ultimately show ?thesis using assms(1,2) unfolding queue_ok_pending by (simp add: queue_ok_def)
qed

section \<open>What the repository updates do\<close>

lemma guard_rows_Inr_iff [result_simps]:
  "guard_rows status rows = Inr u \<longleftrightarrow>
     (\<forall>s. status = Some s \<longrightarrow> (\<forall>p \<in> set rows. s \<in> set (pe_transitions (pe_status p))))"
proof (cases status)
  case (Some s)
  have "res_foldM (\<lambda>p u. pe_guard (pe_status p) s (pe_id p)) rows v = Inr u \<longleftrightarrow>
      (\<forall>p \<in> set rows. s \<in> set (pe_transitions (pe_status p)))" for v
    by (induction rows arbitrary: v) (auto simp: result_simps)
  with Some show ?thesis by (simp add: guard_rows_def)
qed (simp add: guard_rows_def)

definition update_rows ::
    "(pending_enhancement \<Rightarrow> bool) \<Rightarrow> pending_kwargs \<Rightarrow> pending_enhancement list \<Rightarrow> pending_enhancement list" where
  "update_rows P kw tbl = map (\<lambda>p. if P p then apply_kwargs kw p else p) tbl"

lemma update_rows_none: "\<forall>p \<in> set tbl. \<not> P p \<Longrightarrow> update_rows P kw tbl = tbl"
  unfolding update_rows_def by (rule map_idI) simp

lemma work_db_same [simp]: "w\<lparr> w_pending := w_pending w \<rparr> = (w :: 'q work_db)"
  by (cases w) simp

lemma pending_bulk_update_Inr:
  assumes "pending_bulk_update w pks kw = Inr (n, w')"
  shows "w' = w\<lparr> w_pending := update_rows (\<lambda>p. pe_id p \<in> set pks) kw (w_pending w) \<rparr> \<and>
    (\<forall>s. kw_status kw = Some s \<longrightarrow>
       (\<forall>p \<in> set (w_pending w). pe_id p \<in> set pks \<longrightarrow> s \<in> set (pe_transitions (pe_status p)))) \<and>
    (pks \<noteq> [] \<longrightarrow> pending_constraints w (w_pending w'))"
  using assms
  by (cases "pks = []") (auto simp: pending_bulk_update_def repo_bulk_update_def update_where_def Let_def with_pending_def
      update_rows_def result_simps split: if_splits)

lemma pending_bulk_update_by_filter_Inr:
  assumes "pending_bulk_update_by_filter w filters kw = Inr (n, w')" and "filters \<noteq> []"
  shows "w' = w\<lparr> w_pending := update_rows (\<lambda>p. list_all (\<lambda>f. f p) filters) kw (w_pending w) \<rparr> \<and>
    (\<forall>s. kw_status kw = Some s \<longrightarrow>
       (\<forall>p \<in> set (w_pending w). list_all (\<lambda>f. f p) filters \<longrightarrow> s \<in> set (pe_transitions (pe_status p))))"
  using assms
  by (auto simp: pending_bulk_update_by_filter_def repo_bulk_update_by_filter_def repo_find_def update_where_def Let_def
      with_pending_def update_rows_def result_simps split: if_splits)

lemma apply_kwargs_fields [simp]:
  "pe_id (apply_kwargs kw p) = pe_id p"
  "pe_reference_id (apply_kwargs kw p) = pe_reference_id p"
  "pe_robot_id (apply_kwargs kw p) = pe_robot_id p"
  "spine (apply_kwargs kw p) = spine p"
  by (simp_all add: apply_kwargs_def spine_def)

lemma transition_not_pending:
  "s \<in> set (pe_transitions q) \<Longrightarrow> s \<noteq> PE_PROCESSING \<Longrightarrow> q \<noteq> PE_PENDING"
  by (cases q) auto

lemma row_kept_kwargs:
  assumes "kw_robot_enhancement_batch_id kw = None"
    and "\<And>s. kw_status kw = Some s \<Longrightarrow> s \<noteq> PE_PROCESSING \<and> s \<in> set (pe_transitions (pe_status p))"
  shows "row_kept p (apply_kwargs kw p)"
proof (cases "kw_status kw")
  case None
  with assms(1) show ?thesis by (simp add: row_kept_def apply_kwargs_def spine_def)
next
  case (Some s)
  from assms(2) [OF Some] have "pe_status p \<noteq> PE_PENDING" by (blast dest: transition_not_pending)
  with assms(1) assms(2) [OF Some] Some show ?thesis by (simp add: row_kept_def apply_kwargs_def spine_def)
qed

lemma update_rows_kept:
  assumes "kw_robot_enhancement_batch_id kw = None"
    and "\<And>s p. kw_status kw = Some s \<Longrightarrow> p \<in> set tbl \<Longrightarrow> P p \<Longrightarrow>
           s \<noteq> PE_PROCESSING \<and> s \<in> set (pe_transitions (pe_status p))"
  shows "list_all2 row_kept tbl (update_rows P kw tbl)"
  unfolding update_rows_def list_all2_map2 list_all2_same
  using row_kept_kwargs [OF assms(1)] assms(2) by auto

text \<open>What a call of the program does to the queue: other tables apart, rows are kept or appended.\<close>

definition keeps_rows :: "'q work_db \<Rightarrow> 'q work_db \<Rightarrow> bool" where
  "keeps_rows w w' = (\<exists>tbl. w' = w\<lparr> w_pending := tbl \<rparr> \<and> list_all2 row_kept (w_pending w) tbl)"

lemma update_status_keeps:
  assumes "update_pending_enhancements_status ids s w = Inr (n, w')" and "s \<noteq> PE_PROCESSING"
  shows "keeps_rows w w'"
proof -
  note upd = pending_bulk_update_Inr [OF assms(1) [unfolded update_pending_enhancements_status_def]]
  have "list_all2 row_kept (w_pending w)
          (update_rows (\<lambda>p. pe_id p \<in> set ids) (no_kwargs\<lparr> kw_status := Some s \<rparr>) (w_pending w))"
    by (rule update_rows_kept) (use upd assms(2) in \<open>auto simp: no_kwargs_def\<close>)
  with upd show ?thesis unfolding keeps_rows_def by blast
qed

lemma keeps_rows_refl: "keeps_rows w w"
  unfolding keeps_rows_def by (rule exI [of _ "w_pending w"]) (simp add: list_all2_refl)

lemma update_batch_status_keeps:
  assumes "update_status_for_robot_enhancement_batch b s w = Inr (n, w')" and "s \<noteq> PE_PROCESSING"
  shows "keeps_rows w w'"
  using assms update_status_keeps keeps_rows_refl
  by (auto simp: update_status_for_robot_enhancement_batch_def Let_def split: if_splits)

lemma renew_keeps:
  assumes "renew_robot_enhancement_batch_lease now b lease w = Inr (c, w')"
  shows "keeps_rows w w'"
proof -
  from assms obtain e n where upd: "pending_bulk_update_by_filter w
      [\<lambda>p. pe_robot_enhancement_batch_id p = Some b, \<lambda>p. pe_status p = PE_PROCESSING]
      (no_kwargs\<lparr> kw_expires_at := Some e \<rparr>) = Inr (n, w')"
    by (auto simp: renew_robot_enhancement_batch_lease_def result_simps)
  note upd = pending_bulk_update_by_filter_Inr [OF this, simplified]
  show ?thesis
    unfolding keeps_rows_def using upd
    by (intro exI conjI) (blast, rule update_rows_kept, auto simp: no_kwargs_def)
qed

text \<open>Updates of a batch row leave its key and its robot alone.\<close>

lemma batch_update_heads:
  assumes "repo_update_by_pk rebr_id c v f pk tbl = Inr (b, tbl')"
    and "\<And>b. rebr_id (f b) = rebr_id b \<and> rebr_robot_id (f b) = rebr_robot_id b" and "distinct (map rebr_id tbl)"
  shows "map (\<lambda>b. (rebr_id b, rebr_robot_id b)) tbl' = map (\<lambda>b. (rebr_id b, rebr_robot_id b)) tbl"
proof -
  from assms(1) obtain r where r: "find (\<lambda>r. rebr_id r = pk) tbl = Some r" and t: "tbl' = replace_row rebr_id (f r) tbl"
    by (auto simp: repo_update_by_pk_def result_simps split: option.splits)
  have "x = r" if "x \<in> set tbl" "rebr_id x = rebr_id r" for x
    using that assms(3) find_Some_set [OF r] by (metis distinct_map inj_on_eq_iff)
  then show ?thesis using assms(2) unfolding t replace_row_def by (auto simp: comp_def)
qed

lemma opt_fk_mono: "opt_fk ks k \<Longrightarrow> set ks \<subseteq> set ks' \<Longrightarrow> opt_fk ks' k"
  by (auto simp: opt_fk_def split: option.splits)

lemma pending_constraints_mono:
  assumes "pending_constraints w tbl" and "set (w_robots w) \<subseteq> set (w_robots w')"
    and "set (map er_id (w_requests w)) \<subseteq> set (map er_id (w_requests w'))"
    and "set (map rebr_id (w_batches w)) \<subseteq> set (map rebr_id (w_batches w'))"
  shows "pending_constraints w' tbl"
proof -
  have "opt_fk (map er_id (w_requests w)) k \<Longrightarrow> opt_fk (map er_id (w_requests w')) k"
    "opt_fk (map rebr_id (w_batches w)) k \<Longrightarrow> opt_fk (map rebr_id (w_batches w')) k" for k
    using opt_fk_mono assms(3,4) by blast+
  with assms(1,2) show ?thesis
    unfolding pending_constraints_def pending_foreign_keys_def list_all_iff by blast
qed

lemma batch_heads_ids: "batch_heads w' = batch_heads w \<Longrightarrow> map rebr_id (w_batches w') = map rebr_id (w_batches w)"
  by (drule arg_cong [of _ _ "map fst"]) (simp add: batch_heads_def comp_def)

lemma batch_constraints_heads:
  "batch_constraints w (w_batches w) \<longleftrightarrow>
     distinct (map fst (batch_heads w)) \<and> (\<forall>h \<in> set (batch_heads w). snd h \<in> set (w_robots w))"
  by (simp add: batch_constraints_def batch_heads_def comp_def list_all_iff)

text \<open>Tables around the queue may grow, and batch rows may change other than in key and robot.\<close>

definition around :: "'q work_db \<Rightarrow> 'q work_db \<Rightarrow> bool" where
  "around w w' =
     (set (w_robots w) \<subseteq> set (w_robots w') \<and>
      set (map er_id (w_requests w)) \<subseteq> set (map er_id (w_requests w')) \<and> distinct (map er_id (w_requests w')) \<and>
      batch_heads w' = batch_heads w \<and> w_pending w' = w_pending w)"

lemma queue_ok_around:
  assumes "queue_ok m w" and "around w w'"
  shows "queue_ok m w'"
proof -
  from assms have "pending_constraints w' (w_pending w')"
    using pending_constraints_mono [of w "w_pending w" w'] batch_heads_ids [of w' w]
    by (simp add: queue_ok_def around_def)
  moreover from assms have "batch_constraints w' (w_batches w')"
    by (auto simp: queue_ok_def around_def batch_constraints_heads)
  ultimately show ?thesis using assms by (simp add: queue_ok_def around_def)
qed

lemma queue_ok_keeps: "queue_ok m w \<Longrightarrow> keeps_rows w w' \<Longrightarrow> queue_ok m w'"
  using queue_ok_kept by (auto simp: keeps_rows_def)

lemma keeps_evolves: "keeps_rows w w' \<Longrightarrow> table_evolves (w_pending w) (w_pending w')"
  using table_evolves_kept by (auto simp: keeps_rows_def)

lemma batches_around:
  assumes "repo_update_by_pk rebr_id c v f pk (w_batches w) = Inr (b, tbl)"
    and "\<And>b. rebr_id (f b) = rebr_id b \<and> rebr_robot_id (f b) = rebr_robot_id b" and "queue_ok m w"
  shows "around w (w\<lparr> w_batches := tbl \<rparr>)"
  using batch_update_heads [OF assms(1,2)] assms(3)
  by (simp add: around_def batch_heads_def queue_ok_def batch_constraints_def)

section \<open>Each transaction keeps the invariant and evolves the table\<close>

definition good_step :: "nat \<Rightarrow> 'q work_db \<Rightarrow> 'q work_db \<Rightarrow> bool" where
  "good_step m w w' = (queue_ok m w' \<and> table_evolves (w_pending w) (w_pending w'))"

lemma good_step_keeps: "queue_ok m w \<Longrightarrow> keeps_rows w w' \<Longrightarrow> good_step m w w'"
  by (simp add: good_step_def queue_ok_keeps keeps_evolves)

lemma good_step_around: "queue_ok m w \<Longrightarrow> around w w' \<Longrightarrow> good_step m w w'"
  using queue_ok_around by (auto simp: good_step_def around_def table_evolves_refl)

lemma good_step_then_around: "good_step m w w1 \<Longrightarrow> around w1 w2 \<Longrightarrow> good_step m w w2"
  using queue_ok_around by (auto simp: good_step_def around_def)

lemma fail_good:
  assumes "queue_ok m w" and "mark_robot_enhancement_batch_failed b err w = Inr (d, w')"
  shows "good_step m w w'"
proof -
  from assms(2) obtain n w1 r tbl where
    upd: "pending_bulk_update_by_filter w [\<lambda>p. pe_robot_enhancement_batch_id p = Some b]
            (no_kwargs\<lparr> kw_status := Some PE_FAILED \<rparr>) = Inr (n, w1)" and
    bat: "repo_update_by_pk rebr_id (batch_constraints w1) batch_readable (\<lambda>b. b\<lparr> rebr_error := Some err \<rparr>) b
            (w_batches w1) = Inr (r, tbl)" and w': "w' = w1\<lparr> w_batches := tbl \<rparr>"
    by (auto simp: mark_robot_enhancement_batch_failed_def result_simps)
  note u = pending_bulk_update_by_filter_Inr [OF upd, simplified]
  have "list_all2 row_kept (w_pending w) (update_rows (\<lambda>p. pe_robot_enhancement_batch_id p = Some b)
      (no_kwargs\<lparr> kw_status := Some PE_FAILED \<rparr>) (w_pending w))"
    by (rule update_rows_kept) (use u in \<open>auto simp: no_kwargs_def\<close>)
  then have "good_step m w w1" using u good_step_keeps [OF assms(1)] unfolding keeps_rows_def by blast
  moreover from this have "around w1 w'"
    unfolding w' using batches_around [OF bat, of m] by (simp add: good_step_def)
  ultimately show ?thesis by (rule good_step_then_around)
qed

lemma validate_good:
  assumes "queue_ok m w" and "validate_and_import_batch_result bb imp d w = Inr (r, w')"
  shows "good_step m w w'"
proof -
  from assms(2) obtain out b tbl where "repo_update_by_pk rebr_id (batch_constraints w) batch_readable
      (\<lambda>b. b\<lparr> rebr_validation_result_file := Some (to_uri out) \<rparr>) (reb_id d) (w_batches w) = Inr (b, tbl)"
    and w': "w' = w\<lparr> w_batches := tbl \<rparr>"
    by (auto simp: validate_and_import_batch_result_def Let_def result_simps split: if_splits)
  from batches_around [OF this(1) _ assms(1)] show ?thesis
    unfolding w' by (intro good_step_around [OF assms(1)]) simp
qed

lemma fold_insert_append: "\<exists>new. fold insert_unless_conflict rs tbl = tbl @ new \<and> set new \<subseteq> set rs"
proof (induction rs arbitrary: tbl)
  case (Cons r rs)
  show ?case
  proof (cases "non_retry_conflict r tbl")
    case True
    with Cons [of tbl] show ?thesis by (auto simp: insert_unless_conflict_def [of r tbl])
  next
    case False
    from Cons [of "tbl @ [r]"] obtain new where "fold insert_unless_conflict rs (tbl @ [r]) = (tbl @ [r]) @ new"
      "set new \<subseteq> set rs" by blast
    with False show ?thesis by (intro exI [of _ "r # new"]) (auto simp: insert_unless_conflict_def [of r tbl])
  qed
qed simp

lemma add_bulk_ignore_conflicts_Inr:
  assumes "add_bulk_ignore_conflicts w rs = Inr (n, w')" and "pending_constraints w (w_pending w)"
  shows "\<exists>new. set new \<subseteq> set rs \<and> w' = w\<lparr> w_pending := w_pending w @ new \<rparr> \<and> n = length new \<and>
    pending_constraints w (w_pending w @ new)"
proof (cases "filter (\<lambda>r. pe_reference_id r \<in> set (w_references w)) rs = []")
  case True
  with assms show ?thesis by (intro exI [of _ "[]"]) (simp add: add_bulk_ignore_conflicts_def Let_def)
next
  case False
  obtain new where new: "fold insert_unless_conflict (filter (\<lambda>r. pe_reference_id r \<in> set (w_references w)) rs)
      (w_pending w) = w_pending w @ new" "set new \<subseteq> set rs"
    using fold_insert_append [of "filter (\<lambda>r. pe_reference_id r \<in> set (w_references w)) rs"] by fastforce
  with False assms(1) show ?thesis
    by (intro exI [of _ new]) (auto simp: add_bulk_ignore_conflicts_def Let_def split: if_splits)
qed

lemma new_pending_enhancement_row:
  "row_new (new_pending_enhancement i now ref robot q src retry)"
  "pe_retry_of (new_pending_enhancement i now ref robot q src retry) = retry"
  by (simp_all add: row_new_def new_pending_enhancement_def)

lemma create_good:
  assumes "queue_ok m w" and "create_pending_enhancements fresh now robot refs q src w = Inr w'"
  shows "good_step m w w'"
proof (cases "refs = []")
  case True
  with assms show ?thesis
    by (simp add: create_pending_enhancements_def good_step_def table_evolves_refl)
next
  case False
  let ?rs = "map (\<lambda>(i, ref_id). new_pending_enhancement (fresh i) now ref_id robot q src None) (enumerate 0 refs)"
  from False assms(2) obtain n where "add_bulk_ignore_conflicts w ?rs = Inr (n, w')"
    by (auto simp: create_pending_enhancements_def Let_def result_simps enumerate_eq_zip split: if_splits)
  from add_bulk_ignore_conflicts_Inr [OF this] assms(1) obtain new where new: "set new \<subseteq> set ?rs"
    "w' = w\<lparr> w_pending := w_pending w @ new \<rparr>" "pending_constraints w (w_pending w @ new)"
    by (auto simp: queue_ok_def)
  then have rows: "list_all row_new new" "list_all (retry_room m (w_pending w)) new"
    by (auto simp: list_all_iff retry_room_def new_pending_enhancement_row split: option.splits)
  have "queue_ok m w'" unfolding new(2) by (rule queue_ok_append [OF assms(1) new(3) rows])
  moreover have "table_evolves (w_pending w) (w_pending w @ new)"
    by (rule table_evolves_grow [OF _ rows(1)]) (simp add: list_all2_refl)
  ultimately show ?thesis by (simp add: good_step_def new(2))
qed

lemma add_request_around:
  assumes "add_enhancement_request r w = Inr w'" and "queue_ok m w"
  shows "around w w'"
  using assms
  by (auto simp: add_enhancement_request_def repo_add_def result_simps around_def batch_heads_def queue_ok_def
      split: if_splits)

lemma register_good:
  assumes "queue_ok m w" and "register_reference_enhancement_request fresh now r w = Inr (r', w')"
  shows "good_step m w w'"
proof -
  from assms(2) obtain w1 where w1: "add_enhancement_request r w = Inr w1"
    and c: "create_pending_enhancements fresh now (er_robot_id r) (er_reference_ids r) (Some (er_id r)) None w1 = Inr w'"
    by (auto simp: register_reference_enhancement_request_def result_simps)
  have a: "around w w1" by (rule add_request_around [OF w1 assms(1)])
  then have "good_step m w1 w'" by (rule create_good [OF queue_ok_around [OF assms(1)] c])
  with a show ?thesis by (simp add: good_step_def around_def)
qed

lemma claim_search_around:
  assumes "claim_search_request w i = (c, w')" and "queue_ok m w"
  shows "around w w'"
proof -
  have "map er_id (w_requests w') = map er_id (w_requests w)"
    using assms(1) by (auto simp: claim_search_request_def Let_def comp_def)
  with assms show ?thesis
    by (auto simp: around_def claim_search_request_def Let_def batch_heads_def queue_ok_def)
qed

end
