(* ===== verification/Queue_Runs.thy ===== *)
theory Queue_Runs
  imports Enhancement_Queue
begin

text \<open>
  Expiry, claims and imports over the queue, the step relation of its transactions, and the
  properties of the queue under any interleaving.
\<close>

section \<open>Expiry and retries\<close>

lemma sort_take_subset: "set (take n (sort_key k (filter P xs))) \<subseteq> {x \<in> set xs. P x}"
  using set_take_subset [of n "sort_key k (filter P xs)"] by auto

lemma expiry_candidates_rows:
  assumes "distinct (map pe_id tbl)" and "p \<in> set tbl"
    and "pe_id p \<in> set (expiry_candidates locked now statuses limit tbl)"
  shows "pe_id p \<notin> set locked \<and> pe_expires_at p < now \<and> pe_status p \<in> set statuses"
proof -
  from assms(3) obtain q where q: "pe_id q = pe_id p" "q \<in> set tbl"
    "pe_id q \<notin> set locked \<and> pe_expires_at q < now \<and> pe_status q \<in> set statuses"
    unfolding expiry_candidates_def using sort_take_subset by fastforce
  with assms(1,2) have "q = p" by (metis distinct_map inj_on_eq_iff)
  with q(3) show ?thesis by simp
qed

lemma expire_rows_kept:
  assumes "distinct (map pe_id tbl)"
    and "expire_pending_enhancements_past_expiry locked now [PE_PROCESSING] limit tbl = (expired, tbl')"
  shows "list_all2 row_kept tbl tbl' \<and> set expired \<subseteq> set tbl' \<and> distinct expired"
proof -
  let ?ids = "set (expiry_candidates locked now [PE_PROCESSING] limit tbl)"
  have e: "tbl' = map (\<lambda>p. if pe_id p \<in> ?ids then p\<lparr> pe_status := PE_EXPIRED \<rparr> else p) tbl"
    "expired = filter (\<lambda>p. pe_id p \<in> ?ids) tbl'"
    using assms(2) by (auto simp: expire_pending_enhancements_past_expiry_def Let_def)
  have "row_kept p (if pe_id p \<in> ?ids then p\<lparr> pe_status := PE_EXPIRED \<rparr> else p)" if "p \<in> set tbl" for p
    using expiry_candidates_rows [OF assms(1) that, of locked now "[PE_PROCESSING]" limit]
    by (auto simp: row_kept_def spine_def)
  then have kept: "list_all2 row_kept tbl tbl'" unfolding e(1) by (simp add: list_all2_map2 list_all2_same)
  have "distinct (map pe_id tbl')"
    using assms(1) same_spines_maps(1) [OF kept_same_spines [OF kept]] by simp
  then have "distinct tbl'" by (simp add: distinct_map)
  with kept show ?thesis unfolding e(2) by auto
qed

lemma queue_retry_depth:
  assumes "queue_ok m w" and "p \<in> set (w_pending w)"
  shows "\<exists>d \<le> m. retry_depth (Suc (length (w_pending w))) (w_pending w) p = Some d"
  using assms retry_depth_table_fuel unfolding queue_ok_def retry_bounded_def by blast

lemma queue_retry_depths:
  assumes "queue_ok m w" and "set ps \<subseteq> set (w_pending w)"
  shows "\<exists>ds. get_retry_depths (w_pending w) (map pe_id ps) = Some ds \<and>
    (\<forall>p \<in> set ps. map_of ds (pe_id p) = retry_depth (Suc (length (w_pending w))) (w_pending w) p)"
proof -
  let ?tbl = "w_pending w"
  let ?rows = "filter (\<lambda>p. pe_id p \<in> set (map pe_id ps)) ?tbl"
  have "\<forall>p \<in> set ?rows. \<exists>d. retry_depth (Suc (length ?tbl)) ?tbl p = Some d"
    using queue_retry_depth [OF assms(1)] by (meson filter_is_subset subsetD)
  from depths_of_total [OF this] obtain ds where ds: "depths_of ?tbl ?rows = Some ds"
    "\<forall>i. map_of ds i = Option.bind (find (\<lambda>p. pe_id p = i) ?rows) (retry_depth (Suc (length ?tbl)) ?tbl)" by blast
  have ids: "distinct (map pe_id ?rows)"
    using assms(1) by (simp add: queue_ok_def pending_constraints_def distinct_map_filter)
  have "find (\<lambda>q. pe_id q = pe_id p) ?rows = Some p" if "p \<in> set ps" for p
    using that assms(2) by (intro find_unique [OF ids]) auto
  with ds show ?thesis by (auto simp: get_retry_depths_def simp del: retry_depth.simps)
qed

lemma create_retry_total:
  assumes "queue_ok m w" and "set ps \<subseteq> set (w_pending w)"
  shows "create_retry_pending_enhancements fresh now ps k w \<noteq> None"
  using queue_retry_depths [OF assms] by (auto simp: create_retry_pending_enhancements_def Let_def)

lemma create_retry_rows:
  assumes "queue_ok m w" and "set ps \<subseteq> set (w_pending w)" and "k \<le> int m"
    and "create_retry_pending_enhancements fresh now ps k w = Some (Inr (new, w'))"
  shows "w' = w\<lparr> w_pending := w_pending w @ new \<rparr> \<and> list_all row_new new \<and>
    list_all (retry_room m (w_pending w)) new \<and> pending_constraints w (w_pending w @ new) \<and>
    (\<forall>p \<in> set new. \<exists>q \<in> set ps. pe_retry_of p = Some (pe_id q) \<and> pe_reference_id p = pe_reference_id q \<and>
       pe_robot_id p = pe_robot_id q)"
proof -
  let ?tbl = "w_pending w"
  obtain ds where ds: "get_retry_depths ?tbl (map pe_id ps) = Some ds"
    "\<forall>p \<in> set ps. map_of ds (pe_id p) = retry_depth (Suc (length ?tbl)) ?tbl p"
    using queue_retry_depths [OF assms(1,2)] by blast
  let ?depth = "\<lambda>p. case map_of ds (pe_id p) of None \<Rightarrow> 0 | Some d \<Rightarrow> d"
  let ?retried = "filter (\<lambda>p. int (?depth p) < k) ps"
  let ?new = "map (\<lambda>(i, p). new_pending_enhancement (fresh i) now (pe_reference_id p) (pe_robot_id p)
                 (pe_enhancement_request_id p) (pe_source p) (Some (pe_id p))) (enumerate 0 ?retried)"
  have ids: "distinct (map pe_id ?tbl)" using assms(1) by (simp add: queue_ok_def pending_constraints_def)
  have src: "\<exists>q \<in> set ?retried. pe_retry_of p = Some (pe_id q) \<and> pe_reference_id p = pe_reference_id q \<and>
      pe_robot_id p = pe_robot_id q \<and> row_new p" if "p \<in> set ?new" for p
  proof -
    from that obtain i q where iq: "(i, q) \<in> set (enumerate 0 ?retried)"
      and p: "p = new_pending_enhancement (fresh i) now (pe_reference_id q) (pe_robot_id q)
                 (pe_enhancement_request_id q) (pe_source q) (Some (pe_id q))" by auto
    from iq have "q \<in> set ?retried" by (auto simp: in_set_enumerate_eq dest: nth_mem)
    then show ?thesis unfolding p by (rule bexI [rotated]) (simp add: new_pending_enhancement_def row_new_def)
  qed
  have room: "retry_room m ?tbl p" if "p \<in> set ?new" for p
  proof -
    from src [OF that] obtain q where q: "q \<in> set ps" "int (?depth q) < k" "pe_retry_of p = Some (pe_id q)" by auto
    then have "q \<in> set ?tbl" using assms(2) by blast
    with queue_retry_depth [OF assms(1)] obtain d where d: "retry_depth (Suc (length ?tbl)) ?tbl q = Some d" by blast
    with ds(2) q(1,2) assms(3) have "d < m" by (simp del: retry_depth.simps)
    moreover have "find (\<lambda>r. pe_id r = pe_id q) ?tbl = Some q" by (rule find_unique [OF ids \<open>q \<in> set ?tbl\<close>])
    ultimately show ?thesis using d unfolding retry_room_def q(3) option.case by blast
  qed
  have "new = ?new \<and> w' = w\<lparr> w_pending := ?tbl @ ?new \<rparr> \<and> pending_constraints w (?tbl @ ?new)"
  proof (cases "?new = []")
    case True
    with assms(1,4) ds(1) show ?thesis
      by (auto simp: create_retry_pending_enhancements_def Let_def queue_ok_def)
  next
    case False
    with assms(4) ds(1) show ?thesis
      by (auto simp: create_retry_pending_enhancements_def Let_def repo_add_bulk_def with_pending_def result_simps
          split: if_splits)
  qed
  then have new: "new = ?new" and w': "w' = w\<lparr> w_pending := ?tbl @ ?new \<rparr>" and c: "pending_constraints w (?tbl @ ?new)"
    by blast+
  have "list_all row_new ?new" "list_all (retry_room m ?tbl) ?new" using src room unfolding list_all_iff by blast+
  moreover have "\<exists>q \<in> set ps. pe_retry_of p = Some (pe_id q) \<and> pe_reference_id p = pe_reference_id q \<and>
       pe_robot_id p = pe_robot_id q" if "p \<in> set ?new" for p
    using src [OF that] by auto
  ultimately show ?thesis unfolding new using w' c by blast
qed

lemma expire_good:
  assumes "queue_ok m w" and "k \<le> int m"
    and "expire_and_replace_stale_pending_enhancements fresh locked now k n w = Some (Inr (c, w'))"
  shows "good_step m w w'"
proof -
  obtain expired tbl where e: "expire_pending_enhancements_past_expiry locked now [PE_PROCESSING] n (w_pending w) = (expired, tbl)"
    by fastforce
  let ?w1 = "w\<lparr> w_pending := tbl \<rparr>"
  have kept: "list_all2 row_kept (w_pending w) tbl" "set expired \<subseteq> set (w_pending ?w1)"
    using expire_rows_kept [OF _ e] assms(1) by (simp_all add: queue_ok_def pending_constraints_def)
  then have ok: "queue_ok m ?w1" using queue_ok_kept [OF assms(1)] by blast
  show ?thesis
  proof (cases "expired = []")
    case True
    with assms(3) e have "w' = ?w1" by (simp add: expire_and_replace_stale_pending_enhancements_def)
    with ok kept(1) show ?thesis by (simp add: good_step_def table_evolves_kept)
  next
    case False
    with assms(3) e obtain new where r: "create_retry_pending_enhancements fresh now expired k ?w1 = Some (Inr (new, w'))"
      by (auto simp: expire_and_replace_stale_pending_enhancements_def result_simps)
    note rows = create_retry_rows [OF ok kept(2) assms(2) r]
    have "queue_ok m w'" using queue_ok_append [OF ok, of new] rows by simp
    moreover have "table_evolves (w_pending w) (w_pending w')"
      using table_evolves_grow [OF kept(1), of new] rows by simp
    ultimately show ?thesis by (simp add: good_step_def)
  qed
qed

section \<open>Claims\<close>

lemma set_first_per_reference:
  "set (first_per_reference ps) = {p. find (\<lambda>x. pe_reference_id x = pe_reference_id p) ps = Some p}"
proof -
  let ?d = "dict_comp pe_reference_id (\<lambda>p. p) (rev ps)"
  have "(k, p) \<in> set ?d \<longleftrightarrow> find (\<lambda>x. pe_reference_id x = k) ps = Some p" for k p
    using map_of_eq_Some_iff [OF distinct_dict_comp [of pe_reference_id "\<lambda>p. p" "rev ps"]]
    by (simp add: dict_simps option.map_ident)
  then have "p \<in> set (map snd ?d) \<longleftrightarrow> find (\<lambda>x. pe_reference_id x = pe_reference_id p) ps = Some p" for p
    using find_Some_set [of _ ps p] by force
  then show ?thesis by (auto simp: first_per_reference_def dict_values_def)
qed

lemma first_per_reference_subset: "set (first_per_reference ps) \<subseteq> set ps"
  by (auto simp: set_first_per_reference dest: find_Some_set)

lemma first_per_reference_inj: "inj_on pe_reference_id (set (first_per_reference ps))"
proof (rule inj_onI)
  fix p q assume "p \<in> set (first_per_reference ps)" "q \<in> set (first_per_reference ps)"
    and eq: "pe_reference_id p = pe_reference_id q"
  then have "find (\<lambda>x. pe_reference_id x = pe_reference_id q) ps = Some p"
    "find (\<lambda>x. pe_reference_id x = pe_reference_id q) ps = Some q"
    unfolding set_first_per_reference mem_Collect_eq by (simp_all only: eq)
  then show "p = q" by simp
qed

lemma first_per_reference_covers: "pe_reference_id ` set (first_per_reference ps) = pe_reference_id ` set ps"
proof
  show "pe_reference_id ` set ps \<subseteq> pe_reference_id ` set (first_per_reference ps)"
  proof
    fix r assume "r \<in> pe_reference_id ` set ps"
    then obtain p where "find (\<lambda>x. pe_reference_id x = r) ps = Some p"
      by (cases "find (\<lambda>x. pe_reference_id x = r) ps") (auto simp: find_None_set)
    moreover from this have "pe_reference_id p = r" using find_Some_set by force
    ultimately show "r \<in> pe_reference_id ` set (first_per_reference ps)" by (auto simp: set_first_per_reference)
  qed
qed (use first_per_reference_subset in blast)

lemma first_per_reference_distinct: "distinct (map pe_reference_id (first_per_reference ps))"
proof -
  let ?d = "dict_comp pe_reference_id (\<lambda>p. p) (rev ps)"
  have "pe_reference_id p = k" if "(k, p) \<in> set ?d" for k p
  proof -
    have "map_of ?d k = Some p" using that distinct_dict_comp map_of_is_SomeI by fast
    then show ?thesis using find_Some_set by (fastforce simp: dict_simps)
  qed
  then have eq: "map pe_reference_id (map snd ?d) = map fst ?d" by auto
  show ?thesis unfolding first_per_reference_def dict_values_def eq by (rule distinct_dict_comp)
qed

lemma first_per_reference_length: "length (first_per_reference ps) \<le> length ps"
proof -
  have "distinct (first_per_reference ps)" using first_per_reference_distinct distinct_map by blast
  then have "length (first_per_reference ps) = card (set (first_per_reference ps))" by (simp add: distinct_card)
  also have "\<dots> \<le> card (set ps)" by (rule card_mono) (simp_all add: first_per_reference_subset)
  finally show ?thesis using card_length [of ps] by linarith
qed

lemma first_per_reference_not_Nil: "ps \<noteq> [] \<Longrightarrow> first_per_reference ps \<noteq> []"
  using first_per_reference_covers [of ps] by force

lemma find_available_rows:
  "set (find_available_for_robot locked robot limit tbl) \<subseteq>
     {p \<in> set tbl. pe_id p \<notin> set locked \<and> pe_robot_id p = robot \<and> row_new p}"
  unfolding find_available_for_robot_def row_new_def using sort_take_subset by fastforce

lemma find_available_length: "length (find_available_for_robot locked robot limit tbl) \<le> limit"
  by (simp add: find_available_for_robot_def)

definition claim_kwargs :: "uuid \<Rightarrow> datetime \<Rightarrow> pending_kwargs" where
  "claim_kwargs b e = \<lparr> kw_status = Some PE_PROCESSING, kw_robot_enhancement_batch_id = Some b, kw_expires_at = Some e \<rparr>"

text \<open>The parts of a successful claim.\<close>

lemma claim_cases:
  fixes w :: "'q work_db"
  assumes "claim_and_create_robot_enhancement_batch bb locked b now robot limit lease w = Inr (Some d, w')"
  defines "available \<equiv> find_available_for_robot locked robot limit (w_pending w)"
    and "w1 \<equiv> w\<lparr> w_batches := w_batches w @ [\<lparr> rebr_id = b, rebr_robot_id = robot, rebr_reference_data_file = None,
             rebr_result_file = None, rebr_validation_result_file = None, rebr_error = None \<rparr>] \<rparr>"
  obtains n w2 r tbl f where "available \<noteq> []" and "b \<notin> rebr_id ` set (w_batches w)"
    and "batch_constraints w (w_batches w1)" and "0 < lease"
    and "pending_bulk_update w1 (map pe_id (first_per_reference available)) (claim_kwargs b (now + lease)) = Inr (n, w2)"
    and "repo_update_by_pk rebr_id (batch_constraints w2) batch_readable f b (w_batches w2) = Inr (r, tbl)"
    and "\<And>x. rebr_id (f x) = rebr_id x \<and> rebr_robot_id (f x) = rebr_robot_id x"
    and "batch_to_domain [] False r = Inr d" and "w' = w2\<lparr> w_batches := tbl \<rparr>"
proof -
  from assms(1) obtain n w2 data where av: "available \<noteq> []" and fresh: "b \<notin> rebr_id ` set (w_batches w)"
    and bc: "batch_constraints w (w_batches w1)" and lease: "0 < lease"
    and upd: "pending_bulk_update w1 (map pe_id (first_per_reference available)) (claim_kwargs b (now + lease)) = Inr (n, w2)"
    and bld: "build_robot_enhancement_batch bb b data w2 = Inr (d, w')"
    unfolding claim_and_create_robot_enhancement_batch_def Let_def available_def [symmetric] repo_add_def claim_kwargs_def
    by (auto simp: result_simps apply_positive_timedelta_def w1_def split: if_splits)
  from bld obtain res r tbl where b: "repo_update_by_pk rebr_id (batch_constraints w2) batch_readable
      (\<lambda>b. b\<lparr> rebr_reference_data_file := Some (to_uri data), rebr_result_file := Some (to_uri res) \<rparr>) b (w_batches w2)
        = Inr (r, tbl)" "batch_to_domain [] False r = Inr d" "w' = w2\<lparr> w_batches := tbl \<rparr>"
    by (auto simp: build_robot_enhancement_batch_def result_simps)
  show ?thesis by (rule that [OF av fresh bc lease upd b(1) _ b(2,3)]) simp
qed

lemma claim_rows:
  assumes "claim_and_create_robot_enhancement_batch bb locked b now robot limit lease w = Inr (Some d, w')"
  shows "find_available_for_robot locked robot limit (w_pending w) \<noteq> [] \<and> b \<notin> rebr_id ` set (w_batches w) \<and> 0 < lease \<and>
    w_pending w' = update_rows (\<lambda>p. pe_id p \<in> set (map pe_id (first_per_reference
      (find_available_for_robot locked robot limit (w_pending w))))) (claim_kwargs b (now + lease)) (w_pending w)"
proof -
  let ?w1 = "w\<lparr> w_batches := w_batches w @ [\<lparr> rebr_id = b, rebr_robot_id = robot, rebr_reference_data_file = None,
             rebr_result_file = None, rebr_validation_result_file = None, rebr_error = None \<rparr>] \<rparr>"
  from assms obtain n w2 t where "find_available_for_robot locked robot limit (w_pending w) \<noteq> []"
    "b \<notin> rebr_id ` set (w_batches w)" "0 < lease" and w': "w' = w2\<lparr> w_batches := t \<rparr>"
    and upd: "pending_bulk_update ?w1 (map pe_id (first_per_reference
        (find_available_for_robot locked robot limit (w_pending w)))) (claim_kwargs b (now + lease)) = Inr (n, w2)"
    by (rule claim_cases) blast
  then show ?thesis using pending_bulk_update_Inr [OF upd] by simp
qed

text \<open>The rows the update touches are the claimed ones, and those become the rows of the new batch.\<close>

lemma claimed_row:
  assumes "distinct (map pe_id tbl)" and "set ps \<subseteq> set tbl" and "p \<in> set tbl" and "pe_id p \<in> set (map pe_id ps)"
  shows "p \<in> set ps"
proof -
  from assms(4) obtain q where "q \<in> set ps" "pe_id q = pe_id p" by auto
  with assms(1-3) show ?thesis by (metis distinct_map inj_on_eq_iff subsetD)
qed

lemma claim_update_rows:
  assumes "distinct (map pe_id tbl)" and "set ps \<subseteq> {p \<in> set tbl. row_new p}"
  shows "list_all2 row_evolves tbl (update_rows (\<lambda>p. pe_id p \<in> set (map pe_id ps)) (claim_kwargs b e) tbl)"
proof -
  have "row_evolves p (if pe_id p \<in> set (map pe_id ps) then apply_kwargs (claim_kwargs b e) p else p)"
    if p: "p \<in> set tbl" for p
  proof (cases "pe_id p \<in> set (map pe_id ps)")
    case True
    then have "row_new p" using claimed_row [OF assms(1) _ p] assms(2) by blast
    then have "row_claimed b p (apply_kwargs (claim_kwargs b e) p)"
      by (simp add: row_claimed_def row_new_def apply_kwargs_def claim_kwargs_def spine_def)
    then show ?thesis using True by (auto simp: row_evolves_def)
  qed (auto simp: row_evolves_def)
  then show ?thesis unfolding update_rows_def list_all2_map2 list_all2_same by blast
qed

lemma evolves_same_spines: "list_all2 row_evolves tbl tbl' \<Longrightarrow> same_spines tbl tbl'"
  unfolding same_spines_def
  by (erule list_all2_mono) (auto simp: row_evolves_def row_kept_def row_claimed_def)

lemma claim_batches_proper:
  assumes tbl: "distinct (map pe_id tbl)" and ps: "set ps \<subseteq> {p \<in> set tbl. row_new p \<and> pe_robot_id p = robot}"
    and inj: "inj_on pe_reference_id (set ps)" and proper: "batches_proper heads tbl"
    and fresh: "b \<notin> fst ` set heads"
  shows "batches_proper (heads @ [(b, robot)]) (update_rows (\<lambda>p. pe_id p \<in> set (map pe_id ps)) (claim_kwargs b e) tbl)"
proof -
  let ?P = "\<lambda>p. pe_id p \<in> set (map pe_id ps)"
  let ?g = "\<lambda>p. if ?P p then apply_kwargs (claim_kwargs b e) p else p"
  have mem: "p \<in> set ps \<longleftrightarrow> ?P p" if "p \<in> set tbl" for p
    using claimed_row [OF tbl _ that] ps by auto
  have unbatched: "pe_robot_enhancement_batch_id p = None" if "p \<in> set tbl" "?P p" for p
    using mem that ps by (auto simp: row_new_def)
  have old: "pe_robot_enhancement_batch_id p \<noteq> Some b" if "p \<in> set tbl" for p
    using proper fresh that unfolding batches_proper_def by force
  have batch: "pe_robot_enhancement_batch_id (?g p) = (if ?P p then Some b else pe_robot_enhancement_batch_id p)" for p
    by (simp add: apply_kwargs_def claim_kwargs_def)
  have robots: "(c, pe_robot_id (?g p)) \<in> set (heads @ [(b, robot)])"
    if "p \<in> set tbl" "pe_robot_enhancement_batch_id (?g p) = Some c" for p c
    using that mem [of p] ps proper unfolding batch by (auto simp: batches_proper_def split: if_splits)
  have dist: "distinct (map pe_reference_id (filter (\<lambda>p. pe_robot_enhancement_batch_id p = Some c) (map ?g tbl)))" for c
  proof -
    let ?Q = "\<lambda>p. if c = b then ?P p else pe_robot_enhancement_batch_id p = Some c"
    have "filter (\<lambda>p. pe_robot_enhancement_batch_id (?g p) = Some c) tbl = filter ?Q tbl"
      by (rule filter_cong [OF refl]) (use unbatched old batch in auto)
    then have "map pe_reference_id (filter (\<lambda>p. pe_robot_enhancement_batch_id p = Some c) (map ?g tbl)) =
        map pe_reference_id (filter ?Q tbl)"
      by (simp add: filter_map comp_def if_distrib [of pe_reference_id] cong: if_cong)
    moreover have "distinct (map pe_reference_id (filter ?P tbl))"
      unfolding distinct_map
    proof
      show "distinct (filter ?P tbl)" using tbl by (simp add: distinct_map)
      have "set (filter ?P tbl) \<subseteq> set ps" using mem by auto
      then show "inj_on pe_reference_id (set (filter ?P tbl))" using inj by (rule inj_on_subset [rotated])
    qed
    moreover have "distinct (map pe_reference_id (filter (\<lambda>p. pe_robot_enhancement_batch_id p = Some c) tbl))"
      using proper by (simp add: batches_proper_def)
    ultimately show ?thesis by (cases "c = b") (simp_all only: if_True if_False simp_thms)
  qed
  show ?thesis
    unfolding update_rows_def batches_proper_def
  proof (intro conjI ballI allI impI)
    fix p' c assume "p' \<in> set (map ?g tbl)" and c: "pe_robot_enhancement_batch_id p' = Some c"
    then obtain p where p: "p \<in> set tbl" "p' = ?g p" unfolding set_map image_iff by blast
    show "(c, pe_robot_id p') \<in> set (heads @ [(b, robot)])" using robots [OF p(1)] c unfolding p(2) by blast
  qed (rule dist)
qed

lemma claim_good:
  assumes ok: "queue_ok m w"
    and claim: "claim_and_create_robot_enhancement_batch bb locked b now robot limit lease w = Inr (r, w')"
  shows "good_step m w w'"
proof (cases r)
  case None
  with claim have "w' = w"
    by (auto simp: claim_and_create_robot_enhancement_batch_def Let_def result_simps split: if_splits)
  with ok show ?thesis by (simp add: good_step_def table_evolves_refl)
next
  case (Some d)
  let ?tbl = "w_pending w"
  let ?ps = "first_per_reference (find_available_for_robot locked robot limit ?tbl)"
  let ?w1 = "w\<lparr> w_batches := w_batches w @ [\<lparr> rebr_id = b, rebr_robot_id = robot, rebr_reference_data_file = None,
             rebr_result_file = None, rebr_validation_result_file = None, rebr_error = None \<rparr>] \<rparr>"
  let ?tbl' = "update_rows (\<lambda>p. pe_id p \<in> set (map pe_id ?ps)) (claim_kwargs b (now + lease)) ?tbl"
  from claim [unfolded Some] obtain n w2 x tbl f where av: "find_available_for_robot locked robot limit ?tbl \<noteq> []"
    and fresh: "b \<notin> rebr_id ` set (w_batches w)" and bc: "batch_constraints w (w_batches ?w1)"
    and upd: "pending_bulk_update ?w1 (map pe_id ?ps) (claim_kwargs b (now + lease)) = Inr (n, w2)"
    and bat: "repo_update_by_pk rebr_id (batch_constraints w2) batch_readable f b (w_batches w2) = Inr (x, tbl)"
    and f: "\<And>x. rebr_id (f x) = rebr_id x \<and> rebr_robot_id (f x) = rebr_robot_id x"
    and w': "w' = w2\<lparr> w_batches := tbl \<rparr>"
    by (rule claim_cases) blast
  have ids: "distinct (map pe_id ?tbl)" using ok by (simp add: queue_ok_def pending_constraints_def)
  have ps: "set ?ps \<subseteq> {p \<in> set ?tbl. row_new p \<and> pe_robot_id p = robot}"
    using first_per_reference_subset [of "find_available_for_robot locked robot limit ?tbl"]
      find_available_rows [of locked robot limit ?tbl] by blast
  have ne: "?ps \<noteq> []" using first_per_reference_not_Nil av by blast
  have w2: "w2 = ?w1\<lparr> w_pending := ?tbl' \<rparr>" and pc: "pending_constraints ?w1 ?tbl'"
    using pending_bulk_update_Inr [OF upd] ne by auto
  have evolves: "list_all2 row_evolves ?tbl ?tbl'" by (rule claim_update_rows [OF ids]) (use ps in blast)
  have heads: "batch_heads ?w1 = batch_heads w @ [(b, robot)]" by (simp add: batch_heads_def)
  have "list_all pending_iff_unbatched ?tbl" using ok by (simp add: queue_ok_def)
  then have "list_all pending_iff_unbatched ?tbl'"
    by (rule list_all_list_all2 [OF evolves])
      (auto simp: row_evolves_def row_claimed_def pending_iff_unbatched_def dest: row_kept_iff_unbatched)
  moreover have "batches_proper (batch_heads ?w1) ?tbl'"
    unfolding heads using ok fresh
    by (intro claim_batches_proper [OF ids ps first_per_reference_inj])
      (auto simp: queue_ok_def batch_heads_def image_iff)
  moreover have "retry_bounded m ?tbl'"
    using same_spines_retry_bounded [OF evolves_same_spines [OF evolves]] ok by (simp add: queue_ok_def)
  ultimately have "queue_ok m w2"
    unfolding w2 queue_ok_pending using pc bc ok by (simp add: queue_ok_def batch_constraints_def)
  moreover from this have "around w2 w'" unfolding w' by (rule batches_around [OF bat f])
  moreover have "table_evolves ?tbl (w_pending w2)"
    using table_evolves_in_place [OF evolves] unfolding w2 by simp
  ultimately show ?thesis
    using good_step_then_around [of m w w2 w'] unfolding good_step_def by blast
qed

section \<open>Runs\<close>

text \<open>
  One rule per transaction of the program, with any arguments; \<open>m\<close> bounds the retry counts in use.
  The last rule is the rest of the program adding references and robots.
\<close>

inductive queue_step :: "nat \<Rightarrow> 'q work_db \<Rightarrow> 'q work_db \<Rightarrow> bool" for m where
  create: "create_pending_enhancements fresh now robot refs q src w = Inr w' \<Longrightarrow> queue_step m w w'"
| register: "register_reference_enhancement_request fresh now r w = Inr (r', w') \<Longrightarrow> queue_step m w w'"
| register_search: "add_enhancement_request r w = Inr w' \<Longrightarrow> queue_step m w w'"
| claim_search: "claim_search_request w i = (c, w') \<Longrightarrow> queue_step m w w'"
| claim: "claim_and_create_robot_enhancement_batch bb locked b now robot limit lease w = Inr (d, w') \<Longrightarrow> queue_step m w w'"
| renew: "renew_robot_enhancement_batch_lease now b lease w = Inr (c, w') \<Longrightarrow> queue_step m w w'"
| start_import: "update_status_for_robot_enhancement_batch b PE_IMPORTING w = Inr (n, w') \<Longrightarrow> queue_step m w w'"
| import: "validate_and_import_batch_result bb imp d w = Inr (r, w') \<Longrightarrow> queue_step m w w'"
| update: "s \<in> {PE_FAILED, PE_DISCARDED, PE_INDEXING, PE_COMPLETED, PE_INDEXING_FAILED} \<Longrightarrow>
     update_pending_enhancements_status ids s w = Inr (n, w') \<Longrightarrow> queue_step m w w'"
| fail: "mark_robot_enhancement_batch_failed b err w = Inr (d, w') \<Longrightarrow> queue_step m w w'"
| expire: "k \<le> int m \<Longrightarrow> expire_and_replace_stale_pending_enhancements fresh locked now k n w = Some (Inr (c, w')) \<Longrightarrow>
     queue_step m w w'"
| others: "set (w_robots w) \<subseteq> set robots \<Longrightarrow>
     w' = w\<lparr> w_references := refs, w_robots := robots \<rparr> \<Longrightarrow> queue_step m w w'"

lemma queue_step_good:
  assumes "queue_step m w w'" and ok: "queue_ok m w"
  shows "good_step m w w'"
  using assms(1)
proof cases
  case (update s ids n)
  then show ?thesis by (intro good_step_keeps [OF ok] update_status_keeps) auto
next
  case (start_import b n)
  then show ?thesis by (intro good_step_keeps [OF ok] update_batch_status_keeps) auto
next
  case (others robots refs)
  then show ?thesis using ok
    by (intro good_step_around [OF ok]) (simp add: around_def batch_heads_def queue_ok_def)
qed (use ok in \<open>auto intro: create_good register_good claim_good fail_good validate_good expire_good
       good_step_keeps [OF ok renew_keeps] good_step_around [OF ok add_request_around]
       good_step_around [OF ok claim_search_around]\<close>)

lemma queue_runs_good: "(queue_step m)\<^sup>*\<^sup>* w w' \<Longrightarrow> queue_ok m w \<Longrightarrow> queue_ok m w'"
  by (induction rule: rtranclp_induct) (auto dest: queue_step_good simp: good_step_def)

section \<open>The life of a row\<close>

definition row_life :: "pending_enhancement \<Rightarrow> pending_enhancement \<Rightarrow> bool" where
  "row_life p p' =
     (spine p' = spine p \<and>
      (\<exists>ss. guarded_life pe_transitions pe_status_value (pe_status p) ss \<and> last (pe_status p # ss) = pe_status p') \<and>
      (pe_robot_enhancement_batch_id p = None \<or> pe_robot_enhancement_batch_id p' = pe_robot_enhancement_batch_id p))"

lemma row_life_refl: "row_life p p"
  unfolding row_life_def by (auto intro: exI [of _ "[]"])

lemma row_evolves_life:
  assumes "row_evolves p p'"
  shows "row_life p p'"
proof -
  have "pe_status p' = pe_status p \<or> pe_status p' \<in> set (pe_transitions (pe_status p))"
    using assms by (auto simp: row_evolves_def row_kept_def row_claimed_def)
  then have "\<exists>ss. guarded_life pe_transitions pe_status_value (pe_status p) ss \<and> last (pe_status p # ss) = pe_status p'"
  proof
    assume "pe_status p' = pe_status p"
    then show ?thesis by (intro exI [of _ "[]"]) simp
  next
    assume "pe_status p' \<in> set (pe_transitions (pe_status p))"
    then show ?thesis by (intro exI [of _ "[pe_status p']"]) (simp add: result_simps)
  qed
  with assms show ?thesis by (auto simp: row_life_def row_evolves_def row_kept_def row_claimed_def)
qed

lemma row_life_trans:
  assumes "row_life p q" and "row_life q r"
  shows "row_life p r"
proof -
  from assms obtain xs ys where "guarded_life pe_transitions pe_status_value (pe_status p) xs" "last (pe_status p # xs) = pe_status q"
    "guarded_life pe_transitions pe_status_value (pe_status q) ys" "last (pe_status q # ys) = pe_status r"
    by (auto simp: row_life_def)
  then have "guarded_life pe_transitions pe_status_value (pe_status p) (xs @ ys) \<and> last (pe_status p # xs @ ys) = pe_status r"
    unfolding guarded_life_append by (cases ys) auto
  moreover have "spine r = spine p" using assms by (simp add: row_life_def)
  moreover have "pe_robot_enhancement_batch_id p = None \<or> pe_robot_enhancement_batch_id r = pe_robot_enhancement_batch_id p"
    using assms unfolding row_life_def by auto
  ultimately show ?thesis unfolding row_life_def by blast
qed

lemma queue_runs_life:
  assumes "(queue_step m)\<^sup>*\<^sup>* w w'" and "queue_ok m w" and "p \<in> set (w_pending w)"
  shows "\<exists>p' \<in> set (w_pending w'). row_life p p'"
  using assms(1)
proof (induction rule: rtranclp_induct)
  case base
  from assms(3) row_life_refl show ?case by blast
next
  case (step v v')
  then obtain q where q: "q \<in> set (w_pending v)" "row_life p q" by blast
  from queue_step_good [OF step(2) queue_runs_good [OF step(1) assms(2)]]
  have "table_evolves (w_pending v) (w_pending v')" by (simp add: good_step_def)
  then obtain old new where t: "w_pending v' = old @ new" "list_all2 row_evolves (w_pending v) old"
    by (auto simp: table_evolves_def)
  from list_all2_left [OF t(2) q(1)] obtain r where r: "r \<in> set old" "row_evolves q r" by blast
  have "row_life p r" by (rule row_life_trans [OF q(2) row_evolves_life [OF r(2)]])
  with r(1) t(1) show ?case by auto
qed

section \<open>The import of a batch\<close>

lemma update_status_map:
  assumes ok: "queue_ok m w" and tbl: "w_pending w = map g tbl" and g: "\<And>p. pe_id (g p) = pe_id p"
    and legal: "\<And>p. p \<in> set tbl \<Longrightarrow> pe_id p \<in> set ids \<Longrightarrow> s \<in> set (pe_transitions (pe_status (g p)))"
    and s: "s \<noteq> PE_PROCESSING"
  shows "\<exists>n w'. update_pending_enhancements_status ids s w = Inr (n, w') \<and> queue_ok m w' \<and>
    w' = w\<lparr> w_pending := map (\<lambda>p. if pe_id p \<in> set ids then (g p)\<lparr> pe_status := s \<rparr> else g p) tbl \<rparr>"
proof -
  let ?kw = "no_kwargs\<lparr> kw_status := Some s \<rparr>"
  let ?tbl' = "update_rows (\<lambda>p. pe_id p \<in> set ids) ?kw (w_pending w)"
  have rows: "?tbl' = map (\<lambda>p. if pe_id p \<in> set ids then (g p)\<lparr> pe_status := s \<rparr> else g p) tbl"
    by (simp add: update_rows_def tbl g comp_def apply_kwargs_def no_kwargs_def cong: if_cong)
  have kept: "list_all2 row_kept (w_pending w) ?tbl'"
    by (rule update_rows_kept) (use legal s g in \<open>auto simp: no_kwargs_def tbl\<close>)
  have ok': "queue_ok m (w\<lparr> w_pending := ?tbl' \<rparr>)" by (rule queue_ok_kept [OF ok kept])
  then have pc: "pending_constraints w ?tbl'" by (simp only: queue_ok_pending)
  have guard: "guard_rows (kw_status ?kw) (filter (\<lambda>p. pe_id p \<in> set ids) (w_pending w)) = Inr ()"
    using legal g by (auto simp: result_simps no_kwargs_def tbl)
  have "\<exists>n. update_pending_enhancements_status ids s w = Inr (n, w\<lparr> w_pending := ?tbl' \<rparr>)"
  proof (cases "ids = []")
    case True
    then have "?tbl' = w_pending w" by (simp add: update_rows_none)
    with True guard show ?thesis
      by (simp add: update_pending_enhancements_status_def pending_bulk_update_def repo_bulk_update_def with_pending_def)
  next
    case False
    with guard pc show ?thesis
      by (simp add: update_pending_enhancements_status_def pending_bulk_update_def repo_bulk_update_def update_where_def
          with_pending_def update_rows_def Let_def)
  qed
  with ok' show ?thesis unfolding rows by blast
qed

text \<open>The status a row of the batch ends in.\<close>

definition final_status :: "bool \<Rightarrow> uuid list \<Rightarrow> uuid list \<Rightarrow> pending_enhancement \<Rightarrow> pending_enhancement_status" where
  "final_status indexed successful_refs discarded_refs p =
     (if pe_reference_id p \<in> set successful_refs then if indexed then PE_COMPLETED else PE_INDEXING_FAILED
      else if pe_reference_id p \<in> set discarded_refs then PE_DISCARDED else PE_FAILED)"

lemma ids_of_filter:
  assumes "distinct (map pe_id tbl)" and "p \<in> set tbl"
  shows "pe_id p \<in> set (map pe_id (filter Q (filter R tbl))) \<longleftrightarrow> R p \<and> Q p"
proof
  assume "pe_id p \<in> set (map pe_id (filter Q (filter R tbl)))"
  from claimed_row [OF assms(1) _ assms(2) this] show "R p \<and> Q p" by auto
qed (use assms(2) in auto)

lemma finish_batch_import_total:
  assumes ok: "queue_ok m w"
    and importing: "\<And>p. p \<in> set (w_pending w) \<Longrightarrow> pe_robot_enhancement_batch_id p = Some b \<Longrightarrow> pe_status p = PE_IMPORTING"
  defines "rows \<equiv> filter (\<lambda>p. pe_robot_enhancement_batch_id p = Some b) (w_pending w)"
  shows "\<exists>w'. finish_batch_import index refs (categorize_pending_enhancements srefs drefs rows) w = Inr w' \<and>
    queue_ok m w' \<and>
    w' = w\<lparr> w_pending := map (\<lambda>p. if pe_robot_enhancement_batch_id p = Some b
               then p\<lparr> pe_status := final_status (\<exists>u. index refs = Inr u) srefs drefs p \<rparr> else p) (w_pending w) \<rparr>"
proof -
  let ?tbl = "w_pending w" and ?B = "\<lambda>p. pe_robot_enhancement_batch_id p = Some b"
  let ?S = "\<lambda>p. pe_reference_id p \<in> set srefs"
  let ?D = "\<lambda>p. \<not> ?S p \<and> pe_reference_id p \<in> set drefs" and ?F = "\<lambda>p. \<not> ?S p \<and> pe_reference_id p \<notin> set drefs"
  let ?s = "map pe_id (filter ?S rows)" and ?d = "map pe_id (filter ?D rows)" and ?f = "map pe_id (filter ?F rows)"
  have cat: "categorize_pending_enhancements srefs drefs rows = (?s, ?d, ?f)"
    by (simp add: categorize_pending_enhancements_def Let_def cong: filter_cong) (meson)
  have ids: "distinct (map pe_id ?tbl)" using ok by (simp add: queue_ok_def pending_constraints_def)
  note part = ids_of_filter [OF ids, where R = ?B, folded rows_def]
  define g1 where "g1 p = (if pe_id p \<in> set ?f then p\<lparr> pe_status := PE_FAILED \<rparr> else p)" for p :: pending_enhancement
  define g2 where "g2 p = (if pe_id p \<in> set ?d then (g1 p)\<lparr> pe_status := PE_DISCARDED \<rparr> else g1 p)" for p :: pending_enhancement
  define g3 where "g3 p = (if pe_id p \<in> set ?s then (g2 p)\<lparr> pe_status := PE_INDEXING \<rparr> else g2 p)" for p :: pending_enhancement
  have g_id: "pe_id (g1 p) = pe_id p" "pe_id (g2 p) = pe_id p" "pe_id (g3 p) = pe_id p" for p
    by (simp_all add: g1_def g2_def g3_def)
  have legal0: "p \<in> set ?tbl \<Longrightarrow> pe_id p \<in> set ?f \<Longrightarrow> PE_FAILED \<in> set (pe_transitions (pe_status p))" for p
    using importing part [of p ?F] by simp
  have legal1: "p \<in> set ?tbl \<Longrightarrow> pe_id p \<in> set ?d \<Longrightarrow> PE_DISCARDED \<in> set (pe_transitions (pe_status (g1 p)))" for p
    using importing part [of p ?F] part [of p ?D] by (simp add: g1_def)
  have legal2: "p \<in> set ?tbl \<Longrightarrow> pe_id p \<in> set ?s \<Longrightarrow> PE_INDEXING \<in> set (pe_transitions (pe_status (g2 p)))" for p
    using importing part [of p ?F] part [of p ?D] part [of p ?S] by (simp add: g1_def g2_def)
  have legal3: "pe_id p \<in> set ?s \<Longrightarrow> x \<in> {PE_COMPLETED, PE_INDEXING_FAILED} \<Longrightarrow> x \<in> set (pe_transitions (pe_status (g3 p)))" for p x
    by (auto simp: g3_def)
  obtain n1 w1 where w1: "update_pending_enhancements_status ?f PE_FAILED w = Inr (n1, w1)" "queue_ok m w1"
    "w1 = w\<lparr> w_pending := map g1 ?tbl \<rparr>"
    using update_status_map [OF ok, of "\<lambda>p. p" ?tbl ?f PE_FAILED] legal0 unfolding g1_def by auto
  obtain n2 w2 where w2: "update_pending_enhancements_status ?d PE_DISCARDED w1 = Inr (n2, w2)" "queue_ok m w2"
    "w2 = w\<lparr> w_pending := map g2 ?tbl \<rparr>"
    using update_status_map [OF w1(2), of g1 ?tbl ?d PE_DISCARDED] legal1 g_id(1) unfolding g2_def w1(3) by auto
  obtain n3 w3 where w3: "update_pending_enhancements_status ?s PE_INDEXING w2 = Inr (n3, w3)" "queue_ok m w3"
    "w3 = w\<lparr> w_pending := map g3 ?tbl \<rparr>"
    using update_status_map [OF w2(2), of g2 ?tbl ?s PE_INDEXING] legal2 g_id(2) unfolding g3_def w2(3) by auto
  have last: "\<exists>n4 w4. update_pending_enhancements_status ?s x w3 = Inr (n4, w4) \<and> queue_ok m w4 \<and>
    w4 = w\<lparr> w_pending := map (\<lambda>p. if pe_id p \<in> set ?s then (g3 p)\<lparr> pe_status := x \<rparr> else g3 p) ?tbl \<rparr>"
    if "x \<in> {PE_COMPLETED, PE_INDEXING_FAILED}" for x
    using update_status_map [OF w3(2), of g3 ?tbl ?s x] legal3 [OF _ that] g_id(3) that unfolding w3(3) by auto
  have final: "map (\<lambda>p. if pe_id p \<in> set ?s then (g3 p)\<lparr> pe_status := if ix then PE_COMPLETED else PE_INDEXING_FAILED \<rparr> else g3 p) ?tbl =
      map (\<lambda>p. if ?B p then p\<lparr> pe_status := final_status ix srefs drefs p \<rparr> else p) ?tbl" for ix
    by (rule map_cong [OF refl])
      (simp only: g3_def g2_def g1_def part final_status_def if_True if_False, auto)
  let ?ix = "\<exists>u. index refs = Inr u"
  let ?x = "if ?ix then PE_COMPLETED else PE_INDEXING_FAILED"
  have "?x \<in> {PE_COMPLETED, PE_INDEXING_FAILED}" by simp
  from last [OF this] obtain n4 w4 where w4: "update_pending_enhancements_status ?s ?x w3 = Inr (n4, w4)" "queue_ok m w4"
    "w4 = w\<lparr> w_pending := map (\<lambda>p. if ?B p then p\<lparr> pe_status := final_status ?ix srefs drefs p \<rparr> else p) ?tbl \<rparr>"
    unfolding final by blast
  have "finish_batch_import index refs (?s, ?d, ?f) w = Inr w4"
    using w1(1) w2(1) w3(1) w4(1) by (cases "index refs") (simp_all add: finish_batch_import_def)
  with w4 show ?thesis unfolding cat by blast
qed

lemma batch_readable_domain:
  assumes "batch_readable r"
  shows "\<exists>d. batch_to_domain pes preload r = Inr d \<and> reb_id d = rebr_id r \<and>
    opt_list (reb_pending_enhancements d) =
      (if preload then filter (\<lambda>p. pe_robot_enhancement_batch_id p = Some (rebr_id r)) pes else [])"
  using assms
  by (auto simp: batch_readable_def batch_to_domain_def result_simps opt_list_def split: sum.splits)

lemma batch_readable_error: "batch_readable (r\<lparr> rebr_error := e \<rparr>) = batch_readable r"
  by (auto simp: batch_readable_def batch_to_domain_def result_simps split: sum.splits)

lemma batch_update_total:
  assumes "find (\<lambda>r. rebr_id r = b) tbl = Some r" and "batch_constraints w tbl" and "batch_readable (f r)"
    and "rebr_id (f r) = rebr_id r" and "rebr_robot_id (f r) = rebr_robot_id r"
  shows "repo_update_by_pk rebr_id (batch_constraints w) batch_readable f b tbl = Inr (f r, replace_row rebr_id (f r) tbl)"
proof -
  have "rebr_robot_id r \<in> set (w_robots w)"
    using assms(2) find_Some_set [OF assms(1)] by (auto simp: batch_constraints_def list_all_iff)
  with assms(2,5) have "batch_constraints w (replace_row rebr_id (f r) tbl)"
    by (auto simp: batch_constraints_def list_all_iff set_replace_row)
  with assms(1,3) show ?thesis by (simp add: repo_update_by_pk_def flush_and_read_def)
qed

lemma fail_total:
  assumes ok: "queue_ok m w"
    and importing: "\<And>p. p \<in> set (w_pending w) \<Longrightarrow> pe_robot_enhancement_batch_id p = Some b \<Longrightarrow> pe_status p = PE_IMPORTING"
    and r: "find (\<lambda>r. rebr_id r = b) (w_batches w) = Some r" "batch_readable r"
  shows "\<exists>d w'. mark_robot_enhancement_batch_failed b err w = Inr (d, w') \<and>
    w_pending w' = map (\<lambda>p. if pe_robot_enhancement_batch_id p = Some b then p\<lparr> pe_status := PE_FAILED \<rparr> else p) (w_pending w)"
proof -
  let ?B = "\<lambda>p. pe_robot_enhancement_batch_id p = Some b" and ?kw = "no_kwargs\<lparr> kw_status := Some PE_FAILED \<rparr>"
  let ?tbl = "update_rows ?B ?kw (w_pending w)"
  let ?w1 = "w\<lparr> w_pending := ?tbl \<rparr>"
  have rows: "?tbl = map (\<lambda>p. if ?B p then p\<lparr> pe_status := PE_FAILED \<rparr> else p) (w_pending w)"
    by (simp add: update_rows_def apply_kwargs_def no_kwargs_def cong: if_cong)
  have "list_all2 row_kept (w_pending w) ?tbl"
    by (rule update_rows_kept) (use importing in \<open>auto simp: no_kwargs_def\<close>)
  then have ok1: "queue_ok m ?w1" by (rule queue_ok_kept [OF ok])
  then have pc: "pending_constraints w ?tbl" by (simp only: queue_ok_pending)
  have "guard_rows (kw_status ?kw) (filter ?B (w_pending w)) = Inr ()"
    using importing by (auto simp: result_simps no_kwargs_def)
  with pc have upd: "\<exists>n. pending_bulk_update_by_filter w [?B] ?kw = Inr (n, ?w1)"
    by (simp add: pending_bulk_update_by_filter_def repo_bulk_update_by_filter_def repo_find_def update_where_def
        with_pending_def update_rows_def Let_def)
  have bc: "batch_constraints ?w1 (w_batches ?w1)" using ok1 by (simp add: queue_ok_def)
  have "repo_update_by_pk rebr_id (batch_constraints ?w1) batch_readable (\<lambda>b. b\<lparr> rebr_error := Some err \<rparr>) b (w_batches ?w1) =
      Inr (r\<lparr> rebr_error := Some err \<rparr>, replace_row rebr_id (r\<lparr> rebr_error := Some err \<rparr>) (w_batches ?w1))"
    by (rule batch_update_total) (use r bc in \<open>simp_all add: batch_readable_error\<close>)
  moreover obtain d where "batch_to_domain [] False (r\<lparr> rebr_error := Some err \<rparr>) = Inr d"
    using batch_readable_domain [of "r\<lparr> rebr_error := Some err \<rparr>" "[]" False] r(2) by (auto simp: batch_readable_error)
  ultimately show ?thesis
    using upd by (auto simp: mark_robot_enhancement_batch_failed_def rows)
qed

text \<open>What the import gives, when it gives something: the categories of the rows of the batch.\<close>

lemma validate_Inr:
  assumes "validate_and_import_batch_result bb imp d w = Inr (res, w')"
    and "opt_list (reb_pending_enhancements d) = filter (\<lambda>p. pe_robot_enhancement_batch_id p = Some (reb_id d)) (w_pending w)"
  shows "\<exists>srefs drefs tbl. imp (opt_list (reb_pending_enhancements d)) = Inr (srefs, drefs) \<and>
    res = categorize_pending_enhancements srefs drefs (opt_list (reb_pending_enhancements d)) \<and>
    w' = w\<lparr> w_batches := tbl \<rparr>"
proof -
  have "batch_rows (reb_id d) w = opt_list (reb_pending_enhancements d)"
    unfolding assms(2) by (simp add: batch_rows_def repo_find_def)
  with assms(1) show ?thesis
    by (auto simp: validate_and_import_batch_result_def Let_def result_simps split: if_splits)
qed

section \<open>Creating twice\<close>

lemma fold_insert_conflicts:
  "\<forall>r \<in> set rs. non_retry_conflict r tbl \<Longrightarrow> fold insert_unless_conflict rs tbl = tbl"
  by (induction rs) (auto simp: insert_unless_conflict_def)

lemma non_retry_conflict_mono: "non_retry_conflict r tbl \<Longrightarrow> non_retry_conflict r (tbl @ new)"
  by (auto simp: non_retry_conflict_def)

lemma fold_insert_present:
  "r \<in> set rs \<Longrightarrow> non_retry_key r \<noteq> None \<Longrightarrow> non_retry_conflict r (fold insert_unless_conflict rs tbl)"
proof (induction rs arbitrary: tbl)
  case (Cons x rs)
  show ?case
  proof (cases "r \<in> set rs")
    case True
    with Cons show ?thesis by simp
  next
    case False
    with Cons.prems have "non_retry_conflict r (insert_unless_conflict r tbl)" "x = r"
      by (auto simp: insert_unless_conflict_def non_retry_conflict_def)
    moreover obtain new where "fold insert_unless_conflict rs (insert_unless_conflict r tbl) = insert_unless_conflict r tbl @ new"
      using fold_insert_append by blast
    ultimately show ?thesis using non_retry_conflict_mono by simp
  qed
qed simp

lemma non_retry_conflict_key:
  "non_retry_key r = non_retry_key r' \<Longrightarrow> non_retry_conflict r tbl = non_retry_conflict r' tbl"
  by (simp add: non_retry_conflict_def)

lemma new_pending_key:
  "non_retry_key (new_pending_enhancement i now ref robot (Some q) src None) = Some (q, ref)"
  by (simp add: non_retry_key_def new_pending_enhancement_def)

lemma create_again:
  assumes ok: "queue_ok m w" and first: "create_pending_enhancements fresh now robot refs (Some q) src w = Inr w1"
  shows "create_pending_enhancements fresh' now' robot' refs (Some q) src' w1 = Inr w1"
proof (cases "refs = []")
  case True
  with first show ?thesis by (simp add: create_pending_enhancements_def)
next
  case False
  let ?new = "\<lambda>f t r s. map (\<lambda>(i, ref_id). new_pending_enhancement (f i) t ref_id r (Some q) s None) (enumerate 0 refs)"
  let ?known = "\<lambda>f t r s. filter (\<lambda>p. pe_reference_id p \<in> set (w_references w)) (?new f t r s)"
  from False first obtain n where n: "add_bulk_ignore_conflicts w (?new fresh now robot src) = Inr (n, w1)"
    by (auto simp: create_pending_enhancements_def Let_def result_simps enumerate_eq_zip split: if_splits)
  have refs1: "w_references w1 = w_references w"
    using n by (auto simp: add_bulk_ignore_conflicts_def Let_def split: if_splits)
  have pc1: "pending_constraints w1 (w_pending w1)" using create_good [OF ok first] by (simp add: good_step_def queue_ok_def)
  have valid: "list_all pending_enhancement_valid (?new fresh' now' robot' src')"
    by (auto simp: list_all_iff pending_enhancement_valid_def new_pending_enhancement_def)
  have "fold insert_unless_conflict (?known fresh' now' robot' src') (w_pending w1) = w_pending w1"
  proof (rule fold_insert_conflicts, rule ballI)
    fix r assume r: "r \<in> set (?known fresh' now' robot' src')"
    then obtain i ref where ir: "(i, ref) \<in> set (enumerate 0 refs)" and ref: "ref \<in> set (w_references w)"
      and key: "non_retry_key r = Some (q, ref)"
      by (auto simp: new_pending_key) (auto simp: new_pending_enhancement_def)
    let ?r = "new_pending_enhancement (fresh i) now ref robot (Some q) src None"
    have mem: "?r \<in> set (?known fresh now robot src)"
      using ir ref by (force simp: new_pending_enhancement_def)
    then have ne: "?known fresh now robot src \<noteq> []" by force
    from n have "w_pending w1 = fold insert_unless_conflict (?known fresh now robot src) (w_pending w)"
      unfolding add_bulk_ignore_conflicts_def Let_def if_not_P [OF ne] by (auto split: if_splits)
    with fold_insert_present [OF mem] have "non_retry_conflict ?r (w_pending w1)" by (simp add: new_pending_key)
    then show "non_retry_conflict r (w_pending w1)"
      using non_retry_conflict_key [of r ?r] key by (simp add: new_pending_key)
  qed
  then have "\<exists>n. add_bulk_ignore_conflicts w1 (?new fresh' now' robot' src') = Inr (n, w1)"
    using pc1 by (simp add: add_bulk_ignore_conflicts_def Let_def refs1)
  with valid False show ?thesis
    by (auto simp: create_pending_enhancements_def Let_def enumerate_eq_zip)
qed

end
