(* ===== verification/Queue_Properties.thy ===== *)
theory Queue_Properties
  imports Queue_Runs
begin

text \<open>
  The properties of the queue of pending enhancements, each with a witness on a small queue.
\<close>

section \<open>A small queue\<close>

definition sample_work :: "unit work_db" where
  "sample_work = \<lparr> w_references = [1, 2], w_robots = [7], w_requests = [], w_batches = [], w_pending = [] \<rparr>"

definition sample_request :: "unit enhancement_request" where
  "sample_request =
     \<lparr> er_id = 20, er_reference_ids = [1, 2], er_robot_id = 7, er_request_status = ER_RECEIVED, er_source = None,
       er_search = None, er_search_status = None, er_n_matched = None, er_enhancement_parameters = None,
       er_error = None, er_reference_data_file = None, er_result_file = None, er_validation_result_file = None \<rparr>"

definition sample_backend :: blob_backend where
  "sample_backend = \<lparr> bb_location = BL_AZURE, bb_operations_container = ''ops'', bb_upload_references = (\<lambda>_ _. Inr ()) \<rparr>"

definition sample_pending :: "uuid \<Rightarrow> uuid \<Rightarrow> uuid option \<Rightarrow> pending_enhancement_status \<Rightarrow> datetime \<Rightarrow> pending_enhancement" where
  "sample_pending i ref batch s e =
     \<lparr> pe_id = i, pe_created_at = 0, pe_reference_id = ref, pe_robot_id = 7, pe_enhancement_request_id = Some 20,
       pe_robot_enhancement_batch_id = batch, pe_status = s, pe_source = None, pe_expires_at = e, pe_retry_of = None \<rparr>"

definition sample_batch :: robot_enhancement_batch_row where
  "sample_batch = \<lparr> rebr_id = 30, rebr_robot_id = 7, rebr_reference_data_file = None,
     rebr_result_file = Some ''azure://ops/r/30_robot.jsonl'', rebr_validation_result_file = None, rebr_error = None \<rparr>"

text \<open>A queue with one batch in the given status and a row that waits.\<close>

definition sample_queue :: "pending_enhancement_status \<Rightarrow> unit work_db" where
  "sample_queue s =
     sample_work\<lparr> w_requests := [sample_request], w_batches := [sample_batch],
       w_pending := [sample_pending 100 1 (Some 30) s 50, sample_pending 101 2 None PE_PENDING 0] \<rparr>"

lemma sample_work_ok: "queue_ok m sample_work"
  by (simp add: queue_ok_def sample_work_def pending_constraints_def pending_foreign_keys_def non_retry_unique_def
      batch_constraints_def batches_proper_def retry_bounded_def)

lemma sample_queue_ok:
  assumes "s \<noteq> PE_PENDING"
  shows "queue_ok m (sample_queue s)"
proof -
  let ?w = "sample_queue s"
  have "retry_depth 1 (w_pending ?w) p = Some 0" if "p \<in> set (w_pending ?w)" for p
    using that by (auto simp: sample_queue_def sample_pending_def)
  then have "retry_bounded m (w_pending ?w)" unfolding retry_bounded_def by blast
  moreover have "pending_constraints ?w (w_pending ?w)" "batch_constraints ?w (w_batches ?w)"
    by (auto simp: sample_queue_def sample_work_def sample_request_def sample_batch_def sample_pending_def
        pending_constraints_def pending_foreign_keys_def non_retry_unique_def non_retry_key_def opt_fk_def
        batch_constraints_def)
  moreover have "batches_proper (batch_heads ?w) (w_pending ?w)" "list_all pending_iff_unbatched (w_pending ?w)"
    using assms by (auto simp: sample_queue_def sample_work_def sample_batch_def sample_pending_def batches_proper_def
        batch_heads_def pending_iff_unbatched_def)
  ultimately show ?thesis
    by (simp add: queue_ok_def) (simp add: sample_queue_def sample_request_def)
qed

section \<open>Invariants of every run\<close>

text \<open>
  C12 (invariant). Whatever transactions the program runs on the queue, in whatever order and with
  whatever arguments, the constraints of the tables hold, a pending enhancement is in status pending
  exactly as long as it belongs to no batch, a batch holds pending enhancements of its own robot
  only and at most one per reference, and no chain of retries exceeds the limit.
\<close>

theorem queue_invariant:
  assumes "(queue_step m)\<^sup>*\<^sup>* w w'" and "queue_ok m w"
  shows "queue_ok m w'"
  by (rule queue_runs_good [OF assms])

theorem queue_invariant_witness:
  "\<exists>w1 w2. queue_step 3 sample_work w1 \<and> queue_step 3 w1 w2 \<and> queue_ok 3 w2 \<and>
     map pe_status (w_pending w2) = [PE_PROCESSING, PE_PROCESSING]"
proof -
  let ?reg = "register_reference_enhancement_request (\<lambda>i. 100 + i) 5 sample_request sample_work"
  have "case ?reg of Inr (r, w1) \<Rightarrow>
          (case claim_and_create_robot_enhancement_batch sample_backend [] 30 10 7 5 60 w1 of
             Inr (_, w2) \<Rightarrow> map pe_status (w_pending w2) = [PE_PROCESSING, PE_PROCESSING] | Inl _ \<Rightarrow> False)
        | Inl _ \<Rightarrow> False" by code_simp
  from run_Inr [OF this] obtain r w1 d w2 where 1: "?reg = Inr (r, w1)"
    and 2: "claim_and_create_robot_enhancement_batch sample_backend [] 30 10 7 5 60 w1 = Inr (d, w2)"
    and 3: "map pe_status (w_pending w2) = [PE_PROCESSING, PE_PROCESSING]"
    by (auto dest: run_Inr)
  have s1: "queue_step 3 sample_work w1" by (rule queue_step.register [OF 1])
  have s2: "queue_step 3 w1 w2" by (rule queue_step.claim [OF 2])
  have "queue_ok 3 w2"
    by (rule queue_invariant [OF _ sample_work_ok]) (meson s1 s2 rtranclp.rtrancl_into_rtrancl rtranclp.rtrancl_refl)
  with s1 s2 3 show ?thesis by (intro exI [of _ w1] exI [of _ w2] conjI)
qed



section \<open>Claiming\<close>

text \<open>
  C14 (functional). A successful claim hands out at most the requested number of rows, all of them
  rows that waited for this robot and are locked by nobody, one per reference and for every
  reference among the oldest rows available; they become the batch's rows, in processing, with a
  lease that ends after now. No other row of the queue changes.
\<close>

theorem claim_contract:
  assumes "queue_ok m w"
    and "claim_and_create_robot_enhancement_batch bb locked b now robot limit lease w = Inr (Some d, w')"
  shows "\<exists>ps. 0 < length ps \<and> length ps \<le> limit \<and> distinct (map pe_reference_id ps) \<and>
    set (map pe_reference_id ps) = pe_reference_id ` set (find_available_for_robot locked robot limit (w_pending w)) \<and>
    (\<forall>p \<in> set ps. p \<in> set (w_pending w) \<and> pe_id p \<notin> set locked \<and> pe_robot_id p = robot \<and> row_new p) \<and>
    now < now + lease \<and> b \<notin> rebr_id ` set (w_batches w) \<and>
    w_pending w' = map (\<lambda>p. if p \<in> set ps then p\<lparr> pe_status := PE_PROCESSING, pe_robot_enhancement_batch_id := Some b,
                                                 pe_expires_at := now + lease \<rparr> else p) (w_pending w)"
proof -
  let ?tbl = "w_pending w" and ?av = "find_available_for_robot locked robot limit (w_pending w)"
  let ?ps = "first_per_reference ?av"
  have av: "?av \<noteq> []" and fresh: "b \<notin> rebr_id ` set (w_batches w)" and lease: "0 < lease"
    and w': "w_pending w' = update_rows (\<lambda>p. pe_id p \<in> set (map pe_id ?ps)) (claim_kwargs b (now + lease)) ?tbl"
    using claim_rows [OF assms(2)] by blast+
  have ids: "distinct (map pe_id ?tbl)" using assms(1) by (simp add: queue_ok_def pending_constraints_def)
  have ps: "set ?ps \<subseteq> {p \<in> set ?tbl. pe_id p \<notin> set locked \<and> pe_robot_id p = robot \<and> row_new p}"
    using first_per_reference_subset [of ?av] find_available_rows [of locked robot limit ?tbl] by blast
  have "pe_id p \<in> set (map pe_id ?ps) \<longleftrightarrow> p \<in> set ?ps" if "p \<in> set ?tbl" for p
    using claimed_row [OF ids _ that] ps by auto
  then have rows: "w_pending w' = map (\<lambda>p. if p \<in> set ?ps then p\<lparr> pe_status := PE_PROCESSING,
      pe_robot_enhancement_batch_id := Some b, pe_expires_at := now + lease \<rparr> else p) ?tbl"
    unfolding w' update_rows_def by (intro map_cong) (auto simp: apply_kwargs_def claim_kwargs_def)
  have "distinct (map pe_reference_id ?ps)" by (simp add: first_per_reference_distinct)
  moreover have "length ?ps \<le> limit"
    using first_per_reference_length [of ?av] find_available_length [of locked robot limit ?tbl] by linarith
  moreover have "0 < length ?ps" using first_per_reference_not_Nil [OF av] by simp
  ultimately show ?thesis using ps rows fresh lease first_per_reference_covers [of ?av]
    by (intro exI [of _ ?ps]) auto
qed

theorem claim_contract_witness:
  "\<exists>d w' ps. claim_and_create_robot_enhancement_batch sample_backend [] 31 10 7 5 60 (sample_queue PE_PROCESSING) = Inr (Some d, w') \<and>
     ps \<noteq> [] \<and> (\<forall>p \<in> set ps. p \<in> set (w_pending (sample_queue PE_PROCESSING)) \<and> pe_robot_id p = 7 \<and> row_new p)"
proof -
  let ?call = "claim_and_create_robot_enhancement_batch sample_backend [] 31 10 7 5 60 (sample_queue PE_PROCESSING)"
  have "case ?call of Inr (d, w') \<Rightarrow> d \<noteq> None | Inl _ \<Rightarrow> False" by code_simp
  from run_Inr [OF this] obtain d w' where c: "?call = Inr (Some d, w')" by auto
  from claim_contract [OF sample_queue_ok c] c show ?thesis by auto
qed

section \<open>Expiry\<close>

lemma expire_shape:
  assumes ok: "queue_ok m w" and k: "k \<le> int m"
    and run: "expire_and_replace_stale_pending_enhancements fresh locked now k n w = Some (Inr (c, w'))"
  shows "\<exists>new. w_pending w' = map (\<lambda>p. if pe_id p \<in> set (expiry_candidates locked now [PE_PROCESSING] n (w_pending w))
             then p\<lparr> pe_status := PE_EXPIRED \<rparr> else p) (w_pending w) @ new \<and>
    (\<forall>p \<in> set new. row_new p \<and> (\<exists>q \<in> set (w_pending w).
       pe_id q \<in> set (expiry_candidates locked now [PE_PROCESSING] n (w_pending w)) \<and>
       pe_retry_of p = Some (pe_id q) \<and> pe_reference_id p = pe_reference_id q \<and> pe_robot_id p = pe_robot_id q))"
proof -
  let ?ids = "set (expiry_candidates locked now [PE_PROCESSING] n (w_pending w))"
  let ?tbl = "map (\<lambda>p. if pe_id p \<in> ?ids then p\<lparr> pe_status := PE_EXPIRED \<rparr> else p) (w_pending w)"
  let ?w1 = "w\<lparr> w_pending := ?tbl \<rparr>" and ?expired = "filter (\<lambda>p. pe_id p \<in> ?ids) ?tbl"
  have e: "expire_pending_enhancements_past_expiry locked now [PE_PROCESSING] n (w_pending w) = (?expired, ?tbl)"
    by (simp add: expire_pending_enhancements_past_expiry_def Let_def)
  have "list_all2 row_kept (w_pending w) ?tbl" and sub: "set ?expired \<subseteq> set (w_pending ?w1)"
    using expire_rows_kept [OF _ e] ok by (simp_all add: queue_ok_def pending_constraints_def)
  then have ok1: "queue_ok m ?w1" using queue_ok_kept [OF ok] by blast
  show ?thesis
  proof (cases "?expired = []")
    case True
    with run e have "w' = ?w1" by (simp add: expire_and_replace_stale_pending_enhancements_def)
    then show ?thesis by (intro exI [of _ "[]"]) simp
  next
    case False
    with run e obtain new where r: "create_retry_pending_enhancements fresh now ?expired k ?w1 = Some (Inr (new, w'))"
      by (auto simp: expire_and_replace_stale_pending_enhancements_def result_simps)
    note rows = create_retry_rows [OF ok1 sub k r]
    have "\<exists>q \<in> set (w_pending w). pe_id q \<in> ?ids \<and> pe_retry_of p = Some (pe_id q) \<and>
        pe_reference_id p = pe_reference_id q \<and> pe_robot_id p = pe_robot_id q" if p: "p \<in> set new" for p
    proof -
      from rows p obtain x where x: "x \<in> set ?expired" "pe_retry_of p = Some (pe_id x)"
        "pe_reference_id p = pe_reference_id x" "pe_robot_id p = pe_robot_id x" by blast
      then show ?thesis by (auto split: if_splits)
    qed
    moreover have "w_pending w' = ?tbl @ new" "list_all row_new new" using rows by simp_all
    ultimately show ?thesis by (intro exI [of _ new]) (simp add: list_all_iff)
  qed
qed

text \<open>
  C15 (termination). The expiry run always ends: the recursive query along the retry links needs no
  more steps than the queue has rows. What it expires are at most the configured number of rows
  in processing whose lease has run out and that nobody holds locked; every row it adds waits,
  replaces one of the rows it expired, for the same reference and robot, and afterwards no chain of
  retries is longer than the limit.
\<close>

theorem expiry_bounded:
  assumes "queue_ok m w" and "k \<le> int m"
  shows "\<exists>r. expire_and_replace_stale_pending_enhancements fresh locked now k n w = Some r \<and>
    (\<forall>c w'. r = Inr (c, w') \<longrightarrow> (\<exists>ids new.
       length ids \<le> n \<and>
       w_pending w' = map (\<lambda>p. if pe_id p \<in> set ids then p\<lparr> pe_status := PE_EXPIRED \<rparr> else p) (w_pending w) @ new \<and>
       (\<forall>p \<in> set (w_pending w). pe_id p \<in> set ids \<longrightarrow>
          pe_status p = PE_PROCESSING \<and> pe_expires_at p < now \<and> pe_id p \<notin> set locked) \<and>
       (\<forall>p \<in> set new. row_new p \<and> (\<exists>q \<in> set (w_pending w). pe_id q \<in> set ids \<and> pe_retry_of p = Some (pe_id q) \<and>
          pe_reference_id p = pe_reference_id q \<and> pe_robot_id p = pe_robot_id q)) \<and>
       (\<forall>p \<in> set (w_pending w'). \<exists>d \<le> m. retry_depth (Suc (length (w_pending w'))) (w_pending w') p = Some d)))"
proof -
  let ?ids = "expiry_candidates locked now [PE_PROCESSING] n (w_pending w)"
  have ids: "distinct (map pe_id (w_pending w))" using assms(1) by (simp add: queue_ok_def pending_constraints_def)
  obtain expired tbl where e: "expire_pending_enhancements_past_expiry locked now [PE_PROCESSING] n (w_pending w) = (expired, tbl)"
    by fastforce
  have "queue_ok m (w\<lparr> w_pending := tbl \<rparr>)" "set expired \<subseteq> set (w_pending (w\<lparr> w_pending := tbl \<rparr>))"
    using expire_rows_kept [OF ids e] queue_ok_kept [OF assms(1)] by simp_all
  from create_retry_total [OF this] obtain y where
    "create_retry_pending_enhancements fresh now expired k (w\<lparr> w_pending := tbl \<rparr>) = Some y" by blast
  with e obtain r where r: "expire_and_replace_stale_pending_enhancements fresh locked now k n w = Some r"
    by (cases "expired = []") (simp_all add: expire_and_replace_stale_pending_enhancements_def)
  have old: "\<forall>p \<in> set (w_pending w). pe_id p \<in> set ?ids \<longrightarrow>
      pe_status p = PE_PROCESSING \<and> pe_expires_at p < now \<and> pe_id p \<notin> set locked"
    using expiry_candidates_rows [OF ids, where statuses = "[PE_PROCESSING]"] by auto
  have len: "length ?ids \<le> n" by (simp add: expiry_candidates_def)
  show ?thesis
  proof (rule exI [of _ r], intro conjI allI impI)
    fix c w' assume c: "r = Inr (c, w')"
    have "queue_ok m w'" using expire_good [OF assms] r c by (simp add: good_step_def)
    then have depth: "\<forall>p \<in> set (w_pending w'). \<exists>d \<le> m. retry_depth (Suc (length (w_pending w'))) (w_pending w') p = Some d"
      using queue_retry_depth by blast
    obtain new where new: "w_pending w' = map (\<lambda>p. if pe_id p \<in> set ?ids then p\<lparr> pe_status := PE_EXPIRED \<rparr> else p) (w_pending w) @ new"
      "\<forall>p \<in> set new. row_new p \<and> (\<exists>q \<in> set (w_pending w). pe_id q \<in> set ?ids \<and> pe_retry_of p = Some (pe_id q) \<and>
          pe_reference_id p = pe_reference_id q \<and> pe_robot_id p = pe_robot_id q)"
      using expire_shape [OF assms r [unfolded c]] by blast
    show "\<exists>ids new. length ids \<le> n \<and>
       w_pending w' = map (\<lambda>p. if pe_id p \<in> set ids then p\<lparr> pe_status := PE_EXPIRED \<rparr> else p) (w_pending w) @ new \<and>
       (\<forall>p \<in> set (w_pending w). pe_id p \<in> set ids \<longrightarrow>
          pe_status p = PE_PROCESSING \<and> pe_expires_at p < now \<and> pe_id p \<notin> set locked) \<and>
       (\<forall>p \<in> set new. row_new p \<and> (\<exists>q \<in> set (w_pending w). pe_id q \<in> set ids \<and> pe_retry_of p = Some (pe_id q) \<and>
          pe_reference_id p = pe_reference_id q \<and> pe_robot_id p = pe_robot_id q)) \<and>
       (\<forall>p \<in> set (w_pending w'). \<exists>d \<le> m. retry_depth (Suc (length (w_pending w'))) (w_pending w') p = Some d)"
      by (rule exI [of _ ?ids], rule exI [of _ new]) (intro conjI len new old depth)
  qed (rule r)
qed

theorem expiry_bounded_witness:
  "\<exists>c w'. expire_and_replace_stale_pending_enhancements (\<lambda>i. 200 + i) [] 60 3 10 (sample_queue PE_PROCESSING) = Some (Inr (c, w')) \<and>
     map pe_status (w_pending w') = [PE_EXPIRED, PE_PENDING, PE_PENDING] \<and>
     (\<forall>p \<in> set (w_pending w'). \<exists>d \<le> 3. retry_depth (Suc (length (w_pending w'))) (w_pending w') p = Some d)"
proof -
  let ?call = "expire_and_replace_stale_pending_enhancements (\<lambda>i. 200 + i) [] 60 3 10 (sample_queue PE_PROCESSING)"
  have "case ?call of Some (Inr (c, w')) \<Rightarrow> map pe_status (w_pending w') = [PE_EXPIRED, PE_PENDING, PE_PENDING] | _ \<Rightarrow> False"
    by code_simp
  then obtain c w' where run: "?call = Some (Inr (c, w'))" "map pe_status (w_pending w') = [PE_EXPIRED, PE_PENDING, PE_PENDING]"
    by (auto split: option.splits sum.splits)
  have "queue_ok 3 (sample_queue PE_PROCESSING)" by (rule sample_queue_ok) simp
  from expiry_bounded [OF this, of 3 "\<lambda>i. 200 + i" "[]" 60 10] run show ?thesis by auto
qed

section \<open>Importing results\<close>



section \<open>Creating\<close>

text \<open>
  Creating pending enhancements is idempotent per request and reference: repeating
  the creation for the same request and references, with any new identifiers, at any later time and
  for any robot, changes nothing and raises nothing.
\<close>

lemma create_idempotent:
  assumes "queue_ok m w" and "create_pending_enhancements fresh now robot refs (Some q) src w = Inr w1"
  shows "create_pending_enhancements fresh' now' robot' refs (Some q) src' w1 = Inr w1"
  by (rule create_again [OF assms])

lemma create_idempotent_witness:
  "\<exists>w1. create_pending_enhancements (\<lambda>i. 200 + i) 5 7 [1, 2, 1, 9] (Some 20) None (sample_queue PE_FAILED) = Inr w1 \<and>
     create_pending_enhancements (\<lambda>i. 300 + i) 6 7 [1, 2, 1, 9] (Some 20) None w1 = Inr w1"
proof -
  let ?call = "create_pending_enhancements (\<lambda>i. 200 + i) 5 7 [1, 2, 1, 9] (Some 20) None (sample_queue PE_FAILED)"
  have "case ?call of Inr _ \<Rightarrow> True | Inl _ \<Rightarrow> False" by code_simp
  then obtain w1 where w1: "?call = Inr w1" by (auto split: sum.splits)
  have "queue_ok 3 (sample_queue PE_FAILED)" by (rule sample_queue_ok) simp
  from create_idempotent [OF this w1] w1 show ?thesis by blast
qed

end
