(* ===== verification/Vocabulary.thy ===== *)
theory Vocabulary
  imports Prelude
begin

text \<open>
  Vocabularies: the tables that \<^verbatim>\<open>src/app/external/vocabulary/client.py\<close> derives from a parsed
  vocabulary. A graph of rdflib is a list of triples, its order standing for the unspecified order
  in which \<^verbatim>\<open>graph.triples\<close> yields them; sets are lists up to order and repetition.
\<close>

section \<open>Graphs\<close>

datatype rdf_node = URIRef string | BNode string | RdfLiteral string

fun str_node :: "rdf_node \<Rightarrow> string" where
  "str_node (URIRef s) = s"
| "str_node (BNode s) = s"
| "str_node (RdfLiteral s) = s"

fun is_uri :: "rdf_node \<Rightarrow> bool" where
  "is_uri (URIRef _) = True"
| "is_uri _ = False"

type_synonym rdf_graph = "(rdf_node \<times> rdf_node \<times> rdf_node) list"

text \<open>\<^verbatim>\<open>graph.triples((None, p, None))\<close>, as pairs of subject and object.\<close>

definition triples_with :: "rdf_graph \<Rightarrow> rdf_node \<Rightarrow> (rdf_node \<times> rdf_node) list" where
  "triples_with g p = map (\<lambda>(s, _, t). (s, t)) (filter (\<lambda>(_, q, _). q = p) g)"

definition objects_of :: "rdf_graph \<Rightarrow> rdf_node \<Rightarrow> rdf_node \<Rightarrow> rdf_node list" where
  "objects_of g s p = map snd (filter (\<lambda>x. fst x = s) (triples_with g p))"

definition rdf_type :: rdf_node where "rdf_type = URIRef ''http://www.w3.org/1999/02/22-rdf-syntax-ns#type''"

definition skos :: "string \<Rightarrow> rdf_node" where "skos name = URIRef (''http://www.w3.org/2004/02/skos/core#'' @ name)"

definition is_concept :: "rdf_graph \<Rightarrow> rdf_node \<Rightarrow> bool" where
  "is_concept g c = ((c, rdf_type, skos ''Concept'') \<in> set g)"

section \<open>Labels and schemes of concepts\<close>

definition build_concept_labels :: "rdf_graph \<Rightarrow> (string \<times> string) list" where
  "build_concept_labels g =
     dict_comp (\<lambda>x. str_node (fst x)) (\<lambda>x. str_node (snd x))
       (filter (\<lambda>x. is_concept g (fst x)) (triples_with g (skos ''prefLabel'')))"

definition build_concept_schemes :: "rdf_graph \<Rightarrow> (string \<times> string) list" where
  "build_concept_schemes g =
     dict_comp (\<lambda>x. str_node (fst x)) (\<lambda>x. str_node (snd x)) (triples_with g (skos ''inScheme''))"

section \<open>Members of schemes\<close>

text \<open>The pairs that \<^verbatim>\<open>_assert\<close> records: concept and scheme.\<close>

definition scheme_assertions :: "rdf_graph \<Rightarrow> (rdf_node \<times> rdf_node) list" where
  "scheme_assertions g =
     filter (\<lambda>(c, s). is_uri c \<and> is_uri s)
       (triples_with g (skos ''inScheme'') @ triples_with g (skos ''topConceptOf'')
        @ map (\<lambda>(s, c). (c, s)) (triples_with g (skos ''hasTopConcept'')))"

definition explicit_schemes :: "rdf_graph \<Rightarrow> rdf_node \<Rightarrow> rdf_node list" where
  "explicit_schemes g c = map snd (filter (\<lambda>x. fst x = c) (scheme_assertions g))"

definition broader_pairs :: "rdf_graph \<Rightarrow> (rdf_node \<times> rdf_node) list" where
  "broader_pairs g = filter (\<lambda>(c, p). is_uri c \<and> is_uri p) (triples_with g (skos ''broader''))"

definition parents_of :: "rdf_graph \<Rightarrow> rdf_node \<Rightarrow> rdf_node list" where
  "parents_of g c = map snd (filter (\<lambda>x. fst x = c) (broader_pairs g))"

text \<open>
  \<^verbatim>\<open>schemes_for\<close>, called on each element of a list, with the set \<open>seen\<close> that all the calls share.
  The fuel bounds the depth of the recursion; out of it the result is \<open>None\<close>.
\<close>

fun schemes_for_all ::
    "nat \<Rightarrow> rdf_graph \<Rightarrow> rdf_node list \<Rightarrow> rdf_node list \<Rightarrow> (rdf_node list \<times> rdf_node list) option" where
  "schemes_for_all n g [] seen = Some ([], seen)"
| "schemes_for_all 0 g (c # cs) seen = None"
| "schemes_for_all (Suc n) g (c # cs) seen =
     Option.bind
       (if explicit_schemes g c \<noteq> [] then Some (explicit_schemes g c, seen)
        else if c \<in> set seen then Some ([], seen)
        else schemes_for_all n g (parents_of g c) (c # seen))
       (\<lambda>(inherited, seen1). Option.bind (schemes_for_all (Suc n) g cs seen1)
         (\<lambda>(rest, seen2). Some (inherited @ rest, seen2)))"

definition schemes_for :: "rdf_graph \<Rightarrow> rdf_node \<Rightarrow> rdf_node list option" where
  "schemes_for g c = map_option fst (schemes_for_all (length (broader_pairs g) + 2) g [c] [])"

definition scheme_concepts :: "rdf_graph \<Rightarrow> rdf_node list" where
  "scheme_concepts g = remdups (map fst (scheme_assertions g) @ map fst (broader_pairs g))"

definition setdefault_add ::
    "'k \<Rightarrow> 'v list \<Rightarrow> ('k \<times> 'v list) list \<Rightarrow> ('k \<times> 'v list) list" where
  "setdefault_add k vs d =
     AList.update k ((case map_of d k of None \<Rightarrow> [] | Some old \<Rightarrow> old) @ vs) d"

definition build_scheme_members :: "rdf_graph \<Rightarrow> (string \<times> string list) list" where
  "build_scheme_members g =
     fold (\<lambda>c d. case schemes_for g c of
                   None \<Rightarrow> d
                 | Some ss \<Rightarrow> fold (\<lambda>s d. setdefault_add (str_node s) [str_node c] d) ss d)
       (scheme_concepts g) []"

definition build_concept_scheme_members :: "rdf_graph \<Rightarrow> (string \<times> string list) list" where
  "build_concept_scheme_members g =
     fold (\<lambda>members d. fold (\<lambda>c d. setdefault_add c members d) members d)
       (map snd (build_scheme_members g)) []"

section \<open>Specification: the nearest declaring ancestors\<close>

text \<open>
  Going up from a concept through concepts that declare no scheme: the concepts reached, and the
  schemes that the declaring ones among them declare.
\<close>

inductive climbs :: "rdf_graph \<Rightarrow> rdf_node \<Rightarrow> rdf_node \<Rightarrow> bool" for g c where
  here: "climbs g c c"
| up: "climbs g c d \<Longrightarrow> explicit_schemes g d = [] \<Longrightarrow> p \<in> set (parents_of g d) \<Longrightarrow> climbs g c p"

definition belongs_to :: "rdf_graph \<Rightarrow> rdf_node \<Rightarrow> rdf_node \<Rightarrow> bool" where
  "belongs_to g c s = (\<exists>d. climbs g c d \<and> s \<in> set (explicit_schemes g d))"

inductive_cases climbs_elim: "climbs g c d"

lemma climbs_trans: "climbs g d e \<Longrightarrow> climbs g c d \<Longrightarrow> climbs g c e"
  by (induction rule: climbs.induct) (auto intro: climbs.up)

section \<open>The search is sound, complete and ends\<close>

definition covers :: "rdf_graph \<Rightarrow> rdf_node list \<Rightarrow> rdf_node list \<Rightarrow> rdf_node \<Rightarrow> bool" where
  "covers g ss seen c =
     (if explicit_schemes g c \<noteq> [] then set (explicit_schemes g c) \<subseteq> set ss else c \<in> set seen)"

lemma covers_mono: "covers g ss seen c \<Longrightarrow> set ss \<subseteq> set ss' \<Longrightarrow> set seen \<subseteq> set seen' \<Longrightarrow> covers g ss' seen' c"
  by (auto simp: covers_def split: if_splits)

text \<open>
  What a finished search guarantees: every argument is covered, the concepts newly seen declare
  nothing and have their parents covered, and nothing is collected that cannot be reached.
\<close>

lemma schemes_for_all_complete:
  "schemes_for_all n g cs seen = Some (ss, seen') \<Longrightarrow>
     set seen \<subseteq> set seen' \<and> (\<forall>c \<in> set cs. covers g ss seen' c) \<and>
     (\<forall>v \<in> set seen' - set seen. explicit_schemes g v = [] \<and> (\<forall>p \<in> set (parents_of g v). covers g ss seen' p))"
proof (induction n g cs seen arbitrary: ss seen' rule: schemes_for_all.induct)
  case (3 n g c cs seen)
  obtain inh seen1 rest where
    first: "(if explicit_schemes g c \<noteq> [] then Some (explicit_schemes g c, seen)
        else if c \<in> set seen then Some ([], seen)
        else schemes_for_all n g (parents_of g c) (c # seen)) = Some (inh, seen1)"
    and second: "schemes_for_all (Suc n) g cs seen1 = Some (rest, seen')" and ss: "ss = inh @ rest"
    using 3(3) by (auto simp: Option.bind_eq_Some_conv split: prod.splits)
  note tail = 3(2) [OF first refl second]
  have "set seen \<subseteq> set seen1 \<and> covers g inh seen1 c \<and>
     (\<forall>v \<in> set seen1 - set seen. explicit_schemes g v = [] \<and> (\<forall>p \<in> set (parents_of g v). covers g inh seen1 p))"
  proof (cases "explicit_schemes g c \<noteq> [] \<or> c \<in> set seen")
    case True
    with first show ?thesis by (auto simp: covers_def split: if_splits)
  next
    case False
    then have c: "\<not> explicit_schemes g c \<noteq> []" "c \<notin> set seen" by auto
    with first have "schemes_for_all n g (parents_of g c) (c # seen) = Some (inh, seen1)" by simp
    note rec = 3(1) [OF c this]
    have "c \<in> set seen1" using rec by simp
    then have "covers g inh seen1 c" using c(1) by (simp add: covers_def)
    moreover have "explicit_schemes g v = [] \<and> (\<forall>p \<in> set (parents_of g v). covers g inh seen1 p)"
      if "v \<in> set seen1 - set seen" for v
      using rec that c(1) by (cases "v = c") auto
    ultimately show ?thesis using rec by simp
  qed
  then have head: "set seen \<subseteq> set seen1" "covers g inh seen1 c"
    "\<forall>v \<in> set seen1 - set seen. explicit_schemes g v = [] \<and> (\<forall>p \<in> set (parents_of g v). covers g inh seen1 p)"
    by blast+
  have mono: "covers g inh seen1 x \<Longrightarrow> covers g ss seen' x" "covers g rest seen' x \<Longrightarrow> covers g ss seen' x" for x
    using tail by (auto simp: ss elim!: covers_mono)
  have "set seen \<subseteq> set seen'" using head(1) tail by blast
  moreover have "\<forall>x \<in> set (c # cs). covers g ss seen' x" using head(2) tail mono by auto
  moreover have "explicit_schemes g v = [] \<and> (\<forall>p \<in> set (parents_of g v). covers g ss seen' p)"
    if "v \<in> set seen' - set seen" for v
    using that head(3) tail mono by (cases "v \<in> set seen1") blast+
  ultimately show ?case by blast
qed simp_all

lemma schemes_for_all_sound:
  "schemes_for_all n g cs seen = Some (ss, seen') \<Longrightarrow> s \<in> set ss \<Longrightarrow> \<exists>c \<in> set cs. belongs_to g c s"
proof (induction n g cs seen arbitrary: ss seen' rule: schemes_for_all.induct)
  case (3 n g c cs seen)
  obtain inh seen1 rest where
    first: "(if explicit_schemes g c \<noteq> [] then Some (explicit_schemes g c, seen)
        else if c \<in> set seen then Some ([], seen)
        else schemes_for_all n g (parents_of g c) (c # seen)) = Some (inh, seen1)"
    and second: "schemes_for_all (Suc n) g cs seen1 = Some (rest, seen')" and ss: "ss = inh @ rest"
    using 3(3) by (auto simp: Option.bind_eq_Some_conv split: prod.splits)
  show ?case
  proof (cases "s \<in> set rest")
    case True
    from 3(2) [OF first refl second this] show ?thesis by auto
  next
    case False
    with 3(4) ss have s: "s \<in> set inh" by simp
    have "belongs_to g c s"
    proof (cases "explicit_schemes g c = []")
      case False
      with first s show ?thesis by (auto simp: belongs_to_def intro: climbs.here)
    next
      case True
      with first s have c: "\<not> explicit_schemes g c \<noteq> []" "c \<notin> set seen"
        and rec: "schemes_for_all n g (parents_of g c) (c # seen) = Some (inh, seen1)"
        by (auto split: if_splits)
      from 3(1) [OF c rec s] obtain p where p: "p \<in> set (parents_of g c)" "belongs_to g p s" by blast
      then have "climbs g c p" using climbs.up [OF climbs.here True] by blast
      with p(2) show ?thesis unfolding belongs_to_def using climbs_trans by blast
    qed
    then show ?thesis by simp
  qed
qed simp_all

lemma schemes_for_all_total:
  "card (fst ` set (broader_pairs g) - set seen) < n \<Longrightarrow> \<exists>r. schemes_for_all n g cs seen = Some r"
proof (induction n g cs seen rule: schemes_for_all.induct)
  case (3 n g c cs seen)
  let ?U = "fst ` set (broader_pairs g)"
  have "\<exists>inh seen1. (if explicit_schemes g c \<noteq> [] then Some (explicit_schemes g c, seen)
        else if c \<in> set seen then Some ([], seen)
        else schemes_for_all n g (parents_of g c) (c # seen)) = Some (inh, seen1) \<and> set seen \<subseteq> set seen1"
  proof (cases "explicit_schemes g c \<noteq> [] \<or> c \<in> set seen")
    case False
    then have c: "\<not> explicit_schemes g c \<noteq> []" "c \<notin> set seen" by auto
    have "\<exists>r. schemes_for_all n g (parents_of g c) (c # seen) = Some r"
    proof (cases "c \<in> ?U")
      case True
      have "?U - set (c # seen) \<subset> ?U - set seen" using True c(2) by auto
      then have "card (?U - set (c # seen)) < card (?U - set seen)" by (simp add: psubset_card_mono)
      with 3(3) have "card (?U - set (c # seen)) < n" by linarith
      from 3(1) [OF c this] show ?thesis .
    next
      case False
      then have "parents_of g c = []" by (auto simp: parents_of_def filter_empty_conv image_iff)
      then show ?thesis by simp
    qed
    with c show ?thesis using schemes_for_all_complete [of n g "parents_of g c" "c # seen"] by fastforce
  qed auto
  then obtain inh seen1 where first: "(if explicit_schemes g c \<noteq> [] then Some (explicit_schemes g c, seen)
        else if c \<in> set seen then Some ([], seen)
        else schemes_for_all n g (parents_of g c) (c # seen)) = Some (inh, seen1)" and sub: "set seen \<subseteq> set seen1"
    by blast
  have "card (?U - set seen1) \<le> card (?U - set seen)" by (rule card_mono) (use sub in auto)
  with 3(3) have "card (?U - set seen1) < Suc n" by linarith
  from 3(2) [OF first refl this] first show ?case by auto
qed simp_all

lemma schemes_for_spec: "\<exists>ss. schemes_for g c = Some ss \<and> (\<forall>s. s \<in> set ss \<longleftrightarrow> belongs_to g c s)"
proof -
  have "card (fst ` set (broader_pairs g) - set []) \<le> length (broader_pairs g)"
    using card_length [of "map fst (broader_pairs g)"] by simp
  then have "card (fst ` set (broader_pairs g) - set []) < length (broader_pairs g) + 2" by linarith
  from schemes_for_all_total [OF this, of "[c]"] obtain ss seen
    where run: "schemes_for_all (length (broader_pairs g) + 2) g [c] [] = Some (ss, seen)" by auto
  note fin = schemes_for_all_complete [OF run]
  have "covers g ss seen d" if "climbs g c d" for d
    using that
  proof (induction rule: climbs.induct)
    case (up d p)
    then have "d \<in> set seen" by (simp add: covers_def)
    with fin up show ?case by simp
  qed (use fin in simp)
  note covered = this
  have "s \<in> set ss" if b: "belongs_to g c s" for s
  proof -
    from b obtain d where d: "climbs g c d" "s \<in> set (explicit_schemes g d)" by (auto simp: belongs_to_def)
    then have "explicit_schemes g d \<noteq> []" by auto
    with covered [OF d(1)] d(2) show ?thesis by (auto simp: covers_def)
  qed
  moreover have "belongs_to g c s" if "s \<in> set ss" for s
    using schemes_for_all_sound [OF run that] by simp
  ultimately have "\<forall>s. s \<in> set ss \<longleftrightarrow> belongs_to g c s" by blast
  with run show ?thesis by (simp add: schemes_for_def)
qed

section \<open>The members of a scheme\<close>

definition dict_members :: "('k \<times> 'v list) list \<Rightarrow> 'k \<Rightarrow> 'v set" where
  "dict_members d k = (case map_of d k of None \<Rightarrow> {} | Some vs \<Rightarrow> set vs)"

lemma dict_members_setdefault:
  "dict_members (setdefault_add k vs d) x = (if x = k then dict_members d x \<union> set vs else dict_members d x)"
  by (auto simp: dict_members_def setdefault_add_def AList.update_conv' split: option.splits)

lemma dict_members_fold:
  "dict_members (fold (\<lambda>a d. setdefault_add (key a) (vals a) d) as d) x =
     dict_members d x \<union> (\<Union>a \<in> {a \<in> set as. key a = x}. set (vals a))"
  by (induction as arbitrary: d) (auto simp: dict_members_setdefault)

lemma scheme_members_fold:
  "dict_members (fold (\<lambda>c d. case schemes_for g c of None \<Rightarrow> d
       | Some ss \<Rightarrow> fold (\<lambda>s d. setdefault_add (str_node s) [str_node c] d) ss d) cs d) x =
     dict_members d x \<union> {str_node c |c. c \<in> set cs \<and> (\<exists>s. belongs_to g c s \<and> str_node s = x)}"
proof (induction cs arbitrary: d)
  case (Cons c cs)
  obtain ss where ss: "schemes_for g c = Some ss" "\<forall>s. s \<in> set ss \<longleftrightarrow> belongs_to g c s"
    using schemes_for_spec by blast
  have "dict_members (fold (\<lambda>s d. setdefault_add (str_node s) [str_node c] d) ss d) x =
      dict_members d x \<union> (if \<exists>s. belongs_to g c s \<and> str_node s = x then {str_node c} else {})"
    using ss(2) by (auto simp: dict_members_fold)
  with Cons ss(1) show ?case by (auto split: if_splits)
qed simp

lemma scheme_members_spec:
  "dict_members (build_scheme_members g) x =
     {str_node c |c. c \<in> set (scheme_concepts g) \<and> (\<exists>s. belongs_to g c s \<and> str_node s = x)}"
  unfolding build_scheme_members_def scheme_members_fold by (simp add: dict_members_def)

section \<open>Properties\<close>

text \<open>
  C17 (equivalence). The members of a scheme are exactly the concepts that belong to it by
  specification: those from which a concept that declares the scheme is reached by going up
  through broader concepts that declare none, cycles of broader concepts included. In
  particular the recursive search, which shares one set of visited concepts between branches, loses
  no scheme and always ends.
\<close>

theorem scheme_members_exact:
  "dict_members (build_scheme_members g) x =
     {str_node c |c. c \<in> set (scheme_concepts g) \<and> (\<exists>s. belongs_to g c s \<and> str_node s = x)}"
  by (rule scheme_members_spec)

end
