(* ===== verification/World_Bank_Regions.thy ===== *)
theory World_Bank_Regions
  imports Prelude
begin

text \<open>
  The lookup of \<^verbatim>\<open>src/app/domain/references/services/world_bank_regions.py\<close>: country codes to World
  Bank regions.
\<close>

definition east_asia_pacific :: string where "east_asia_pacific = ''EAS''"
definition europe_central_asia :: string where "europe_central_asia = ''ECS''"
definition latin_america_caribbean :: string where "latin_america_caribbean = ''LCN''"
definition middle_east_north_africa_afghanistan_pakistan :: string where
  "middle_east_north_africa_afghanistan_pakistan = ''MEA''"
definition north_america :: string where "north_america = ''NAC''"
definition south_asia :: string where "south_asia = ''SAS''"
definition sub_saharan_africa :: string where "sub_saharan_africa = ''SSF''"

definition world_bank_regions :: "string list" where
  "world_bank_regions = [''EAS'', ''ECS'', ''LCN'', ''MEA'', ''NAC'', ''SAS'', ''SSF'']"

definition iso_to_wb_region :: "(string \<times> string) list" where
  "iso_to_wb_region =
    [(''AD'', europe_central_asia), (''AE'', middle_east_north_africa_afghanistan_pakistan),
     (''AF'', middle_east_north_africa_afghanistan_pakistan), (''AG'', latin_america_caribbean),
     (''AL'', europe_central_asia), (''AM'', europe_central_asia), (''AO'', sub_saharan_africa),
     (''AR'', latin_america_caribbean), (''AS'', east_asia_pacific), (''AT'', europe_central_asia),
     (''AU'', east_asia_pacific), (''AW'', latin_america_caribbean), (''AZ'', europe_central_asia),
     (''BA'', europe_central_asia), (''BB'', latin_america_caribbean), (''BD'', south_asia),
     (''BE'', europe_central_asia), (''BF'', sub_saharan_africa), (''BG'', europe_central_asia),
     (''BH'', middle_east_north_africa_afghanistan_pakistan), (''BI'', sub_saharan_africa),
     (''BJ'', sub_saharan_africa), (''BM'', north_america), (''BN'', east_asia_pacific),
     (''BO'', latin_america_caribbean), (''BR'', latin_america_caribbean),
     (''BS'', latin_america_caribbean), (''BT'', south_asia), (''BW'', sub_saharan_africa),
     (''BY'', europe_central_asia), (''BZ'', latin_america_caribbean), (''CA'', north_america),
     (''CD'', sub_saharan_africa), (''CF'', sub_saharan_africa), (''CG'', sub_saharan_africa),
     (''CH'', europe_central_asia), (''CI'', sub_saharan_africa), (''CL'', latin_america_caribbean),
     (''CM'', sub_saharan_africa), (''CN'', east_asia_pacific), (''CO'', latin_america_caribbean),
     (''CR'', latin_america_caribbean), (''CU'', latin_america_caribbean), (''CV'', sub_saharan_africa),
     (''CW'', latin_america_caribbean), (''CY'', europe_central_asia), (''CZ'', europe_central_asia),
     (''DE'', europe_central_asia), (''DJ'', middle_east_north_africa_afghanistan_pakistan),
     (''DK'', europe_central_asia), (''DM'', latin_america_caribbean), (''DO'', latin_america_caribbean),
     (''DZ'', middle_east_north_africa_afghanistan_pakistan), (''EC'', latin_america_caribbean),
     (''EE'', europe_central_asia), (''EG'', middle_east_north_africa_afghanistan_pakistan),
     (''ER'', sub_saharan_africa), (''ES'', europe_central_asia), (''ET'', sub_saharan_africa),
     (''FI'', europe_central_asia), (''FJ'', east_asia_pacific), (''FM'', east_asia_pacific),
     (''FO'', europe_central_asia), (''FR'', europe_central_asia), (''GA'', sub_saharan_africa),
     (''GB'', europe_central_asia), (''GD'', latin_america_caribbean), (''GE'', europe_central_asia),
     (''GH'', sub_saharan_africa), (''GI'', europe_central_asia), (''GL'', europe_central_asia),
     (''GM'', sub_saharan_africa), (''GN'', sub_saharan_africa), (''GQ'', sub_saharan_africa),
     (''GR'', europe_central_asia), (''GT'', latin_america_caribbean), (''GU'', east_asia_pacific),
     (''GW'', sub_saharan_africa), (''GY'', latin_america_caribbean), (''HK'', east_asia_pacific),
     (''HN'', latin_america_caribbean), (''HR'', europe_central_asia), (''HT'', latin_america_caribbean),
     (''HU'', europe_central_asia), (''ID'', east_asia_pacific), (''IE'', europe_central_asia),
     (''IL'', middle_east_north_africa_afghanistan_pakistan), (''IM'', europe_central_asia),
     (''IN'', south_asia), (''IQ'', middle_east_north_africa_afghanistan_pakistan),
     (''IR'', middle_east_north_africa_afghanistan_pakistan), (''IS'', europe_central_asia),
     (''IT'', europe_central_asia), (''JM'', latin_america_caribbean),
     (''JO'', middle_east_north_africa_afghanistan_pakistan), (''JP'', east_asia_pacific),
     (''KE'', sub_saharan_africa), (''KG'', europe_central_asia), (''KH'', east_asia_pacific),
     (''KI'', east_asia_pacific), (''KM'', sub_saharan_africa), (''KN'', latin_america_caribbean),
     (''KP'', east_asia_pacific), (''KR'', east_asia_pacific),
     (''KW'', middle_east_north_africa_afghanistan_pakistan), (''KY'', latin_america_caribbean),
     (''KZ'', europe_central_asia), (''LA'', east_asia_pacific),
     (''LB'', middle_east_north_africa_afghanistan_pakistan), (''LC'', latin_america_caribbean),
     (''LI'', europe_central_asia), (''LK'', south_asia), (''LR'', sub_saharan_africa),
     (''LS'', sub_saharan_africa), (''LT'', europe_central_asia), (''LU'', europe_central_asia),
     (''LV'', europe_central_asia), (''LY'', middle_east_north_africa_afghanistan_pakistan),
     (''MA'', middle_east_north_africa_afghanistan_pakistan), (''MC'', europe_central_asia),
     (''MD'', europe_central_asia), (''ME'', europe_central_asia), (''MF'', latin_america_caribbean),
     (''MG'', sub_saharan_africa), (''MH'', east_asia_pacific), (''MK'', europe_central_asia),
     (''ML'', sub_saharan_africa), (''MM'', east_asia_pacific), (''MN'', east_asia_pacific),
     (''MO'', east_asia_pacific), (''MP'', east_asia_pacific), (''MR'', sub_saharan_africa),
     (''MT'', middle_east_north_africa_afghanistan_pakistan), (''MU'', sub_saharan_africa),
     (''MV'', south_asia), (''MW'', sub_saharan_africa), (''MX'', latin_america_caribbean),
     (''MY'', east_asia_pacific), (''MZ'', sub_saharan_africa), (''NA'', sub_saharan_africa),
     (''NC'', east_asia_pacific), (''NE'', sub_saharan_africa), (''NG'', sub_saharan_africa),
     (''NI'', latin_america_caribbean), (''NL'', europe_central_asia), (''NO'', europe_central_asia),
     (''NP'', south_asia), (''NR'', east_asia_pacific), (''NZ'', east_asia_pacific),
     (''OM'', middle_east_north_africa_afghanistan_pakistan), (''PA'', latin_america_caribbean),
     (''PE'', latin_america_caribbean), (''PF'', east_asia_pacific), (''PG'', east_asia_pacific),
     (''PH'', east_asia_pacific), (''PK'', middle_east_north_africa_afghanistan_pakistan),
     (''PL'', europe_central_asia), (''PR'', latin_america_caribbean),
     (''PS'', middle_east_north_africa_afghanistan_pakistan), (''PT'', europe_central_asia),
     (''PW'', east_asia_pacific), (''PY'', latin_america_caribbean),
     (''QA'', middle_east_north_africa_afghanistan_pakistan), (''RO'', europe_central_asia),
     (''RS'', europe_central_asia), (''RU'', europe_central_asia), (''RW'', sub_saharan_africa),
     (''SA'', middle_east_north_africa_afghanistan_pakistan), (''SB'', east_asia_pacific),
     (''SC'', sub_saharan_africa), (''SD'', sub_saharan_africa), (''SE'', europe_central_asia),
     (''SG'', east_asia_pacific), (''SI'', europe_central_asia), (''SK'', europe_central_asia),
     (''SL'', sub_saharan_africa), (''SM'', europe_central_asia), (''SN'', sub_saharan_africa),
     (''SO'', sub_saharan_africa), (''SR'', latin_america_caribbean), (''SS'', sub_saharan_africa),
     (''ST'', sub_saharan_africa), (''SV'', latin_america_caribbean), (''SX'', latin_america_caribbean),
     (''SY'', middle_east_north_africa_afghanistan_pakistan), (''SZ'', sub_saharan_africa),
     (''TC'', latin_america_caribbean), (''TD'', sub_saharan_africa), (''TG'', sub_saharan_africa),
     (''TH'', east_asia_pacific), (''TJ'', europe_central_asia), (''TL'', east_asia_pacific),
     (''TM'', europe_central_asia), (''TN'', middle_east_north_africa_afghanistan_pakistan),
     (''TO'', east_asia_pacific), (''TR'', europe_central_asia), (''TT'', latin_america_caribbean),
     (''TV'', east_asia_pacific), (''TZ'', sub_saharan_africa), (''UA'', europe_central_asia),
     (''UG'', sub_saharan_africa), (''US'', north_america), (''UY'', latin_america_caribbean),
     (''UZ'', europe_central_asia), (''VC'', latin_america_caribbean), (''VE'', latin_america_caribbean),
     (''VG'', latin_america_caribbean), (''VI'', latin_america_caribbean), (''VN'', east_asia_pacific),
     (''VU'', east_asia_pacific), (''WS'', east_asia_pacific), (''XK'', europe_central_asia),
     (''YE'', middle_east_north_africa_afghanistan_pakistan), (''ZA'', sub_saharan_africa),
     (''ZM'', sub_saharan_africa), (''ZW'', sub_saharan_africa)]"

text \<open>A set comprehension; the set is a list up to order and repetition.\<close>

definition regions_for :: "string list \<Rightarrow> string list" where
  "regions_for country_codes =
     remdups (List.map_filter (map_of iso_to_wb_region) country_codes)"

lemmas wb_region_defs =
  east_asia_pacific_def europe_central_asia_def latin_america_caribbean_def
  middle_east_north_africa_afghanistan_pakistan_def north_america_def south_asia_def sub_saharan_africa_def

lemma iso_table_ok: "list_all (\<lambda>(c, r). r \<in> set world_bank_regions) iso_to_wb_region"
  by code_simp

lemma set_regions_for:
  "set (regions_for codes) = {r. \<exists>c \<in> set codes. map_of iso_to_wb_region c = Some r}"
  by (auto simp: regions_for_def List.map_filter_def image_iff) force

lemma regions_for_subset: "set (regions_for codes) \<subseteq> set world_bank_regions"
  using iso_table_ok by (auto simp: set_regions_for list_all_iff dest!: map_of_SomeD)

end
