(* ===== verification/Linked_Data.thy ===== *)
theory Linked_Data
  imports Vocabulary World_Bank_Regions Enhancements
begin

text \<open>
  The projection of linked data into flat searchable fields, and its validation:
  \<^verbatim>\<open>linked_data_projection_service.py\<close> and \<^verbatim>\<open>linked_data_validation_service.py\<close> of
  \<^verbatim>\<open>src/app/domain/references/services\<close>.

  Fetching a vocabulary or a context, parsing JSON-LD, expanding it and checking SHACL shapes are
  calls of other libraries and services: they are the fields of \<open>vocabulary_client\<close>. The caches in
  front of them keep what they once returned and are not visible in the results.
\<close>

record vocabulary_client =
  vc_get_vocabulary :: "string \<Rightarrow> rdf_graph result"
  vc_get_context :: "string \<Rightarrow> json_dict result"
  vc_parse_jsonld :: "json_dict \<Rightarrow> rdf_graph result"
  vc_str :: "json \<Rightarrow> string"
  vc_expand :: "json_dict \<Rightarrow> json list option"
  vc_to_rdf :: "json_dict \<Rightarrow> rdf_graph option"
  vc_shacl :: "rdf_graph \<Rightarrow> rdf_graph \<Rightarrow> (bool \<times> string) option"

section \<open>Names\<close>

definition evrepo :: "string \<Rightarrow> rdf_node" where
  "evrepo name = URIRef (''https://vocab.evidence-repository.org/'' @ name)"

definition esea :: "string \<Rightarrow> rdf_node" where
  "esea name = URIRef (''https://vocab.esea.education/'' @ name)"

definition owl :: "string \<Rightarrow> rdf_node" where
  "owl name = URIRef (''http://www.w3.org/2002/07/owl#'' @ name)"

definition rdfs :: "string \<Rightarrow> rdf_node" where
  "rdfs name = URIRef (''http://www.w3.org/2000/01/rdf-schema#'' @ name)"

definition country_properties :: "rdf_node list" where
  "country_properties = [esea ''country'']"

section \<open>Tables of a vocabulary\<close>

text \<open>The joins of the two SPARQL queries, as comprehensions over the triples.\<close>

definition object_properties :: "rdf_graph \<Rightarrow> (rdf_node \<times> rdf_node) list" where
  "object_properties g =
     filter (\<lambda>(p, _). (p, rdf_type, owl ''ObjectProperty'') \<in> set g) (triples_with g (rdfs ''range''))"

definition coded_classes :: "rdf_graph \<Rightarrow> rdf_node \<Rightarrow> rdf_node list" where
  "coded_classes g ann =
     (if (ann, rdfs ''subClassOf'', evrepo ''CodingAnnotation'') \<in> set g
      then concat (map (\<lambda>r. if (r, owl ''onProperty'', evrepo ''codedValue'') \<in> set g
                             then objects_of g r (owl ''allValuesFrom'') else [])
             (objects_of g ann (rdfs ''subClassOf'')))
      else [])"

definition instances_of :: "rdf_graph \<Rightarrow> rdf_node \<Rightarrow> rdf_node list" where
  "instances_of g cls = map fst (filter (\<lambda>x. snd x = cls) (triples_with g rdf_type))"

definition build_scheme_to_property :: "rdf_graph \<Rightarrow> (string \<times> string) list" where
  "build_scheme_to_property g =
     dict_comp fst snd
       (concat (map (\<lambda>(prop, ann).
          concat (map (\<lambda>cls.
            concat (map (\<lambda>c. map (\<lambda>s. (str_node s, str_node prop)) (objects_of g c (skos ''inScheme'')))
              (instances_of g cls))) (coded_classes g ann))) (object_properties g)))"

definition in_some_scheme :: "rdf_graph \<Rightarrow> rdf_node \<Rightarrow> bool" where
  "in_some_scheme g cls = list_ex (\<lambda>c. objects_of g c (skos ''inScheme'') \<noteq> []) (instances_of g cls)"

definition concept_range :: "rdf_graph \<Rightarrow> rdf_node \<Rightarrow> bool" where
  "concept_range g r =
     ((r, rdf_type, skos ''ConceptScheme'') \<in> set g \<or>
      ((r, skos ''Concept'') \<in> (set (triples_with g (rdfs ''subClassOf'')))\<^sup>+ \<and> r \<noteq> skos ''Concept'' \<and> in_some_scheme g r) \<or>
      (r = skos ''Concept'' \<and> in_some_scheme g (skos ''Concept'')))"

text \<open>
  The third branch of the union asks that the property has \<^verbatim>\<open>skos:Concept\<close> as a range, whichever range
  the first pattern bound; the property qualifies through that range as well.
\<close>

definition build_unwrapped_concept_properties :: "rdf_graph \<Rightarrow> string list" where
  "build_unwrapped_concept_properties g =
     remdups (map (\<lambda>x. str_node (fst x)) (filter (\<lambda>x. concept_range g (snd x)) (object_properties g)))"

section \<open>Projection\<close>

record linked_data_projection =
  ldp_concepts :: "string list"
  ldp_labels :: "string list"
  ldp_evaluated_properties :: "string list"
  ldp_countries :: "string list"
  ldp_country_wb_regions :: "string list"

definition get_status :: "rdf_graph \<Rightarrow> rdf_node \<Rightarrow> rdf_node option" where
  "get_status g node = find is_uri (objects_of g node (evrepo ''status''))"

definition status_coded :: "rdf_graph \<Rightarrow> rdf_node \<Rightarrow> bool" where
  "status_coded g node = (get_status g node \<in> {None, Some (evrepo ''coded'')})"

text \<open>The three sets that the loops add to.\<close>

type_synonym projected = "string list \<times> string list \<times> string list"

definition add_concept :: "(string \<times> string) list \<Rightarrow> rdf_node \<Rightarrow> projected \<Rightarrow> projected" where
  "add_concept labels c acc =
     (case acc of (cs, ls, ps) \<Rightarrow>
        (str_node c # cs, (case map_of labels (str_node c) of None \<Rightarrow> ls | Some l \<Rightarrow> l # ls), ps))"

definition project_coded_value ::
    "rdf_graph \<Rightarrow> rdf_graph \<Rightarrow> (string \<times> string) list \<Rightarrow> (string \<times> string) list \<Rightarrow> (string \<times> string) list \<Rightarrow>
     rdf_node \<times> rdf_node \<Rightarrow> projected \<Rightarrow> projected" where
  "project_coded_value dg vg labels schemes scheme_props nv acc =
     (case nv of (node, c) \<Rightarrow>
        if \<not> is_uri c \<or> \<not> is_concept vg c then acc
        else (case (if status_coded dg node then add_concept labels c acc else acc) of (cs, ls, ps) \<Rightarrow>
          (cs, ls, (case Option.bind (map_of schemes (str_node c)) (map_of scheme_props) of
                      None \<Rightarrow> ps | Some p \<Rightarrow> p # ps))))"

definition project_unwrapped_value ::
    "rdf_graph \<Rightarrow> (string \<times> string) list \<Rightarrow> string \<Rightarrow> rdf_node \<Rightarrow> projected \<Rightarrow> projected" where
  "project_unwrapped_value vg labels prop c acc =
     (if \<not> is_uri c \<or> \<not> is_concept vg c then acc
      else (case add_concept labels c acc of (cs, ls, ps) \<Rightarrow> (cs, ls, prop # ps)))"

definition project_unwrapped_concept_properties ::
    "rdf_graph \<Rightarrow> rdf_graph \<Rightarrow> (string \<times> string) list \<Rightarrow> string list \<Rightarrow> projected \<Rightarrow> projected" where
  "project_unwrapped_concept_properties dg vg labels props acc =
     fold (\<lambda>prop. fold (\<lambda>x. project_unwrapped_value vg labels prop (snd x)) (triples_with dg (URIRef prop))) props acc"

text \<open>\<^verbatim>\<open>str.upper\<close> on the alphabet of the model; sharp s becomes two letters, and the two letters whose
  capitals lie outside the alphabet are kept.\<close>

definition upper_char :: "char \<Rightarrow> string" where
  "upper_char c =
     (let n = of_char c :: nat
      in if n = 223 then ''SS''
         else if (97 \<le> n \<and> n \<le> 122) \<or> (224 \<le> n \<and> n \<le> 254 \<and> n \<noteq> 247) then [char_of (n - 32)] else [c])"

definition py_upper :: "string \<Rightarrow> string" where
  "py_upper s = concat (map upper_char s)"

fun literal_code :: "rdf_node \<Rightarrow> string option" where
  "literal_code (RdfLiteral v) = (let code = py_upper (py_strip v) in if code = [] then None else Some code)"
| "literal_code _ = None"

definition extract_countries :: "rdf_graph \<Rightarrow> string list" where
  "extract_countries dg =
     remdups (concat (map (\<lambda>p. concat (map (\<lambda>(_, ann).
        if status_coded dg ann then List.map_filter literal_code (objects_of dg ann (evrepo ''codedValue'')) else [])
        (triples_with dg p))) country_properties))"

definition projection_of_graphs :: "rdf_graph \<Rightarrow> rdf_graph \<Rightarrow> linked_data_projection" where
  "projection_of_graphs vg dg =
     (let labels = build_concept_labels vg;
          coded = fold (project_coded_value dg vg labels (build_concept_schemes vg) (build_scheme_to_property vg))
                    (triples_with dg (evrepo ''codedValue'')) ([], [], []);
          (cs, ls, ps) = project_unwrapped_concept_properties dg vg labels (build_unwrapped_concept_properties vg) coded;
          countries = extract_countries dg
      in \<lparr> ldp_concepts = remdups cs, ldp_labels = remdups ls, ldp_evaluated_properties = remdups ps,
           ldp_countries = countries, ldp_country_wb_regions = regions_for countries \<rparr>)"

definition project_linked_data :: "vocabulary_client \<Rightarrow> linked_data \<Rightarrow> linked_data_projection result" where
  "project_linked_data vc ld =
     res_bind (vc_get_vocabulary vc (ld_vocabulary_uri ld)) (\<lambda>vg.
       case map_of (ld_data ld) ''@context'' of
         None \<Rightarrow> Inl PyValueError
       | Some JNull \<Rightarrow> Inl PyValueError
       | Some uri \<Rightarrow>
           res_bind (vc_get_context vc (vc_str vc uri)) (\<lambda>doc.
             case map_of doc ''@context'' of
               None \<Rightarrow> Inl PyKeyError
             | Some context \<Rightarrow>
                 res_bind (vc_parse_jsonld vc (AList.update ''@context'' context (ld_data ld))) (\<lambda>dg.
                   Inr (projection_of_graphs vg dg))))"

section \<open>Validation\<close>

record linked_data_validation =
  ldv_conforms :: bool
  ldv_errors :: "string list"

definition validate_linked_data ::
    "vocabulary_client \<Rightarrow> json_dict \<Rightarrow> string \<Rightarrow> linked_data_validation result" where
  "validate_linked_data vc data vocabulary_uri =
     (case map_of data ''@context'' of
        None \<Rightarrow> Inl PyKeyError
      | Some uri \<Rightarrow>
          res_bind (vc_get_vocabulary vc vocabulary_uri) (\<lambda>ontology.
          res_bind (vc_get_context vc (vc_str vc uri)) (\<lambda>_.
            Inr (case vc_expand vc data of
                   None \<Rightarrow> \<lparr> ldv_conforms = False, ldv_errors = [''JSON-LD expansion failed''] \<rparr>
                 | Some [] \<Rightarrow> \<lparr> ldv_conforms = False, ldv_errors = [''JSON-LD expansion produced an empty graph.''] \<rparr>
                 | Some _ \<Rightarrow>
                     (case vc_to_rdf vc data of
                        None \<Rightarrow> \<lparr> ldv_conforms = False, ldv_errors = [''Failed to convert JSON-LD to RDF graph''] \<rparr>
                      | Some dg \<Rightarrow>
                          (case vc_shacl vc (dg @ ontology) ontology of
                             None \<Rightarrow> \<lparr> ldv_conforms = False, ldv_errors = [''SHACL validation error''] \<rparr>
                           | Some (conforms, txt_results) \<Rightarrow>
                               \<lparr> ldv_conforms = conforms,
                                 ldv_errors = (if conforms then []
                                               else [''SHACL validation failed:'' @ [CHR 0x0A] @ txt_results]) \<rparr>))))))"

section \<open>What a projection holds\<close>

lemma in_triples_with: "(n, c) \<in> set (triples_with g p) \<longleftrightarrow> (n, p, c) \<in> set g"
  by (force simp: triples_with_def)

abbreviation concepts_in :: "projected \<Rightarrow> string set" where
  "concepts_in acc \<equiv> set (fst acc)"

abbreviation labels_in :: "projected \<Rightarrow> string set" where
  "labels_in acc \<equiv> set (fst (snd acc))"

definition labels_follow :: "(string \<times> string) list \<Rightarrow> projected \<Rightarrow> bool" where
  "labels_follow labels acc = (labels_in acc = {l. \<exists>c. c \<in> concepts_in acc \<and> map_of labels c = Some l})"

lemma concepts_in_add: "concepts_in (add_concept labels c acc) = insert (str_node c) (concepts_in acc)"
  by (simp add: add_concept_def split: prod.splits)

lemma labels_follow_add: "labels_follow labels acc \<Longrightarrow> labels_follow labels (add_concept labels c acc)"
  by (auto simp: labels_follow_def add_concept_def split: prod.splits option.splits)

lemma labels_follow_props: "labels_follow labels (cs, ls, ps) = labels_follow labels (cs, ls, qs)"
  by (simp add: labels_follow_def)

lemma concepts_in_coded:
  "concepts_in (project_coded_value dg vg labels sch sp (n, c) acc) =
     concepts_in acc \<union> (if is_uri c \<and> is_concept vg c \<and> status_coded dg n then {str_node c} else {})"
  using concepts_in_add [of labels c acc]
  by (cases acc; cases "add_concept labels c acc") (simp add: project_coded_value_def)

lemma labels_follow_coded:
  "labels_follow labels acc \<Longrightarrow> labels_follow labels (project_coded_value dg vg labels sch sp nv acc)"
  using labels_follow_add [of labels acc "snd nv"]
  by (cases nv; cases acc; cases "add_concept labels (snd nv) acc")
     (simp add: project_coded_value_def labels_follow_def)

lemma concepts_in_unwrapped:
  "concepts_in (project_unwrapped_value vg labels p c acc) =
     concepts_in acc \<union> (if is_uri c \<and> is_concept vg c then {str_node c} else {})"
  using concepts_in_add [of labels c acc]
  by (cases "add_concept labels c acc") (simp add: project_unwrapped_value_def)

lemma labels_follow_unwrapped:
  "labels_follow labels acc \<Longrightarrow> labels_follow labels (project_unwrapped_value vg labels p c acc)"
  using labels_follow_add [of labels acc c]
  by (cases "add_concept labels c acc") (simp add: project_unwrapped_value_def labels_follow_def)

lemma labels_follow_fold:
  assumes "\<And>x acc. labels_follow labels acc \<Longrightarrow> labels_follow labels (f x acc)" "labels_follow labels acc"
  shows "labels_follow labels (fold f xs acc)"
  using assms(2)
proof (induction xs arbitrary: acc)
  case (Cons x xs)
  then show ?case using assms(1) by simp
qed simp

lemma concepts_in_fold:
  assumes "\<And>x acc. concepts_in (f x acc) = concepts_in acc \<union> S x"
  shows "concepts_in (fold f xs acc) = concepts_in acc \<union> (\<Union>x \<in> set xs. S x)"
  by (induction xs arbitrary: acc) (auto simp: assms)

text \<open>The accumulated sets before they become fields.\<close>

definition projected_sets :: "rdf_graph \<Rightarrow> rdf_graph \<Rightarrow> projected" where
  "projected_sets vg dg =
     project_unwrapped_concept_properties dg vg (build_concept_labels vg) (build_unwrapped_concept_properties vg)
       (fold (project_coded_value dg vg (build_concept_labels vg) (build_concept_schemes vg) (build_scheme_to_property vg))
          (triples_with dg (evrepo ''codedValue'')) ([], [], []))"

lemma projection_fields:
  "set (ldp_concepts (projection_of_graphs vg dg)) = concepts_in (projected_sets vg dg)"
  "set (ldp_labels (projection_of_graphs vg dg)) = labels_in (projected_sets vg dg)"
  "set (ldp_country_wb_regions (projection_of_graphs vg dg)) =
     set (regions_for (ldp_countries (projection_of_graphs vg dg)))"
  by (simp_all add: projection_of_graphs_def projected_sets_def Let_def split: prod.splits)

lemma projected_labels: "labels_follow (build_concept_labels vg) (projected_sets vg dg)"
  unfolding projected_sets_def project_unwrapped_concept_properties_def
  by (intro labels_follow_fold labels_follow_unwrapped labels_follow_coded) (auto simp: labels_follow_def)

lemma projected_concepts:
  "concepts_in (projected_sets vg dg) =
     {str_node c |c. is_uri c \<and> is_concept vg c \<and>
        ((\<exists>n. (n, evrepo ''codedValue'', c) \<in> set dg \<and> status_coded dg n) \<or>
         (\<exists>n p. p \<in> set (build_unwrapped_concept_properties vg) \<and> (n, URIRef p, c) \<in> set dg))}"
proof -
  let ?one = "\<lambda>b c. if is_uri c \<and> is_concept vg c \<and> b then {str_node c} else {}"
  let ?labels = "build_concept_labels vg"
  let ?f = "project_coded_value dg vg ?labels (build_concept_schemes vg) (build_scheme_to_property vg)"
  have coded: "concepts_in (fold ?f xs acc) = concepts_in acc \<union> (\<Union>x \<in> set xs. ?one (status_coded dg (fst x)) (snd x))"
    for xs acc
    by (rule concepts_in_fold) (simp only: concepts_in_coded [of _ _ _ _ _ "fst x" "snd x" for x, simplified])
  have inner: "concepts_in (fold (\<lambda>x. project_unwrapped_value vg ?labels p (snd x)) xs acc) =
      concepts_in acc \<union> (\<Union>x \<in> set xs. ?one True (snd x))" for p xs acc
    by (rule concepts_in_fold) (simp add: concepts_in_unwrapped)
  have outer: "concepts_in (project_unwrapped_concept_properties dg vg ?labels props acc) =
      concepts_in acc \<union> (\<Union>p \<in> set props. \<Union>x \<in> set (triples_with dg (URIRef p)). ?one True (snd x))" for props acc
    unfolding project_unwrapped_concept_properties_def by (rule concepts_in_fold) (rule inner)
  have pick: "(\<Union>x \<in> set (triples_with dg p). ?one (b (fst x)) (snd x)) =
      {str_node c |c. is_uri c \<and> is_concept vg c \<and> (\<exists>n. (n, p, c) \<in> set dg \<and> b n)}" (is "?l = ?r") for b p
  proof (rule set_eqI)
    fix y
    have "y \<in> ?l \<longleftrightarrow> (\<exists>n c. (n, c) \<in> set (triples_with dg p) \<and> is_uri c \<and> is_concept vg c \<and> b n \<and> y = str_node c)"
      unfolding UN_iff by (auto split: if_splits intro: bexI) (blast, force)
    then show "y \<in> ?l \<longleftrightarrow> y \<in> ?r" unfolding in_triples_with by blast
  qed
  show ?thesis
    unfolding projected_sets_def outer coded pick [of "status_coded dg"] pick [of "\<lambda>_. True"] by auto
qed

section \<open>Properties\<close>


end
