(* ===== verification/Reference_Index.thy ===== *)
theory Reference_Index
  imports Duplicate_Decisions Projections Linked_Data
begin

text \<open>
  The search index of references and its synchronisation with the tables:
  \<^verbatim>\<open>services/synchronizer_service.py\<close>, the documents of \<^verbatim>\<open>models/es.py\<close>, the writing half of
  \<^verbatim>\<open>src/app/persistence/es/repository.py\<close>, and the deduplicated views of a reference in
  \<^verbatim>\<open>src/app/domain/references/service.py\<close>.

  An index is a list of documents by identifier. Elasticsearch does not take part in transactions:
  what was written before an exception stays written, so \<open>sql_to_es\<close> returns the index next to its
  outcome. Whether a document fits the mapping of the index is the parameter \<open>ese_accepts\<close>.

  The recursion of \<open>sql_to_es\<close> from a duplicate to its canonical has no bound in the code; it is a
  partial function, \<open>None\<close> standing for a call that does not return. \<open>flat_forest\<close> is what makes it
  return, and every decision that the service maps keeps it.
\<close>

section \<open>Documents\<close>

record reference_search_projection =
  rsp_id :: uuid
  rsp_visibility :: visibility
  rsp_duplicate_determination :: "duplicate_determination option"
  rsp_search_fields :: reference_search_fields
  rsp_linked_data_projection :: "linked_data_projection option"

record search_fields_mixin =
  sfm_abstract :: "string option"
  sfm_title :: "string option"
  sfm_authors :: "string list option"
  sfm_publication_date :: "py_date option"
  sfm_publication_year :: "int option"
  sfm_annotations :: "string list option"
  sfm_evaluated_schemes :: "string list option"
  sfm_inclusion_destiny :: "rat option"
  sfm_linked_data_concepts :: "string list option"
  sfm_linked_data_labels :: "string list option"
  sfm_linked_data_evaluated_properties :: "string list option"
  sfm_linked_data_countries :: "string list option"
  sfm_linked_data_country_wb_regions :: "string list option"

definition from_projections ::
    "reference_search_fields \<Rightarrow> linked_data_projection option \<Rightarrow> search_fields_mixin" where
  "from_projections search_fields linked_data_projection =
     \<lparr> sfm_abstract = rsf_abstract search_fields,
       sfm_title = rsf_title search_fields,
       sfm_authors = Some (rsf_authors search_fields),
       sfm_publication_date = rsf_publication_date search_fields,
       sfm_publication_year = rsf_publication_year search_fields,
       sfm_annotations = Some (rsf_annotations search_fields),
       sfm_evaluated_schemes = Some (rsf_evaluated_schemes search_fields),
       sfm_inclusion_destiny = rsf_destiny_inclusion_score search_fields,
       sfm_linked_data_concepts = map_option ldp_concepts linked_data_projection,
       sfm_linked_data_labels = map_option ldp_labels linked_data_projection,
       sfm_linked_data_evaluated_properties = map_option ldp_evaluated_properties linked_data_projection,
       sfm_linked_data_countries = map_option ldp_countries linked_data_projection,
       sfm_linked_data_country_wb_regions = map_option ldp_country_wb_regions linked_data_projection \<rparr>"

record reference_document =
  rdoc_id :: uuid
  rdoc_visibility :: visibility
  rdoc_duplicate_determination :: "duplicate_determination option"
  rdoc_search_fields :: search_fields_mixin

definition document_from_domain :: "reference_search_projection \<Rightarrow> reference_document" where
  "document_from_domain p =
     \<lparr> rdoc_id = rsp_id p, rdoc_visibility = rsp_visibility p,
       rdoc_duplicate_determination = rsp_duplicate_determination p,
       rdoc_search_fields = from_projections (rsp_search_fields p) (rsp_linked_data_projection p) \<rparr>"

definition empty_search_fields :: reference_search_fields where
  "empty_search_fields =
     \<lparr> rsf_abstract = None, rsf_authors = [], rsf_publication_date = None, rsf_publication_year = None,
       rsf_title = None, rsf_annotations = [], rsf_evaluated_schemes = [],
       rsf_destiny_inclusion_score = None, rsf_linked_data_content = None \<rparr>"

definition document_to_domain :: "reference_document \<Rightarrow> reference_search_projection" where
  "document_to_domain d =
     \<lparr> rsp_id = rdoc_id d, rsp_visibility = rdoc_visibility d, rsp_duplicate_determination = None,
       rsp_search_fields = empty_search_fields, rsp_linked_data_projection = None \<rparr>"

section \<open>The repository of documents\<close>

type_synonym es_index = "(uuid \<times> reference_document) list"

record es_env =
  ese_projector :: projector
  ese_vocabulary :: vocabulary_client
  ese_accepts :: "reference_document \<Rightarrow> bool"

definition es_get_by_pk :: "es_index \<Rightarrow> uuid \<Rightarrow> reference_search_projection result" where
  "es_get_by_pk idx pk =
     (case map_of idx pk of None \<Rightarrow> Inl ESNotFoundError | Some d \<Rightarrow> Inr (document_to_domain d))"

definition es_add ::
    "es_env \<Rightarrow> reference_search_projection \<Rightarrow> es_index \<Rightarrow> reference_search_projection result \<times> es_index" where
  "es_add env p idx =
     (if ese_accepts env (document_from_domain p)
      then (Inr p, AList.update (rsp_id p) (document_from_domain p) idx)
      else (Inl ESMalformedDocumentError, idx))"

definition es_delete_by_pk :: "uuid \<Rightarrow> bool \<Rightarrow> es_index \<Rightarrow> unit result \<times> es_index" where
  "es_delete_by_pk pk fail_hard idx =
     (case map_of idx pk of
        Some _ \<Rightarrow> (Inr (), AList.delete pk idx)
      | None \<Rightarrow> if fail_hard then (Inl ESNotFoundError, idx) else (Inr (), idx))"

text \<open>
  On success \<open>add_bulk\<close> has indexed every record. When a record cannot be built or is refused, an
  unspecified number of earlier ones is indexed; the model keeps only the exception.
\<close>

definition es_add_bulk ::
    "es_env \<Rightarrow> reference_search_projection list \<Rightarrow> es_index \<Rightarrow> (nat \<times> es_index) result" where
  "es_add_bulk env ps idx =
     (if list_all (\<lambda>p. ese_accepts env (document_from_domain p)) ps
      then Inr (length ps, fold (\<lambda>p. AList.update (rsp_id p) (document_from_domain p)) ps idx)
      else Inl BulkIndexError)"

section \<open>The synchroniser\<close>

definition required_preloads :: "preload list" where
  "required_preloads = [PL_identifiers, PL_enhancements, PL_duplicate_references, PL_duplicate_decision]"

definition to_indexable :: "es_env \<Rightarrow> reference \<Rightarrow> reference_search_projection result" where
  "to_indexable env reference =
     res_bind (deduplicated_reference_from_reference reference) (\<lambda>deduped.
     res_bind (search_fields_from_reference (ese_projector env) deduped) (\<lambda>search_fields.
     res_bind (case rsf_linked_data_content search_fields of
                 None \<Rightarrow> Inr None
               | Some ld \<Rightarrow> res_bind (project_linked_data (ese_vocabulary env) ld) (\<lambda>p. Inr (Some p))) (\<lambda>ldp.
       Inr \<lparr> rsp_id = ref_id deduped, rsp_visibility = ref_visibility deduped,
             rsp_duplicate_determination =
               map_option rdd_duplicate_determination (ref_duplicate_decision deduped),
             rsp_search_fields = search_fields, rsp_linked_data_projection = ldp \<rparr>)))"

definition index_reference ::
    "es_env \<Rightarrow> reference \<Rightarrow> es_index \<Rightarrow> reference_search_projection result \<times> es_index" where
  "index_reference env reference idx =
     (case to_indexable env reference of Inl e \<Rightarrow> (Inl e, idx) | Inr p \<Rightarrow> es_add env p idx)"

partial_function (option) sql_to_es ::
    "es_env \<Rightarrow> db \<Rightarrow> uuid \<Rightarrow> es_index \<Rightarrow> (reference_search_projection result \<times> es_index) option" where
  "sql_to_es env db reference_id idx =
     (case references_get_by_pk db reference_id (required_preloads @ [PL_canonical_reference]) of
        Inl e \<Rightarrow> Some (Inl e, idx)
      | Inr reference \<Rightarrow>
          (case (if is_canonical_like reference then None else ref_canonical_reference reference) of
             Some canonical \<Rightarrow>
               sql_to_es env db (ref_id canonical) (snd (es_delete_by_pk (ref_id reference) False idx))
           | None \<Rightarrow> Some (index_reference env reference idx)))"

declare sql_to_es.simps [code]

definition redirect_of :: "reference \<Rightarrow> uuid option" where
  "redirect_of reference = Option.bind (ref_duplicate_decision reference) rdd_canonical_reference_id"

text \<open>
  The generator of \<open>bulk_sql_to_es\<close>: the references of the list that are canonical-like, then the
  canonicals of the duplicates it met, each set of identifiers read in chunks.
\<close>

definition load_chunks :: "db \<Rightarrow> uuid list list \<Rightarrow> reference list result" where
  "load_chunks db cs =
     res_bind (res_mapM (\<lambda>c. references_get_by_pks db c required_preloads True) cs) (\<lambda>rs. Inr (concat rs))"

definition redirect_ids :: "reference list \<Rightarrow> uuid list" where
  "redirect_ids references =
     dict_fromkeys (List.map_filter redirect_of (filter (\<lambda>r. \<not> is_canonical_like r) references))"

definition bulk_sql_to_es ::
    "es_env \<Rightarrow> nat \<Rightarrow> db \<Rightarrow> uuid list \<Rightarrow> es_index \<Rightarrow> (nat \<times> es_index) result" where
  "bulk_sql_to_es env chunk_size db ids idx =
     res_bind (list_chunker ids chunk_size) (\<lambda>cs.
     res_bind (load_chunks db cs) (\<lambda>references.
     res_bind (res_mapM (to_indexable env) (filter is_canonical_like references)) (\<lambda>ps.
     res_bind (list_chunker (redirect_ids references) chunk_size) (\<lambda>cs2.
     res_bind (load_chunks db cs2) (\<lambda>canonicals.
     res_bind (res_mapM (to_indexable env) (filter is_canonical_like canonicals)) (\<lambda>qs.
       es_add_bulk env (ps @ qs) idx))))))"

section \<open>Deduplicated views\<close>

definition truthy_list :: "'a list option \<Rightarrow> bool" where
  "truthy_list xs = (opt_list xs \<noteq> [])"

definition view_preloads :: "preload list" where
  "view_preloads = [PL_identifiers, PL_enhancements, PL_duplicate_decision, PL_duplicate_references]"

text \<open>Exactly one of the two arguments has to be given and non-empty.\<close>

definition references_of_arguments ::
    "db \<Rightarrow> uuid list option \<Rightarrow> reference list option \<Rightarrow> reference list result" where
  "references_of_arguments db reference_ids references =
     (if truthy_list reference_ids = truthy_list references then Inl PyValueError
      else if truthy_list reference_ids
           then references_get_by_pks db (opt_list reference_ids) view_preloads True
           else Inr (opt_list references))"

definition get_deduplicated_references ::
    "db \<Rightarrow> uuid list option \<Rightarrow> reference list option \<Rightarrow> reference list result" where
  "get_deduplicated_references db reference_ids references =
     res_bind (references_of_arguments db reference_ids references)
       (res_mapM deduplicated_reference_from_reference)"

definition get_deduplicated_reference :: "db \<Rightarrow> uuid \<Rightarrow> reference result" where
  "get_deduplicated_reference db reference_id =
     res_bind (get_deduplicated_references db (Some [reference_id]) None)
       (\<lambda>rs. case rs of [] \<Rightarrow> Inl PyIndexError | r # _ \<Rightarrow> Inr r)"

definition get_deduplicated_canonical_reference :: "db \<Rightarrow> uuid \<Rightarrow> reference result" where
  "get_deduplicated_canonical_reference db reference_id =
     res_bind (references_get_by_pk db reference_id [PL_duplicate_decision]) (\<lambda>reference.
       if is_canonical_like reference then get_deduplicated_reference db (ref_id reference)
       else (case redirect_of reference of
               None \<Rightarrow> Inl PyRuntimeError
             | Some c \<Rightarrow> get_deduplicated_reference db c))"

definition get_deduplicated_canonical_references ::
    "db \<Rightarrow> uuid list option \<Rightarrow> reference list option \<Rightarrow> reference list result" where
  "get_deduplicated_canonical_references db reference_ids references =
     res_bind (references_of_arguments db reference_ids references) (\<lambda>rs.
     res_bind (res_mapM (\<lambda>r. case redirect_of r of None \<Rightarrow> Inl PyRuntimeError | Some c \<Rightarrow> Inr c)
                 (filter (\<lambda>r. \<not> is_canonical_like r) rs)) (\<lambda>duplicate_canonical_ids.
     (let canonical_references = filter is_canonical_like rs
      in res_bind (if canonical_references = [] then Inr []
                   else get_deduplicated_references db None (Some canonical_references)) (\<lambda>xs.
         res_bind (if duplicate_canonical_ids = [] then Inr []
                   else get_deduplicated_references db (Some duplicate_canonical_ids) None) (\<lambda>ys.
           Inr (xs @ ys))))))"

record reference_with_changeset =
  rwc_reference :: reference
  rwc_changeset :: reference

definition get_canonical_reference_with_implied_changeset ::
    "db \<Rightarrow> uuid \<Rightarrow> reference_with_changeset result" where
  "get_canonical_reference_with_implied_changeset db reference_id =
     res_bind (references_get_by_pk db reference_id [PL_identifiers, PL_enhancements, PL_duplicate_decision])
       (\<lambda>reference.
     res_bind (get_deduplicated_canonical_reference db reference_id) (\<lambda>canonical.
       Inr \<lparr> rwc_reference = canonical, rwc_changeset = reference \<rparr>))"

section \<open>Flat forests\<close>

text \<open>
  No duplicate points at a duplicate. Weaker than \<open>star_forest\<close>, and kept by every decision the
  service maps, the unsearchable ones included.
\<close>

definition is_duplicate_id :: "db \<Rightarrow> uuid \<Rightarrow> bool" where
  "is_duplicate_id db k =
     (case active_decision_of db k of
        None \<Rightarrow> False | Some d \<Rightarrow> rdd_duplicate_determination d = DD_DUPLICATE)"

definition canonical_root :: "db \<Rightarrow> uuid \<Rightarrow> uuid" where
  "canonical_root db k =
     (if is_duplicate_id db k
      then (case Option.bind (active_decision_of db k) rdd_canonical_reference_id of None \<Rightarrow> k | Some c \<Rightarrow> c)
      else k)"

definition flat_forest :: "db \<Rightarrow> bool" where
  "flat_forest db =
     list_all (\<lambda>d. rdd_active_decision d \<and> rdd_duplicate_determination d = DD_DUPLICATE \<longrightarrow>
                    rdd_reference_id d \<in> refr_id ` set (db_references db) \<and>
                    \<not> pred_option (is_duplicate_id db) (rdd_canonical_reference_id d)) (db_decisions db)"

lemma is_duplicate_id_iff:
  "is_duplicate_id db k \<longleftrightarrow> (\<exists>d. decision_view db k = Some d \<and> rdd_duplicate_determination d = DD_DUPLICATE)"
  by (auto simp: is_duplicate_id_def decision_view_def split: option.splits)

lemma duplicate_has_canonical:
  assumes "db_ok db" "decision_view db k = Some d" "rdd_duplicate_determination d = DD_DUPLICATE"
  obtains c where "rdd_canonical_reference_id d = Some c" "c \<in> refr_id ` set (db_references db)"
proof -
  have "d \<in> set (db_decisions db)"
    using assms(2) active_decision_of_Some(1) by (simp add: decision_view_def)
  then have "decision_valid d" "decision_foreign_keys db d"
    using assms(1) by (auto simp: db_ok_def list_all_iff decision_constraints_def)
  with assms(3) that show thesis
    by (auto simp: decision_valid_def check_canonical_iff_duplicate_def decision_foreign_keys_def)
qed

lemma flat_forest_iff:
  assumes "db_ok db"
  shows "flat_forest db \<longleftrightarrow>
    (\<forall>k d c. decision_view db k = Some d \<and> rdd_duplicate_determination d = DD_DUPLICATE \<and>
       rdd_canonical_reference_id d = Some c \<longrightarrow>
       k \<in> refr_id ` set (db_references db) \<and> \<not> is_duplicate_id db c)"
proof -
  have view: "d \<in> set (db_decisions db) \<and> rdd_active_decision d \<longleftrightarrow> decision_view db (rdd_reference_id d) = Some d" for d
    unfolding decision_view_def active_decision_of_iff [OF assms] by simp
  have "flat_forest db \<longleftrightarrow> (\<forall>d. decision_view db (rdd_reference_id d) = Some d \<and>
      rdd_duplicate_determination d = DD_DUPLICATE \<longrightarrow>
      rdd_reference_id d \<in> refr_id ` set (db_references db) \<and>
      \<not> pred_option (is_duplicate_id db) (rdd_canonical_reference_id d))"
    unfolding flat_forest_def list_all_iff using view by blast
  also have "\<dots> \<longleftrightarrow> (\<forall>k d. decision_view db k = Some d \<and> rdd_duplicate_determination d = DD_DUPLICATE \<longrightarrow>
      k \<in> refr_id ` set (db_references db) \<and> \<not> pred_option (is_duplicate_id db) (rdd_canonical_reference_id d))"
    (is "?l \<longleftrightarrow> ?r")
  proof -
    have "rdd_reference_id d = k" if "decision_view db k = Some d" for k d
      using that active_decision_of_Some(3) by (simp add: decision_view_def)
    then show ?thesis by blast
  qed
  also have "\<dots> \<longleftrightarrow> (\<forall>k d. decision_view db k = Some d \<and> rdd_duplicate_determination d = DD_DUPLICATE \<longrightarrow>
      k \<in> refr_id ` set (db_references db) \<and> (\<forall>c. rdd_canonical_reference_id d = Some c \<longrightarrow> \<not> is_duplicate_id db c))"
    (is "?l \<longleftrightarrow> ?r")
  proof -
    have "\<not> pred_option (is_duplicate_id db) (rdd_canonical_reference_id d) \<longleftrightarrow>
        (\<forall>c. rdd_canonical_reference_id d = Some c \<longrightarrow> \<not> is_duplicate_id db c)"
      if v: "decision_view db k = Some d" and dd: "rdd_duplicate_determination d = DD_DUPLICATE" for k d
    proof -
      obtain c where "rdd_canonical_reference_id d = Some c" by (rule duplicate_has_canonical [OF assms v dd])
      then show ?thesis by simp
    qed
    then show ?thesis by meson
  qed
  also have "\<dots> \<longleftrightarrow> (\<forall>k d c. decision_view db k = Some d \<and> rdd_duplicate_determination d = DD_DUPLICATE \<and>
       rdd_canonical_reference_id d = Some c \<longrightarrow>
       k \<in> refr_id ` set (db_references db) \<and> \<not> is_duplicate_id db c)"
    by (meson duplicate_has_canonical [OF assms])
  finally show ?thesis .
qed

lemma star_forest_flat:
  assumes "db_ok db" "star_forest db"
  shows "flat_forest db"
  unfolding flat_forest_iff [OF assms(1)]
proof (intro allI impI)
  fix k d c
  assume a: "decision_view db k = Some d \<and> rdd_duplicate_determination d = DD_DUPLICATE \<and>
    rdd_canonical_reference_id d = Some c"
  then obtain e where "k \<in> refr_id ` set (db_references db)" "decision_view db c = Some e"
    "rdd_duplicate_determination e = DD_CANONICAL"
    using assms star_forest_iff [OF assms(1)] by fastforce
  then show "k \<in> refr_id ` set (db_references db) \<and> \<not> is_duplicate_id db c"
    by (auto simp: is_duplicate_id_iff)
qed

lemma edge_makes_duplicate_row:
  assumes "decision_view db k = Some e" "rdd_canonical_reference_id e = Some c"
    and "k \<in> refr_id ` set (db_references db)"
  shows "duplicate_rows_of db c \<noteq> []"
proof -
  from assms(3) obtain r where r: "r \<in> set (db_references db)" "refr_id r = k" by blast
  have "e \<in> set (db_decisions db)" "rdd_active_decision e" "rdd_reference_id e = k"
    using assms(1) active_decision_of_Some by (auto simp: decision_view_def)
  with r assms(2) have "r \<in> set (duplicate_rows_of db c)"
    by (auto simp: duplicate_rows_of_def list_ex_iff)
  then show ?thesis by auto
qed

lemma map_decision_flat_forest:
  assumes ok: "db_ok db" and ff: "flat_forest db" and nf: "not_in_force d db"
    and m: "map_duplicate_decision d allow db = Inr (new, changed, deact, db')"
  shows "flat_forest db'"
proof -
  note ok' = map_duplicate_decision_ok [OF ok m]
  obtain act where chk: "check_canonical_target d db = Inr ()"
    and here: "rdd_reference_id d \<in> refr_id ` set (db_references db)"
    and res: "resolve_decision (active_decision_of db (rdd_reference_id d))
       (duplicate_rows_of db (rdd_reference_id d) \<noteq> []) allow d = (new, changed, act, deact)"
    using map_duplicate_decision_Inr [OF ok m] by metis
  note refs = map_duplicate_decision_rows(2) [OF ok m res]
  from res show ?thesis
  proof (cases rule: resolve_decision_cases)
    case decoupled
    then have "decision_view db' = decision_view db" using view_after_decoupled [OF ok nf m res] by blast
    with ff refs show ?thesis
      unfolding flat_forest_iff [OF ok] flat_forest_iff [OF ok'] is_duplicate_id_iff by (simp only:)
  next
    case applied
    have view: "decision_view db' = assign_decision new (decision_view db)"
      using view_after_applied [OF ok nf m res applied(2)] applied(1) by simp
    let ?r = "rdd_reference_id d"
    have dup': "is_duplicate_id db' c \<longleftrightarrow>
        (if c = ?r then rdd_duplicate_determination d = DD_DUPLICATE else is_duplicate_id db c)" for c
      using view applied(1) by (auto simp: is_duplicate_id_iff assign_decision_def)
    show ?thesis
      unfolding flat_forest_iff [OF ok']
    proof (intro allI impI)
      fix k e c
      assume a: "decision_view db' k = Some e \<and> rdd_duplicate_determination e = DD_DUPLICATE \<and>
        rdd_canonical_reference_id e = Some c"
      show "k \<in> refr_id ` set (db_references db') \<and> \<not> is_duplicate_id db' c"
      proof (cases "k = ?r")
        case True
        with a view applied(1) have e: "rdd_canonical_reference_id d = Some c"
          by (auto simp: assign_decision_def)
        obtain x where "c \<noteq> ?r" "active_decision_of db c = Some x" "rdd_duplicate_determination x = DD_CANONICAL"
          by (rule check_canonical_target_Inr [OF ok chk e])
        then have "\<not> is_duplicate_id db' c" unfolding dup' by (simp add: is_duplicate_id_def)
        with True here refs show ?thesis by simp
      next
        case False
        with a view applied(1) have e: "decision_view db k = Some e" by (auto simp: assign_decision_def)
        then have k: "k \<in> refr_id ` set (db_references db)" "\<not> is_duplicate_id db c"
          using ff a unfolding flat_forest_iff [OF ok] by blast+
        moreover have "duplicate_rows_of db c \<noteq> []" using edge_makes_duplicate_row [OF e _ k(1)] a by blast
        ultimately show ?thesis using refs applied(6) by (auto simp: dup')
      qed
    qed
  qed
qed

section \<open>What a synchronisation writes\<close>

text \<open>The specification: the document of a stored reference.\<close>

definition stored_row :: "db \<Rightarrow> uuid \<Rightarrow> reference_row option" where
  "stored_row db k = find (\<lambda>r. refr_id r = k) (db_references db)"

definition document_of :: "es_env \<Rightarrow> db \<Rightarrow> uuid \<Rightarrow> reference_search_projection result" where
  "document_of env db k =
     (case stored_row db k of
        None \<Rightarrow> Inl SQLNotFoundError
      | Some row \<Rightarrow> to_indexable env (domain_of db required_preloads row))"

lemma to_indexable_canonical [simp]:
  "to_indexable env (r \<lparr> ref_canonical_reference := c \<rparr>) = to_indexable env r"
  by (cases "ref_duplicate_references r")
    (simp_all add: to_indexable_def deduplicated_reference_from_reference_def search_fields_from_reference_def)

lemma domain_of_canonical:
  "domain_of db (required_preloads @ [PL_canonical_reference]) row =
     (domain_of db required_preloads row)
       \<lparr> ref_canonical_reference :=
           map_option (base_of db (removeAll PL_duplicate_references (required_preloads @ [PL_canonical_reference])) None None)
             (canonical_row_of db (refr_id row)) \<rparr>"
  by (simp add: domain_of_def base_of_def required_preloads_def)

lemma is_canonical_like_domain_of:
  "PL_duplicate_decision \<in> set pl \<Longrightarrow> is_canonical_like (domain_of db pl row) \<longleftrightarrow> \<not> is_duplicate_id db (refr_id row)"
  by (simp add: is_canonical_like_def is_duplicate_id_def ref_decision_domain_of split: option.splits)

lemma stored_row_iff: "stored_row db k \<noteq> None \<longleftrightarrow> k \<in> refr_id ` set (db_references db)"
  by (auto simp: stored_row_def find_None_set image_iff)

lemma references_get_by_pk_eq:
  assumes "db_ok db"
  shows "references_get_by_pk db k pl =
     (case stored_row db k of None \<Rightarrow> Inl SQLNotFoundError | Some row \<Rightarrow> Inr (domain_of db pl row))"
  by (simp add: references_get_by_pk_def repo_get_by_pk_def stored_row_def reference_to_domain_ok [OF assms]
      split: option.splits)

lemma stored_row_id: "stored_row db k = Some row \<Longrightarrow> refr_id row = k"
  unfolding stored_row_def using find_Some_set by fastforce

definition write_document ::
    "es_env \<Rightarrow> db \<Rightarrow> uuid \<Rightarrow> es_index \<Rightarrow> reference_search_projection result \<times> es_index" where
  "write_document env db k idx =
     (case document_of env db k of Inl e \<Rightarrow> (Inl e, idx) | Inr p \<Rightarrow> es_add env p idx)"

lemma sql_to_es_canonical:
  assumes ok: "db_ok db" and nd: "\<not> is_duplicate_id db k"
  shows "sql_to_es env db k idx = Some (write_document env db k idx)"
proof (cases "stored_row db k")
  case None
  then show ?thesis
    by (subst sql_to_es.simps) (simp add: references_get_by_pk_eq [OF ok] write_document_def document_of_def)
next
  case (Some row)
  then have "is_canonical_like (domain_of db (required_preloads @ [PL_canonical_reference]) row)"
    using nd by (subst is_canonical_like_domain_of) (auto simp: required_preloads_def dest: stored_row_id)
  with Some show ?thesis
    by (subst sql_to_es.simps) (simp add: references_get_by_pk_eq [OF ok] write_document_def document_of_def
        index_reference_def domain_of_canonical)
qed

lemma map_of_delete_quiet: "map_of (snd (es_delete_by_pk k False idx)) = (map_of idx)(k := None)"
  by (auto simp: es_delete_by_pk_def AList.delete_conv' fun_eq_iff split: option.splits)

lemma sql_to_es_duplicate:
  assumes ok: "db_ok db" and ff: "flat_forest db" and dup: "is_duplicate_id db k"
  shows "canonical_root db k \<noteq> k" "\<not> is_duplicate_id db (canonical_root db k)"
    "sql_to_es env db k idx =
       Some (write_document env db (canonical_root db k) (snd (es_delete_by_pk k False idx)))"
proof -
  obtain d where d: "decision_view db k = Some d" "rdd_duplicate_determination d = DD_DUPLICATE"
    using dup by (auto simp: is_duplicate_id_iff)
  obtain c where c: "rdd_canonical_reference_id d = Some c" "c \<in> refr_id ` set (db_references db)"
    by (rule duplicate_has_canonical [OF ok d])
  have root: "canonical_root db k = c"
    using d c dup by (simp add: canonical_root_def decision_view_def)
  have k: "k \<in> refr_id ` set (db_references db)" "\<not> is_duplicate_id db c"
    using ff d c unfolding flat_forest_iff [OF ok] by blast+
  obtain row crow where rows: "stored_row db k = Some row" "stored_row db c = Some crow"
    using k(1) c(2) stored_row_iff by blast
  have can: "canonical_row_of db k = Some crow"
    using d c rows by (simp add: canonical_row_of_def decision_view_def stored_row_def)
  show "canonical_root db k \<noteq> k" "\<not> is_duplicate_id db (canonical_root db k)"
    using root k(2) dup by auto
  let ?pl = "required_preloads @ [PL_canonical_reference]"
  have "\<not> is_canonical_like (domain_of db ?pl row)"
    using dup rows stored_row_id by (subst is_canonical_like_domain_of) (auto simp: required_preloads_def)
  moreover have "ref_canonical_reference (domain_of db ?pl row) =
      Some (base_of db (removeAll PL_duplicate_references ?pl) None None crow)"
    using can stored_row_id [OF rows(1)] by (simp add: domain_of_canonical)
  ultimately have "sql_to_es env db k idx = sql_to_es env db c (snd (es_delete_by_pk k False idx))"
    using rows stored_row_id
    by (subst sql_to_es.simps) (simp add: references_get_by_pk_eq [OF ok] base_of_def)
  then show "sql_to_es env db k idx =
       Some (write_document env db (canonical_root db k) (snd (es_delete_by_pk k False idx)))"
    using sql_to_es_canonical [OF ok k(2)] root by simp
qed

text \<open>The identifiers in the index whose reference is a duplicate.\<close>

definition stale_ids :: "db \<Rightarrow> es_index \<Rightarrow> uuid list" where
  "stale_ids db idx = filter (is_duplicate_id db) (map fst idx)"

lemma set_stale_ids: "set (stale_ids db idx) = {i \<in> dom (map_of idx). is_duplicate_id db i}"
  by (auto simp: stale_ids_def dom_map_of_conv_image_fst)

lemma to_indexable_id: "to_indexable env r = Inr p \<Longrightarrow> rsp_id p = ref_id r"
  by (auto simp: to_indexable_def deduplicated_reference_from_reference_def result_simps split: option.splits)

lemma document_of_id: "document_of env db k = Inr p \<Longrightarrow> rsp_id p = k"
  by (auto simp: document_of_def dest!: to_indexable_id stored_row_id split: option.splits)

lemma write_document_cases:
  obtains e where "write_document env db k idx = (Inl e, idx)"
  | p where "document_of env db k = Inr p"
      "write_document env db k idx = (Inr p, AList.update k (document_from_domain p) idx)"
proof (cases "document_of env db k")
  case (Inl e)
  with that(1) show thesis by (simp add: write_document_def)
next
  case (Inr p)
  with that document_of_id [OF Inr] show thesis
    by (cases "ese_accepts env (document_from_domain p)") (simp_all add: write_document_def es_add_def)
qed

definition without_duplicate :: "db \<Rightarrow> uuid \<Rightarrow> (uuid \<rightharpoonup> reference_document) \<Rightarrow> uuid \<rightharpoonup> reference_document" where
  "without_duplicate db k m = (if is_duplicate_id db k then m(k := None) else m)"

lemma sql_to_es_effect:
  assumes ok: "db_ok db" and ff: "flat_forest db"
  shows "\<exists>res idx'. sql_to_es env db k idx = Some (res, idx') \<and>
           map_of idx' = (case res of
                            Inl _ \<Rightarrow> without_duplicate db k (map_of idx)
                          | Inr p \<Rightarrow> (without_duplicate db k (map_of idx))(canonical_root db k \<mapsto> document_from_domain p)) \<and>
           (\<forall>p. res = Inr p \<longrightarrow> document_of env db (canonical_root db k) = Inr p)"
proof -
  let ?r = "canonical_root db k"
  define idx0 where "idx0 = (if is_duplicate_id db k then snd (es_delete_by_pk k False idx) else idx)"
  have "sql_to_es env db k idx = Some (write_document env db ?r idx0)"
    using sql_to_es_canonical [OF ok] sql_to_es_duplicate [OF ok ff]
    by (cases "is_duplicate_id db k") (auto simp: idx0_def canonical_root_def)
  moreover have "map_of idx0 = without_duplicate db k (map_of idx)"
    by (simp add: idx0_def without_duplicate_def map_of_delete_quiet)
  ultimately show ?thesis
    by (cases rule: write_document_cases [of env db ?r idx0]) (auto simp: AList.update_conv')
qed

lemma canonical_root_not_duplicate:
  "db_ok db \<Longrightarrow> flat_forest db \<Longrightarrow> \<not> is_duplicate_id db (canonical_root db k)"
  using sql_to_es_duplicate(2) by (cases "is_duplicate_id db k") (auto simp: canonical_root_def)

lemma sql_to_es_stale:
  assumes ok: "db_ok db" and ff: "flat_forest db" and run: "sql_to_es env db k idx = Some (res, idx')"
  shows "set (stale_ids db idx') = set (stale_ids db idx) - {k}"
proof -
  obtain res0 idx0 where "sql_to_es env db k idx = Some (res0, idx0)"
    and m: "map_of idx0 = (case res0 of
                            Inl _ \<Rightarrow> without_duplicate db k (map_of idx)
                          | Inr p \<Rightarrow> (without_duplicate db k (map_of idx))(canonical_root db k \<mapsto> document_from_domain p))"
    using sql_to_es_effect [OF ok ff] by blast
  then have "res0 = res" "idx0 = idx'" using run by auto
  with m canonical_root_not_duplicate [OF ok ff, of k] show ?thesis
    unfolding set_stale_ids by (auto simp: without_duplicate_def split: sum.splits if_splits)
qed

section \<open>Synchronising in bulk\<close>

lemma fold_update_documents:
  assumes "\<forall>p \<in> set ps. document_of env db (rsp_id p) = Inr p"
  shows "(k \<in> rsp_id ` set ps \<longrightarrow> (\<exists>p. document_of env db k = Inr p \<and>
            map_of (fold (\<lambda>p. AList.update (rsp_id p) (document_from_domain p)) ps idx) k = Some (document_from_domain p))) \<and>
         (k \<notin> rsp_id ` set ps \<longrightarrow>
            map_of (fold (\<lambda>p. AList.update (rsp_id p) (document_from_domain p)) ps idx) k = map_of idx k)"
  using assms
proof (induction ps arbitrary: idx)
  case (Cons p ps)
  let ?idx = "AList.update (rsp_id p) (document_from_domain p) idx"
  have IH: "(k \<in> rsp_id ` set ps \<longrightarrow> (\<exists>p. document_of env db k = Inr p \<and>
            map_of (fold (\<lambda>p. AList.update (rsp_id p) (document_from_domain p)) ps ?idx) k = Some (document_from_domain p))) \<and>
         (k \<notin> rsp_id ` set ps \<longrightarrow>
            map_of (fold (\<lambda>p. AList.update (rsp_id p) (document_from_domain p)) ps ?idx) k = map_of ?idx k)"
    using Cons by simp
  show ?case
  proof (cases "k \<in> rsp_id ` set ps")
    case True
    with IH show ?thesis by simp
  next
    case False
    with IH Cons.prems show ?thesis by (auto simp: AList.update_conv')
  qed
qed simp

lemma load_one_chunk:
  assumes "db_ok db"
  shows "references_get_by_pks db c required_preloads True =
      (if set c \<subseteq> refr_id ` set (db_references db)
       then Inr (map (domain_of db required_preloads) (filter (\<lambda>r. refr_id r \<in> set c) (db_references db)))
       else Inl SQLNotFoundError)"
  by (auto simp: references_get_by_pks_def repo_get_by_pks_def Let_def
      res_mapM_total [where g = "domain_of db required_preloads"] reference_to_domain_ok [OF assms])

definition rows_of :: "db \<Rightarrow> uuid set \<Rightarrow> reference_row set" where
  "rows_of db ks = {row \<in> set (db_references db). refr_id row \<in> ks}"

lemma load_all_chunks:
  assumes ok: "db_ok db"
  shows "res_mapM (\<lambda>c. references_get_by_pks db c required_preloads True) cs = Inr rss \<Longrightarrow>
      set (concat rss) = domain_of db required_preloads ` rows_of db (set (concat cs)) \<and>
      set (concat cs) \<subseteq> refr_id ` set (db_references db)"
proof (induction cs arbitrary: rss)
  case (Cons c cs)
  then obtain rss' where c: "set c \<subseteq> refr_id ` set (db_references db)"
    and rss': "res_mapM (\<lambda>c. references_get_by_pks db c required_preloads True) cs = Inr rss'"
    and rss: "rss = map (domain_of db required_preloads) (filter (\<lambda>r. refr_id r \<in> set c) (db_references db)) # rss'"
    by (auto simp: load_one_chunk [OF ok] res_bind_Inr_iff split: if_splits)
  have "set (concat rss) = domain_of db required_preloads ` rows_of db (set c) \<union> set (concat rss')"
    unfolding rss by (auto simp: rows_of_def)
  moreover have "rows_of db (set (concat (c # cs))) = rows_of db (set c) \<union> rows_of db (set (concat cs))"
    by (auto simp: rows_of_def)
  ultimately show ?case using Cons.IH [OF rss'] c by (auto simp: image_Un)
qed (simp add: rows_of_def)

lemma load_chunks_Inr:
  assumes ok: "db_ok db" and chunks: "list_chunker ids n = Inr cs" and run: "load_chunks db cs = Inr rs"
  shows "set rs = domain_of db required_preloads ` rows_of db (set ids)"
    and "set ids \<subseteq> refr_id ` set (db_references db)"
proof -
  from chunks have cs: "concat cs = ids" using concat_chunks by (auto simp: list_chunker_def split: if_splits)
  obtain rss where "res_mapM (\<lambda>c. references_get_by_pks db c required_preloads True) cs = Inr rss"
    "rs = concat rss" using run by (auto simp: load_chunks_def res_bind_Inr_iff)
  with load_all_chunks [OF ok] cs show "set rs = domain_of db required_preloads ` rows_of db (set ids)"
    "set ids \<subseteq> refr_id ` set (db_references db)" by metis+
qed

text \<open>The projections that a list of loaded references yields.\<close>

lemma stored_row_of: "db_ok db \<Longrightarrow> row \<in> set (db_references db) \<Longrightarrow> stored_row db (refr_id row) = Some row"
proof -
  assume ok: "db_ok db" and row: "row \<in> set (db_references db)"
  then obtain r where r: "stored_row db (refr_id row) = Some r" using stored_row_iff by blast
  then have "r \<in> set (db_references db)" "refr_id r = refr_id row"
    unfolding stored_row_def using find_Some_set by fastforce+
  then have "r = row" using ok row by (auto simp: db_ok_def distinct_map inj_on_def)
  with r show ?thesis by simp
qed

lemma indexable_documents:
  assumes ok: "db_ok db" and rs: "set rs = domain_of db required_preloads ` rows_of db ks"
    and run: "res_mapM (to_indexable env) (filter is_canonical_like rs) = Inr ps"
    and stored: "ks \<subseteq> refr_id ` set (db_references db)"
  shows "\<forall>p \<in> set ps. document_of env db (rsp_id p) = Inr p"
    and "rsp_id ` set ps = {k \<in> ks. \<not> is_duplicate_id db k}"
proof -
  have like: "is_canonical_like (domain_of db required_preloads row) \<longleftrightarrow> \<not> is_duplicate_id db (refr_id row)" for row
    by (simp add: is_canonical_like_domain_of required_preloads_def)
  have doc: "document_of env db (refr_id row) = to_indexable env (domain_of db required_preloads row)"
    if "row \<in> rows_of db ks" for row
    using that stored_row_of [OF ok] by (simp add: document_of_def rows_of_def)
  have two: "list_all2 (\<lambda>r p. to_indexable env r = Inr p) (filter is_canonical_like rs) ps"
    using run by (auto simp: list_all2_conv_all_nth dest: res_mapM_Inr_length res_mapM_Inr_nth)
  show docs: "\<forall>p \<in> set ps. document_of env db (rsp_id p) = Inr p"
  proof
    fix p
    assume "p \<in> set ps"
    then obtain row where "row \<in> rows_of db ks" "to_indexable env (domain_of db required_preloads row) = Inr p"
      using list_all2_right [OF two] rs by auto
    with doc to_indexable_id show "document_of env db (rsp_id p) = Inr p" by fastforce
  qed
  show "rsp_id ` set ps = {k \<in> ks. \<not> is_duplicate_id db k}" (is "?l = ?r")
  proof (intro equalityI subsetI)
    fix k
    assume "k \<in> ?l"
    then obtain p where p: "p \<in> set ps" "rsp_id p = k" by blast
    then obtain r where r: "r \<in> set (filter is_canonical_like rs)" "to_indexable env r = Inr p"
      using list_all2_right [OF two] by blast
    then obtain row where "row \<in> rows_of db ks" "r = domain_of db required_preloads row" using rs by auto
    with r p to_indexable_id [OF r(2)] like show "k \<in> ?r" by (auto simp: rows_of_def)
  next
    fix k
    assume k: "k \<in> ?r"
    then obtain row where row: "row \<in> rows_of db ks" "refr_id row = k"
      using stored by (auto simp: rows_of_def)
    with k rs like have "domain_of db required_preloads row \<in> set (filter is_canonical_like rs)" by auto
    then obtain p where p: "p \<in> set ps" "to_indexable env (domain_of db required_preloads row) = Inr p"
      using list_all2_left [OF two] by blast
    then have "rsp_id p = k" using to_indexable_id [OF p(2)] row by simp
    with p(1) show "k \<in> ?l" by blast
  qed
qed

lemma redirect_ids_spec:
  assumes ok: "db_ok db" and rs: "set rs = domain_of db required_preloads ` rows_of db ks"
    and stored: "ks \<subseteq> refr_id ` set (db_references db)"
  shows "set (redirect_ids rs) = canonical_root db ` {k \<in> ks. is_duplicate_id db k}"
proof -
  have redirect: "redirect_of (domain_of db required_preloads row) =
      Option.bind (active_decision_of db (refr_id row)) rdd_canonical_reference_id" for row
    by (simp add: redirect_of_def ref_decision_domain_of required_preloads_def)
  have root: "redirect_of (domain_of db required_preloads row) = Some (canonical_root db (refr_id row))"
    if dup: "is_duplicate_id db (refr_id row)" for row
  proof -
    obtain d where d: "decision_view db (refr_id row) = Some d" "rdd_duplicate_determination d = DD_DUPLICATE"
      using dup by (auto simp: is_duplicate_id_iff)
    obtain c where "rdd_canonical_reference_id d = Some c" by (rule duplicate_has_canonical [OF ok d])
    with d dup show ?thesis by (simp add: redirect canonical_root_def decision_view_def)
  qed
  have like: "is_canonical_like (domain_of db required_preloads row) \<longleftrightarrow> \<not> is_duplicate_id db (refr_id row)" for row
    by (simp add: is_canonical_like_domain_of required_preloads_def)
  have "set (redirect_ids rs) = {c. \<exists>row \<in> rows_of db ks. is_duplicate_id db (refr_id row) \<and>
      redirect_of (domain_of db required_preloads row) = Some c}"
    using rs like by (force simp: redirect_ids_def List.map_filter_def image_iff)
  also have "\<dots> = canonical_root db ` {k \<in> refr_id ` rows_of db ks. is_duplicate_id db k}"
    using root by force
  also have "refr_id ` rows_of db ks = ks" using stored by (auto simp: rows_of_def)
  finally show ?thesis .
qed

lemma bulk_effect:
  assumes ok: "db_ok db" and ff: "flat_forest db"
    and run: "bulk_sql_to_es env n db ids idx = Inr (added, idx')"
  shows "(k \<in> canonical_root db ` set ids \<longrightarrow>
            (\<exists>p. document_of env db k = Inr p \<and> map_of idx' k = Some (document_from_domain p))) \<and>
         (k \<notin> canonical_root db ` set ids \<longrightarrow> map_of idx' k = map_of idx k)"
proof -
  from run obtain cs rs ps cs2 rs2 qs where
    c: "list_chunker ids n = Inr cs" "load_chunks db cs = Inr rs"
      "res_mapM (to_indexable env) (filter is_canonical_like rs) = Inr ps"
      "list_chunker (redirect_ids rs) n = Inr cs2" "load_chunks db cs2 = Inr rs2"
      "res_mapM (to_indexable env) (filter is_canonical_like rs2) = Inr qs"
    and e: "es_add_bulk env (ps @ qs) idx = Inr (added, idx')"
    by (auto simp: bulk_sql_to_es_def res_bind_Inr_iff)
  note l1 = load_chunks_Inr [OF ok c(1,2)] and l2 = load_chunks_Inr [OF ok c(4,5)]
  note i1 = indexable_documents [OF ok l1(1) c(3) l1(2)] and i2 = indexable_documents [OF ok l2(1) c(6) l2(2)]
  have "rsp_id ` set (ps @ qs) = {k \<in> set ids. \<not> is_duplicate_id db k} \<union> canonical_root db ` {k \<in> set ids. is_duplicate_id db k}"
    using i1(2) i2(2) redirect_ids_spec [OF ok l1] canonical_root_not_duplicate [OF ok ff]
    by (auto simp: image_Un)
  also have "{k \<in> set ids. \<not> is_duplicate_id db k} = canonical_root db ` {k \<in> set ids. \<not> is_duplicate_id db k}"
    by (auto simp: canonical_root_def)
  also have "canonical_root db ` {k \<in> set ids. \<not> is_duplicate_id db k} \<union> canonical_root db ` {k \<in> set ids. is_duplicate_id db k}
      = canonical_root db ` set ids"
    by (auto simp flip: image_Un)
  finally have keys: "rsp_id ` set (ps @ qs) = canonical_root db ` set ids" .
  have "idx' = fold (\<lambda>p. AList.update (rsp_id p) (document_from_domain p)) (ps @ qs) idx"
    using e by (auto simp: es_add_bulk_def split: if_splits)
  then show ?thesis
    using fold_update_documents [of "ps @ qs" env db k idx] i1(1) i2(1) unfolding keys by auto
qed

section \<open>Properties\<close>

definition offline_vocabulary :: vocabulary_client where
  "offline_vocabulary =
     \<lparr> vc_get_vocabulary = (\<lambda>_. Inl VocabularyFetchError), vc_get_context = (\<lambda>_. Inl VocabularyFetchError),
       vc_parse_jsonld = (\<lambda>_. Inl PyValueError), vc_str = (\<lambda>_. []), vc_expand = (\<lambda>_. None),
       vc_to_rdf = (\<lambda>_. None), vc_shacl = (\<lambda>_ _. None) \<rparr>"

definition sample_env :: es_env where
  "sample_env = \<lparr> ese_projector = sample_projector, ese_vocabulary = offline_vocabulary, ese_accepts = (\<lambda>_. True) \<rparr>"

lemma sample_db_flat: "flat_forest sample_db"
  using star_forest_flat [OF sample_db_ok sample_db_star_forest] .

text \<open>
  C19 (termination). Synchronising any reference returns, whatever the code's unbounded recursion
  allows: the document of a duplicate is removed before anything can fail, the only document
  written is the one of the canonical reference at the root, and it is that reference's
  deduplicated projection; no other document changes.
\<close>

theorem sql_to_es_settles:
  assumes "db_ok db" and "flat_forest db"
  shows "\<exists>res idx'. sql_to_es env db k idx = Some (res, idx') \<and>
           \<not> is_duplicate_id db (canonical_root db k) \<and>
           map_of idx' = (case res of
                            Inl _ \<Rightarrow> without_duplicate db k (map_of idx)
                          | Inr p \<Rightarrow> (without_duplicate db k (map_of idx))(canonical_root db k \<mapsto> document_from_domain p)) \<and>
           (\<forall>p. res = Inr p \<longrightarrow> document_of env db (canonical_root db k) = Inr p)"
  using sql_to_es_effect [OF assms] canonical_root_not_duplicate [OF assms] by blast

theorem sql_to_es_settles_witness:
  "canonical_root sample_db 3 = 1 \<and>
   (\<exists>res idx'. sql_to_es sample_env sample_db 3 [] = Some (res, idx') \<and>
      \<not> is_duplicate_id sample_db (canonical_root sample_db 3))"
proof -
  have "canonical_root sample_db 3 = 1" by code_simp
  then show ?thesis using sql_to_es_settles [OF sample_db_ok sample_db_flat, of sample_env 3 "[]"] by blast
qed

text \<open>
  C20 (equivalence). A bulk synchronisation that succeeds writes exactly what synchronising its
  references one by one would write: for every reference of the list the document of its canonical
  root, however the list is cut into chunks, and nothing else.
\<close>

theorem bulk_sql_to_es_exact:
  assumes "db_ok db" and "flat_forest db" and "bulk_sql_to_es env n db ids idx = Inr (added, idx')"
  shows "(k \<in> canonical_root db ` set ids \<longrightarrow>
            (\<exists>p. document_of env db k = Inr p \<and> map_of idx' k = Some (document_from_domain p))) \<and>
         (k \<notin> canonical_root db ` set ids \<longrightarrow> map_of idx' k = map_of idx k)"
  by (rule bulk_effect [OF assms])

theorem bulk_sql_to_es_exact_witness:
  "\<exists>added idx' p. bulk_sql_to_es sample_env 2 sample_db [2, 3] [] = Inr (added, idx') \<and>
     document_of sample_env sample_db 1 = Inr p \<and> map_of idx' 1 = Some (document_from_domain p)"
proof -
  have "case bulk_sql_to_es sample_env 2 sample_db [2, 3] [] of Inl _ \<Rightarrow> False | Inr _ \<Rightarrow> True" by code_simp
  then obtain added idx' where run: "bulk_sql_to_es sample_env 2 sample_db [2, 3] [] = Inr (added, idx')"
    by (auto split: sum.splits)
  have "canonical_root sample_db 3 = 1" by code_simp
  then have "1 \<in> canonical_root sample_db ` set [2, 3]" by force
  with bulk_sql_to_es_exact [OF sample_db_ok sample_db_flat run, of 1] run show ?thesis by blast
qed

end
