(* ===== verification/Duplicate_Processing.thy ===== *)
theory Duplicate_Processing
  imports Identifier_Shortcut Candidate_Selection Reference_Index Pending_Enhancements
begin

text \<open>
  Processing a duplicate decision from end to end: \<^verbatim>\<open>process_reference_duplicate_decision\<close>,
  \<^verbatim>\<open>make_duplicate_decisions\<close> and the side effects they share, with the dispatch of robot automations
  (\<^verbatim>\<open>src/app/domain/references/service.py\<close>), and the determinator of \<^verbatim>\<open>deduplication_service.py\<close>.

  This is where the components meet. The state is the tables of references and decisions, the
  search index, and the queue of pending enhancements. Each of the two operations is one SQL
  transaction: when it raises, the tables go back to what they were, and the index keeps what was
  written to it.

  From outside come the percolation query of Elasticsearch, which matches documents against the
  stored automations and answers with a robot and the positions of the documents that match, the
  candidate search, and generated identifiers.
\<close>

section \<open>State and effects\<close>

record 'q system =
  sys_db :: db
  sys_index :: es_index
  sys_work :: "'q work_db"
  sys_drawn :: nat

type_synonym ('a, 'q) action = "'q system \<Rightarrow> ('a result \<times> 'q system) option"

definition act_return :: "'a \<Rightarrow> ('a, 'q) action" where
  "act_return x s = Some (Inr x, s)"

definition act_bind :: "('a, 'q) action \<Rightarrow> ('a \<Rightarrow> ('b, 'q) action) \<Rightarrow> ('b, 'q) action" where
  "act_bind m f s =
     (case m s of
        None \<Rightarrow> None
      | Some (Inl e, s') \<Rightarrow> Some (Inl e, s')
      | Some (Inr x, s') \<Rightarrow> f x s')"

fun act_for :: "('a \<Rightarrow> (unit, 'q) action) \<Rightarrow> 'a list \<Rightarrow> (unit, 'q) action" where
  "act_for f [] = act_return ()"
| "act_for f (x # xs) = act_bind (f x) (\<lambda>_. act_for f xs)"

definition on_db :: "(db \<Rightarrow> ('a \<times> db) result) \<Rightarrow> ('a, 'q) action" where
  "on_db f s =
     (case f (sys_db s) of
        Inl e \<Rightarrow> Some (Inl e, s)
      | Inr (x, db') \<Rightarrow> Some (Inr x, s \<lparr> sys_db := db' \<rparr>))"

definition reading :: "(db \<Rightarrow> 'a result) \<Rightarrow> ('a, 'q) action" where
  "reading f s = Some (f (sys_db s), s)"

text \<open>The decorators: on an exception the SQL unit of work rolls back, the index stays.\<close>

definition unit_of_work :: "('a, 'q) action \<Rightarrow> ('a, 'q) action" where
  "unit_of_work m s =
     (case m s of
        None \<Rightarrow> None
      | Some (Inl e, s') \<Rightarrow> Some (Inl e, s' \<lparr> sys_db := sys_db s, sys_work := sys_work s \<rparr>)
      | Some (Inr x, s') \<Rightarrow> Some (Inr x, s'))"

record dedup_settings =
  dst_trusted_unique_identifier_types :: "external_identifier_type list"
  dst_enable_canonical_candidate_search :: bool
  dst_env_is_test :: bool
  dst_enable_percolation :: bool
  dst_percolation_chunk_size :: nat

record dedup_env =
  den_settings :: dedup_settings
  den_index :: es_env
  den_pydantic :: pydantic
  den_search :: es_search
  den_scoring :: scoring_config
  den_percolate :: "reference_with_changeset list \<Rightarrow> (uuid \<times> nat list) list"
  den_set_order :: "uuid list \<Rightarrow> uuid list"
  den_decision_id :: "uuid \<Rightarrow> uuid"
  den_pending_id :: "nat \<Rightarrow> uuid"
  den_now :: datetime

section \<open>Robot automations\<close>

type_synonym percolation_result = "uuid \<times> uuid list"

fun percolated_slots :: "reference_with_changeset list \<Rightarrow> nat list \<Rightarrow> uuid list result" where
  "percolated_slots percolatables slots =
     res_mapM (\<lambda>i. if i < length percolatables then Inr (ref_id (rwc_reference (percolatables ! i)))
                   else Inl PyIndexError) slots"

definition percolate :: "dedup_env \<Rightarrow> reference_with_changeset list \<Rightarrow> percolation_result list result" where
  "percolate env percolatables =
     (if \<not> dst_enable_percolation (den_settings env) then Inr []
      else res_mapM (\<lambda>(robot_id, slots).
             res_bind (percolated_slots percolatables slots) (\<lambda>ids. Inr (robot_id, dict_fromkeys ids)))
             (den_percolate env percolatables))"

definition changeset_of_enhancement :: "enhancement \<Rightarrow> reference" where
  "changeset_of_enhancement e =
     \<lparr> ref_id = enh_reference_id e, ref_visibility = VIS_PUBLIC, ref_identifiers = None,
       ref_enhancements = Some [e], ref_duplicate_decision = None, ref_canonical_reference = None,
       ref_duplicate_references = None \<rparr>"

definition get_reference_changesets_from_enhancements ::
    "db \<Rightarrow> uuid list \<Rightarrow> reference_with_changeset list result" where
  "get_reference_changesets_from_enhancements db enhancement_ids =
     res_bind (repo_get_by_pks enh_id (db_enhancements db) enhancement_ids True) (\<lambda>rows.
     (let enhancements = map enhancement_to_domain rows
      in res_bind (get_deduplicated_references db (Some (map enh_reference_id enhancements)) None) (\<lambda>references.
           res_mapM (\<lambda>e. case map_of (dict_comp ref_id id references) (enh_reference_id e) of
                           None \<Rightarrow> Inl PyKeyError
                         | Some r \<Rightarrow> Inr \<lparr> rwc_reference = r, rwc_changeset = changeset_of_enhancement e \<rparr>)
             enhancements)))"

text \<open>\<open>robot_automations_dict[robot_id] |= reference_ids\<close>, on every result in turn.\<close>

definition merge_automations :: "percolation_result list \<Rightarrow> percolation_result list" where
  "merge_automations results =
     fold (\<lambda>(robot_id, ids) d. AList.update robot_id
        (dict_fromkeys ((case map_of d robot_id of None \<Rightarrow> [] | Some old \<Rightarrow> old) @ ids)) d) results []"

definition detect_robot_automations ::
    "dedup_env \<Rightarrow> reference_with_changeset option \<Rightarrow> uuid list option \<Rightarrow> db \<Rightarrow> percolation_result list result" where
  "detect_robot_automations env reference enhancement_ids db =
     res_bind (case reference of None \<Rightarrow> Inr [] | Some r \<Rightarrow> percolate env [r]) (\<lambda>results.
     res_bind (if opt_list enhancement_ids = [] then Inr []
               else res_bind (list_chunker (opt_list enhancement_ids) (dst_percolation_chunk_size (den_settings env)))
                      (res_mapM (\<lambda>c. res_bind (get_reference_changesets_from_enhancements db c) (percolate env))))
       (\<lambda>more. Inr (merge_automations (results @ concat more))))"

definition dispatch_automation ::
    "dedup_env \<Rightarrow> string \<Rightarrow> uuid option \<Rightarrow> percolation_result \<Rightarrow> (unit, 'q) action" where
  "dispatch_automation env source skip_robot_id automation s =
     (case automation of (robot_id, reference_ids) \<Rightarrow>
        if Some robot_id = skip_robot_id then Some (Inr (), s)
        else (case create_pending_enhancements (\<lambda>i. den_pending_id env (sys_drawn s + i)) (den_now env)
                     robot_id reference_ids None (Some source) (sys_work s) of
                Inl e \<Rightarrow> Some (Inl e, s)
              | Inr w \<Rightarrow> Some (Inr (), s \<lparr> sys_work := w, sys_drawn := sys_drawn s + length reference_ids \<rparr>)))"

definition detect_and_dispatch_robot_automations ::
    "dedup_env \<Rightarrow> reference_with_changeset option \<Rightarrow> uuid list option \<Rightarrow> string \<Rightarrow> uuid option \<Rightarrow> (unit, 'q) action" where
  "detect_and_dispatch_robot_automations env reference enhancement_ids source skip_robot_id =
     act_bind (reading (detect_robot_automations env reference enhancement_ids))
       (act_for (dispatch_automation env source skip_robot_id))"

section \<open>Side effects of a decision\<close>

definition sync_reference :: "dedup_env \<Rightarrow> uuid \<Rightarrow> (reference_search_projection, 'q) action" where
  "sync_reference env reference_id s =
     (case sql_to_es (den_index env) (sys_db s) reference_id (sys_index s) of
        None \<Rightarrow> None
      | Some (res, idx) \<Rightarrow> Some (res, s \<lparr> sys_index := idx \<rparr>))"

definition apply_reference_duplicate_decision_side_effects ::
    "dedup_env \<Rightarrow> bool \<Rightarrow> duplicate_decision \<Rightarrow> (unit, 'q) action" where
  "apply_reference_duplicate_decision_side_effects env decision_changed d =
     (if rdd_active_decision d then
        act_bind (sync_reference env (rdd_reference_id d)) (\<lambda>_.
          if decision_changed then
            act_bind (reading (\<lambda>db. get_canonical_reference_with_implied_changeset db (rdd_reference_id d)))
              (\<lambda>reference. detect_and_dispatch_robot_automations env (Some reference) None
                 (''DuplicateDecision:'' @ str_uuid (rdd_id d)) None)
          else act_return ())
      else act_return ())"

section \<open>Determining a canonical\<close>

definition placeholder_duplicate_determinator :: "bool \<Rightarrow> selection_result \<Rightarrow> determination_result result" where
  "placeholder_duplicate_determinator env_is_test selection =
     (case sel_candidates selection of
        c # _ \<Rightarrow>
          if env_is_test then make_determination_result DD_DUPLICATE (Some (cand_reference_id c)) None
          else make_determination_result DD_UNSEARCHABLE None (Some ''Placeholder duplicate determinator used.'')
      | [] \<Rightarrow>
          if env_is_test \<and> sel_searchable selection then make_determination_result DD_CANONICAL None None
          else make_determination_result DD_UNSEARCHABLE None (Some ''Placeholder duplicate determinator used.''))"

definition determine_canonical_from_candidates ::
    "bool \<Rightarrow> duplicate_decision \<Rightarrow> selection_result \<Rightarrow> db \<Rightarrow> (duplicate_decision \<times> db) result" where
  "determine_canonical_from_candidates env_is_test decision selection db =
     (if terminal_determination (rdd_duplicate_determination decision) then Inr (decision, db)
      else res_bind (placeholder_duplicate_determinator env_is_test selection) (\<lambda>r.
             decisions_update_by_pk
               (\<lambda>d. d \<lparr> rdd_detail := ddr_detail r, rdd_duplicate_determination := ddr_duplicate_determination r,
                        rdd_canonical_reference_id := ddr_canonical_reference_id r \<rparr>)
               (rdd_id decision) db))"

section \<open>Processing a pending decision\<close>

definition map_and_apply :: "dedup_env \<Rightarrow> duplicate_decision \<Rightarrow> (unit, 'q) action" where
  "map_and_apply env decision =
     act_bind (on_db (\<lambda>db. res_bind (map_duplicate_decision decision False db)
                             (\<lambda>(d, changed, _, db'). Inr ((d, changed), db'))))
       (\<lambda>(d, changed). apply_reference_duplicate_decision_side_effects env changed d)"

definition search_route :: "dedup_env \<Rightarrow> duplicate_decision \<Rightarrow> (duplicate_decision, 'q) action" where
  "search_route env decision =
     (if dst_enable_canonical_candidate_search (den_settings env) then
        act_bind (reading (select_candidate_canonicals (den_pydantic env) (ese_projector (den_index env))
                             (den_search env) (den_scoring env) (rdd_reference_id decision)))
          (\<lambda>selection. on_db (determine_canonical_from_candidates (dst_env_is_test (den_settings env)) decision selection))
      else act_return (decision \<lparr> rdd_duplicate_determination := DD_UNSEARCHABLE,
                                   rdd_detail := Some ''Canonical candidate search is disabled.'' \<rparr>))"

definition shortcut_route :: "dedup_env \<Rightarrow> duplicate_decision \<Rightarrow> (duplicate_decision list option, 'q) action" where
  "shortcut_route env decision =
     (let trusted = dst_trusted_unique_identifier_types (den_settings env)
      in if trusted = [] then act_return None
         else on_db (shortcut_deduplication_using_identifiers (den_set_order env) (den_decision_id env) trusted decision))"

definition process_reference_duplicate_decision ::
    "dedup_env \<Rightarrow> duplicate_decision \<Rightarrow> (unit, 'q) action" where
  "process_reference_duplicate_decision env decision =
     unit_of_work (act_bind (shortcut_route env decision) (\<lambda>shortcutted.
       if opt_list shortcutted \<noteq> []
       then act_for (apply_reference_duplicate_decision_side_effects env True) (opt_list shortcutted)
       else act_bind (search_route env decision) (map_and_apply env)))"

section \<open>Decisions made by hand\<close>

definition moved_from :: "duplicate_decision \<Rightarrow> duplicate_decision option \<Rightarrow> uuid option" where
  "moved_from new old =
     (case Option.bind old rdd_canonical_reference_id of
        None \<Rightarrow> None
      | Some c \<Rightarrow> if rdd_canonical_reference_id new \<noteq> Some c then Some c else None)"

definition refresh_old_canonical :: "dedup_env \<Rightarrow> uuid \<Rightarrow> (unit, 'q) action" where
  "refresh_old_canonical env c =
     act_bind (reading (\<lambda>db. references_get_by_pk db c [PL_duplicate_decision])) (\<lambda>old.
       case ref_duplicate_decision old of
         None \<Rightarrow> act_return ()
       | Some d \<Rightarrow> apply_reference_duplicate_decision_side_effects env True d)"

definition make_duplicate_decision :: "dedup_env \<Rightarrow> duplicate_decision \<Rightarrow> (duplicate_decision, 'q) action" where
  "make_duplicate_decision env decision =
     act_bind (on_db (\<lambda>db. res_bind (map_duplicate_decision decision True db)
                             (\<lambda>(d, changed, old, db'). Inr ((d, changed, old), db'))))
       (\<lambda>(d, changed, old).
          act_bind (apply_reference_duplicate_decision_side_effects env changed d) (\<lambda>_.
          act_bind (case moved_from d old of None \<Rightarrow> act_return () | Some c \<Rightarrow> refresh_old_canonical env c) (\<lambda>_.
            act_return d)))"

fun make_all_decisions :: "dedup_env \<Rightarrow> duplicate_decision list \<Rightarrow> (duplicate_decision list, 'q) action" where
  "make_all_decisions env [] = act_return []"
| "make_all_decisions env (d # ds) =
     act_bind (make_duplicate_decision env d) (\<lambda>r.
     act_bind (make_all_decisions env ds) (\<lambda>rs. act_return (r # rs)))"

definition make_duplicate_decisions :: "dedup_env \<Rightarrow> duplicate_decision list \<Rightarrow> (duplicate_decision list, 'q) action" where
  "make_duplicate_decisions env ds = unit_of_work (make_all_decisions env ds)"

section \<open>Decisions registered through the invoke API\<close>

definition pending_invoke_decision :: "uuid \<Rightarrow> uuid \<Rightarrow> duplicate_decision" where
  "pending_invoke_decision new_id reference_id =
     \<lparr> rdd_id = new_id, rdd_reference_id = reference_id, rdd_decision_authority = DA_SYSTEM,
       rdd_decision_trigger = DT_INVOKE_API, rdd_enhancement_id = None, rdd_active_decision = False,
       rdd_candidate_canonical_ids = [], rdd_duplicate_determination = DD_PENDING,
       rdd_canonical_reference_id = None, rdd_detail = None \<rparr>"

definition register_pending_invoke_api_decisions ::
    "(nat \<Rightarrow> uuid) \<Rightarrow> uuid list \<Rightarrow> db \<Rightarrow> (duplicate_decision list \<times> db) result" where
  "register_pending_invoke_api_decisions fresh reference_ids db =
     res_bind (repo_add_bulk rdd_id (decision_constraints db) decision_valid
                 (map (\<lambda>(i, rid). pending_invoke_decision (fresh i) rid) (enumerate 0 reference_ids)) (db_decisions db))
       (\<lambda>(ds, tbl). Inr (ds, db \<lparr> db_decisions := tbl \<rparr>))"

section \<open>Decisions that changed the view\<close>

text \<open>
  A sequence of mapped decisions keeps the tables sound and the forest flat, and every reference
  whose decision in force changed is the reference of a returned active decision.
\<close>

definition active_ids :: "duplicate_decision list \<Rightarrow> uuid set" where
  "active_ids ds = rdd_reference_id ` {d \<in> set ds. rdd_active_decision d}"

definition tracked :: "duplicate_decision list \<Rightarrow> db \<Rightarrow> db \<Rightarrow> bool" where
  "tracked ds db db' \<longleftrightarrow>
     db_ok db' \<and> flat_forest db' \<and> (\<forall>k. decision_view db' k \<noteq> decision_view db k \<longrightarrow> k \<in> active_ids ds)"

lemma active_ids_simps [simp]:
  "active_ids [] = {}"
  "active_ids (d # ds) = (if rdd_active_decision d then insert (rdd_reference_id d) (active_ids ds) else active_ids ds)"
  by (auto simp: active_ids_def)

lemma tracked_refl: "db_ok db \<Longrightarrow> flat_forest db \<Longrightarrow> tracked ds db db"
  by (simp add: tracked_def)

lemma tracked_Cons:
  assumes "tracked [d] db db1" and "tracked ds db1 db2"
  shows "tracked (d # ds) db db2"
proof -
  have "k \<in> active_ids (d # ds)" if "decision_view db2 k \<noteq> decision_view db k" for k
  proof (cases "decision_view db1 k = decision_view db k")
    case True
    with that assms(2) show ?thesis by (auto simp: tracked_def)
  next
    case False
    with assms(1) show ?thesis by (auto simp: tracked_def split: if_splits)
  qed
  with assms(2) show ?thesis by (simp add: tracked_def)
qed

lemma tracked_map:
  assumes ok: "db_ok db" and ff: "flat_forest db" and nf: "not_in_force d db"
    and m: "map_duplicate_decision d allow db = Inr (new, changed, deact, db')"
  shows "tracked [new] db db'"
  using map_decision_effect [OF ok nf m] map_duplicate_decision_ok [OF ok m] map_decision_flat_forest [OF ok ff nf m]
  by (auto simp: tracked_def assign_decision_def split: if_splits)

lemma tracked_side_effects:
  assumes "shortcut_side_effects existing fresh_id k p t cs db = Inr (ds, db')"
    and "db_ok db" and "flat_forest db" and "inj fresh_id" and "distinct cs"
    and "\<And>d. d \<in> set (db_decisions db) \<Longrightarrow> rdd_id d \<notin> fresh_id ` set cs"
  shows "tracked ds db db'"
  using assms
proof (induction cs arbitrary: db ds)
  case Nil
  then show ?case by (simp add: tracked_refl)
next
  case (Cons c cs)
  show ?case
  proof (cases "case map_of existing c of None \<Rightarrow> False | Some det \<Rightarrow> det \<noteq> DD_UNSEARCHABLE")
    case True
    with Cons.prems show ?thesis by (intro Cons.IH) auto
  next
    case False
    let ?d = "side_effect_decision (fresh_id c) c k p t"
    from Cons.prems(1) False obtain new ch de db1 ds1 where
      m: "map_duplicate_decision ?d False db = Inr (new, ch, de, db1)"
      and rest: "shortcut_side_effects existing fresh_id k p t cs db1 = Inr (ds1, db')"
      and ds: "ds = new # ds1"
      by (auto simp: res_bind_Inr_iff)
    have nf: "not_in_force ?d db"
      using Cons.prems(6) by (fastforce simp: not_in_force_def list_all_iff)
    note one = tracked_map [OF Cons.prems(2,3) nf m]
    have "rdd_id x \<notin> fresh_id ` set cs" if "x \<in> set (db_decisions db1)" for x
      using side_effect_ids_fresh [OF Cons.prems(2) m that Cons.prems(4,5,6)] .
    then have "tracked ds1 db1 db'"
      using Cons.IH [OF rest _ _ Cons.prems(4)] one Cons.prems(5) by (simp add: tracked_def)
    with one ds show ?thesis using tracked_Cons by blast
  qed
qed

lemma tracked_apply:
  assumes a: "shortcut_apply set_order fresh_id k und p d db = Inr (ds, db')"
    and ok: "db_ok db" and ff: "flat_forest db" and nf: "not_in_force d db"
    and so: "set_order_ok set_order" and fr: "fresh_ids_ok fresh_id (rdd_id d) db"
  shows "tracked (opt_list ds) db db'"
proof -
  from a obtain d' ch de db1 ds1 where
    m: "map_duplicate_decision d False db = Inr (d', ch, de, db1)"
    and s: "shortcut_side_effects (get_active_decision_determinations db1 und) fresh_id k p
              (rdd_decision_trigger d') (set_order und) db1 = Inr (ds1, db')"
    and ds: "ds = Some (d' # ds1)"
    by (auto simp: shortcut_apply_def Let_def res_bind_Inr_iff)
  note one = tracked_map [OF ok ff nf m]
  have "rdd_id x \<notin> fresh_id ` set (set_order und)" if "x \<in> set (db_decisions db1)" for x
    using map_decision_ids [OF ok m that] fr by (auto simp: fresh_ids_ok_def list_all_iff)
  then have "tracked ds1 db1 db'"
    using tracked_side_effects [OF s] one so fr by (simp add: tracked_def set_order_ok_def fresh_ids_ok_def)
  with one show ?thesis unfolding ds opt_list_def using tracked_Cons by simp
qed

lemma tracked_shortcut:
  assumes s: "shortcut_deduplication_using_identifiers set_order fresh_id trusted d db = Inr (res, db')"
    and ok: "db_ok db" and ff: "flat_forest db" and nf: "not_in_force d db"
    and so: "set_order_ok set_order" and fr: "fresh_ids_ok fresh_id (rdd_id d) db"
  shows "tracked (opt_list res) db db'"
proof -
  have nf': "not_in_force d' db" if "rdd_id d' = rdd_id d" for d'
    using nf that by (simp add: not_in_force_def)
  from s show ?thesis
  proof (cases rule: shortcut_cases)
    case unchanged
    with ok ff show ?thesis by (simp add: tracked_refl)
  next
    case (fresh d' ch de)
    then show ?thesis using tracked_map [OF ok ff nf' fresh(1)] by (simp add: opt_list_def)
  next
    case (root und)
    show ?thesis by (rule tracked_apply [OF root ok ff nf' so]) (use fr in simp_all)
  next
    case (child k und)
    show ?thesis by (rule tracked_apply [OF child ok ff nf' so]) (use fr in simp_all)
  next
    case (several d' ids)
    have "\<not> rdd_active_decision x" if "x \<in> set (db_decisions db)" "rdd_id x = rdd_id d" for x
      using nf that by (simp add: not_in_force_def list_all_iff)
    then have *: "db_ok db'" "decision_view db' = decision_view db" "db_references db' = db_references db"
      using update_inactive_view [OF ok several(1)] by simp_all
    have "flat_forest db'"
      using ff *(2,3) unfolding flat_forest_iff [OF ok] flat_forest_iff [OF *(1)] is_duplicate_id_iff by (simp only:)
    with * show ?thesis by (simp add: tracked_def)
  qed
qed

section \<open>The index follows the tables\<close>

text \<open>The index may hold duplicates among \<open>X\<close> only.\<close>

definition lagging :: "uuid set \<Rightarrow> 'q system \<Rightarrow> bool" where
  "lagging X s \<longleftrightarrow> db_ok (sys_db s) \<and> flat_forest (sys_db s) \<and> set (stale_ids (sys_db s) (sys_index s)) \<subseteq> X"

lemma lagging_mono: "lagging X s \<Longrightarrow> X \<subseteq> Y \<Longrightarrow> lagging Y s"
  by (auto simp: lagging_def)

lemma lagging_tracked:
  assumes "lagging X s" and "tracked ds (sys_db s) db'"
  shows "lagging (X \<union> active_ids ds) (s \<lparr> sys_db := db' \<rparr>)"
proof -
  have "k \<in> X \<union> active_ids ds" if "k \<in> set (stale_ids db' (sys_index s))" for k
  proof (cases "decision_view db' k = decision_view (sys_db s) k")
    case True
    with that have "k \<in> set (stale_ids (sys_db s) (sys_index s))"
      by (simp add: set_stale_ids is_duplicate_id_iff)
    with assms(1) show ?thesis by (auto simp: lagging_def)
  next
    case False
    with assms(2) show ?thesis by (auto simp: tracked_def)
  qed
  with assms(2) show ?thesis by (auto simp: lagging_def tracked_def)
qed

text \<open>Dispatching automations touches neither the tables nor the index.\<close>

definition only_work :: "'q system \<Rightarrow> 'q system \<Rightarrow> bool" where
  "only_work s s' \<longleftrightarrow> sys_db s' = sys_db s \<and> sys_index s' = sys_index s"

lemma act_for_only_work:
  assumes "\<And>x s. \<exists>res s'. f x s = Some (res, s') \<and> only_work s s'"
  shows "\<exists>res s'. act_for f xs s = Some (res, s') \<and> only_work s s'"
proof (induction xs arbitrary: s)
  case (Cons x xs)
  obtain res s1 where 1: "f x s = Some (res, s1)" "only_work s s1" using assms by blast
  obtain res2 s2 where 2: "act_for f xs s1 = Some (res2, s2)" "only_work s1 s2" using Cons by blast
  from 1 2 show ?case by (cases res) (auto simp: act_bind_def only_work_def)
qed (simp add: act_return_def only_work_def)

lemma dispatch_only_work: "\<exists>res s'. dispatch_automation env source skip a s = Some (res, s') \<and> only_work s s'"
  by (cases a) (auto simp: dispatch_automation_def only_work_def split: sum.splits)

lemma detect_and_dispatch_only_work:
  "\<exists>res s'. detect_and_dispatch_robot_automations env r es source skip s = Some (res, s') \<and> only_work s s'"
  using act_for_only_work [of "dispatch_automation env source skip", OF dispatch_only_work]
  by (cases "detect_robot_automations env r es (sys_db s)")
    (simp_all add: detect_and_dispatch_robot_automations_def act_bind_def reading_def, simp add: only_work_def)

lemma sync_lagging:
  assumes "lagging X s"
  shows "\<exists>res s'. sync_reference env k s = Some (res, s') \<and> sys_db s' = sys_db s \<and> lagging (X - {k}) s'"
proof -
  have ok: "db_ok (sys_db s)" "flat_forest (sys_db s)" using assms by (simp_all add: lagging_def)
  obtain res idx' where run: "sql_to_es (den_index env) (sys_db s) k (sys_index s) = Some (res, idx')"
    using sql_to_es_effect [OF ok] by blast
  with sql_to_es_stale [OF ok run] assms show ?thesis by (auto simp: sync_reference_def lagging_def)
qed

lemma side_effects_lagging:
  assumes "lagging X s"
  shows "\<exists>res s'. apply_reference_duplicate_decision_side_effects env ch d s = Some (res, s') \<and>
           sys_db s' = sys_db s \<and> lagging (X - active_ids [d]) s'"
proof (cases "rdd_active_decision d")
  case True
  obtain res s1 where 1: "sync_reference env (rdd_reference_id d) s = Some (res, s1)" "sys_db s1 = sys_db s"
    "lagging (X - {rdd_reference_id d}) s1" using sync_lagging [OF assms] by blast
  have 2: "\<exists>res s'. act_bind (reading f) (\<lambda>r. detect_and_dispatch_robot_automations env (Some r) None src None) s1 =
      Some (res, s') \<and> only_work s1 s'" for f src
    using detect_and_dispatch_only_work by (cases "f (sys_db s1)") (auto simp: act_bind_def reading_def only_work_def)
  have keep: "only_work s1 s' \<Longrightarrow> sys_db s' = sys_db s \<and> lagging (X - {rdd_reference_id d}) s'" for s'
    using 1 by (auto simp: only_work_def lagging_def)
  show ?thesis
  proof (cases res)
    case (Inl e)
    with True 1 show ?thesis
      by (simp add: apply_reference_duplicate_decision_side_effects_def act_bind_def)
  next
    case (Inr p)
    with True 1 2 keep show ?thesis
      by (cases ch) (fastforce simp: apply_reference_duplicate_decision_side_effects_def act_bind_def [of "sync_reference _ _"]
          act_return_def)+
  qed
next
  case False
  with assms show ?thesis by (simp add: apply_reference_duplicate_decision_side_effects_def act_return_def)
qed

lemma act_for_side_effects_lagging:
  assumes "lagging X s"
  shows "\<exists>res s'. act_for (apply_reference_duplicate_decision_side_effects env ch) ds s = Some (res, s') \<and>
           sys_db s' = sys_db s \<and> (res = Inr () \<longrightarrow> lagging (X - active_ids ds) s')"
  using assms
proof (induction ds arbitrary: s X)
  case Nil
  then show ?case by (simp add: act_return_def)
next
  case (Cons d ds)
  obtain res s1 where 1: "apply_reference_duplicate_decision_side_effects env ch d s = Some (res, s1)"
    "sys_db s1 = sys_db s" "lagging (X - active_ids [d]) s1" using side_effects_lagging [OF Cons.prems] by blast
  obtain res2 s2 where 2: "act_for (apply_reference_duplicate_decision_side_effects env ch) ds s1 = Some (res2, s2)"
    "sys_db s2 = sys_db s1" "res2 = Inr () \<longrightarrow> lagging (X - active_ids [d] - active_ids ds) s2"
    using Cons.IH [OF 1(3)] by blast
  have "X - active_ids [d] - active_ids ds = X - active_ids (d # ds)" by auto
  with 1 2 show ?case by (cases res) (auto simp: act_bind_def)
qed

text \<open>The tables are sound, the forest is flat, and no document of a duplicate is in the index.\<close>

definition in_step :: "'q system \<Rightarrow> bool" where
  "in_step s = (db_ok (sys_db s) \<and> flat_forest (sys_db s) \<and> stale_ids (sys_db s) (sys_index s) = [])"

lemma in_step_lagging: "in_step s \<longleftrightarrow> lagging {} s"
  by (auto simp: in_step_def lagging_def)

lemma in_stepD: "in_step s \<Longrightarrow> db_ok (sys_db s)" "in_step s \<Longrightarrow> flat_forest (sys_db s)"
  by (simp_all add: in_step_def)

lemma side_effects_in_step:
  assumes "in_step s" and "tracked [d] (sys_db s) db'"
  shows "\<exists>res s'. apply_reference_duplicate_decision_side_effects env ch d (s \<lparr> sys_db := db' \<rparr>) = Some (res, s') \<and>
           sys_db s' = db' \<and> in_step s'"
  using side_effects_lagging [OF lagging_tracked [OF assms(1) [unfolded in_step_lagging] assms(2)], of env ch d]
  by (simp add: in_step_lagging)

lemma map_and_apply_in_step:
  assumes "in_step s" and nf: "not_in_force d (sys_db s)"
  shows "\<exists>res s'. map_and_apply env d s = Some (res, s') \<and> (res = Inr () \<longrightarrow> in_step s')"
proof (cases "map_duplicate_decision d False (sys_db s)")
  case (Inl e)
  then show ?thesis by (simp add: map_and_apply_def act_bind_def on_db_def)
next
  case (Inr q)
  obtain new ch de db' where "q = (new, ch, de, db')" by (cases q)
  with Inr have m: "map_duplicate_decision d False (sys_db s) = Inr (new, ch, de, db')" by simp
  from side_effects_in_step [OF assms(1) tracked_map [OF in_stepD [OF assms(1)] nf m], of env ch] m
  show ?thesis by (auto simp: map_and_apply_def act_bind_def on_db_def)
qed

lemma determine_in_step:
  assumes st: "in_step s" and nf: "not_in_force d (sys_db s)"
    and run: "determine_canonical_from_candidates t d sel (sys_db s) = Inr (d', db')"
  shows "in_step (s \<lparr> sys_db := db' \<rparr>) \<and> not_in_force d' db'"
proof (cases "terminal_determination (rdd_duplicate_determination d)")
  case True
  with run st nf show ?thesis by (auto simp: determine_canonical_from_candidates_def in_step_def)
next
  case False
  note ok = in_stepD [OF st]
  from run False obtain r :: determination_result where
    u: "decisions_update_by_pk (\<lambda>d. d \<lparr> rdd_detail := ddr_detail r,
          rdd_duplicate_determination := ddr_duplicate_determination r,
          rdd_canonical_reference_id := ddr_canonical_reference_id r \<rparr>) (rdd_id d) (sys_db s) = Inr (d', db')"
    by (auto simp: determine_canonical_from_candidates_def res_bind_Inr_iff)
  have inact: "\<not> rdd_active_decision x" if "x \<in> set (db_decisions (sys_db s))" "rdd_id x = rdd_id d" for x
    using nf that by (simp add: not_in_force_def list_all_iff)
  note v = update_inactive_view [OF ok(1) u inact, simplified]
  have "flat_forest db'"
    using ok(2) v(2,3) unfolding flat_forest_iff [OF ok(1)] flat_forest_iff [OF v(1)] is_duplicate_id_iff by (simp only:)
  moreover have "stale_ids db' (sys_index s) = stale_ids (sys_db s) (sys_index s)"
    using v(2) by (simp add: stale_ids_def is_duplicate_id_iff cong: filter_cong)
  moreover have "not_in_force d' db'"
  proof -
    from u obtain q where q: "find (\<lambda>x. rdd_id x = rdd_id d) (db_decisions (sys_db s)) = Some q"
      "d' = q \<lparr> rdd_detail := ddr_detail r, rdd_duplicate_determination := ddr_duplicate_determination r,
              rdd_canonical_reference_id := ddr_canonical_reference_id r \<rparr>"
      "db_decisions db' = replace_row rdd_id d' (db_decisions (sys_db s))"
      by (auto simp: decisions_update_by_pk_Inr_iff)
    have q': "rdd_id q = rdd_id d" "\<not> rdd_active_decision q" using find_Some_set [OF q(1)] inact by blast+
    show ?thesis unfolding not_in_force_def list_all_iff q(3)
      using q' q(2) inact by (auto simp: set_replace_row split: if_splits)
  qed
  ultimately show ?thesis using st v(1) by (simp add: in_step_def)
qed

lemma search_route_in_step:
  assumes st: "in_step s" and nf: "not_in_force d (sys_db s)"
  shows "\<exists>res s'. search_route env d s = Some (res, s') \<and>
           (\<forall>d'. res = Inr d' \<longrightarrow> in_step s' \<and> not_in_force d' (sys_db s'))"
proof (cases "dst_enable_canonical_candidate_search (den_settings env)")
  case True
  let ?sel = "select_candidate_canonicals (den_pydantic env) (ese_projector (den_index env)) (den_search env)
     (den_scoring env) (rdd_reference_id d) (sys_db s)"
  show ?thesis
  proof (cases ?sel)
    case (Inl e)
    with True show ?thesis by (simp add: search_route_def act_bind_def reading_def)
  next
    case (Inr sel)
    then show ?thesis
      using True determine_in_step [OF st nf, of "dst_env_is_test (den_settings env)" sel]
      by (cases "determine_canonical_from_candidates (dst_env_is_test (den_settings env)) d sel (sys_db s)")
        (auto simp: search_route_def act_bind_def reading_def on_db_def)
  qed
next
  case False
  with st nf show ?thesis by (simp add: search_route_def act_return_def not_in_force_def)
qed

lemma unit_of_work_outcome:
  assumes "\<exists>res s'. m s = Some (res, s') \<and> (\<forall>x. res = Inr x \<longrightarrow> P s')"
  shows "\<exists>res s'. unit_of_work m s = Some (res, s') \<and>
           (case res of Inr _ \<Rightarrow> P s' | Inl _ \<Rightarrow> sys_db s' = sys_db s \<and> sys_work s' = sys_work s)"
proof -
  obtain res s' where "m s = Some (res, s')" "\<forall>x. res = Inr x \<longrightarrow> P s'" using assms by blast
  then show ?thesis by (cases res) (simp_all add: unit_of_work_def)
qed

lemma process_in_step:
  assumes st: "in_step s" and nf: "not_in_force d (sys_db s)"
    and so: "set_order_ok (den_set_order env)" and fr: "fresh_ids_ok (den_decision_id env) (rdd_id d) (sys_db s)"
  shows "\<exists>res s'. act_bind (shortcut_route env d) (\<lambda>shortcutted.
       if opt_list shortcutted \<noteq> []
       then act_for (apply_reference_duplicate_decision_side_effects env True) (opt_list shortcutted)
       else act_bind (search_route env d) (map_and_apply env)) s = Some (res, s') \<and> (\<forall>x. res = Inr x \<longrightarrow> in_step s')"
proof -
  let ?tr = "dst_trusted_unique_identifier_types (den_settings env)"
  have searched: "\<exists>res s'. act_bind (search_route env d) (map_and_apply env) s1 = Some (res, s') \<and> (\<forall>x. res = Inr x \<longrightarrow> in_step s')"
    if s1: "in_step s1" "not_in_force d (sys_db s1)" for s1
  proof -
    obtain res s2 where r: "search_route env d s1 = Some (res, s2)"
      "\<forall>d'. res = Inr d' \<longrightarrow> in_step s2 \<and> not_in_force d' (sys_db s2)" using search_route_in_step [OF s1] by blast
    show ?thesis
    proof (cases res)
      case (Inl e)
      with r show ?thesis by (simp add: act_bind_def)
    next
      case (Inr d')
      with r map_and_apply_in_step [of s2 d' env] show ?thesis by (fastforce simp: act_bind_def)
    qed
  qed
  show ?thesis
  proof (cases "?tr = []")
    case True
    with searched [OF st nf] show ?thesis by (simp add: shortcut_route_def act_bind_def act_return_def opt_list_def)
  next
    case False
    show ?thesis
    proof (cases "shortcut_deduplication_using_identifiers (den_set_order env) (den_decision_id env) ?tr d (sys_db s)")
      case (Inl e)
      with False show ?thesis by (simp add: shortcut_route_def act_bind_def on_db_def)
    next
      case (Inr q)
      obtain ds db' where q: "q = (ds, db')" by (cases q)
      note run = Inr [unfolded q]
      have tr: "tracked (opt_list ds) (sys_db s) db'"
        by (rule tracked_shortcut [OF run in_stepD [OF st] nf so fr])
      show ?thesis
      proof (cases "opt_list ds = []")
        case True
        have "ds = None \<and> db' = sys_db s" using run True by (cases rule: shortcut_cases)
            (auto simp: opt_list_def shortcut_apply_def Let_def res_bind_Inr_iff)
        with False run True searched [OF st nf] show ?thesis
          by (simp add: shortcut_route_def act_bind_def [of "on_db _"] on_db_def Let_def)
      next
        case ne: False
        have "lagging (active_ids (opt_list ds)) (s \<lparr> sys_db := db' \<rparr>)"
          using lagging_tracked [OF st [unfolded in_step_lagging] tr] by simp
        from act_for_side_effects_lagging [OF this, of env True "opt_list ds"] obtain res s' where
          "act_for (apply_reference_duplicate_decision_side_effects env True) (opt_list ds) (s \<lparr> sys_db := db' \<rparr>) = Some (res, s')"
          "res = Inr () \<longrightarrow> in_step s'" by (auto simp: in_step_lagging)
        with False run ne show ?thesis by (auto simp: shortcut_route_def act_bind_def on_db_def Let_def)
      qed
    qed
  qed
qed

section \<open>Decisions made by hand\<close>

lemma side_effects_keep_step:
  assumes "in_step s"
  shows "\<exists>res s'. apply_reference_duplicate_decision_side_effects env ch d s = Some (res, s') \<and>
           sys_db s' = sys_db s \<and> in_step s'"
  using side_effects_lagging [OF assms [unfolded in_step_lagging], of env ch d] by (simp add: in_step_lagging)

lemma refresh_in_step:
  assumes "in_step s"
  shows "\<exists>res s'. refresh_old_canonical env c s = Some (res, s') \<and> sys_db s' = sys_db s \<and> in_step s'"
proof (cases "references_get_by_pk (sys_db s) c [PL_duplicate_decision]")
  case (Inl e)
  with assms show ?thesis by (simp add: refresh_old_canonical_def act_bind_def reading_def)
next
  case (Inr old)
  with assms side_effects_keep_step [OF assms] show ?thesis
    by (cases "ref_duplicate_decision old") (simp_all add: refresh_old_canonical_def act_bind_def reading_def act_return_def)
qed

definition decision_ids :: "db \<Rightarrow> uuid set" where
  "decision_ids db = rdd_id ` set (db_decisions db)"

lemma make_one_in_step:
  assumes st: "in_step s" and fresh: "rdd_id d \<notin> decision_ids (sys_db s)"
  shows "\<exists>res s'. make_duplicate_decision env d s = Some (res, s') \<and>
           (\<forall>x. res = Inr x \<longrightarrow> in_step s' \<and> decision_ids (sys_db s') \<subseteq> insert (rdd_id d) (decision_ids (sys_db s)))"
proof (cases "map_duplicate_decision d True (sys_db s)")
  case (Inl e)
  then show ?thesis by (simp add: make_duplicate_decision_def act_bind_def on_db_def)
next
  case (Inr q)
  obtain new ch old db' where "q = (new, ch, old, db')" by (cases q)
  with Inr have m: "map_duplicate_decision d True (sys_db s) = Inr (new, ch, old, db')" by simp
  have nf: "not_in_force d (sys_db s)" using fresh unfolding not_in_force_def list_all_iff decision_ids_def image_iff by metis
  have ids: "decision_ids db' \<subseteq> insert (rdd_id d) (decision_ids (sys_db s))"
  proof
    fix i
    assume "i \<in> decision_ids db'"
    then obtain x where x: "x \<in> set (db_decisions db')" "rdd_id x = i" by (auto simp: decision_ids_def)
    from map_decision_ids [OF in_stepD(1) [OF st] m x(1)]
    show "i \<in> insert (rdd_id d) (decision_ids (sys_db s))"
    proof
      assume "rdd_id x = rdd_id d"
      with x(2) show ?thesis by simp
    next
      assume "\<exists>y \<in> set (db_decisions (sys_db s)). rdd_id y = rdd_id x"
      then obtain y where "y \<in> set (db_decisions (sys_db s))" "i = rdd_id y" using x(2) by metis
      then show ?thesis unfolding decision_ids_def by (intro insertI2 image_eqI)
    qed
  qed
  obtain res1 s1 where 1: "apply_reference_duplicate_decision_side_effects env ch new (s \<lparr> sys_db := db' \<rparr>) = Some (res1, s1)"
    "sys_db s1 = db'" "in_step s1"
    using side_effects_in_step [OF st tracked_map [OF in_stepD [OF st] nf m]] by blast
  let ?again = "case moved_from new old of None \<Rightarrow> act_return () | Some c \<Rightarrow> refresh_old_canonical env c"
  have "\<exists>res2 s2. ?again s1 = Some (res2, s2) \<and> sys_db s2 = sys_db s1 \<and> in_step s2"
    using refresh_in_step [OF 1(3)] 1(3) by (cases "moved_from new old") (simp_all add: act_return_def)
  then obtain res2 s2 where 2: "?again s1 = Some (res2, s2)" "sys_db s2 = db'" "in_step s2" using 1(2) by blast
  have run: "make_duplicate_decision env d s =
      act_bind (apply_reference_duplicate_decision_side_effects env ch new) (\<lambda>_. act_bind ?again (\<lambda>_. act_return new))
        (s \<lparr> sys_db := db' \<rparr>)"
    using m by (simp add: make_duplicate_decision_def act_bind_def [of "on_db _"] on_db_def)
  show ?thesis
  proof (cases res1)
    case (Inl e)
    with 1(1) run show ?thesis by (simp add: act_bind_def)
  next
    case (Inr u)
    with 1(1) 2 ids run show ?thesis by (cases res2) (simp_all add: act_bind_def act_return_def)
  qed
qed

lemma disjoint_insert_sub: "a \<notin> A \<Longrightarrow> A \<inter> B = {} \<Longrightarrow> C \<subseteq> insert a B \<Longrightarrow> A \<inter> C = {}"
  by blast

lemma make_all_in_step:
  assumes "in_step s" and "distinct (map rdd_id ds)" and "rdd_id ` set ds \<inter> decision_ids (sys_db s) = {}"
  shows "\<exists>res s'. make_all_decisions env ds s = Some (res, s') \<and> (\<forall>x. res = Inr x \<longrightarrow> in_step s')"
  using assms
proof (induction ds arbitrary: s)
  case Nil
  then show ?case by (simp add: act_return_def)
next
  case (Cons d ds)
  have fresh: "rdd_id d \<notin> decision_ids (sys_db s)" using Cons.prems(3) by auto
  obtain res1 s1 where 1: "make_duplicate_decision env d s = Some (res1, s1)"
    "\<forall>x. res1 = Inr x \<longrightarrow> in_step s1 \<and> decision_ids (sys_db s1) \<subseteq> insert (rdd_id d) (decision_ids (sys_db s))"
    using make_one_in_step [OF Cons.prems(1) fresh] by blast
  show ?case
  proof (cases res1)
    case (Inl e)
    with 1 show ?thesis by (simp add: act_bind_def)
  next
    case (Inr r)
    with 1(2) have s1: "in_step s1" "decision_ids (sys_db s1) \<subseteq> insert (rdd_id d) (decision_ids (sys_db s))" by simp_all
    have "rdd_id ` set ds \<inter> decision_ids (sys_db s1) = {}"
    proof -
      have "rdd_id d \<notin> rdd_id ` set ds" using Cons.prems(2) by simp
      moreover have "rdd_id ` set ds \<inter> decision_ids (sys_db s) = {}" using Cons.prems(3) unfolding list.set image_insert by blast
      ultimately show ?thesis by (rule disjoint_insert_sub [OF _ _ s1(2)])
    qed
    with Cons.IH [OF s1(1)] Cons.prems(2) obtain res2 s2 where
      2: "make_all_decisions env ds s1 = Some (res2, s2)" "\<forall>x. res2 = Inr x \<longrightarrow> in_step s2" by auto
    with 1(1) Inr show ?thesis by (cases res2) (simp_all add: act_bind_def act_return_def)
  qed
qed

section \<open>Properties\<close>

lemma run_returns:
  "(case r of Some (Inr x, s') \<Rightarrow> P x s' | _ \<Rightarrow> False) \<Longrightarrow> \<exists>x s'. r = Some (Inr x, s') \<and> P x s'"
  by (cases r; cases "fst (the r)") (auto split: prod.splits)

lemma run_raises:
  "(case r of Some (Inl e, s') \<Rightarrow> P s' | _ \<Rightarrow> False) \<Longrightarrow> \<exists>e s'. r = Some (Inl e, s') \<and> P s'"
  by (cases r; cases "fst (the r)") (auto split: prod.splits)

definition sample_dedup_env :: dedup_env where
  "sample_dedup_env =
     \<lparr> den_settings = \<lparr> dst_trusted_unique_identifier_types = [ID_OPEN_ALEX],
         dst_enable_canonical_candidate_search = False, dst_env_is_test = False,
         dst_enable_percolation = True, dst_percolation_chunk_size = 10 \<rparr>,
       den_index = sample_env, den_pydantic = decimal_pydantic, den_search = sample_es, den_scoring = sample_cfg,
       den_percolate = (\<lambda>_. []), den_set_order = dict_fromkeys, den_decision_id = (\<lambda>c. 1000 + c),
       den_pending_id = (\<lambda>n. n), den_now = 0 \<rparr>"

definition sample_system :: "db \<Rightarrow> unit system" where
  "sample_system db =
     \<lparr> sys_db = db, sys_index = [],
       sys_work = \<lparr> w_references = [1, 2, 3, 4], w_robots = [], w_requests = [], w_batches = [], w_pending = [] \<rparr>,
       sys_drawn = 0 \<rparr>"

lemma works_in_step: "in_step (sample_system works_db)"
  using star_forest_flat [OF works_db_ok(1,2)] works_db_ok(1)
  by (simp add: in_step_def sample_system_def stale_ids_def)

lemma sample_in_step: "in_step (sample_system sample_db)"
  using sample_db_flat sample_db_ok by (simp add: in_step_def sample_system_def stale_ids_def)

text \<open>
  C29 (invariant). Processing a pending decision, through whichever route and with whatever the
  candidate search and the percolation answer, always returns. When it succeeds, the tables keep
  their constraints, no duplicate points at a duplicate, and the search index holds no document of
  a duplicate, the references that the shortcut decided on the side included. When it raises, the
  tables and the queue are as they were.
\<close>

theorem process_keeps_index_in_step:
  assumes "in_step s" and "not_in_force d (sys_db s)"
    and "set_order_ok (den_set_order env)" and "fresh_ids_ok (den_decision_id env) (rdd_id d) (sys_db s)"
  shows "\<exists>res s'. process_reference_duplicate_decision env d s = Some (res, s') \<and>
           (case res of Inr _ \<Rightarrow> in_step s' | Inl _ \<Rightarrow> sys_db s' = sys_db s \<and> sys_work s' = sys_work s)"
  unfolding process_reference_duplicate_decision_def
  by (rule unit_of_work_outcome) (rule process_in_step [OF assms])

theorem process_keeps_index_in_step_witness:
  "\<exists>s'. process_reference_duplicate_decision sample_dedup_env works_pending (sample_system works_db) = Some (Inr (), s') \<and>
     in_step s' \<and> is_duplicate_id (sys_db s') 3"
proof -
  let ?run = "process_reference_duplicate_decision sample_dedup_env works_pending (sample_system works_db)"
  have "case ?run of Some (Inr x, s') \<Rightarrow> is_duplicate_id (sys_db s') 3 | _ \<Rightarrow> False" by code_simp
  then obtain s' where run: "?run = Some (Inr (), s')" "is_duplicate_id (sys_db s') 3"
    using run_returns by fastforce
  have "\<exists>res s'. ?run = Some (res, s') \<and>
      (case res of Inr _ \<Rightarrow> in_step s' | Inl _ \<Rightarrow> sys_db s' = sys_db (sample_system works_db) \<and>
         sys_work s' = sys_work (sample_system works_db))"
    using works_in_step works_db_ok(3) set_order_dict_fromkeys works_fresh
    by (intro process_keeps_index_in_step) (simp_all add: sample_system_def sample_dedup_env_def)
  with run show ?thesis by auto
qed

text \<open>
  C30 (invariant). Decisions made by hand, applied in the order given and allowed to override those
  in force, always return; on success the tables are sound, no duplicate points at a duplicate and
  the index holds no document of a duplicate. On an exception, the tables and the queue are as they
  were.
\<close>

theorem make_decisions_keep_index_in_step:
  assumes "in_step s" and "distinct (map rdd_id ds)" and "rdd_id ` set ds \<inter> decision_ids (sys_db s) = {}"
  shows "\<exists>res s'. make_duplicate_decisions env ds s = Some (res, s') \<and>
           (case res of Inr _ \<Rightarrow> in_step s' | Inl _ \<Rightarrow> sys_db s' = sys_db s \<and> sys_work s' = sys_work s)"
  unfolding make_duplicate_decisions_def
  by (rule unit_of_work_outcome) (rule make_all_in_step [OF assms])

theorem make_decisions_keep_index_in_step_witness:
  "\<exists>rs s'. make_duplicate_decisions sample_dedup_env
       [sample_decision 21 3 DA_PERSON DD_CANONICAL None False, sample_decision 22 2 DA_PERSON DD_DUPLICATE (Some 3) False]
       (sample_system sample_db) = Some (Inr rs, s') \<and> in_step s' \<and> is_duplicate_id (sys_db s') 2"
proof -
  let ?ds = "[sample_decision 21 3 DA_PERSON DD_CANONICAL None False, sample_decision 22 2 DA_PERSON DD_DUPLICATE (Some 3) False]"
  let ?run = "make_duplicate_decisions sample_dedup_env ?ds (sample_system sample_db)"
  have "case ?run of Some (Inr x, s') \<Rightarrow> is_duplicate_id (sys_db s') 2 | _ \<Rightarrow> False" by code_simp
  then obtain rs s' where run: "?run = Some (Inr rs, s')" "is_duplicate_id (sys_db s') 2"
    using run_returns by fastforce
  have "\<exists>res s'. ?run = Some (res, s') \<and>
      (case res of Inr _ \<Rightarrow> in_step s' | Inl _ \<Rightarrow> sys_db s' = sys_db (sample_system sample_db) \<and>
         sys_work s' = sys_work (sample_system sample_db))"
    by (intro make_decisions_keep_index_in_step sample_in_step)
      (simp_all add: sample_system_def sample_db_def decision_ids_def sample_decision_def)
  with run show ?thesis by auto
qed

text \<open>
  The search index does not follow a rollback: when the second of two decisions made
  by hand raises, the tables are restored and the first reference is a duplicate again, but the
  document that the first decision wrote for it stays in the index.
\<close>

lemma rollback_leaves_stale_document:
  "\<exists>e s'. make_duplicate_decisions sample_dedup_env
       [sample_decision 21 3 DA_PERSON DD_CANONICAL None False, sample_decision 22 2 DA_PERSON DD_DUPLICATE (Some 99) False]
       (sample_system sample_db) = Some (Inl e, s') \<and>
     sys_db s' = sample_db \<and> stale_ids (sys_db s') (sys_index s') = [3]"
proof -
  let ?run = "make_duplicate_decisions sample_dedup_env
       [sample_decision 21 3 DA_PERSON DD_CANONICAL None False, sample_decision 22 2 DA_PERSON DD_DUPLICATE (Some 99) False]
       (sample_system sample_db)"
  have "case ?run of Some (Inl e, s') \<Rightarrow> sys_db s' = sample_db \<and> stale_ids (sys_db s') (sys_index s') = [3] | _ \<Rightarrow> False"
    by code_simp
  from run_raises [OF this] show ?thesis .
qed

end
