(* ===== verification/Full_Texts.thy ===== *)
theory Full_Texts
  imports Enhancements
begin

text \<open>
  Copying remote full texts into the repository's own blob storage:
  \<^verbatim>\<open>EnhancementService.store_full_text\<close> and \<^verbatim>\<open>BlobRepository.copy\<close>.

  The clients of the storage services are parameters: the bytes a source yields in chunks, ending
  with an exception or not, what an upload does with the chunks it is given, the SHA-256 digest,
  and the file extension of a MIME type.
\<close>

section \<open>Copying a blob\<close>

record blob_client =
  bc_location :: blob_storage_location
  bc_full_texts_container :: string
  bc_stream_chunks :: "blob_storage_file \<Rightarrow> string list \<times> app_error option"
  bc_upload :: "blob_storage_file \<Rightarrow> string list \<Rightarrow> unit result"
  bc_sha256 :: "string \<Rightarrow> string"
  bc_guess_extension :: "string \<Rightarrow> string option"

record blob_copy_result =
  bcr_source :: blob_storage_file
  bcr_destination :: blob_storage_file
  bcr_byte_size :: int
  bcr_sha256_checksum :: string

text \<open>The generator \<open>hashed_chunks\<close>, run to its end: the chunks it yields, or what it raises.\<close>

fun hashed_chunks :: "nat option \<Rightarrow> nat \<Rightarrow> string list \<Rightarrow> app_error option \<Rightarrow> string list result" where
  "hashed_chunks max_bytes n [] failure = (case failure of None \<Rightarrow> Inr [] | Some e \<Rightarrow> Inl e)"
| "hashed_chunks max_bytes n (chunk # parts) failure =
     (let n' = n + length chunk
      in if (case max_bytes of None \<Rightarrow> False | Some m \<Rightarrow> m < n') then Inl BlobSizeExceededError
         else res_bind (hashed_chunks max_bytes n' parts failure) (\<lambda>rest. Inr (chunk # rest)))"

definition blob_copy ::
    "blob_client \<Rightarrow> blob_storage_file \<Rightarrow> blob_storage_file \<Rightarrow> nat option \<Rightarrow> blob_copy_result result" where
  "blob_copy bc src destination max_bytes =
     (if bsf_location destination \<noteq> bc_location bc then Inl BlobStorageError
      else (case bc_stream_chunks bc src of (parts, failure) \<Rightarrow>
        res_bind (hashed_chunks max_bytes 0 parts failure) (\<lambda>sent.
        res_bind (bc_upload bc destination sent) (\<lambda>_.
          Inr \<lparr> bcr_source = src, bcr_destination = destination,
                bcr_byte_size = int (length (concat sent)), bcr_sha256_checksum = bc_sha256 bc (concat sent) \<rparr>))))"

section \<open>Storing a full text\<close>

definition full_text_destination :: "blob_client \<Rightarrow> enhancement \<Rightarrow> string \<Rightarrow> blob_storage_file result" where
  "full_text_destination bc e mime_type =
     (let extension = (case bc_guess_extension bc mime_type of Some (c # cs) \<Rightarrow> c # cs | _ \<Rightarrow> ''.bin'');
          f = \<lparr> bsf_location = bc_location bc, bsf_container = bc_full_texts_container bc,
                bsf_path = str_uuid (enh_id e), bsf_filename = str_uuid (enh_reference_id e) @ extension \<rparr>
      in if blob_file_valid f then Inr f else Inl ValidationError)"

fun as_full_text_error :: "'a result \<Rightarrow> 'a result" where
  "as_full_text_error (Inl BlobSizeExceededError) = Inl FullTextSizeExceededError"
| "as_full_text_error (Inl RemoteBlobStorageError) = Inl FullTextDownloadError"
| "as_full_text_error r = r"

definition agrees :: "'a option \<Rightarrow> 'a \<Rightarrow> bool" where
  "agrees declared computed = (case declared of None \<Rightarrow> True | Some d \<Rightarrow> d = computed)"

definition store_full_text :: "blob_client \<Rightarrow> nat \<Rightarrow> enhancement \<Rightarrow> enhancement result" where
  "store_full_text bc full_text_max_byte_size e =
     (case enh_content e of
        FullTextEnhancement content \<Rightarrow>
          if \<not> is_remote (ft_blob content) then Inl FullTextIngestionError
          else res_bind (full_text_destination bc e (ft_mime_type content)) (\<lambda>destination.
               res_bind (as_full_text_error (blob_copy bc (ft_blob content) destination (Some full_text_max_byte_size)))
                 (\<lambda>r.
                  if \<not> agrees (ft_sha256_checksum content) (bcr_sha256_checksum r) then Inl FullTextIntegrityError
                  else if \<not> agrees (ft_byte_size content) (bcr_byte_size r) then Inl FullTextIntegrityError
                  else Inr (e \<lparr> enh_content := FullTextEnhancement
                         (content \<lparr> ft_blob := bcr_destination r,
                                    ft_sha256_checksum := Some (bcr_sha256_checksum r),
                                    ft_byte_size := Some (bcr_byte_size r) \<rparr>) \<rparr>)))
      | _ \<Rightarrow> Inl PyValueError)"

text \<open>The exceptions that derive from \<^verbatim>\<open>FullTextIngestionError\<close>.\<close>

definition is_full_text_error :: "app_error \<Rightarrow> bool" where
  "is_full_text_error e =
     (e \<in> {FullTextIngestionError, FullTextDownloadError, FullTextIntegrityError, FullTextSizeExceededError,
           UnstoredFullTextError})"

section \<open>Lemmas\<close>

lemma hashed_chunks_Inr:
  "hashed_chunks max_bytes n parts failure = Inr sent \<Longrightarrow>
     sent = parts \<and> failure = None \<and>
     (\<forall>m. max_bytes = Some m \<longrightarrow> parts \<noteq> [] \<longrightarrow> n + length (concat parts) \<le> m)"
proof (induction parts arbitrary: n sent)
  case Nil
  then show ?case by (auto split: option.splits)
next
  case (Cons c cs)
  then obtain rest where r: "hashed_chunks max_bytes (n + length c) cs failure = Inr rest" "sent = c # rest"
    and m: "\<And>m. max_bytes = Some m \<Longrightarrow> n + length c \<le> m"
    by (auto simp: Let_def result_simps split: if_splits option.splits)
  from Cons.IH [OF r(1)] r(2) m show ?case by (cases "cs = []") (auto simp: add.assoc)
qed

lemma as_full_text_error_Inr [simp]: "as_full_text_error r = Inr x \<longleftrightarrow> r = Inr x"
  by (cases r rule: as_full_text_error.cases) simp_all

lemma store_full_text_Inr:
  assumes "store_full_text bc limit e = Inr e'"
  obtains content parts destination where
    "enh_content e = FullTextEnhancement content"
    and "is_remote (ft_blob content)"
    and "bc_stream_chunks bc (ft_blob content) = (parts, None)"
    and "bc_upload bc destination parts = Inr ()"
    and "full_text_destination bc e (ft_mime_type content) = Inr destination"
    and "length (concat parts) \<le> limit"
    and "agrees (ft_sha256_checksum content) (bc_sha256 bc (concat parts))"
    and "agrees (ft_byte_size content) (int (length (concat parts)))"
    and "e' = e \<lparr> enh_content := FullTextEnhancement
               (content \<lparr> ft_blob := destination, ft_sha256_checksum := Some (bc_sha256 bc (concat parts)),
                          ft_byte_size := Some (int (length (concat parts))) \<rparr>) \<rparr>"
proof -
  from assms obtain content destination r where c: "enh_content e = FullTextEnhancement content"
    and rem: "is_remote (ft_blob content)"
    and d: "full_text_destination bc e (ft_mime_type content) = Inr destination"
    and copy: "blob_copy bc (ft_blob content) destination (Some limit) = Inr r"
    and ok: "agrees (ft_sha256_checksum content) (bcr_sha256_checksum r)" "agrees (ft_byte_size content) (bcr_byte_size r)"
    and e': "e' = e \<lparr> enh_content := FullTextEnhancement
               (content \<lparr> ft_blob := bcr_destination r, ft_sha256_checksum := Some (bcr_sha256_checksum r),
                          ft_byte_size := Some (bcr_byte_size r) \<rparr>) \<rparr>"
    by (auto simp: store_full_text_def result_simps split: enhancement_content.splits if_splits)
  from copy obtain parts failure sent where s: "bc_stream_chunks bc (ft_blob content) = (parts, failure)"
    and h: "hashed_chunks (Some limit) 0 parts failure = Inr sent" and u: "bc_upload bc destination sent = Inr ()"
    and r: "bcr_destination r = destination" "bcr_byte_size r = int (length (concat sent))"
      "bcr_sha256_checksum r = bc_sha256 bc (concat sent)"
    by (auto simp: blob_copy_def result_simps split: if_splits prod.splits)
  from hashed_chunks_Inr [OF h] have "sent = parts" "failure = None" "length (concat parts) \<le> limit"
    by (cases "parts = []"; simp)+
  with that c rem d s u ok r e' show thesis by simp
qed

lemma full_text_destination_owned:
  "full_text_destination bc e mime = Inr f \<Longrightarrow> bsf_location f = bc_location bc \<and> blob_file_valid f"
  by (auto simp: full_text_destination_def Let_def split: if_splits)

section \<open>Properties\<close>

text \<open>
  C31 (bounds). A full text that was stored describes the bytes that were stored: its size is their
  number and lies within the configured maximum, its checksum is their digest, both agree with
  what was declared, and its location is the repository's own storage. Nothing else of the
  enhancement changes.
\<close>

theorem stored_full_text_is_true:
  assumes "store_full_text bc limit e = Inr e'"
  shows "\<exists>content content' bytes. enh_content e = FullTextEnhancement content \<and> is_remote (ft_blob content) \<and>
           e' = e \<lparr> enh_content := FullTextEnhancement content' \<rparr> \<and>
           concat (fst (bc_stream_chunks bc (ft_blob content))) = bytes \<and>
           bc_upload bc (ft_blob content') (fst (bc_stream_chunks bc (ft_blob content))) = Inr () \<and>
           length bytes \<le> limit \<and>
           ft_byte_size content' = Some (int (length bytes)) \<and> agrees (ft_byte_size content) (int (length bytes)) \<and>
           ft_sha256_checksum content' = Some (bc_sha256 bc bytes) \<and>
           agrees (ft_sha256_checksum content) (bc_sha256 bc bytes) \<and>
           bsf_location (ft_blob content') = bc_location bc \<and>
           content' \<lparr> ft_blob := ft_blob content, ft_byte_size := ft_byte_size content,
                      ft_sha256_checksum := ft_sha256_checksum content \<rparr> = content"
proof -
  obtain content parts destination where s:
    "enh_content e = FullTextEnhancement content" "is_remote (ft_blob content)"
    "bc_stream_chunks bc (ft_blob content) = (parts, None)" "bc_upload bc destination parts = Inr ()"
    "full_text_destination bc e (ft_mime_type content) = Inr destination" "length (concat parts) \<le> limit"
    "agrees (ft_sha256_checksum content) (bc_sha256 bc (concat parts))"
    "agrees (ft_byte_size content) (int (length (concat parts)))"
    "e' = e \<lparr> enh_content := FullTextEnhancement
       (content \<lparr> ft_blob := destination, ft_sha256_checksum := Some (bc_sha256 bc (concat parts)),
                  ft_byte_size := Some (int (length (concat parts))) \<rparr>) \<rparr>"
    using store_full_text_Inr [OF assms] by blast
  let ?content' = "content \<lparr> ft_blob := destination, ft_sha256_checksum := Some (bc_sha256 bc (concat parts)),
                  ft_byte_size := Some (int (length (concat parts))) \<rparr>"
  show ?thesis
    by (rule exI [of _ content], rule exI [of _ ?content'], rule exI [of _ "concat parts"])
      (use s full_text_destination_owned [OF s(5)] in simp)
qed

definition sample_blob_client :: blob_client where
  "sample_blob_client =
     \<lparr> bc_location = BL_AZURE, bc_full_texts_container = ''texts'', bc_stream_chunks = (\<lambda>_. ([''ab'', ''c''], None)),
       bc_upload = (\<lambda>_ _. Inr ()), bc_sha256 = (\<lambda>s. rev s), bc_guess_extension = (\<lambda>_. Some ''.pdf'') \<rparr>"

definition sample_full_text :: enhancement where
  "sample_full_text =
     \<lparr> enh_id = 1, enh_created_at = None, enh_updated_at = None, enh_source = ''s'', enh_visibility = VIS_PUBLIC,
       enh_robot_version = None, enh_derived_from = None, enh_supersedes = None, enh_root_id = Some 1,
       enh_content = FullTextEnhancement
         \<lparr> ft_blob = \<lparr> bsf_location = BL_HTTPS, bsf_container = ''example.org'', bsf_path = ''a'', bsf_filename = ''b.pdf'' \<rparr>,
           ft_byte_size = Some 3, ft_sha256_checksum = None, ft_mime_type = ''application/pdf'', ft_version = None,
           ft_is_oa = None, ft_license = None, ft_source = None, ft_source_url = None, ft_retrieved_at = None \<rparr>,
       enh_reference_id = 2 \<rparr>"

theorem stored_full_text_is_true_witness:
  "\<exists>e' content'. store_full_text sample_blob_client 3 sample_full_text = Inr e' \<and>
     e' = sample_full_text \<lparr> enh_content := FullTextEnhancement content' \<rparr> \<and>
     bsf_location (ft_blob content') = BL_AZURE"
proof -
  have "case store_full_text sample_blob_client 3 sample_full_text of Inr _ \<Rightarrow> True | Inl _ \<Rightarrow> False" by code_simp
  then obtain e' where e': "store_full_text sample_blob_client 3 sample_full_text = Inr e'" by (auto split: sum.splits)
  have "bc_location sample_blob_client = BL_AZURE" by (simp add: sample_blob_client_def)
  with stored_full_text_is_true [OF e'] e' show ?thesis by metis
qed

end
