(* ===== verification/Reference_Ingestion.thy ===== *)
theory Reference_Ingestion
  imports Duplicate_Processing Full_Texts
begin

text \<open>
  Writing references: \<^verbatim>\<open>ReferenceSQLRepository.merge\<close> on the aggregate of a reference with its
  identifiers and enhancements, \<^verbatim>\<open>_add_enhancement\<close>, \<^verbatim>\<open>add_identifier\<close>, and the ingestion of a reference
  from a line of a file, \<^verbatim>\<open>ingest_reference\<close> (\<^verbatim>\<open>src/app/domain/references/service.py\<close>), with the parsing
  of \<^verbatim>\<open>models/validators.py\<close> and the conversions of \<^verbatim>\<open>services/anti_corruption_service.py\<close>.

  JSON parsing and the pydantic models are the parameter \<open>file_parser\<close>: what they make of a value, or
  the text of their error. Generated identifiers and the clock come from \<open>ingest_env\<close>.
\<close>

section \<open>Merging the aggregate\<close>

text \<open>
  A row that exists keeps its timestamps unless a column changes. The relationships cascade with
  \<^verbatim>\<open>delete-orphan\<close>: rows of the reference that the merged aggregate does not list are deleted.
\<close>

definition merged_enhancement :: "datetime \<Rightarrow> enhancement list \<Rightarrow> enhancement \<Rightarrow> enhancement result" where
  "merged_enhancement now rows e =
     res_bind (enhancement_from_domain now e) (\<lambda>row.
       case find (\<lambda>x. enh_id x = enh_id e) rows of
         None \<Rightarrow> Inr row
       | Some old \<Rightarrow>
           (let kept = row \<lparr> enh_created_at := enh_created_at old, enh_updated_at := enh_updated_at old \<rparr>
            in Inr (if kept = old then old else kept \<lparr> enh_updated_at := Some now \<rparr>)))"

definition merge_children :: "('a \<Rightarrow> uuid) \<Rightarrow> ('a \<Rightarrow> uuid) \<Rightarrow> uuid \<Rightarrow> 'a list \<Rightarrow> 'a list \<Rightarrow> 'a list" where
  "merge_children pk_of owner rid children rows =
     fold (upsert_row pk_of) children
       (filter (\<lambda>x. owner x \<noteq> rid \<or> pk_of x \<in> set (map pk_of children)) rows)"

definition supersedes_unique :: "enhancement list \<Rightarrow> bool" where
  "supersedes_unique rows = distinct (List.map_filter enh_supersedes rows)"

definition reference_constraints :: "db \<Rightarrow> bool" where
  "reference_constraints db =
     (decision_constraints db (db_decisions db) \<and> supersedes_unique (db_enhancements db))"

definition references_merge :: "datetime \<Rightarrow> 'r reference_t \<Rightarrow> db \<Rightarrow> (uuid \<times> db) result" where
  "references_merge now r db =
     res_bind (res_mapM (merged_enhancement now (db_enhancements db)) (opt_list (ref_enhancements r))) (\<lambda>rows.
       (let db' = db
              \<lparr> db_references := upsert_row refr_id \<lparr> refr_id = ref_id r, refr_visibility = ref_visibility r \<rparr> (db_references db),
                db_identifiers := merge_children lei_id lei_reference_id (ref_id r) (opt_list (ref_identifiers r)) (db_identifiers db),
                db_enhancements := merge_children enh_id enh_reference_id (ref_id r) rows (db_enhancements db) \<rparr>
        in if list_all enhancement_row_checks rows \<and> reference_constraints db'
           then Inr (ref_id r, db') else Inl SQLIntegrityError))"

definition merge_reference :: "dedup_env \<Rightarrow> 'r reference_t \<Rightarrow> (uuid, 'q) action" where
  "merge_reference env r =
     act_bind (on_db (references_merge (den_now env) r)) (\<lambda>rid.
     act_bind (sync_reference env rid) (\<lambda>_. act_return rid))"

section \<open>Adding an enhancement or an identifier\<close>

definition check_parents :: "db \<Rightarrow> reference \<Rightarrow> enhancement \<Rightarrow> unit result" where
  "check_parents db reference e =
     (case opt_list (enh_derived_from e) of
        [] \<Rightarrow> Inr ()
      | parents \<Rightarrow>
          (case repo_get_by_pks enh_id (db_enhancements db) parents True of
             Inl _ \<Rightarrow> Inl InvalidParentEnhancementError
           | Inr rows \<Rightarrow>
               if list_all (\<lambda>p. enh_reference_id p \<in> set (ref_id reference # map ref_id (opt_list (ref_duplicate_references reference)))) rows
               then Inr () else Inl InvalidParentEnhancementError))"

definition add_enhancement :: "hasher \<Rightarrow> datetime \<Rightarrow> enhancement \<Rightarrow> db \<Rightarrow> (uuid \<times> db) result" where
  "add_enhancement H now e db =
     res_bind (references_get_by_pk db (enh_reference_id e)
                 [PL_enhancements, PL_identifiers, PL_duplicate_references]) (\<lambda>reference.
       if list_ex (\<lambda>x. hash_data H x = hash_data H e) (opt_list (ref_enhancements reference))
       then Inl DuplicateEnhancementError
       else res_bind (check_parents db reference e) (\<lambda>_.
              references_merge now
                (reference \<lparr> ref_enhancements := Some (opt_list (ref_enhancements reference) @ [e]) \<rparr>) db))"

definition add_identifier :: "uuid \<Rightarrow> uuid \<Rightarrow> external_identifier \<Rightarrow> db \<Rightarrow> (linked_external_identifier \<times> db) result" where
  "add_identifier new_id reference_id identifier db =
     res_bind (references_get_by_pk db reference_id []) (\<lambda>reference.
     res_bind (repo_add lei_id (\<lambda>rows. list_all (\<lambda>l. lei_reference_id l \<in> refr_id ` set (db_references db)) rows) (\<lambda>_. True)
                 \<lparr> lei_id = new_id, lei_identifier = identifier, lei_reference_id = ref_id reference \<rparr> (db_identifiers db))
       (\<lambda>(l, rows). Inr (l, db \<lparr> db_identifiers := rows \<rparr>)))"

section \<open>Parsing an entry\<close>

record sdk_full_text =
  sft_file_url :: string
  sft_content :: full_text

datatype sdk_content = SdkFullText sdk_full_text | SdkContent enhancement_content

record enhancement_file_input =
  efi_source :: string
  efi_visibility :: visibility
  efi_robot_version :: "string option"
  efi_content :: sdk_content

record reference_file_input =
  rfi_visibility :: visibility
  rfi_identifiers :: "external_identifier list"
  rfi_enhancements :: "enhancement_file_input list"

record reference_create_result =
  rcr_reference :: "reference_file_input option"
  rcr_errors :: "string list"
  rcr_reference_id :: "uuid option"
  rcr_duplicate_decision_id :: "uuid option"

record file_parser =
  fp_reference :: "string \<Rightarrow> string + (visibility \<times> json list \<times> json list)"
  fp_identifier :: "json \<Rightarrow> string + external_identifier"
  fp_enhancement :: "json \<Rightarrow> string + enhancement_file_input"
  fp_str :: "json \<Rightarrow> string"

definition nl :: string where "nl = [CHR 0x0A]"

definition error_str :: "reference_create_result \<Rightarrow> string option" where
  "error_str r = (if rcr_errors r = [] then None else Some (str_join (nl @ nl) (map py_strip (rcr_errors r))))"

definition identifier_from_raw :: "file_parser \<Rightarrow> nat \<times> json \<Rightarrow> string + external_identifier" where
  "identifier_from_raw fp entry =
     (case entry of (entry_ref, raw) \<Rightarrow>
        (case fp_identifier fp raw of
           Inr i \<Rightarrow> Inr i
         | Inl err \<Rightarrow> Inl (nl @ ''Identifier '' @ str_nat entry_ref @ '':'' @ nl
             @ ''Invalid identifier. Check the format and content of the identifier.'' @ nl
             @ ''Attempted to parse:'' @ nl @ fp_str fp raw @ nl @ ''Error:'' @ nl @ err @ nl)))"

definition enhancement_from_raw :: "file_parser \<Rightarrow> nat \<times> json \<Rightarrow> string + enhancement_file_input" where
  "enhancement_from_raw fp entry =
     (case entry of (entry_ref, raw) \<Rightarrow>
        (case fp_enhancement fp raw of
           Inr e \<Rightarrow> Inr e
         | Inl err \<Rightarrow> Inl (nl @ ''Enhancement '' @ str_nat entry_ref @ '':'' @ nl
             @ ''Invalid enhancement. Check the format and content of the enhancement.'' @ nl
             @ ''Error:'' @ nl @ err @ nl)))"

definition lefts :: "('a + 'b) list \<Rightarrow> 'a list" where
  "lefts xs = List.map_filter (\<lambda>x. case x of Inl a \<Rightarrow> Some a | Inr _ \<Rightarrow> None) xs"

definition rights :: "('a + 'b) list \<Rightarrow> 'b list" where
  "rights xs = List.map_filter (\<lambda>x. case x of Inl _ \<Rightarrow> None | Inr b \<Rightarrow> Some b) xs"

definition no_reference :: "string list \<Rightarrow> reference_create_result" where
  "no_reference errors =
     \<lparr> rcr_reference = None, rcr_errors = errors, rcr_reference_id = None, rcr_duplicate_decision_id = None \<rparr>"

definition create_result_from_raw :: "file_parser \<Rightarrow> string \<Rightarrow> nat \<Rightarrow> reference_create_result" where
  "create_result_from_raw fp record_str entry_ref =
     (case fp_reference fp record_str of
        Inl err \<Rightarrow> no_reference [''Entry '' @ str_nat entry_ref @ '':'', err]
      | Inr (visibility, identifiers, enhancements) \<Rightarrow>
          (let identifier_results = map (identifier_from_raw fp) (enumerate 1 identifiers)
           in if length (lefts identifier_results) = length identifier_results
              then no_reference ([''Entry '' @ str_nat entry_ref, ''   All identifiers failed to parse.'']
                                 @ lefts identifier_results)
              else
                (let enhancement_results = map (enhancement_from_raw fp) (enumerate 1 enhancements);
                     errors = lefts identifier_results @ lefts enhancement_results
                 in \<lparr> rcr_reference = Some \<lparr> rfi_visibility = visibility,
                        rfi_identifiers = rights identifier_results,
                        rfi_enhancements = rights enhancement_results \<rparr>,
                      rcr_errors = (if errors = [] then [] else (''Entry ref '' @ str_nat entry_ref @ '':'') # errors),
                      rcr_reference_id = None, rcr_duplicate_decision_id = None \<rparr>)))"

section \<open>Linked data and full texts of an entry\<close>

definition input_linked_data :: "enhancement_file_input \<Rightarrow> linked_data option" where
  "input_linked_data e = (case efi_content e of SdkContent (LinkedDataEnhancement ld) \<Rightarrow> Some ld | _ \<Rightarrow> None)"

text \<open>The loop that strips linked data which does not validate: the kept enhancements and the errors.\<close>

fun strip_invalid_linked_data ::
    "vocabulary_client \<Rightarrow> enhancement_file_input list \<Rightarrow> (enhancement_file_input list \<times> string list) result" where
  "strip_invalid_linked_data vc [] = Inr ([], [])"
| "strip_invalid_linked_data vc (e # es) =
     res_bind
       (case input_linked_data e of
          None \<Rightarrow> Inr ([e], [])
        | Some ld \<Rightarrow>
            (case validate_linked_data vc (ld_data ld) (ld_vocabulary_uri ld) of
               Inl VocabularyFetchError \<Rightarrow>
                 Inr ([], [''Could not fetch or parse the vocabulary needed to validate this enhancement. This may be transient.''])
             | Inl err \<Rightarrow> Inl err
             | Inr v \<Rightarrow> Inr (if ldv_conforms v then ([e], []) else ([], ldv_errors v))))
       (\<lambda>(kept, errors). res_bind (strip_invalid_linked_data vc es)
          (\<lambda>(kept', errors'). Inr (kept @ kept', errors @ errors')))"

text \<open>A validation error of the conversion is raised as \<^verbatim>\<open>SDKToDomainError\<close>, any other error as it is.\<close>

fun as_sdk_error :: "'a result \<Rightarrow> 'a result" where
  "as_sdk_error (Inl ValidationError) = Inl SDKToDomainError"
| "as_sdk_error r = r"

definition full_text_from_sdk :: "sdk_full_text \<Rightarrow> full_text result" where
  "full_text_from_sdk f =
     as_sdk_error (res_bind (from_uri (sft_file_url f)) (\<lambda>blob. Inr ((sft_content f) \<lparr> ft_blob := blob \<rparr>)))"

definition content_from_sdk :: "sdk_content \<Rightarrow> enhancement_content result" where
  "content_from_sdk c =
     (case c of
        SdkFullText f \<Rightarrow> res_bind (full_text_from_sdk f) (\<lambda>t. Inr (FullTextEnhancement t))
      | SdkContent d \<Rightarrow> Inr d)"

definition enhancement_from_sdk :: "uuid \<Rightarrow> uuid \<Rightarrow> enhancement_file_input \<Rightarrow> enhancement result" where
  "enhancement_from_sdk new_id reference_id e =
     res_bind (content_from_sdk (efi_content e)) (\<lambda>content. Inr (default_root_id_for_root
       \<lparr> enh_id = new_id, enh_created_at = None, enh_updated_at = None, enh_source = efi_source e,
         enh_visibility = efi_visibility e, enh_robot_version = efi_robot_version e, enh_derived_from = None,
         enh_supersedes = None, enh_root_id = None, enh_content = content, enh_reference_id = reference_id \<rparr>))"

record ingest_env =
  ien_dedup :: dedup_env
  ien_parser :: file_parser
  ien_hasher :: hasher
  ien_blob :: blob_client
  ien_full_text_max_byte_size :: nat
  ien_reference_id :: uuid
  ien_identifier_id :: "nat \<Rightarrow> uuid"
  ien_enhancement_id :: "nat \<Rightarrow> uuid"
  ien_decision_id :: uuid

definition reference_from_sdk_file_input :: "ingest_env \<Rightarrow> reference_file_input \<Rightarrow> reference result" where
  "reference_from_sdk_file_input env r =
     res_bind (res_mapM (\<lambda>(i, e). enhancement_from_sdk (ien_enhancement_id env i) (ien_reference_id env) e)
                 (enumerate 0 (rfi_enhancements r))) (\<lambda>es. Inr
       \<lparr> ref_id = ien_reference_id env, ref_visibility = rfi_visibility r,
         ref_identifiers = Some (map (\<lambda>(i, d). \<lparr> lei_id = ien_identifier_id env i, lei_identifier = d,
                                               lei_reference_id = ien_reference_id env \<rparr>)
                                   (enumerate 0 (rfi_identifiers r))),
         ref_enhancements = Some es, ref_duplicate_decision = None, ref_canonical_reference = None,
         ref_duplicate_references = None \<rparr>)"

text \<open>
  The enhancements that remain, with remote full texts copied, and a line per copy that failed (the
  text of the exception is not modelled).
\<close>

fun store_full_texts ::
    "blob_client \<Rightarrow> nat \<Rightarrow> enhancement list \<Rightarrow> (enhancement list \<times> string list) result" where
  "store_full_texts bc limit [] = Inr ([], [])"
| "store_full_texts bc limit (e # es) =
     res_bind
       (if content_type (enh_content e) \<noteq> ET_FULL_TEXT then Inr ([e], [])
        else (case store_full_text bc limit e of
                Inr e' \<Rightarrow> Inr ([e'], [])
              | Inl err \<Rightarrow> if is_full_text_error err then Inr ([], [''Failed to store full text enhancement.''])
                          else Inl err))
       (\<lambda>(kept, errors). res_bind (store_full_texts bc limit es)
          (\<lambda>(kept', errors'). Inr (kept @ kept', errors @ errors')))"

section \<open>Ingestion\<close>

definition prepare_reference ::
    "ingest_env \<Rightarrow> reference_create_result \<Rightarrow> reference_file_input \<Rightarrow> (reference \<times> reference_create_result) result" where
  "prepare_reference env result input =
     res_bind (strip_invalid_linked_data (ese_vocabulary (den_index (ien_dedup env))) (rfi_enhancements input))
       (\<lambda>(kept, errors).
     res_bind (reference_from_sdk_file_input env (input \<lparr> rfi_enhancements := kept \<rparr>)) (\<lambda>reference.
     res_bind (store_full_texts (ien_blob env) (ien_full_text_max_byte_size env) (opt_list (ref_enhancements reference)))
       (\<lambda>(es, errors').
       Inr (reference \<lparr> ref_enhancements := Some es \<rparr>,
            result \<lparr> rcr_reference := Some (input \<lparr> rfi_enhancements := kept \<rparr>),
                     rcr_errors := rcr_errors result @ errors @ errors',
                     rcr_reference_id := Some (ref_id reference) \<rparr>))))"

definition store_reference :: "ingest_env \<Rightarrow> reference \<Rightarrow> reference_create_result \<Rightarrow> (reference_create_result, 'q) action" where
  "store_reference env reference result =
     act_bind (reading (find_exact_duplicate (ien_hasher env) reference)) (\<lambda>duplicate.
       case duplicate of
         Some canonical \<Rightarrow>
           act_bind (on_db (register_exact_duplicate_import_decision (ien_decision_id env) (ref_id reference) (ref_id canonical)))
             (\<lambda>_. act_return result)
       | None \<Rightarrow>
           act_bind (on_db (register_pending_import_decision (ien_decision_id env) (ref_id reference))) (\<lambda>decision.
           act_bind (merge_reference (ien_dedup env) reference) (\<lambda>_.
             act_return (result \<lparr> rcr_duplicate_decision_id := Some (rdd_id decision) \<rparr>))))"

definition ingest_reference :: "ingest_env \<Rightarrow> string \<Rightarrow> nat \<Rightarrow> (reference_create_result, 'q) action" where
  "ingest_reference env record_str entry_ref =
     unit_of_work
       (let result = create_result_from_raw (ien_parser env) record_str entry_ref
        in case rcr_reference result of
             None \<Rightarrow> act_return result
           | Some input \<Rightarrow>
               act_bind (reading (\<lambda>_. prepare_reference env result input))
                 (\<lambda>(reference, result'). store_reference env reference result'))"

section \<open>What the writes keep\<close>

lemma in_step_weaken:
  assumes st: "in_step s" and ok': "db_ok db'"
    and refs: "refr_id ` set (db_references (sys_db s)) \<subseteq> refr_id ` set (db_references db')"
    and view: "\<And>k d. decision_view db' k = Some d \<Longrightarrow> rdd_duplicate_determination d = DD_DUPLICATE \<Longrightarrow>
                 decision_view (sys_db s) k = Some d"
  shows "in_step (s \<lparr> sys_db := db' \<rparr>)"
proof -
  note ok = in_stepD [OF st]
  have dup: "is_duplicate_id (sys_db s) k" if "is_duplicate_id db' k" for k
    using that view unfolding is_duplicate_id_iff by blast
  have "flat_forest db'"
    unfolding flat_forest_iff [OF ok']
  proof (intro allI impI)
    fix k d c
    assume a: "decision_view db' k = Some d \<and> rdd_duplicate_determination d = DD_DUPLICATE \<and>
      rdd_canonical_reference_id d = Some c"
    then have "decision_view (sys_db s) k = Some d" using view by blast
    with a ok(2) have "k \<in> refr_id ` set (db_references (sys_db s)) \<and> \<not> is_duplicate_id (sys_db s) c"
      unfolding flat_forest_iff [OF ok(1)] by blast
    with refs dup show "k \<in> refr_id ` set (db_references db') \<and> \<not> is_duplicate_id db' c" by blast
  qed
  moreover have "stale_ids db' (sys_index s) = []"
  proof -
    have "set (stale_ids db' (sys_index s)) \<subseteq> set (stale_ids (sys_db s) (sys_index s))"
      unfolding set_stale_ids using dup by blast
    with st show ?thesis by (simp add: in_step_def)
  qed
  ultimately show ?thesis using ok' by (simp add: in_step_def)
qed

lemma decisions_add_view:
  assumes ok: "db_ok db" and add: "decisions_add d db = Inr (d', db')"
  shows "db_ok db'" "d' = d" "db_references db' = db_references db" "db_identifiers db' = db_identifiers db"
    "db_enhancements db' = db_enhancements db"
    "decision_view db' = (if rdd_active_decision d then (decision_view db)(rdd_reference_id d \<mapsto> d) else decision_view db)"
proof -
  show ok': "db_ok db'" using decisions_add_ok [OF ok add] .
  have db': "db' = db \<lparr> db_decisions := db_decisions db @ [d] \<rparr>" "d' = d" using add by (auto simp: decisions_add_Inr_iff)
  then show "d' = d" "db_references db' = db_references db" "db_identifiers db' = db_identifiers db"
    "db_enhancements db' = db_enhancements db" by simp_all
  have one: "rdd_reference_id x \<noteq> rdd_reference_id d"
    if "rdd_active_decision d" "x \<in> set (db_decisions db)" "rdd_active_decision x" for x
  proof -
    have "one_active_decision (db_decisions db @ [d])"
      using ok' db' by (simp add: db_ok_def decision_constraints_def)
    then have "rdd_reference_id d \<notin> rdd_reference_id ` {x \<in> set (db_decisions db). rdd_active_decision x}"
      using that(1) by (simp add: one_active_decision_def)
    with that(2,3) show ?thesis by (metis (mono_tags, lifting) image_eqI mem_Collect_eq)
  qed
  show "decision_view db' = (if rdd_active_decision d then (decision_view db)(rdd_reference_id d \<mapsto> d) else decision_view db)"
  proof (rule decision_view_eqI [OF ok'])
    fix k x
    have old: "decision_view db k = Some x \<longleftrightarrow> x \<in> set (db_decisions db) \<and> rdd_active_decision x \<and> rdd_reference_id x = k"
      unfolding decision_view_def by (rule active_decision_of_iff [OF ok])
    show "x \<in> set (db_decisions db') \<and> rdd_active_decision x \<and> rdd_reference_id x = k \<longleftrightarrow>
        (if rdd_active_decision d then (decision_view db)(rdd_reference_id d \<mapsto> d) else decision_view db) k = Some x"
      using old one db'(1) by auto
  qed
qed

lemma references_merge_Inr:
  assumes "references_merge now r db = Inr (rid, db')"
  obtains rows where "rid = ref_id r"
    and "res_mapM (merged_enhancement now (db_enhancements db)) (opt_list (ref_enhancements r)) = Inr rows"
    and "reference_constraints db'"
    and "db' = db
              \<lparr> db_references := upsert_row refr_id \<lparr> refr_id = ref_id r, refr_visibility = ref_visibility r \<rparr> (db_references db),
                db_identifiers := merge_children lei_id lei_reference_id (ref_id r) (opt_list (ref_identifiers r)) (db_identifiers db),
                db_enhancements := merge_children enh_id enh_reference_id (ref_id r) rows (db_enhancements db) \<rparr>"
  using assms by (auto simp: references_merge_def Let_def res_bind_Inr_iff split: if_splits)

lemma references_merge_keeps:
  assumes ok: "db_ok db" and m: "references_merge now r db = Inr (rid, db')"
  shows "db_ok db'" "decision_view db' = decision_view db" "db_decisions db' = db_decisions db"
    "refr_id ` set (db_references db') = insert rid (refr_id ` set (db_references db))"
proof -
  obtain rows where m': "rid = ref_id r" "reference_constraints db'"
    "db' = db
              \<lparr> db_references := upsert_row refr_id \<lparr> refr_id = ref_id r, refr_visibility = ref_visibility r \<rparr> (db_references db),
                db_identifiers := merge_children lei_id lei_reference_id (ref_id r) (opt_list (ref_identifiers r)) (db_identifiers db),
                db_enhancements := merge_children enh_id enh_reference_id (ref_id r) rows (db_enhancements db) \<rparr>"
    by (rule references_merge_Inr [OF m])
  then show "db_ok db'" using ok by (simp add: db_ok_def reference_constraints_def distinct_upsert)
  show "db_decisions db' = db_decisions db" using m' by simp
  then show "decision_view db' = decision_view db" by (simp add: fun_eq_iff decision_view_def active_decision_of_def)
  show "refr_id ` set (db_references db') = insert rid (refr_id ` set (db_references db))"
    using m'(1,3) by (auto simp: set_upsert_row)
qed

lemma merge_reference_in_step:
  assumes st: "in_step s"
  shows "\<exists>res s'. merge_reference env r s = Some (res, s') \<and>
           (\<forall>x. res = Inr x \<longrightarrow> in_step s' \<and> references_merge (den_now env) r (sys_db s) = Inr (x, sys_db s'))"
proof (cases "references_merge (den_now env) r (sys_db s)")
  case (Inl e)
  then show ?thesis by (simp add: merge_reference_def act_bind_def on_db_def)
next
  case (Inr q)
  obtain rid db' where "q = (rid, db')" by (cases q)
  with Inr have m: "references_merge (den_now env) r (sys_db s) = Inr (rid, db')" by simp
  note k = references_merge_keeps [OF in_stepD(1) [OF st] m]
  have st': "in_step (s \<lparr> sys_db := db' \<rparr>)" by (rule in_step_weaken [OF st k(1)]) (use k in auto)
  obtain res s1 where 1: "sync_reference env rid (s \<lparr> sys_db := db' \<rparr>) = Some (res, s1)" "sys_db s1 = db'" "in_step s1"
    using sync_lagging [OF st' [unfolded in_step_lagging], of env rid] by (auto simp: in_step_lagging)
  from 1 m show ?thesis by (cases res) (simp_all add: merge_reference_def act_bind_def on_db_def act_return_def)
qed

lemma store_reference_in_step:
  assumes st: "in_step s"
  shows "\<exists>res s'. store_reference env reference result s = Some (res, s') \<and> (\<forall>x. res = Inr x \<longrightarrow> in_step s')"
proof (cases "find_exact_duplicate (ien_hasher env) reference (sys_db s)")
  case (Inl e)
  then show ?thesis by (simp add: store_reference_def act_bind_def reading_def)
next
  case (Inr duplicate)
  note ok = in_stepD [OF st]
  show ?thesis
  proof (cases duplicate)
    case (Some canonical)
    let ?run = "register_exact_duplicate_import_decision (ien_decision_id env) (ref_id reference) (ref_id canonical) (sys_db s)"
    show ?thesis
    proof (cases ?run)
      case (Inl e)
      with Inr Some show ?thesis by (simp add: store_reference_def act_bind_def reading_def on_db_def)
    next
      case Run: (Inr q)
      obtain d db' where q: "q = (d, db')" by (cases q)
      note v = decisions_add_view [OF ok(1) Run [unfolded q register_exact_duplicate_import_decision_def]]
      have "in_step (s \<lparr> sys_db := db' \<rparr>)"
        by (rule in_step_weaken [OF st v(1)]) (use v in \<open>auto split: if_splits\<close>)
      with Inr Some Run q show ?thesis by (simp add: store_reference_def act_bind_def reading_def on_db_def act_return_def)
    qed
  next
    case None
    let ?run = "register_pending_import_decision (ien_decision_id env) (ref_id reference) (sys_db s)"
    show ?thesis
    proof (cases ?run)
      case (Inl e)
      with Inr None show ?thesis by (simp add: store_reference_def act_bind_def reading_def on_db_def)
    next
      case Run: (Inr q)
      obtain d db' where q: "q = (d, db')" by (cases q)
      note v = decisions_add_view [OF ok(1) Run [unfolded q register_pending_import_decision_def]]
      have "in_step (s \<lparr> sys_db := db' \<rparr>)"
        by (rule in_step_weaken [OF st v(1)]) (use v in \<open>auto split: if_splits\<close>)
      from merge_reference_in_step [OF this, of "ien_dedup env" reference] obtain res s' where
        "merge_reference (ien_dedup env) reference (s \<lparr> sys_db := db' \<rparr>) = Some (res, s')" "\<forall>x. res = Inr x \<longrightarrow> in_step s'"
        by blast
      with Inr None Run q show ?thesis
        by (cases res) (simp_all add: store_reference_def act_bind_def reading_def on_db_def act_return_def)
    qed
  qed
qed

lemma ingest_in_step:
  assumes "in_step s"
  shows "\<exists>res s'. ingest_reference env line n s = Some (res, s') \<and>
           (case res of Inr _ \<Rightarrow> in_step s' | Inl _ \<Rightarrow> sys_db s' = sys_db s \<and> sys_work s' = sys_work s)"
  unfolding ingest_reference_def
proof (rule unit_of_work_outcome)
  let ?r = "create_result_from_raw (ien_parser env) line n"
  show "\<exists>res s'. (let result = ?r in case rcr_reference result of None \<Rightarrow> act_return result
      | Some input \<Rightarrow> act_bind (reading (\<lambda>_. prepare_reference env result input))
          (\<lambda>(reference, result'). store_reference env reference result')) s = Some (res, s') \<and>
      (\<forall>x. res = Inr x \<longrightarrow> in_step s')"
  proof (cases "rcr_reference ?r")
    case None
    with assms show ?thesis by (simp add: act_return_def)
  next
    case (Some input)
    show ?thesis
    proof (cases "prepare_reference env ?r input")
      case (Inl e)
      with Some show ?thesis by (simp add: act_bind_def reading_def)
    next
      case (Inr q)
      obtain reference result' where "q = (reference, result')" by (cases q)
      with Some Inr store_reference_in_step [OF assms, of env reference result'] show ?thesis
        by (simp add: act_bind_def reading_def)
    qed
  qed
qed

section \<open>What an ingestion stores\<close>

definition ingest_fresh :: "ingest_env \<Rightarrow> db \<Rightarrow> bool" where
  "ingest_fresh env db \<longleftrightarrow>
     ien_reference_id env \<notin> refr_id ` set (db_references db) \<and>
     ien_reference_id env \<notin> lei_reference_id ` set (db_identifiers db) \<and>
     ien_reference_id env \<notin> enh_reference_id ` set (db_enhancements db) \<and>
     inj (ien_identifier_id env) \<and> range (ien_identifier_id env) \<inter> lei_id ` set (db_identifiers db) = {} \<and>
     inj (ien_enhancement_id env) \<and> range (ien_enhancement_id env) \<inter> enh_id ` set (db_enhancements db) = {}"

lemma fold_upsert_new:
  "distinct (map pk_of cs) \<Longrightarrow> pk_of ` set cs \<inter> pk_of ` set rows = {} \<Longrightarrow> fold (upsert_row pk_of) cs rows = rows @ cs"
proof (induction cs arbitrary: rows)
  case (Cons c cs)
  have "upsert_row pk_of c rows = rows @ [c]" using Cons.prems(2) by (auto simp: upsert_row_def)
  with Cons show ?case by auto
qed simp

lemma merge_children_new:
  assumes "rid \<notin> owner ` set rows" "distinct (map pk_of cs)" "pk_of ` set cs \<inter> pk_of ` set rows = {}"
    and "\<And>c. c \<in> set cs \<Longrightarrow> owner c = rid"
  shows "merge_children pk_of owner rid cs rows = rows @ cs"
    "filter (\<lambda>x. owner x = rid) (merge_children pk_of owner rid cs rows) = cs"
    "filter (\<lambda>x. owner x \<noteq> rid) (merge_children pk_of owner rid cs rows) = rows"
proof -
  have "filter (\<lambda>x. owner x \<noteq> rid \<or> pk_of x \<in> set (map pk_of cs)) rows = rows"
    using assms(1) by (auto simp: filter_id_conv)
  then show m: "merge_children pk_of owner rid cs rows = rows @ cs"
    using fold_upsert_new [OF assms(2,3)] by (simp add: merge_children_def)
  have "filter (\<lambda>x. owner x = rid) rows = []" "filter (\<lambda>x. owner x \<noteq> rid) rows = rows"
    "filter (\<lambda>x. owner x = rid) cs = cs" "filter (\<lambda>x. owner x \<noteq> rid) cs = []"
    using assms(1,4) by (auto simp: filter_empty_conv filter_id_conv)
  then show "filter (\<lambda>x. owner x = rid) (merge_children pk_of owner rid cs rows) = cs"
    "filter (\<lambda>x. owner x \<noteq> rid) (merge_children pk_of owner rid cs rows) = rows"
    using m by simp_all
qed

text \<open>Rows, full texts and conversions keep identifiers and owners.\<close>

lemma enhancement_from_domain_keys:
  "enhancement_from_domain now e = Inr row \<Longrightarrow> enh_id row = enh_id e \<and> enh_reference_id row = enh_reference_id e"
  by (auto simp: enhancement_from_domain_def split: enhancement_content.splits if_splits)

lemma merged_enhancement_keys:
  assumes "merged_enhancement now rows e = Inr row"
  shows "enh_id row = enh_id e \<and> enh_reference_id row = enh_reference_id e"
proof -
  from assms obtain r where r: "enhancement_from_domain now e = Inr r"
    and row: "row = r \<or> (\<exists>old. find (\<lambda>x. enh_id x = enh_id e) rows = Some old \<and>
       row \<in> {r \<lparr> enh_created_at := enh_created_at old, enh_updated_at := enh_updated_at old \<rparr>,
              r \<lparr> enh_created_at := enh_created_at old, enh_updated_at := Some now \<rparr>})"
    by (auto simp: merged_enhancement_def res_bind_Inr_iff Let_def split: option.splits if_splits)
  from row enhancement_from_domain_keys [OF r] show ?thesis by auto
qed

lemma mapM_keys:
  "res_mapM f xs = Inr ys \<Longrightarrow> (\<And>x y. f x = Inr y \<Longrightarrow> g y = h x) \<Longrightarrow> map g ys = map h xs"
  by (induction xs arbitrary: ys) (auto simp: res_bind_Inr_iff)

lemma store_full_text_keys:
  assumes "store_full_text bc limit e = Inr e'"
  shows "enh_id e' = enh_id e \<and> enh_reference_id e' = enh_reference_id e"
  by (rule store_full_text_Inr [OF assms]) simp

lemma store_full_texts_keys:
  "store_full_texts bc limit es = Inr (kept, errors) \<Longrightarrow>
     set (map enh_id kept) \<subseteq> set (map enh_id es) \<and> (distinct (map enh_id es) \<longrightarrow> distinct (map enh_id kept)) \<and>
     (\<forall>e \<in> set kept. enh_reference_id e \<in> enh_reference_id ` set es)"
proof (induction es arbitrary: kept errors)
  case (Cons e es)
  from Cons.prems obtain k1 e1 k2 e2 where
    head: "(if content_type (enh_content e) \<noteq> ET_FULL_TEXT then Inr ([e], [])
        else (case store_full_text bc limit e of
                Inr e' \<Rightarrow> Inr ([e'], [])
              | Inl err \<Rightarrow> if is_full_text_error err then Inr ([], [''Failed to store full text enhancement.''])
                          else Inl err)) = Inr (k1, e1)"
    and rest: "store_full_texts bc limit es = Inr (k2, e2)" and kept: "kept = k1 @ k2"
    by (auto simp: res_bind_Inr_iff)
  have "k1 = [] \<or> (\<exists>x. k1 = [x] \<and> enh_id x = enh_id e \<and> enh_reference_id x = enh_reference_id e)"
    using head store_full_text_keys by (auto split: if_splits sum.splits)
  with Cons.IH [OF rest] show ?case unfolding kept by auto
qed simp

lemma reference_from_sdk_keys:
  assumes "reference_from_sdk_file_input env input = Inr r"
  shows "ref_id r = ien_reference_id env" "ref_visibility r = rfi_visibility input"
    "opt_list (ref_identifiers r) = map (\<lambda>(i, d). \<lparr> lei_id = ien_identifier_id env i, lei_identifier = d,
        lei_reference_id = ien_reference_id env \<rparr>) (enumerate 0 (rfi_identifiers input))"
    "map enh_id (opt_list (ref_enhancements r)) = map (\<lambda>x. ien_enhancement_id env (fst x)) (enumerate 0 (rfi_enhancements input))"
    "map enh_reference_id (opt_list (ref_enhancements r)) = map (\<lambda>_. ien_reference_id env) (enumerate 0 (rfi_enhancements input))"
proof -
  from assms obtain es where es: "res_mapM (\<lambda>(i, e). enhancement_from_sdk (ien_enhancement_id env i) (ien_reference_id env) e)
      (enumerate 0 (rfi_enhancements input)) = Inr es" and r: "opt_list (ref_enhancements r) = es"
    and others: "ref_id r = ien_reference_id env" "ref_visibility r = rfi_visibility input"
    "opt_list (ref_identifiers r) = map (\<lambda>(i, d). \<lparr> lei_id = ien_identifier_id env i, lei_identifier = d,
        lei_reference_id = ien_reference_id env \<rparr>) (enumerate 0 (rfi_identifiers input))"
    by (auto simp: reference_from_sdk_file_input_def res_bind_Inr_iff opt_list_def)
  have one: "enh_id e' = ien_enhancement_id env (fst x) \<and> enh_reference_id e' = ien_reference_id env"
    if "(case x of (i, e) \<Rightarrow> enhancement_from_sdk (ien_enhancement_id env i) (ien_reference_id env) e) = Inr e'" for x e'
    using that by (cases x) (auto simp: enhancement_from_sdk_def default_root_id_for_root_def res_bind_Inr_iff)
  show "map enh_id (opt_list (ref_enhancements r)) = map (\<lambda>x. ien_enhancement_id env (fst x)) (enumerate 0 (rfi_enhancements input))"
    unfolding r by (rule mapM_keys [OF es]) (use one in blast)
  show "map enh_reference_id (opt_list (ref_enhancements r)) = map (\<lambda>_. ien_reference_id env) (enumerate 0 (rfi_enhancements input))"
    unfolding r by (rule mapM_keys [OF es]) (use one in blast)
  show "ref_id r = ien_reference_id env" "ref_visibility r = rfi_visibility input"
    "opt_list (ref_identifiers r) = map (\<lambda>(i, d). \<lparr> lei_id = ien_identifier_id env i, lei_identifier = d,
        lei_reference_id = ien_reference_id env \<rparr>) (enumerate 0 (rfi_identifiers input))"
    by (rule others)+
qed

lemma disjoint_sub: "A \<subseteq> R \<Longrightarrow> R \<inter> B = {} \<Longrightarrow> A \<inter> B = {}"
  by blast

lemma distinct_enumerated:
  assumes "inj f"
  shows "distinct (map (\<lambda>x. f (fst x)) (enumerate n xs))"
proof -
  have "map (\<lambda>x. f (fst x)) (enumerate n xs) = map f (map fst (enumerate n xs))"
    unfolding map_map comp_def by (rule refl)
  also have "\<dots> = map f [n..<n + length xs]" by (simp only: map_fst_enumerate)
  finally show ?thesis using inj_on_subset [OF assms subset_UNIV] by (simp add: distinct_map)
qed

lemma prepare_reference_keys:
  assumes "prepare_reference env result input = Inr (reference, result')"
  shows "ref_id reference = ien_reference_id env"
    "rcr_reference_id result' = Some (ien_reference_id env)" "rcr_duplicate_decision_id result' = rcr_duplicate_decision_id result"
    "map lei_identifier (opt_list (ref_identifiers reference)) = rfi_identifiers input"
    "map lei_id (opt_list (ref_identifiers reference)) = map (\<lambda>x. ien_identifier_id env (fst x)) (enumerate 0 (rfi_identifiers input))"
    "\<And>l. l \<in> set (opt_list (ref_identifiers reference)) \<Longrightarrow> lei_reference_id l = ien_reference_id env"
    "\<And>e. e \<in> set (opt_list (ref_enhancements reference)) \<Longrightarrow> enh_reference_id e = ien_reference_id env"
    "inj (ien_enhancement_id env) \<Longrightarrow> distinct (map enh_id (opt_list (ref_enhancements reference)))"
    "enh_id ` set (opt_list (ref_enhancements reference)) \<subseteq> range (ien_enhancement_id env)"
    "\<exists>kept. rcr_reference result' = Some (input \<lparr> rfi_enhancements := kept \<rparr>)"
proof -
  from assms obtain kept errors r0 es errors' where
    r0: "reference_from_sdk_file_input env (input \<lparr> rfi_enhancements := kept \<rparr>) = Inr r0"
    and es: "store_full_texts (ien_blob env) (ien_full_text_max_byte_size env) (opt_list (ref_enhancements r0)) = Inr (es, errors')"
    and res: "reference = r0 \<lparr> ref_enhancements := Some es \<rparr>"
      "result' = result \<lparr> rcr_reference := Some (input \<lparr> rfi_enhancements := kept \<rparr>),
                     rcr_errors := rcr_errors result @ errors @ errors',
                     rcr_reference_id := Some (ref_id r0) \<rparr>"
    by (auto simp: prepare_reference_def res_bind_Inr_iff)
  note k = reference_from_sdk_keys [OF r0] and f = store_full_texts_keys [OF es]
  show "ref_id reference = ien_reference_id env" "rcr_reference_id result' = Some (ien_reference_id env)"
    "rcr_duplicate_decision_id result' = rcr_duplicate_decision_id result"
    "\<exists>kept. rcr_reference result' = Some (input \<lparr> rfi_enhancements := kept \<rparr>)"
    using res k(1) by auto
  have ids: "opt_list (ref_identifiers reference) = map (\<lambda>(i, d). \<lparr> lei_id = ien_identifier_id env i, lei_identifier = d,
        lei_reference_id = ien_reference_id env \<rparr>) (enumerate 0 (rfi_identifiers input))"
    using res(1) k(3) by simp
  show "map lei_identifier (opt_list (ref_identifiers reference)) = rfi_identifiers input"
  proof -
    have "map lei_identifier (opt_list (ref_identifiers reference)) = map snd (enumerate 0 (rfi_identifiers input))"
      unfolding ids map_map by (rule map_cong [OF refl]) (simp add: case_prod_unfold)
    then show ?thesis by simp
  qed
  show "map lei_id (opt_list (ref_identifiers reference)) = map (\<lambda>x. ien_identifier_id env (fst x)) (enumerate 0 (rfi_identifiers input))"
    unfolding ids by (simp add: case_prod_unfold)
  show "lei_reference_id l = ien_reference_id env" if "l \<in> set (opt_list (ref_identifiers reference))" for l
    using that unfolding ids by auto
  have es': "opt_list (ref_enhancements reference) = es" using res(1) by (simp add: opt_list_def)
  have owners: "enh_reference_id ` set (opt_list (ref_enhancements r0)) \<subseteq> {ien_reference_id env}"
  proof -
    have "set (map enh_reference_id (opt_list (ref_enhancements r0))) \<subseteq> {ien_reference_id env}" unfolding k(5) by auto
    then show ?thesis by simp
  qed
  then show "enh_reference_id e = ien_reference_id env" if "e \<in> set (opt_list (ref_enhancements reference))" for e
    using that f unfolding es' by blast
  have "enh_id ` set (opt_list (ref_enhancements r0)) \<subseteq> range (ien_enhancement_id env)"
  proof -
    have "set (map enh_id (opt_list (ref_enhancements r0))) \<subseteq> range (ien_enhancement_id env)" unfolding k(4) by auto
    then show ?thesis by simp
  qed
  then show "enh_id ` set (opt_list (ref_enhancements reference)) \<subseteq> range (ien_enhancement_id env)"
    using f unfolding es' set_map by blast
  show "distinct (map enh_id (opt_list (ref_enhancements reference)))" if "inj (ien_enhancement_id env)"
  proof -
    have "distinct (map enh_id (opt_list (ref_enhancements r0)))" unfolding k(4) by (rule distinct_enumerated [OF that])
    then show ?thesis using f unfolding es' by blast
  qed
qed

definition exact_duplicate_registered :: "uuid \<Rightarrow> db \<Rightarrow> bool" where
  "exact_duplicate_registered rid db =
     (case decision_view db rid of
        None \<Rightarrow> False
      | Some d \<Rightarrow> rdd_duplicate_determination d = DD_EXACT_DUPLICATE \<and>
                  (case rdd_canonical_reference_id d of
                     None \<Rightarrow> False | Some c \<Rightarrow> c \<in> refr_id ` set (db_references db)))"

definition pending_registered :: "uuid \<Rightarrow> uuid \<Rightarrow> db \<Rightarrow> bool" where
  "pending_registered did rid db =
     list_ex (\<lambda>d. rdd_id d = did \<and> rdd_reference_id d = rid \<and> rdd_duplicate_determination d = DD_PENDING \<and>
                   \<not> rdd_active_decision d) (db_decisions db)"

text \<open>The aggregate of \<open>rid\<close> is new and holds these identifiers; every other row is as before.\<close>

definition stored_beside :: "uuid \<Rightarrow> external_identifier list \<Rightarrow> db \<Rightarrow> db \<Rightarrow> bool" where
  "stored_beside rid identifiers db db' =
     (refr_id ` set (db_references db') = insert rid (refr_id ` set (db_references db)) \<and>
      map lei_identifier (filter (\<lambda>l. lei_reference_id l = rid) (db_identifiers db')) = identifiers \<and>
      filter (\<lambda>l. lei_reference_id l \<noteq> rid) (db_identifiers db') = db_identifiers db \<and>
      filter (\<lambda>e. enh_reference_id e \<noteq> rid) (db_enhancements db') = db_enhancements db)"

lemma references_merge_new:
  assumes m: "references_merge now reference db = Inr (rid, db')"
    and fresh: "ingest_fresh env db"
    and prep: "prepare_reference env result input = Inr (reference, result')"
  shows "stored_beside (ien_reference_id env) (rfi_identifiers input) db db'"
proof -
  note k = prepare_reference_keys [OF prep]
  obtain rows where rows: "res_mapM (merged_enhancement now (db_enhancements db)) (opt_list (ref_enhancements reference)) = Inr rows"
    and db': "db' = db
              \<lparr> db_references := upsert_row refr_id \<lparr> refr_id = ref_id reference, refr_visibility = ref_visibility reference \<rparr> (db_references db),
                db_identifiers := merge_children lei_id lei_reference_id (ref_id reference) (opt_list (ref_identifiers reference)) (db_identifiers db),
                db_enhancements := merge_children enh_id enh_reference_id (ref_id reference) rows (db_enhancements db) \<rparr>"
    by (rule references_merge_Inr [OF m])
  let ?ids = "opt_list (ref_identifiers reference)"
  have rk: "map enh_id rows = map enh_id (opt_list (ref_enhancements reference))"
    "map enh_reference_id rows = map enh_reference_id (opt_list (ref_enhancements reference))"
    by (rule mapM_keys [OF rows], drule merged_enhancement_keys, simp)+
  have di: "distinct (map lei_id ?ids)"
    unfolding k(5) by (rule distinct_enumerated) (use fresh in \<open>simp add: ingest_fresh_def\<close>)
  have ni: "lei_id ` set ?ids \<inter> lei_id ` set (db_identifiers db) = {}"
  proof -
    have "set (map lei_id ?ids) \<subseteq> range (ien_identifier_id env)" unfolding k(5) by auto
    then show ?thesis unfolding set_map
      by (rule disjoint_sub) (use fresh in \<open>simp add: ingest_fresh_def\<close>)
  qed
  note i = merge_children_new [where pk_of = lei_id and owner = lei_reference_id and rid = "ien_reference_id env"
      and cs = ?ids and rows = "db_identifiers db", OF _ di ni k(6)]
  have ne: "enh_id ` set rows \<inter> enh_id ` set (db_enhancements db) = {}"
  proof -
    have "set (map enh_id rows) \<subseteq> range (ien_enhancement_id env)" using k(9) unfolding rk(1) by simp
    then show ?thesis unfolding set_map
      by (rule disjoint_sub) (use fresh in \<open>simp add: ingest_fresh_def\<close>)
  qed
  have oe: "enh_reference_id e = ien_reference_id env" if "e \<in> set rows" for e
  proof -
    have "enh_reference_id e \<in> set (map enh_reference_id rows)" using that by simp
    then show ?thesis unfolding rk(2) using k(7) by auto
  qed
  have de: "distinct (map enh_id rows)" using k(8) fresh unfolding rk(1) ingest_fresh_def by blast
  note e = merge_children_new [where pk_of = enh_id and owner = enh_reference_id and rid = "ien_reference_id env"
      and cs = rows and rows = "db_enhancements db", OF _ de ne oe]
  have owners: "ien_reference_id env \<notin> lei_reference_id ` set (db_identifiers db)"
    "ien_reference_id env \<notin> enh_reference_id ` set (db_enhancements db)" using fresh by (simp_all add: ingest_fresh_def)
  show ?thesis
    using i(2,3) [OF owners(1)] e(3) [OF owners(2)] k(1,4) unfolding db' stored_beside_def
    by (auto simp: set_upsert_row)
qed

lemma merge_reference_Inr:
  assumes "merge_reference env r s = Some (Inr x, s')"
  shows "references_merge (den_now env) r (sys_db s) = Inr (x, sys_db s')"
  using assms
  by (auto simp: merge_reference_def act_bind_def on_db_def sync_reference_def act_return_def
      split: sum.splits option.splits prod.splits)

lemma store_reference_Inr:
  assumes run: "store_reference env reference result s = Some (Inr r, s')"
  obtains
    (duplicate) canonical :: reference and d db' where
      "register_exact_duplicate_import_decision (ien_decision_id env) (ref_id reference) (ref_id canonical) (sys_db s) = Inr (d, db')"
      "sys_db s' = db'" "r = result"
  | (stored) d db1 x where
      "register_pending_import_decision (ien_decision_id env) (ref_id reference) (sys_db s) = Inr (d, db1)"
      "references_merge (den_now (ien_dedup env)) reference db1 = Inr (x, sys_db s')"
      "r = result \<lparr> rcr_duplicate_decision_id := Some (rdd_id d) \<rparr>"
proof -
  from run obtain dup where dup: "find_exact_duplicate (ien_hasher env) reference (sys_db s) = Inr dup"
    by (auto simp: store_reference_def act_bind_def reading_def split: sum.splits)
  show thesis
  proof (cases dup)
    case (Some canonical)
    with run dup obtain d db' where
      "register_exact_duplicate_import_decision (ien_decision_id env) (ref_id reference) (ref_id canonical) (sys_db s) = Inr (d, db')"
      "sys_db s' = db'" "r = result"
      by (auto simp: store_reference_def act_bind_def reading_def on_db_def act_return_def split: sum.splits)
    with duplicate show thesis by blast
  next
    case None
    with run dup obtain d db1 where d: "register_pending_import_decision (ien_decision_id env) (ref_id reference) (sys_db s) = Inr (d, db1)"
      by (auto simp: store_reference_def act_bind_def reading_def on_db_def split: sum.splits)
    with run dup None obtain x where
      "merge_reference (ien_dedup env) reference (s \<lparr> sys_db := db1 \<rparr>) = Some (Inr x, s')"
      "r = result \<lparr> rcr_duplicate_decision_id := Some (rdd_id d) \<rparr>"
      by (auto simp: store_reference_def act_bind_def reading_def on_db_def act_return_def split: sum.splits option.splits)
    with merge_reference_Inr d stored show thesis by fastforce
  qed
qed

lemma create_result_from_raw_cases:
  "(rcr_reference (create_result_from_raw fp line n) = None \<longrightarrow> rcr_errors (create_result_from_raw fp line n) \<noteq> []) \<and>
   rcr_duplicate_decision_id (create_result_from_raw fp line n) = None"
  by (auto simp: create_result_from_raw_def no_reference_def Let_def split: sum.splits prod.splits)

lemma ingest_reference_Inr:
  assumes "ingest_reference env line n s = Some (Inr r, s')"
  obtains (rejected) "rcr_reference r = None" "rcr_duplicate_decision_id r = None" "rcr_errors r \<noteq> []" "s' = s"
  | (kept) result input reference result' where "rcr_duplicate_decision_id result = None"
      "prepare_reference env result input = Inr (reference, result')"
      "store_reference env reference result' s = Some (Inr r, s')"
proof (cases "rcr_reference (create_result_from_raw (ien_parser env) line n)")
  case None
  with assms have "r = create_result_from_raw (ien_parser env) line n" "s' = s"
    by (simp_all add: ingest_reference_def unit_of_work_def act_return_def)
  with None create_result_from_raw_cases [of "ien_parser env" line n] show thesis by (intro rejected) simp_all
next
  case (Some input)
  let ?r = "create_result_from_raw (ien_parser env) line n"
  from Some assms obtain reference result' where p: "prepare_reference env ?r input = Inr (reference, result')"
    by (auto simp: ingest_reference_def unit_of_work_def act_bind_def reading_def Let_def split: sum.splits option.splits)
  with Some assms have "store_reference env reference result' s = Some (Inr r, s')"
    by (auto simp: ingest_reference_def unit_of_work_def act_bind_def reading_def Let_def split: sum.splits option.splits)
  with p kept create_result_from_raw_cases show thesis by blast
qed

text \<open>The account an ingestion gives of a line.\<close>

definition accounted_for :: "ingest_env \<Rightarrow> reference_create_result \<Rightarrow> db \<Rightarrow> db \<Rightarrow> bool" where
  "accounted_for env r db db' =
     (case rcr_reference r of
        None \<Rightarrow> db' = db \<and> rcr_errors r \<noteq> [] \<and> rcr_duplicate_decision_id r = None
      | Some input \<Rightarrow>
          rcr_reference_id r = Some (ien_reference_id env) \<and>
          (case rcr_duplicate_decision_id r of
             None \<Rightarrow>
               exact_duplicate_registered (ien_reference_id env) db' \<and> db_references db' = db_references db \<and>
               db_identifiers db' = db_identifiers db \<and> db_enhancements db' = db_enhancements db
           | Some d \<Rightarrow>
               pending_registered d (ien_reference_id env) db' \<and>
               stored_beside (ien_reference_id env) (rfi_identifiers input) db db'))"

lemma ingest_accounted_for:
  assumes st: "in_step s" and fresh: "ingest_fresh env (sys_db s)"
    and run: "ingest_reference env line n s = Some (Inr r, s')"
  shows "accounted_for env r (sys_db s) (sys_db s')"
  using run
proof (cases rule: ingest_reference_Inr)
  case rejected
  then show ?thesis by (simp add: accounted_for_def)
next
  case (kept result input reference result')
  note k = prepare_reference_keys [OF kept(2)] and ok = in_stepD [OF st]
  obtain es where input: "rcr_reference result' = Some (input \<lparr> rfi_enhancements := es \<rparr>)" using k(10) by blast
  from kept(3) show ?thesis
  proof (cases rule: store_reference_Inr)
    case (duplicate canonical d db')
    note v = decisions_add_view [OF ok(1) duplicate(1) [unfolded register_exact_duplicate_import_decision_def]]
    have fk: "decision_foreign_keys db' d"
      using v(1) duplicate(1) [unfolded register_exact_duplicate_import_decision_def]
      by (auto simp: decisions_add_Inr_iff db_ok_def decision_constraints_def)
    have "exact_duplicate_registered (ien_reference_id env) db'"
      unfolding exact_duplicate_registered_def v(6) using fk v(2) k(1) by (simp add: decision_foreign_keys_def)
    with duplicate v k(2,3) kept(1) input show ?thesis by (simp add: accounted_for_def)
  next
    case (stored d db1 x)
    note v = decisions_add_view [OF ok(1) stored(1) [unfolded register_pending_import_decision_def]]
    have fresh1: "ingest_fresh env db1" using fresh v(3-5) by (simp add: ingest_fresh_def)
    have beside: "stored_beside (ien_reference_id env) (rfi_identifiers input) db1 (sys_db s')"
      by (rule references_merge_new [OF stored(2) fresh1 kept(2)])
    have "db_decisions (sys_db s') = db_decisions db1" by (rule references_merge_keeps(3) [OF v(1) stored(2)])
    moreover have "d \<in> set (db_decisions db1)"
      using stored(1) by (auto simp: register_pending_import_decision_def decisions_add_Inr_iff)
    ultimately have "pending_registered (rdd_id d) (ien_reference_id env) (sys_db s')"
      unfolding pending_registered_def list_ex_iff using v(2) k(1) by (intro bexI [of _ d]) simp_all
    with beside v(3-5) stored(3) k(2) input show ?thesis by (simp add: accounted_for_def stored_beside_def)
  qed
qed

lemma ingest_outcome:
  assumes "in_step s" and "ingest_fresh env (sys_db s)"
  obtains res s' where "ingest_reference env line n s = Some (res, s')"
    and "case res of
           Inr r \<Rightarrow> in_step s' \<and> accounted_for env r (sys_db s) (sys_db s')
         | Inl _ \<Rightarrow> sys_db s' = sys_db s \<and> sys_work s' = sys_work s"
proof -
  obtain res s' where run: "ingest_reference env line n s = Some (res, s')"
    and o: "case res of Inr _ \<Rightarrow> in_step s' | Inl _ \<Rightarrow> sys_db s' = sys_db s \<and> sys_work s' = sys_work s"
    using ingest_in_step [OF assms(1)] by blast
  show thesis
    by (rule that [OF run]) (use run o ingest_accounted_for [OF assms] in \<open>cases res; auto\<close>)
qed

section \<open>Properties\<close>

text \<open>
  C32 (functional). Ingesting a line always returns and loses no reference. On success, either the
  line gave no reference and the result says why, or the reference has an identifier and exactly
  one of two things happened: it was an exact duplicate, nothing was stored, and a decision in force
  says of which stored reference; or it was stored beside the others with exactly the identifiers
  that parsed, every other row unchanged, and a pending decision waits for it. The tables stay
  sound and the index in step; on an exception the tables are as before.
\<close>

theorem ingest_reference_accounts:
  assumes "in_step s" and "ingest_fresh env (sys_db s)"
  shows "\<exists>res s'. ingest_reference env line n s = Some (res, s') \<and>
           (case res of
              Inr r \<Rightarrow> in_step s' \<and> accounted_for env r (sys_db s) (sys_db s')
            | Inl _ \<Rightarrow> sys_db s' = sys_db s \<and> sys_work s' = sys_work s)"
  by (rule ingest_outcome [OF assms]) blast

definition sample_ingest_env :: ingest_env where
  "sample_ingest_env =
     \<lparr> ien_dedup = sample_dedup_env,
       ien_parser = \<lparr> fp_reference = (\<lambda>_. Inr (VIS_PUBLIC, [JStr ''10.1000/z'', JNull], [])),
         fp_identifier = (\<lambda>j. case j of JStr s \<Rightarrow> Inr (DOIIdentifier s) | _ \<Rightarrow> Inl ''not a string''),
         fp_enhancement = (\<lambda>_. Inl ''none''), fp_str = (\<lambda>_. []) \<rparr>,
       ien_hasher = \<lparr> hash_enhancement = (\<lambda>_. 0), hash_identifier = (\<lambda>i. int (length (identifier_str i))) \<rparr>,
       ien_blob = sample_blob_client, ien_full_text_max_byte_size = 100, ien_reference_id = 50,
       ien_identifier_id = (\<lambda>n. 500 + n), ien_enhancement_id = (\<lambda>n. 600 + n), ien_decision_id = 70 \<rparr>"

theorem ingest_reference_accounts_witness:
  "\<exists>r s'. ingest_reference sample_ingest_env ''line'' 1 (sample_system sample_db) = Some (Inr r, s') \<and>
     accounted_for sample_ingest_env r sample_db (sys_db s') \<and> rcr_duplicate_decision_id r = Some 70 \<and> rcr_errors r \<noteq> []"
proof -
  let ?run = "ingest_reference sample_ingest_env ''line'' 1 (sample_system sample_db)"
  have "case ?run of Some (Inr r, s') \<Rightarrow> rcr_duplicate_decision_id r = Some 70 \<and> rcr_errors r \<noteq> [] | _ \<Rightarrow> False" by code_simp
  then obtain r s' where run: "?run = Some (Inr r, s')" "rcr_duplicate_decision_id r = Some 70" "rcr_errors r \<noteq> []"
    using run_returns by fastforce
  have "ingest_fresh sample_ingest_env (sys_db (sample_system sample_db))"
    by (simp add: ingest_fresh_def sample_ingest_env_def sample_system_def sample_db_def inj_def)
  from ingest_reference_accounts [OF sample_in_step this, of "''line''" 1] run show ?thesis
    by (auto simp: sample_system_def)
qed

end
