(* ===== verification/Imports.thy ===== *)
theory Imports
  imports Reference_Ingestion
begin

text \<open>
  Imports: records, batches and results, the status projected for a batch, the distribution of a
  batch's file over tasks, and the task that imports one reference
  (\<^verbatim>\<open>src/app/domain/imports\<close>: \<^verbatim>\<open>models\<close>, \<^verbatim>\<open>repository.py\<close>, \<^verbatim>\<open>service.py\<close>, \<^verbatim>\<open>tasks.py\<close>).

  The service is handed the reference service it ingests with, so \<open>import_reference\<close> takes that
  operation as an argument; the program passes \<^verbatim>\<open>ReferenceService.ingest_reference\<close>, modelled by
  \<open>ingest_reference\<close>. The HTTP stream that a batch is read from is a list of attempts, each with the
  lines it yielded and how it ended.
\<close>

section \<open>Models\<close>

datatype import_record_status = IRS_CREATED | IRS_STARTED | IRS_COMPLETED

datatype import_batch_status = IBS_CREATED | IBS_STARTED | IBS_FAILED | IBS_PARTIALLY_FAILED | IBS_COMPLETED

datatype import_result_status =
  IR_CREATED | IR_STARTED | IR_COMPLETED | IR_PARTIALLY_FAILED | IR_FAILED | IR_RETRYING

record import_result =
  ir_id :: uuid
  ir_import_batch_id :: uuid
  ir_status :: import_result_status
  ir_reference_id :: "uuid option"
  ir_failure_details :: "string option"

record import_batch =
  ib_id :: uuid
  ib_storage_url :: string
  ib_status :: "import_batch_status option"
  ib_import_record_id :: uuid
  ib_import_results :: "import_result list option"

record import_record =
  irec_id :: uuid
  irec_search_string :: "string option"
  irec_searched_at :: datetime
  irec_processor_name :: string
  irec_processor_version :: string
  irec_notes :: "string option"
  irec_expected_reference_count :: int
  irec_source_name :: string
  irec_status :: import_record_status
  irec_batches :: "import_batch list option"

definition import_record_valid :: "import_record \<Rightarrow> bool" where
  "import_record_valid r = (-1 \<le> irec_expected_reference_count r)"

section \<open>Tables\<close>

record import_batch_row =
  ibr_id :: uuid
  ibr_import_record_id :: uuid
  ibr_storage_url :: string

record import_db =
  imp_records :: "import_record list"
  imp_batches :: "import_batch_row list"
  imp_results :: "import_result list"

definition batch_row_from_domain :: "import_batch \<Rightarrow> import_batch_row" where
  "batch_row_from_domain b =
     \<lparr> ibr_id = ib_id b, ibr_import_record_id = ib_import_record_id b, ibr_storage_url = ib_storage_url b \<rparr>"

datatype import_preload = IPL_batches | IPL_batch_status | IPL_import_results | IPL_status

definition batch_row_to_domain :: "import_db \<Rightarrow> import_preload list \<Rightarrow> import_batch_row \<Rightarrow> import_batch" where
  "batch_row_to_domain t preload r =
     \<lparr> ib_id = ibr_id r, ib_storage_url = ibr_storage_url r, ib_status = None,
       ib_import_record_id = ibr_import_record_id r,
       ib_import_results = (if IPL_import_results \<in> set preload
                            then Some (filter (\<lambda>x. ir_import_batch_id x = ibr_id r) (imp_results t)) else None) \<rparr>"

definition import_batch_constraints :: "import_db \<Rightarrow> import_batch_row list \<Rightarrow> bool" where
  "import_batch_constraints t rows =
     (distinct (map ibr_id rows) \<and> distinct (map (\<lambda>r. (ibr_import_record_id r, ibr_storage_url r)) rows) \<and>
      list_all (\<lambda>r. ibr_import_record_id r \<in> irec_id ` set (imp_records t)) rows)"

definition import_result_constraints :: "import_db \<Rightarrow> import_result list \<Rightarrow> bool" where
  "import_result_constraints t rows =
     (distinct (map ir_id rows) \<and> list_all (\<lambda>r. ir_import_batch_id r \<in> ibr_id ` set (imp_batches t)) rows)"

section \<open>The status of a batch\<close>

definition batch_status_from_set :: "import_result_status set \<Rightarrow> import_batch_status result" where
  "batch_status_from_set S =
     (if S = {} \<or> S = {IR_CREATED} then Inr IBS_CREATED
      else if {IR_STARTED, IR_RETRYING, IR_CREATED} \<inter> S \<noteq> {} then Inr IBS_STARTED
      else if S = {IR_COMPLETED} then Inr IBS_COMPLETED
      else if S \<subseteq> {IR_FAILED, IR_PARTIALLY_FAILED} then Inr IBS_FAILED
      else if IR_COMPLETED \<in> S \<and> {IR_FAILED, IR_PARTIALLY_FAILED} \<inter> S \<noteq> {} then Inr IBS_PARTIALLY_FAILED
      else Inl ProjectionError)"

definition get_import_result_status_set :: "import_db \<Rightarrow> uuid \<Rightarrow> import_result_status set" where
  "get_import_result_status_set t batch_id =
     set (map ir_status (filter (\<lambda>r. ir_import_batch_id r = batch_id) (imp_results t)))"

definition with_status :: "import_db \<Rightarrow> import_batch \<Rightarrow> import_batch result" where
  "with_status t b =
     res_bind (batch_status_from_set (get_import_result_status_set t (ib_id b))) (\<lambda>st. Inr (b \<lparr> ib_status := Some st \<rparr>))"

definition batches_get_by_pk :: "import_db \<Rightarrow> uuid \<Rightarrow> import_preload list \<Rightarrow> import_batch result" where
  "batches_get_by_pk t pk preload =
     res_bind (repo_get_by_pk ibr_id (imp_batches t) pk) (\<lambda>r.
       let b = batch_row_to_domain t preload r
       in if IPL_status \<in> set preload then with_status t b else Inr b)"

definition records_get_by_pk :: "import_db \<Rightarrow> uuid \<Rightarrow> import_preload list \<Rightarrow> import_record result" where
  "records_get_by_pk t pk preload =
     res_bind (repo_get_by_pk irec_id (imp_records t) pk) (\<lambda>r.
       let batches = map (batch_row_to_domain t []) (filter (\<lambda>b. ibr_import_record_id b = irec_id r) (imp_batches t))
       in if IPL_batches \<notin> set preload then Inr (r \<lparr> irec_batches := None \<rparr>)
          else if IPL_batch_status \<in> set preload
               then res_bind (res_mapM (with_status t) batches) (\<lambda>bs. Inr (r \<lparr> irec_batches := Some bs \<rparr>))
               else Inr (r \<lparr> irec_batches := Some batches \<rparr>))"

definition results_get_by_filter ::
    "import_db \<Rightarrow> uuid option \<Rightarrow> import_result_status option \<Rightarrow> import_result list" where
  "results_get_by_filter t import_batch_id status =
     filter (\<lambda>r. (case import_batch_id of None \<Rightarrow> True | Some b \<Rightarrow> ir_import_batch_id r = b) \<and>
                 (case status of None \<Rightarrow> True | Some s \<Rightarrow> ir_status r = s)) (imp_results t)"

section \<open>The service\<close>

definition register_import :: "import_record \<Rightarrow> import_db \<Rightarrow> (import_record \<times> import_db) result" where
  "register_import r t =
     res_bind (repo_add irec_id (\<lambda>rows. distinct (map irec_id rows)) import_record_valid r (imp_records t))
       (\<lambda>(r', rows). Inr (r', t \<lparr> imp_records := rows \<rparr>))"

definition register_batch :: "import_batch \<Rightarrow> import_db \<Rightarrow> (import_batch \<times> import_db) result" where
  "register_batch b t =
     res_bind (repo_add ibr_id (import_batch_constraints t) (\<lambda>_. True) (batch_row_from_domain b) (imp_batches t))
       (\<lambda>(_, rows). let t' = t \<lparr> imp_batches := rows \<rparr>
                    in res_bind (batches_get_by_pk t' (ib_id b) [IPL_status]) (\<lambda>b'. Inr (b', t')))"

definition register_result :: "import_result \<Rightarrow> import_db \<Rightarrow> (import_result \<times> import_db) result" where
  "register_result r t =
     res_bind (repo_add ir_id (import_result_constraints t) (\<lambda>_. True) r (imp_results t))
       (\<lambda>(r', rows). Inr (r', t \<lparr> imp_results := rows \<rparr>))"

definition update_import_result ::
    "(import_result \<Rightarrow> import_result) \<Rightarrow> uuid \<Rightarrow> import_db \<Rightarrow> (import_result \<times> import_db) result" where
  "update_import_result update pk t =
     res_bind (repo_update_by_pk ir_id (import_result_constraints t) (\<lambda>_. True) update pk (imp_results t))
       (\<lambda>(r', rows). Inr (r', t \<lparr> imp_results := rows \<rparr>))"

definition get_imported_references_from_batch :: "import_db \<Rightarrow> uuid \<Rightarrow> uuid set" where
  "get_imported_references_from_batch t batch_id =
     set (List.map_filter (\<lambda>r. if ir_status r \<in> {IR_COMPLETED, IR_PARTIALLY_FAILED} then ir_reference_id r else None)
       (results_get_by_filter t (Some batch_id) None))"

definition finalise_record :: "uuid \<Rightarrow> import_db \<Rightarrow> import_db result" where
  "finalise_record pk t =
     res_bind (repo_update_by_pk irec_id (\<lambda>rows. distinct (map irec_id rows)) import_record_valid
                 (\<lambda>r. r \<lparr> irec_status := IRS_COMPLETED \<rparr>) pk (imp_records t))
       (\<lambda>(_, rows). Inr (t \<lparr> imp_records := rows \<rparr>))"

section \<open>Distributing a batch\<close>

datatype import_message =
    ImportReferenceTask uuid string nat nat
  | ProcessDecisionTask uuid

record distribution =
  dis_imports :: import_db
  dis_queue :: "import_message list"
  dis_drawn :: nat

record distribution_env =
  dne_result_id :: "nat \<Rightarrow> uuid"
  dne_too_large :: "string \<Rightarrow> string option"
  dne_retry_count :: nat

definition queue_import_line ::
    "distribution_env \<Rightarrow> uuid \<Rightarrow> string \<Rightarrow> nat \<Rightarrow> distribution \<Rightarrow> distribution result" where
  "queue_import_line env batch_id line line_number d =
     (let rid = dne_result_id env (dis_drawn d)
      in res_bind (register_result \<lparr> ir_id = rid, ir_import_batch_id = batch_id, ir_status = IR_CREATED,
                                     ir_reference_id = None, ir_failure_details = None \<rparr> (dis_imports d)) (\<lambda>(_, t).
           case dne_too_large env line of
             Some detail \<Rightarrow>
               res_bind (update_import_result
                  (\<lambda>r. r \<lparr> ir_status := IR_FAILED, ir_failure_details := Some detail \<rparr>) rid t)
                 (\<lambda>(_, t'). Inr (d \<lparr> dis_imports := t', dis_drawn := dis_drawn d + 1 \<rparr>))
           | None \<Rightarrow> Inr (d \<lparr> dis_imports := t, dis_drawn := dis_drawn d + 1,
                         dis_queue := dis_queue d @ [ImportReferenceTask rid line line_number (dne_retry_count env)] \<rparr>)))"

text \<open>
  The loop over the lines of one attempt. \<open>last_processed_line\<close> survives an attempt that breaks off,
  so it is returned with the state.
\<close>

fun distribute_lines ::
    "distribution_env \<Rightarrow> uuid \<Rightarrow> nat \<Rightarrow> nat \<Rightarrow> string list \<Rightarrow> distribution \<Rightarrow> (nat \<times> distribution) result" where
  "distribute_lines env batch_id line_number last_processed [] d = Inr (last_processed, d)"
| "distribute_lines env batch_id line_number last_processed (line # lines) d =
     (let n = line_number + 1
      in if n \<le> last_processed then distribute_lines env batch_id n last_processed lines d
         else let stripped = py_strip line
              in res_bind (if stripped \<noteq> [] then queue_import_line env batch_id stripped n d else Inr d)
                   (distribute_lines env batch_id n n lines))"

datatype stream_attempt = Streamed "string list" | BrokenOff "string list" | BadStatus

text \<open>The retry loop: at most \<open>k\<close> attempts, and a transport error on the last one is raised.\<close>

fun distribute_attempts ::
    "distribution_env \<Rightarrow> uuid \<Rightarrow> nat \<Rightarrow> nat \<Rightarrow> stream_attempt list \<Rightarrow> distribution \<Rightarrow> distribution result" where
  "distribute_attempts env batch_id k last_processed [] d = Inl TaskError"
| "distribute_attempts env batch_id k last_processed (a # as) d =
     (case a of
        BadStatus \<Rightarrow> Inl TaskError
      | Streamed lines \<Rightarrow>
          res_bind (distribute_lines env batch_id 0 last_processed lines d) (\<lambda>(_, d'). Inr d')
      | BrokenOff lines \<Rightarrow>
          res_bind (distribute_lines env batch_id 0 last_processed lines d) (\<lambda>(last', d').
            if k \<le> 1 then Inl TaskError else distribute_attempts env batch_id (k - 1) last' as d'))"

definition distribute_import_batch ::
    "distribution_env \<Rightarrow> import_batch \<Rightarrow> stream_attempt list \<Rightarrow> distribution \<Rightarrow> distribution result" where
  "distribute_import_batch env batch attempts d = distribute_attempts env (ib_id batch) 5 0 attempts d"

section \<open>Importing a reference\<close>

record 'q import_state =
  ims_imports :: import_db
  ims_system :: "'q system"

type_synonym 'q ingest = "string \<Rightarrow> nat \<Rightarrow> 'q system \<Rightarrow> (reference_create_result result \<times> 'q system) option"

definition finish_import ::
    "(import_result \<Rightarrow> import_result) \<Rightarrow> uuid \<Rightarrow> uuid option \<Rightarrow> 'q import_state \<Rightarrow>
     ((import_result \<times> uuid option) result \<times> 'q import_state) option" where
  "finish_import update pk decision_id st =
     (case update_import_result update pk (ims_imports st) of
        Inl e \<Rightarrow> Some (Inl e, st)
      | Inr (r, t) \<Rightarrow> Some (Inr (r, decision_id), st \<lparr> ims_imports := t \<rparr>))"

fun ingest_update :: "reference_create_result result \<Rightarrow> import_result \<Rightarrow> import_result" where
  "ingest_update (Inl SQLIntegrityError) r = r \<lparr> ir_status := IR_RETRYING \<rparr>"
| "ingest_update (Inl DBAPIError) r = r \<lparr> ir_status := IR_RETRYING \<rparr>"
| "ingest_update (Inl e) r =
     r \<lparr> ir_status := IR_FAILED, ir_failure_details := Some ''Uncaught exception at the repository.'' \<rparr>"
| "ingest_update (Inr res) r =
     (if rcr_reference res = None then r \<lparr> ir_failure_details := error_str res, ir_status := IR_FAILED \<rparr>
      else if rcr_errors res \<noteq> []
           then r \<lparr> ir_status := IR_PARTIALLY_FAILED, ir_reference_id := rcr_reference_id res,
                    ir_failure_details := error_str res \<rparr>
           else r \<lparr> ir_status := IR_COMPLETED, ir_reference_id := rcr_reference_id res \<rparr>)"

fun ingest_decision_id :: "reference_create_result result \<Rightarrow> uuid option" where
  "ingest_decision_id (Inl _) = None"
| "ingest_decision_id (Inr res) = rcr_duplicate_decision_id res"

definition import_reference ::
    "'q ingest \<Rightarrow> uuid \<Rightarrow> string \<Rightarrow> nat \<Rightarrow> 'q import_state \<Rightarrow>
     ((import_result \<times> uuid option) result \<times> 'q import_state) option" where
  "import_reference ingest pk content line_number st =
     (case update_import_result (\<lambda>r. r \<lparr> ir_status := IR_STARTED \<rparr>) pk (ims_imports st) of
        Inl e \<Rightarrow> Some (Inl e, st)
      | Inr (_, t) \<Rightarrow>
          (case ingest content line_number (ims_system st) of
             None \<Rightarrow> None
           | Some (outcome, sys) \<Rightarrow>
               finish_import (ingest_update outcome) pk (ingest_decision_id outcome)
                 (st \<lparr> ims_imports := t, ims_system := sys \<rparr>)))"

definition terminal_result_status :: "import_result_status \<Rightarrow> bool" where
  "terminal_result_status s = (s \<in> {IR_PARTIALLY_FAILED, IR_FAILED, IR_COMPLETED})"

text \<open>The task: the messages it queues and the new state.\<close>

definition import_reference_task ::
    "'q ingest \<Rightarrow> uuid \<Rightarrow> string \<Rightarrow> nat \<Rightarrow> nat \<Rightarrow> 'q import_state \<Rightarrow>
     (import_message list result \<times> 'q import_state) option" where
  "import_reference_task ingest pk content line_number remaining_retries st =
     (case repo_get_by_pk ir_id (imp_results (ims_imports st)) pk of
        Inl e \<Rightarrow> Some (Inl e, st)
      | Inr r \<Rightarrow>
          if terminal_result_status (ir_status r) then Some (Inr [], st)
          else (case import_reference ingest pk content line_number st of
                  None \<Rightarrow> None
                | Some (Inl e, st') \<Rightarrow> Some (Inl e, st')
                | Some (Inr (r', decision_id), st') \<Rightarrow>
                    if ir_status r' = IR_RETRYING
                    then Some (Inr (if remaining_retries \<noteq> 0
                                    then [ImportReferenceTask pk content line_number (remaining_retries - 1)] else []), st')
                    else Some (Inr (case decision_id of None \<Rightarrow> [] | Some d \<Rightarrow> [ProcessDecisionTask d]), st')))"

section \<open>Reconnecting while distributing\<close>

lemma distribute_lines_skip:
  "distribute_lines env b n lp lines d =
     (if n < lp then (if lp - n \<le> length lines then distribute_lines env b lp lp (drop (lp - n) lines) d
                        else Inr (lp, d))
      else distribute_lines env b n lp lines d)"
proof (induction lines arbitrary: n)
  case (Cons l ls)
  show ?case
  proof (cases "n < lp")
    case True
    then have step: "distribute_lines env b n lp (l # ls) d = distribute_lines env b (n + 1) lp ls d" by simp
    have d: "drop (lp - n) (l # ls) = drop (lp - (n + 1)) ls"
      using True by (metis Suc_diff_Suc Suc_eq_plus1 drop_Suc_Cons)
    show ?thesis
    proof (cases "n + 1 < lp")
      case again: True
      with True step d Cons.IH [of "n + 1"] show ?thesis by auto
    next
      case False
      with True have "n + 1 = lp" by simp
      with True step d show ?thesis by auto
    qed
  qed simp
qed simp

lemma distribute_lines_step:
  "distribute_lines env b n n (x # xs) d =
     res_bind (if py_strip x \<noteq> [] then queue_import_line env b (py_strip x) (n + 1) d else Inr d)
       (distribute_lines env b (n + 1) (n + 1) xs)"
  by (simp add: Let_def)

lemma distribute_lines_append:
  "distribute_lines env b n n (xs @ ys) d =
     res_bind (distribute_lines env b n n xs d)
       (\<lambda>(_, d'). distribute_lines env b (n + length xs) (n + length xs) ys d')"
proof (induction xs arbitrary: n d)
  case (Cons x xs)
  then show ?case
    unfolding append_Cons distribute_lines_step
    by (cases "if py_strip x \<noteq> [] then queue_import_line env b (py_strip x) (n + 1) d else Inr d")
      (simp_all del: distribute_lines.simps)
qed simp

lemma distribute_lines_last:
  "distribute_lines env b n n lines d = Inr (l, d') \<Longrightarrow> l = n + length lines"
proof (induction lines arbitrary: n d)
  case (Cons x xs)
  then obtain d1 where "distribute_lines env b (n + 1) (n + 1) xs d1 = Inr (l, d')"
    by (auto simp: Let_def res_bind_Inr_iff split: if_splits)
  with Cons.IH show ?case by fastforce
qed simp

text \<open>A broken attempt processes the part of the file that was not processed yet, if any.\<close>

lemma distribute_lines_prefix:
  assumes "lp \<le> length lines"
  shows "distribute_lines env b 0 lp lines d = distribute_lines env b lp lp (drop lp lines) d"
  using assms distribute_lines_skip [of env b 0 lp lines d] by (cases "lp = 0") simp_all

lemma distribute_attempts_resume:
  assumes "lp \<le> length lines" "length ps < k" "\<forall>p \<in> set ps. \<exists>m. p = take m lines"
  shows "distribute_attempts env b k lp (map BrokenOff ps @ [Streamed lines]) d =
           res_bind (distribute_lines env b lp lp (drop lp lines) d) (\<lambda>(_, d'). Inr d')"
  using assms
proof (induction ps arbitrary: k lp d)
  case Nil
  then show ?case by (simp add: distribute_lines_prefix)
next
  case (Cons p ps)
  from Cons.prems(3) obtain m where p: "p = take m lines" by auto
  have k: "\<not> k \<le> 1" "length ps < k - 1" using Cons.prems(2) by auto
  show ?case
  proof (cases "lp < length p")
    case False
    then have stay: "distribute_lines env b 0 lp p d = Inr (lp, d)"
      using distribute_lines_skip [of env b 0 lp p d] by (cases "lp = 0") (auto split: if_splits)
    with k Cons.IH [OF Cons.prems(1) k(2)] Cons.prems(3) show ?thesis by simp
  next
    case True
    let ?now = "drop lp p"
    have split: "drop lp lines = ?now @ drop (length p) lines"
    proof -
      have "lines = p @ drop (length p) lines" using p by (metis append_take_drop_id length_take take_all_iff min_def nle_le)
      then show ?thesis using True by (metis drop_append less_imp_le_nat diff_is_0_eq drop0)
    qed
    have len: "lp + length ?now = length p" using True by simp
    have run: "distribute_lines env b 0 lp p d = distribute_lines env b lp lp ?now d"
      using True by (intro distribute_lines_prefix) simp
    have whole: "distribute_lines env b lp lp (drop lp lines) d =
        res_bind (distribute_lines env b lp lp ?now d)
          (\<lambda>(_, d'). distribute_lines env b (length p) (length p) (drop (length p) lines) d')"
      unfolding split distribute_lines_append len ..
    show ?thesis
    proof (cases "distribute_lines env b lp lp ?now d")
      case (Inl e)
      with k run whole show ?thesis by simp
    next
      case (Inr q)
      obtain l' d1 where q: "q = (l', d1)" by (cases q)
      have l': "l' = length p" using distribute_lines_last [OF Inr [unfolded q]] len by simp
      have "length p \<le> length lines" using p by simp
      from Cons.IH [OF this k(2)] Cons.prems(3) show ?thesis
        using k run whole Inr q l' by simp
    qed
  qed
qed

section \<open>What a distribution leaves\<close>

text \<open>The lines of a file that are not blank, stripped, with their numbers.\<close>

definition file_lines :: "nat \<Rightarrow> string list \<Rightarrow> (nat \<times> string) list" where
  "file_lines n lines = filter (\<lambda>(_, l). l \<noteq> []) (map (\<lambda>(i, l). (i, py_strip l)) (enumerate n lines))"

text \<open>The result and the message of one line; \<open>k\<close> counts the identifiers drawn.\<close>

definition line_result :: "distribution_env \<Rightarrow> uuid \<Rightarrow> nat \<Rightarrow> string \<Rightarrow> import_result" where
  "line_result env b k l =
     \<lparr> ir_id = dne_result_id env k, ir_import_batch_id = b,
       ir_status = (if dne_too_large env l = None then IR_CREATED else IR_FAILED),
       ir_reference_id = None, ir_failure_details = dne_too_large env l \<rparr>"

definition line_messages :: "distribution_env \<Rightarrow> nat \<Rightarrow> nat \<Rightarrow> string \<Rightarrow> import_message list" where
  "line_messages env k n l =
     (if dne_too_large env l = None then [ImportReferenceTask (dne_result_id env k) l n (dne_retry_count env)] else [])"

definition distributed :: "distribution_env \<Rightarrow> uuid \<Rightarrow> (nat \<times> string) list \<Rightarrow> distribution \<Rightarrow> distribution" where
  "distributed env b ls d =
     d \<lparr> dis_imports := dis_imports d \<lparr> imp_results := imp_results (dis_imports d) @
           map (\<lambda>(k, _, l). line_result env b k l) (enumerate (dis_drawn d) ls) \<rparr>,
         dis_queue := dis_queue d @ concat (map (\<lambda>(k, n, l). line_messages env k n l) (enumerate (dis_drawn d) ls)),
         dis_drawn := dis_drawn d + length ls \<rparr>"

text \<open>The batch is registered, and the identifiers still to be drawn are new.\<close>

definition ready_to_distribute :: "distribution_env \<Rightarrow> uuid \<Rightarrow> distribution \<Rightarrow> bool" where
  "ready_to_distribute env b d =
     (inj (dne_result_id env) \<and> b \<in> ibr_id ` set (imp_batches (dis_imports d)) \<and>
      import_result_constraints (dis_imports d) (imp_results (dis_imports d)) \<and>
      (\<forall>k \<ge> dis_drawn d. dne_result_id env k \<notin> ir_id ` set (imp_results (dis_imports d))))"

lemma distributed_Nil: "distributed env b [] d = d"
  by (simp add: distributed_def)

lemma distributed_Cons: "distributed env b (x # xs) d = distributed env b xs (distributed env b [x] d)"
  by (simp add: distributed_def)

lemma distributed_ready:
  assumes "ready_to_distribute env b d"
  shows "ready_to_distribute env b (distributed env b [x] d)"
  using assms
  by (cases x) (auto simp: ready_to_distribute_def distributed_def import_result_constraints_def line_result_def
      inj_eq list_all_iff)

lemma replace_row_snoc:
  "pk r \<notin> pk ` set tbl \<Longrightarrow> pk r' = pk r \<Longrightarrow> replace_row pk r' (tbl @ [r]) = tbl @ [r']"
  by (induction tbl) (auto simp: replace_row_def)

lemma find_snoc: "pk r \<notin> pk ` set tbl \<Longrightarrow> find (\<lambda>x. pk x = pk r) (tbl @ [r]) = Some r"
  by (induction tbl) auto

lemma queue_import_line_ready:
  assumes "ready_to_distribute env b d"
  shows "queue_import_line env b l n d = Inr (distributed env b [(n, l)] d)"
proof -
  let ?t = "dis_imports d" and ?r = "\<lparr> ir_id = dne_result_id env (dis_drawn d), ir_import_batch_id = b,
    ir_status = IR_CREATED, ir_reference_id = None, ir_failure_details = None \<rparr>"
  let ?t' = "?t \<lparr> imp_results := imp_results ?t @ [?r] \<rparr>"
  have new: "ir_id ?r \<notin> ir_id ` set (imp_results ?t)" using assms by (simp add: ready_to_distribute_def)
  have ok: "import_result_constraints ?t (imp_results ?t @ [r])" if "ir_id r = ir_id ?r" "ir_import_batch_id r = b" for r
    using assms that by (auto simp: ready_to_distribute_def import_result_constraints_def)
  then have ok': "import_result_constraints ?t' (imp_results ?t @ [r])" if "ir_id r = ir_id ?r" "ir_import_batch_id r = b" for r
    using that by (simp add: import_result_constraints_def)
  have reg: "register_result ?r ?t = Inr (?r, ?t')"
    using new ok [of ?r] by (simp add: register_result_def repo_add_def flush_and_read_def)
  show ?thesis
  proof (cases "dne_too_large env l")
    case None
    with reg show ?thesis
      by (cases d) (simp add: queue_import_line_def Let_def distributed_def line_result_def line_messages_def)
  next
    case (Some detail)
    let ?r' = "?r \<lparr> ir_status := IR_FAILED, ir_failure_details := Some detail \<rparr>"
    have "update_import_result (\<lambda>r. r \<lparr> ir_status := IR_FAILED, ir_failure_details := Some detail \<rparr>) (ir_id ?r) ?t' =
        Inr (?r', ?t \<lparr> imp_results := imp_results ?t @ [?r'] \<rparr>)"
      using find_snoc [of ir_id ?r, OF new] replace_row_snoc [of ir_id ?r, OF new, of ?r'] ok' [of ?r']
      by (simp add: update_import_result_def repo_update_by_pk_def flush_and_read_def)
    with reg Some show ?thesis
      by (cases d) (simp add: queue_import_line_def Let_def distributed_def line_result_def line_messages_def)
  qed
qed

lemma distribute_lines_ready:
  "ready_to_distribute env b d \<Longrightarrow>
     distribute_lines env b n n lines d = Inr (n + length lines, distributed env b (file_lines (n + 1) lines) d)"
proof (induction lines arbitrary: n d)
  case (Cons x xs)
  show ?case
  proof (cases "py_strip x = []")
    case True
    with Cons.IH [OF Cons.prems, of "n + 1"] show ?thesis
      unfolding distribute_lines_step by (simp add: file_lines_def)
  next
    case False
    with Cons.IH [OF distributed_ready [OF Cons.prems], of "n + 1"] queue_import_line_ready [OF Cons.prems]
      distributed_Cons [of env b "(n + 1, py_strip x)" "file_lines (n + 2) xs" d]
    show ?thesis
      unfolding distribute_lines_step by (simp add: file_lines_def)
  qed
qed (simp add: file_lines_def distributed_Nil)

section \<open>What the task leaves\<close>

lemma update_import_result_found:
  assumes found: "find (\<lambda>r. ir_id r = pk) (imp_results t) = Some r"
    and ok: "import_result_constraints t (imp_results t)"
    and keys: "ir_id (update r) = ir_id r" "ir_import_batch_id (update r) = ir_import_batch_id r"
  shows "update_import_result update pk t =
           Inr (update r, t \<lparr> imp_results := replace_row ir_id (update r) (imp_results t) \<rparr>)"
proof -
  have r: "r \<in> set (imp_results t)" using found by (auto simp: find_Some_set)
  have "import_result_constraints t (replace_row ir_id (update r) (imp_results t))"
    using ok r keys by (auto simp: import_result_constraints_def list_all_iff set_replace_row split: if_splits)
  with found show ?thesis by (simp add: update_import_result_def repo_update_by_pk_def flush_and_read_def)
qed

lemma ingest_update_keys [simp]:
  "ir_id (ingest_update outcome r) = ir_id r"
  "ir_import_batch_id (ingest_update outcome r) = ir_import_batch_id r"
  by (cases "(outcome, r)" rule: ingest_update.cases; simp)+

lemma import_result_constraints_replace:
  assumes "import_result_constraints t (imp_results t)" "r \<in> set (imp_results t)"
    "ir_id r' = ir_id r" "ir_import_batch_id r' = ir_import_batch_id r"
  shows "import_result_constraints (t \<lparr> imp_results := rows \<rparr>) (replace_row ir_id r' (imp_results t))"
  using assms by (auto simp: import_result_constraints_def list_all_iff set_replace_row split: if_splits)

lemma import_reference_settles:
  assumes found: "find (\<lambda>r. ir_id r = pk) (imp_results (ims_imports st)) = Some r"
    and ok: "import_result_constraints (ims_imports st) (imp_results (ims_imports st))"
    and run: "ingest content n (ims_system st) = Some (outcome, sys)"
    and r': "r' = ingest_update outcome (r \<lparr> ir_status := IR_STARTED \<rparr>)"
  shows "import_reference ingest pk content n st =
           Some (Inr (r', ingest_decision_id outcome),
             st \<lparr> ims_imports := ims_imports st \<lparr> imp_results := replace_row ir_id r' (imp_results (ims_imports st)) \<rparr>,
                  ims_system := sys \<rparr>)"
proof -
  let ?t = "ims_imports st" and ?r = "r \<lparr> ir_status := IR_STARTED \<rparr>"
  let ?t1 = "?t \<lparr> imp_results := replace_row ir_id ?r (imp_results ?t) \<rparr>"
  have mem: "r \<in> set (imp_results ?t)" "ir_id r = pk" using found find_Some_set by (auto simp: find_Some_iff)
  have start: "update_import_result (\<lambda>r. r \<lparr> ir_status := IR_STARTED \<rparr>) pk ?t = Inr (?r, ?t1)"
    by (rule update_import_result_found [OF found ok]) simp_all
  have found1: "find (\<lambda>x. ir_id x = pk) (imp_results ?t1) = Some ?r" using mem by (auto simp: find_replace_row)
  have ok1: "import_result_constraints ?t1 (imp_results ?t1)"
    using import_result_constraints_replace [OF ok mem(1), of ?r] by simp
  have "update_import_result (ingest_update outcome) pk ?t1 =
      Inr (r', ?t \<lparr> imp_results := replace_row ir_id r' (imp_results ?t) \<rparr>)"
    using update_import_result_found [OF found1 ok1, of "ingest_update outcome"] r'
    by (simp add: replace_row_twice)
  with start run show ?thesis by (simp add: import_reference_def finish_import_def)
qed

text \<open>What one run of the task means for the reference, the result's row and the queue.\<close>

definition import_settled ::
    "ingest_env \<Rightarrow> uuid \<Rightarrow> string \<Rightarrow> nat \<Rightarrow> nat \<Rightarrow> import_result \<Rightarrow> import_message list \<Rightarrow> db \<Rightarrow> db \<Rightarrow> bool" where
  "import_settled env pk content n retries r msgs db db' =
     (let rid = ien_reference_id env in
      case ir_status r of
        IR_RETRYING \<Rightarrow>
          db' = db \<and> msgs = (if retries \<noteq> 0 then [ImportReferenceTask pk content n (retries - 1)] else [])
      | IR_FAILED \<Rightarrow> db' = db \<and> msgs = []
      | IR_CREATED \<Rightarrow> False
      | IR_STARTED \<Rightarrow> False
      | _ \<Rightarrow> ir_reference_id r = Some rid \<and>
             ((msgs = [] \<and> exact_duplicate_registered rid db') \<or>
              (\<exists>d. msgs = [ProcessDecisionTask d] \<and> pending_registered d rid db')))"

lemma ingest_update_settled:
  assumes "case outcome of
             Inr res \<Rightarrow> accounted_for env res db db'
           | Inl _ \<Rightarrow> db' = db"
    and r': "r' = ingest_update outcome (r \<lparr> ir_status := IR_STARTED \<rparr>)"
    and msgs: "msgs = (if ir_status r' = IR_RETRYING
                       then if retries \<noteq> 0 then [ImportReferenceTask pk content n (retries - 1)] else []
                       else case ingest_decision_id outcome of None \<Rightarrow> [] | Some d \<Rightarrow> [ProcessDecisionTask d])"
  shows "import_settled env pk content n retries r' msgs db db'"
proof (cases outcome)
  case (Inl e)
  with assms show ?thesis by (cases e) (simp_all add: import_settled_def)
next
  case (Inr res)
  with assms show ?thesis
    by (cases "rcr_reference res"; cases "rcr_duplicate_decision_id res")
      (auto simp: import_settled_def accounted_for_def Let_def)
qed

lemma import_task_settles:
  assumes step: "in_step (ims_system st)" and fresh: "ingest_fresh env (sys_db (ims_system st))"
    and ok: "import_result_constraints (ims_imports st) (imp_results (ims_imports st))"
    and found: "find (\<lambda>r. ir_id r = pk) (imp_results (ims_imports st)) = Some r"
    and open_result: "\<not> terminal_result_status (ir_status r)"
  obtains msgs st' r' where
    "import_reference_task (ingest_reference env) pk content n retries st = Some (Inr msgs, st')"
    "ir_id r' = pk" "ir_import_batch_id r' = ir_import_batch_id r"
    "imp_results (ims_imports st') = replace_row ir_id r' (imp_results (ims_imports st))"
    "import_settled env pk content n retries r' msgs (sys_db (ims_system st)) (sys_db (ims_system st'))"
proof -
  obtain outcome sys where run: "ingest_reference env content n (ims_system st) = Some (outcome, sys)"
    and o: "case outcome of
              Inr r \<Rightarrow> in_step sys \<and> accounted_for env r (sys_db (ims_system st)) (sys_db sys)
            | Inl _ \<Rightarrow> sys_db sys = sys_db (ims_system st) \<and> sys_work sys = sys_work (ims_system st)"
    by (rule ingest_outcome [OF step fresh])
  define r' where r': "r' = ingest_update outcome (r \<lparr> ir_status := IR_STARTED \<rparr>)"
  note i = import_reference_settles [where ingest = "ingest_reference env", OF found ok run r']
  have pk: "ir_id r = pk" using found by (auto simp: find_Some_iff)
  have g: "repo_get_by_pk ir_id (imp_results (ims_imports st)) pk = Inr r" using found by (simp add: repo_get_by_pk_Inr_iff)
  show thesis
    by (rule that [where r' = r' and st' = "st \<lparr> ims_imports := ims_imports st
          \<lparr> imp_results := replace_row ir_id r' (imp_results (ims_imports st)) \<rparr>, ims_system := sys \<rparr>",
          OF _ _ _ _ ingest_update_settled [OF _ r' refl]])
      (use g open_result i pk r' o in \<open>simp_all add: import_reference_task_def split: sum.splits\<close>)
qed

section \<open>Properties\<close>


definition sample_import_db :: import_db where
  "sample_import_db = \<lparr> imp_records = [], imp_batches = [\<lparr> ibr_id = 3, ibr_import_record_id = 1, ibr_storage_url = ''u'' \<rparr>],
     imp_results = [\<lparr> ir_id = 8, ir_import_batch_id = 3, ir_status = IR_CREATED, ir_reference_id = None, ir_failure_details = None \<rparr>] \<rparr>"

definition sample_distribution_env :: distribution_env where
  "sample_distribution_env = \<lparr> dne_result_id = (\<lambda>n. n + 100),
     dne_too_large = (\<lambda>l. if 3 < length l then Some ''too large'' else None), dne_retry_count = 2 \<rparr>"

definition sample_import_batch :: import_batch where
  "sample_import_batch = \<lparr> ib_id = 3, ib_storage_url = ''u'', ib_status = None, ib_import_record_id = 1, ib_import_results = None \<rparr>"



definition sample_import_state :: "unit import_state" where
  "sample_import_state = \<lparr> ims_imports = sample_import_db, ims_system = sample_system sample_db \<rparr>"


text \<open>
  A result whose last retry meets a conflict in the database is never settled: the
  task queues nothing and leaves the result retrying, although the code logs that it marks it as
  failed. No message for it is left, so its batch is reported as started from then on.
\<close>

lemma exhausted_import_stays_open:
  assumes "find (\<lambda>r. ir_id r = pk) (imp_results (ims_imports st)) = Some r"
    and "import_result_constraints (ims_imports st) (imp_results (ims_imports st))"
    and "\<not> terminal_result_status (ir_status r)"
    and "ingest content n (ims_system st) = Some (Inl SQLIntegrityError, sys)"
  shows "\<exists>st'. import_reference_task ingest pk content n 0 st = Some (Inr [], st') \<and>
           IR_RETRYING \<in> get_import_result_status_set (ims_imports st') (ir_import_batch_id r) \<and>
           batch_status_from_set (get_import_result_status_set (ims_imports st') (ir_import_batch_id r)) = Inr IBS_STARTED"
proof -
  let ?r = "r \<lparr> ir_status := IR_RETRYING \<rparr>"
  let ?st = "st \<lparr> ims_imports := ims_imports st \<lparr> imp_results := replace_row ir_id ?r (imp_results (ims_imports st)) \<rparr>,
                 ims_system := sys \<rparr>"
  have "r \<in> set (imp_results (ims_imports st))" using assms(1) by (auto simp: find_Some_set)
  then have "?r \<in> set (imp_results (ims_imports ?st))" by (simp add: set_replace_row)
  then have mem: "IR_RETRYING \<in> get_import_result_status_set (ims_imports ?st) (ir_import_batch_id r)"
    unfolding get_import_result_status_set_def by force
  then have "batch_status_from_set (get_import_result_status_set (ims_imports ?st) (ir_import_batch_id r)) = Inr IBS_STARTED"
    by (auto simp: batch_status_from_set_def)
  moreover have "import_reference_task ingest pk content n 0 st = Some (Inr [], ?st)"
    using import_reference_settles [where ingest = ingest and r' = ?r, OF assms(1,2,4)] assms(1,3)
    by (simp add: import_reference_task_def repo_get_by_pk_def)
  ultimately show ?thesis using mem by blast
qed

lemma exhausted_import_stays_open_witness:
  "\<exists>st'. import_reference_task (\<lambda>_ _ s. Some (Inl SQLIntegrityError, s)) 8 ''line'' 1 0 sample_import_state = Some (Inr [], st') \<and>
     batch_status_from_set (get_import_result_status_set (ims_imports st') 3) = Inr IBS_STARTED"
proof -
  let ?r = "\<lparr> ir_id = 8, ir_import_batch_id = 3, ir_status = IR_CREATED, ir_reference_id = None, ir_failure_details = None \<rparr>"
  have "find (\<lambda>r. ir_id r = 8) (imp_results (ims_imports sample_import_state)) = Some ?r"
    "import_result_constraints (ims_imports sample_import_state) (imp_results (ims_imports sample_import_state))"
    by (simp_all add: sample_import_state_def sample_import_db_def import_result_constraints_def)
  from exhausted_import_stays_open [OF this, of "\<lambda>_ _ s. Some (Inl SQLIntegrityError, s)" "''line''" 1] show ?thesis
    by (auto simp: terminal_result_status_def)
qed


end
