(* ===== verification/Access_Control.thy ===== *)
theory Access_Control
  imports Reference_Models Sql_Repository
begin

text \<open>
  Entitlements and what they allow (\<^verbatim>\<open>src/app/core/entitlements.py\<close>,
  \<^verbatim>\<open>src/app/domain/references/services/access_control_service.py\<close>,
  \<^verbatim>\<open>src/app/domain/robots/services/access_control_service.py\<close>), and the robots that hold them
  (\<^verbatim>\<open>src/app/domain/robots\<close>: models, repository, service).

  A new secret comes from \<^verbatim>\<open>secrets.token_hex\<close> and
  is an argument of the operations that draw one.
\<close>

section \<open>Entitlements\<close>

datatype entitlement = ENT_FULL_TEXT | ENT_RAW_ENHANCEMENT_WRITER | ENT_ROBOT_ENTITLEMENT_WRITER

definition redact_full_text :: "entitlement set \<Rightarrow> enhancement list \<Rightarrow> enhancement list" where
  "redact_full_text entitlements es =
     (if ENT_FULL_TEXT \<in> entitlements then es
      else filter (\<lambda>e. content_type (enh_content e) \<noteq> ET_FULL_TEXT) es)"

definition redact_reference :: "entitlement set \<Rightarrow> 'r reference_t \<Rightarrow> 'r reference_t" where
  "redact_reference entitlements r =
     r \<lparr> ref_enhancements := Some (redact_full_text entitlements (opt_list (ref_enhancements r))) \<rparr>"

definition may_write_raw_enhancements :: "entitlement set \<Rightarrow> bool" where
  "may_write_raw_enhancements entitlements = (ENT_RAW_ENHANCEMENT_WRITER \<in> entitlements)"

definition resolve_robot_entitlements ::
    "entitlement set \<Rightarrow> entitlement set \<Rightarrow> entitlement set \<Rightarrow> entitlement set result" where
  "resolve_robot_entitlements holder submitted existing =
     (if ENT_ROBOT_ENTITLEMENT_WRITER \<in> holder then Inr submitted
      else if submitted = {} \<or> submitted = existing then Inr existing
      else Inl (AuthError 403))"

section \<open>Robots\<close>

record robot =
  rob_id :: uuid
  rob_description :: string
  rob_name :: string
  rob_owner :: string
  rob_entitlements :: "entitlement set"
  rob_client_secret :: "string option"

definition get_client_secret :: "robot \<Rightarrow> string result" where
  "get_client_secret r =
     (case rob_client_secret r of
        Some (c # cs) \<Rightarrow> Inr (c # cs)
      | _ \<Rightarrow> Inl PyRuntimeError)"

record robot_row =
  rrow_id :: uuid
  rrow_client_secret :: string
  rrow_description :: string
  rrow_name :: string
  rrow_owner :: string
  rrow_entitlements :: "entitlement set"

definition robot_constraints :: "robot_row list \<Rightarrow> bool" where
  "robot_constraints rows = (distinct (map rrow_id rows) \<and> distinct (map rrow_name rows))"

definition robot_from_domain :: "robot \<Rightarrow> robot_row result" where
  "robot_from_domain r =
     res_bind (get_client_secret r) (\<lambda>secret. Inr
       \<lparr> rrow_id = rob_id r, rrow_client_secret = secret, rrow_description = rob_description r,
         rrow_name = rob_name r, rrow_owner = rob_owner r, rrow_entitlements = rob_entitlements r \<rparr>)"

definition robot_to_domain :: "robot_row \<Rightarrow> robot" where
  "robot_to_domain row =
     \<lparr> rob_id = rrow_id row, rob_description = rrow_description row, rob_name = rrow_name row, rob_owner = rrow_owner row,
       rob_entitlements = rrow_entitlements row, rob_client_secret = Some (rrow_client_secret row) \<rparr>"

definition robots_get_by_pk :: "robot_row list \<Rightarrow> uuid \<Rightarrow> robot result" where
  "robots_get_by_pk rows pk = res_bind (repo_get_by_pk rrow_id rows pk) (\<lambda>row. Inr (robot_to_domain row))"

text \<open>The repository's own \<^verbatim>\<open>merge\<close>: three columns of a stored row are written, the others kept.\<close>

definition robots_merge :: "robot \<Rightarrow> robot_row list \<Rightarrow> (robot \<times> robot_row list) result" where
  "robots_merge r rows =
     res_bind (repo_update_by_pk rrow_id robot_constraints (\<lambda>_. True)
       (\<lambda>row. row \<lparr> rrow_description := rob_description r, rrow_name := rob_name r, rrow_owner := rob_owner r \<rparr>)
       (rob_id r) rows) (\<lambda>(row, rows'). Inr (robot_to_domain row, rows'))"

definition get_robot_auth_info :: "robot_row list \<Rightarrow> uuid \<Rightarrow> (string \<times> entitlement set) result" where
  "get_robot_auth_info rows robot_id =
     res_bind (robots_get_by_pk rows robot_id) (\<lambda>robot.
     res_bind (get_client_secret robot) (\<lambda>secret. Inr (secret, rob_entitlements robot)))"

definition add_robot ::
    "string \<Rightarrow> entitlement set \<Rightarrow> robot \<Rightarrow> robot_row list \<Rightarrow> (robot \<times> robot_row list) result" where
  "add_robot secret holder robot rows =
     res_bind (resolve_robot_entitlements holder (rob_entitlements robot) {}) (\<lambda>ents.
     res_bind (robot_from_domain (robot \<lparr> rob_entitlements := ents, rob_client_secret := Some secret \<rparr>)) (\<lambda>row.
     res_bind (repo_add rrow_id robot_constraints (\<lambda>_. True) row rows)
       (\<lambda>(row', rows'). Inr (robot_to_domain row', rows'))))"

definition update_robot :: "entitlement set \<Rightarrow> robot \<Rightarrow> robot_row list \<Rightarrow> (robot \<times> robot_row list) result" where
  "update_robot holder robot rows =
     res_bind (robots_get_by_pk rows (rob_id robot)) (\<lambda>existing.
     res_bind (resolve_robot_entitlements holder (rob_entitlements robot) (rob_entitlements existing)) (\<lambda>ents.
       robots_merge (robot \<lparr> rob_entitlements := ents \<rparr>) rows))"

definition cycle_robot_secret :: "string \<Rightarrow> uuid \<Rightarrow> robot_row list \<Rightarrow> (robot \<times> robot_row list) result" where
  "cycle_robot_secret secret robot_id rows =
     res_bind (repo_update_by_pk rrow_id robot_constraints (\<lambda>_. True)
       (\<lambda>row. row \<lparr> rrow_client_secret := secret \<rparr>) robot_id rows)
       (\<lambda>(row, rows'). Inr (robot_to_domain row, rows'))"

section \<open>Runs of the robot service\<close>

datatype robot_call =
    AddRobot string "entitlement set" robot
  | UpdateRobot "entitlement set" robot
  | CycleSecret string uuid

fun robot_call_run :: "robot_call \<Rightarrow> robot_row list \<Rightarrow> (robot \<times> robot_row list) result" where
  "robot_call_run (AddRobot secret holder r) rows = add_robot secret holder r rows"
| "robot_call_run (UpdateRobot holder r) rows = update_robot holder r rows"
| "robot_call_run (CycleSecret secret pk) rows = cycle_robot_secret secret pk rows"

text \<open>A call that raises is rolled back.\<close>

fun robot_calls_run :: "robot_call list \<Rightarrow> robot_row list \<Rightarrow> robot_row list" where
  "robot_calls_run [] rows = rows"
| "robot_calls_run (c # cs) rows =
     robot_calls_run cs (case robot_call_run c rows of Inl _ \<Rightarrow> rows | Inr (_, rows') \<Rightarrow> rows')"

text \<open>What each row has been granted: the entitlements an entitlement writer submitted when the robot was added.\<close>

definition granted_by :: "robot_call list \<Rightarrow> uuid \<Rightarrow> entitlement \<Rightarrow> bool" where
  "granted_by calls pk e =
     list_ex (\<lambda>c. case c of
       AddRobot _ holder r \<Rightarrow>
         rob_id r = pk \<and> e \<in> rob_entitlements r \<and> ENT_ROBOT_ENTITLEMENT_WRITER \<in> holder
     | _ \<Rightarrow> False) calls"

definition robot_rows_ok :: "robot_row list \<Rightarrow> bool" where
  "robot_rows_ok rows = (robot_constraints rows \<and> list_all (\<lambda>r. rrow_client_secret r \<noteq> []) rows)"

lemma resolve_Inr:
  "resolve_robot_entitlements holder submitted existing = Inr ents \<Longrightarrow>
     ents = existing \<or> (ENT_ROBOT_ENTITLEMENT_WRITER \<in> holder \<and> ents = submitted)"
  by (auto simp: resolve_robot_entitlements_def split: if_splits)

lemma add_robot_Inr:
  assumes "add_robot secret holder r rows = Inr (r', rows')"
  obtains row where "rows' = rows @ [row]" "rrow_id row = rob_id r" "rrow_client_secret row = secret" "secret \<noteq> []"
    "robot_constraints rows'" "r' = robot_to_domain row"
    "rrow_entitlements row = {} \<or> (ENT_ROBOT_ENTITLEMENT_WRITER \<in> holder \<and> rrow_entitlements row = rob_entitlements r)"
proof -
  from assms obtain ents row where
    e: "resolve_robot_entitlements holder (rob_entitlements r) {} = Inr ents"
    and f: "robot_from_domain (r \<lparr> rob_entitlements := ents, rob_client_secret := Some secret \<rparr>) = Inr row"
    and a: "robot_constraints rows'" "rows' = rows @ [row]" "r' = robot_to_domain row"
    by (auto simp: add_robot_def repo_add_def res_bind_Inr_iff flush_and_read_Inr_iff split: if_splits)
  from f have "rrow_id row = rob_id r" "rrow_client_secret row = secret" "secret \<noteq> []" "rrow_entitlements row = ents"
    by (auto simp: robot_from_domain_def get_client_secret_def res_bind_Inr_iff split: list.splits)
  with a resolve_Inr [OF e] that show thesis by blast
qed

lemma repo_update_rows:
  assumes "repo_update_by_pk pk_of constraints (\<lambda>_. True) update pk rows = Inr (row, rows')"
    and "distinct (map pk_of rows)" and "\<And>x. pk_of (update x) = pk_of x"
  shows "rows' = map (\<lambda>x. if pk_of x = pk then update x else x) rows" "constraints rows'"
    "\<exists>x \<in> set rows. pk_of x = pk \<and> row = update x"
proof -
  from assms(1) obtain x where x: "find (\<lambda>x. pk_of x = pk) rows = Some x" "row = update x"
    "rows' = replace_row pk_of (update x) rows" "constraints rows'"
    by (auto simp: repo_update_by_pk_def flush_and_read_Inr_iff split: option.splits)
  have mem: "x \<in> set rows" "pk_of x = pk" using find_Some_set [OF x(1)] by auto
  have "y = x" if "y \<in> set rows" "pk_of y = pk" for y
    using that mem assms(2) by (metis distinct_map inj_on_eq_iff)
  then show "rows' = map (\<lambda>x. if pk_of x = pk then update x else x) rows"
    unfolding x(3) replace_row_def using mem(2) assms(3) by (auto intro: map_cong)
  show "constraints rows'" by (rule x(4))
  show "\<exists>x \<in> set rows. pk_of x = pk \<and> row = update x" using mem x(2) by blast
qed

lemma update_robot_Inr:
  assumes "update_robot holder r rows = Inr (r', rows')" "robot_rows_ok rows"
  shows "rows' = map (\<lambda>x. if rrow_id x = rob_id r
           then x \<lparr> rrow_description := rob_description r, rrow_name := rob_name r, rrow_owner := rob_owner r \<rparr> else x) rows"
    "robot_constraints rows'"
    "\<exists>x \<in> set rows. rrow_id x = rob_id r \<and> rob_entitlements r' = rrow_entitlements x"
proof -
  from assms(1) obtain row where
    u: "repo_update_by_pk rrow_id robot_constraints (\<lambda>_. True)
       (\<lambda>row. row \<lparr> rrow_description := rob_description r, rrow_name := rob_name r, rrow_owner := rob_owner r \<rparr>)
       (rob_id r) rows = Inr (row, rows')" and r': "r' = robot_to_domain row"
    by (auto simp: update_robot_def robots_merge_def res_bind_Inr_iff)
  have d: "distinct (map rrow_id rows)" using assms(2) by (simp add: robot_rows_ok_def robot_constraints_def)
  note rows = repo_update_rows [OF u d, simplified]
  show "rows' = map (\<lambda>x. if rrow_id x = rob_id r
           then x \<lparr> rrow_description := rob_description r, rrow_name := rob_name r, rrow_owner := rob_owner r \<rparr> else x) rows"
    "robot_constraints rows'"
    "\<exists>x \<in> set rows. rrow_id x = rob_id r \<and> rob_entitlements r' = rrow_entitlements x"
    using rows r' by (auto simp: robot_to_domain_def)
qed

lemma distinct_map_override:
  "distinct (map f xs) \<Longrightarrow> v \<notin> f ` (set xs - {y}) \<Longrightarrow> distinct (map (\<lambda>x. if x = y then v else f x) xs)"
proof (induction xs)
  case (Cons x xs)
  have "v \<notin> f ` (set xs - {y})" using Cons.prems(2) by auto
  with Cons have IH: "distinct (map (\<lambda>x. if x = y then v else f x) xs)" by simp
  have "(if x = y then v else f x) \<noteq> (if z = y then v else f z)" if "z \<in> set xs" for z
    using Cons.prems that by (cases "x = y"; cases "z = y") auto
  then have "(if x = y then v else f x) \<notin> set (map (\<lambda>x. if x = y then v else f x) xs)" unfolding set_map by blast
  with IH show ?case by simp
qed simp

lemma cycle_secret_Inr:
  assumes "cycle_robot_secret secret pk rows = Inr (r', rows')" "robot_rows_ok rows"
  shows "rows' = map (\<lambda>x. if rrow_id x = pk then x \<lparr> rrow_client_secret := secret \<rparr> else x) rows" "robot_constraints rows'"
proof -
  from assms(1) obtain row where
    u: "repo_update_by_pk rrow_id robot_constraints (\<lambda>_. True) (\<lambda>row. row \<lparr> rrow_client_secret := secret \<rparr>) pk rows = Inr (row, rows')"
    by (auto simp: cycle_robot_secret_def res_bind_Inr_iff)
  have d: "distinct (map rrow_id rows)" using assms(2) by (simp add: robot_rows_ok_def robot_constraints_def)
  show "rows' = map (\<lambda>x. if rrow_id x = pk then x \<lparr> rrow_client_secret := secret \<rparr> else x) rows" "robot_constraints rows'"
    using repo_update_rows [OF u d, simplified] by auto
qed

text \<open>One call: rows keep their entitlements, and a new row has only what an entitlement writer gave it.\<close>

definition heads_kept :: "robot_call \<Rightarrow> robot_row list \<Rightarrow> robot_row list \<Rightarrow> bool" where
  "heads_kept c rows rows' =
     (\<forall>row \<in> set rows'.
        (\<exists>old \<in> set rows. rrow_id old = rrow_id row \<and> rrow_entitlements old = rrow_entitlements row) \<or>
        (\<forall>e \<in> rrow_entitlements row. granted_by [c] (rrow_id row) e))"

definition draws_secret :: "robot_call \<Rightarrow> bool" where
  "draws_secret c = (case c of AddRobot s _ _ \<Rightarrow> s \<noteq> [] | CycleSecret s _ \<Rightarrow> s \<noteq> [] | UpdateRobot _ _ \<Rightarrow> True)"

lemma robot_call_step:
  assumes ok: "robot_rows_ok rows" and run: "robot_call_run c rows = Inr (r', rows')" and s: "draws_secret c"
  shows "robot_rows_ok rows' \<and> heads_kept c rows rows'"
proof (cases c)
  case (AddRobot secret holder r)
  from run AddRobot have "add_robot secret holder r rows = Inr (r', rows')" by simp
  then obtain row where "rows' = rows @ [row]" "rrow_id row = rob_id r" "rrow_client_secret row = secret" "secret \<noteq> []"
    "robot_constraints rows'"
    "rrow_entitlements row = {} \<or> (ENT_ROBOT_ENTITLEMENT_WRITER \<in> holder \<and> rrow_entitlements row = rob_entitlements r)"
    by (rule add_robot_Inr)
  with ok AddRobot show ?thesis by (auto simp: robot_rows_ok_def heads_kept_def granted_by_def)
next
  case (UpdateRobot holder r)
  with run have "update_robot holder r rows = Inr (r', rows')" by simp
  from update_robot_Inr(1,2) [OF this ok] ok show ?thesis
    by (auto simp: robot_rows_ok_def heads_kept_def list_all_iff)
next
  case (CycleSecret secret pk)
  with run have "cycle_robot_secret secret pk rows = Inr (r', rows')" by simp
  from cycle_secret_Inr [OF this ok] ok s CycleSecret show ?thesis
    by (auto simp: robot_rows_ok_def heads_kept_def list_all_iff draws_secret_def)
qed

lemma granted_by_append: "granted_by (cs @ ds) pk e \<longleftrightarrow> granted_by cs pk e \<or> granted_by ds pk e"
  by (simp add: granted_by_def)

lemma robot_calls_granted:
  assumes "robot_rows_ok rows" "list_all draws_secret calls"
    "\<forall>row \<in> set rows. \<forall>e \<in> rrow_entitlements row. granted_by before (rrow_id row) e"
  shows "robot_rows_ok (robot_calls_run calls rows) \<and>
    (\<forall>row \<in> set (robot_calls_run calls rows). \<forall>e \<in> rrow_entitlements row. granted_by (before @ calls) (rrow_id row) e)"
  using assms
proof (induction calls arbitrary: rows before)
  case (Cons c cs)
  define rows1 where "rows1 = (case robot_call_run c rows of Inl _ \<Rightarrow> rows | Inr (_, rows') \<Rightarrow> rows')"
  have step: "robot_rows_ok rows1 \<and> heads_kept c rows rows1"
  proof (cases "robot_call_run c rows")
    case (Inl e)
    then show ?thesis using Cons.prems(1) by (auto simp: rows1_def heads_kept_def)
  next
    case (Inr q)
    then show ?thesis using robot_call_step [OF Cons.prems(1), of c] Cons.prems(2) by (cases q) (simp add: rows1_def)
  qed
  have "granted_by (before @ [c]) (rrow_id row) e" if "row \<in> set rows1" "e \<in> rrow_entitlements row" for row e
    using step that Cons.prems(3) unfolding heads_kept_def granted_by_append by metis
  then show ?case
    using Cons.IH [of rows1 "before @ [c]"] step Cons.prems(2) by (simp add: rows1_def)
qed simp

section \<open>Properties\<close>


definition sample_robot :: "uuid \<Rightarrow> string \<Rightarrow> entitlement set \<Rightarrow> robot" where
  "sample_robot i n ents =
     \<lparr> rob_id = i, rob_description = ''d'', rob_name = n, rob_owner = ''o'', rob_entitlements = ents, rob_client_secret = None \<rparr>"

definition sample_robot_calls :: "robot_call list" where
  "sample_robot_calls =
     [AddRobot ''k'' {ENT_ROBOT_ENTITLEMENT_WRITER} (sample_robot 1 ''a'' {ENT_FULL_TEXT}),
      AddRobot ''k'' {} (sample_robot 2 ''b'' {ENT_FULL_TEXT}),
      AddRobot ''k'' {} (sample_robot 3 ''c'' {}), CycleSecret ''m'' 3]"


text \<open>
  Entitlements cannot be revoked: an update of a robot by a principal who may write
  entitlements succeeds, whatever entitlements it submits, and leaves the entitlements of every
  robot as they were, so the robot that gave them up still authenticates with them. The access
  control service means such a principal to set entitlements freely, an empty set included.
\<close>

lemma entitlements_not_revoked:
  assumes "robot_rows_ok rows" and "row \<in> set rows" and "rrow_id row = rob_id r"
    and "rob_name r \<notin> rrow_name ` (set rows - {row})" and "ENT_ROBOT_ENTITLEMENT_WRITER \<in> holder"
  shows "\<exists>r' rows'. update_robot holder r rows = Inr (r', rows') \<and>
           map rrow_entitlements rows' = map rrow_entitlements rows \<and>
           get_robot_auth_info rows' (rob_id r) = Inr (rrow_client_secret row, rrow_entitlements row)"
proof -
  let ?u = "\<lambda>x. x \<lparr> rrow_description := rob_description r, rrow_name := rob_name r, rrow_owner := rob_owner r \<rparr>"
  let ?rows = "replace_row rrow_id (?u row) rows"
  have d: "distinct (map rrow_id rows)" "distinct (map rrow_name rows)" "rrow_client_secret row \<noteq> []"
    using assms(1,2) by (auto simp: robot_rows_ok_def robot_constraints_def list_all_iff)
  have find: "find (\<lambda>x. rrow_id x = rob_id r) rows = Some row" using find_unique [OF d(1) assms(2)] assms(3) by simp
  have others: "x = row" if "x \<in> set rows" "rrow_id x = rrow_id row" for x
    using that d(1) assms(2) by (metis distinct_map inj_on_eq_iff)
  then have eq: "?rows = map (\<lambda>x. if x = row then ?u x else x) rows"
    unfolding replace_row_def by (auto intro!: map_cong)
  have "map rrow_name ?rows = map (\<lambda>x. if x = row then rob_name r else rrow_name x) rows" unfolding eq by simp
  with distinct_map_override [OF d(2) assms(4)] have names: "distinct (map rrow_name ?rows)" by simp
  have upd: "update_robot holder r rows = Inr (robot_to_domain (?u row), ?rows)"
    using find assms(3,5) d(1) names
    by (simp add: update_robot_def robots_get_by_pk_def repo_get_by_pk_def resolve_robot_entitlements_def robots_merge_def
        repo_update_by_pk_def flush_and_read_def robot_constraints_def)
  moreover have "map rrow_entitlements ?rows = map rrow_entitlements rows" unfolding eq by simp
  moreover have "find (\<lambda>x. rrow_id x = rob_id r) ?rows = Some (?u row)"
    using assms(2) image_eqI [of "rob_id r" rrow_id row "set rows"] assms(3) by (simp add: find_replace_row)
  then have "get_robot_auth_info ?rows (rob_id r) = Inr (rrow_client_secret row, rrow_entitlements row)"
    using d(3) by (cases "rrow_client_secret row")
      (simp_all add: get_robot_auth_info_def robots_get_by_pk_def repo_get_by_pk_def robot_to_domain_def get_client_secret_def)
  ultimately show ?thesis by blast
qed

lemma entitlements_not_revoked_witness:
  "\<exists>r' rows'. update_robot {ENT_ROBOT_ENTITLEMENT_WRITER} (sample_robot 1 ''a'' {}) (robot_calls_run sample_robot_calls []) = Inr (r', rows') \<and>
     get_robot_auth_info rows' 1 = Inr (''k'', {ENT_FULL_TEXT})"
proof -
  let ?r1 = "\<lparr> rrow_id = 1, rrow_client_secret = ''k'', rrow_description = ''d'', rrow_name = ''a'', rrow_owner = ''o'', rrow_entitlements = {ENT_FULL_TEXT} \<rparr>"
  let ?r3 = "\<lparr> rrow_id = 3, rrow_client_secret = ''m'', rrow_description = ''d'', rrow_name = ''c'', rrow_owner = ''o'', rrow_entitlements = {} \<rparr>"
  have run: "robot_calls_run sample_robot_calls [] = [?r1, ?r3]" by code_simp
  have "robot_rows_ok [?r1, ?r3]" by (simp add: robot_rows_ok_def robot_constraints_def)
  from entitlements_not_revoked [OF this, of ?r1 "sample_robot 1 ''a'' {}" "{ENT_ROBOT_ENTITLEMENT_WRITER}"] show ?thesis
    unfolding run by (auto simp: sample_robot_def)
qed

end
