(* ===== verification/Robot_Results.thy ===== *)
theory Robot_Results
  imports Reference_Ingestion Access_Control
begin

text \<open>
  Importing the result file of a robot: \<^verbatim>\<open>EnhancementResultValidator.from_raw\<close>
  (\<^verbatim>\<open>src/app/domain/references/models/validators.py\<close>), the generator
  \<^verbatim>\<open>process_robot_enhancement_batch_result\<close> of \<^verbatim>\<open>services/enhancement_service.py\<close>, and the handler
  \<^verbatim>\<open>handle_enhancement_result_entry\<close> it calls (\<^verbatim>\<open>service.py\<close>).

  All the lines of a file are imported in one SQL transaction, and the handler catches every
  exception. An integrity error at a flush rolls the transaction back, after which the session
  refuses every operation; \<open>session\<close> has a value for this state. The entries of the validation file
  are kept as values, without their JSON text.
\<close>

section \<open>Entries of a result file\<close>

record sdk_enhancement =
  se_reference_id :: uuid
  se_source :: string
  se_visibility :: visibility
  se_robot_version :: "string option"
  se_derived_from :: "uuid list option"
  se_content :: sdk_content

record linked_robot_error =
  lre_reference_id :: uuid
  lre_message :: string

datatype result_entry = EntryEnhancement sdk_enhancement | EntryError linked_robot_error

fun entry_reference_id :: "result_entry \<Rightarrow> uuid" where
  "entry_reference_id (EntryEnhancement e) = se_reference_id e"
| "entry_reference_id (EntryError e) = lre_reference_id e"

definition sdk_content_type :: "sdk_content \<Rightarrow> enhancement_type" where
  "sdk_content_type c = (case c of SdkFullText _ \<Rightarrow> ET_FULL_TEXT | SdkContent d \<Rightarrow> content_type d)"

datatype validated_result = EnhancementToAdd sdk_enhancement | RobotError linked_robot_error | ParseFailure string

definition result_from_raw ::
    "(string \<Rightarrow> string + result_entry) \<Rightarrow> string \<Rightarrow> nat \<Rightarrow> uuid list \<Rightarrow> uuid list \<Rightarrow> bool \<Rightarrow> validated_result" where
  "result_from_raw parse entry entry_ref expected processed allow_raw_enhancements =
     (case parse entry of
        Inl exception \<Rightarrow> ParseFailure (''Entry '' @ str_nat entry_ref @ '' could not be parsed: '' @ exception @ ''.'')
      | Inr file_entry \<Rightarrow>
          (let rid = entry_reference_id file_entry;
               refuse = (\<lambda>message. RobotError \<lparr> lre_reference_id = rid, lre_message = message \<rparr>)
           in if rid \<notin> set expected then refuse ''Reference not in batch enhancement request.''
              else if rid \<in> set processed then refuse ''Duplicate reference ID in enhancement result.''
              else (case file_entry of
                      EntryEnhancement e \<Rightarrow>
                        if sdk_content_type (se_content e) = ET_RAW \<and> \<not> allow_raw_enhancements
                        then refuse ''Robot is not entitled to return raw enhancements.''
                        else EnhancementToAdd e
                    | EntryError e \<Rightarrow> RobotError e)))"

record validation_entry =
  rve_reference_id :: "uuid option"
  rve_error :: "string option"

definition sdk_enhancement_to_domain :: "uuid \<Rightarrow> sdk_enhancement \<Rightarrow> enhancement result" where
  "sdk_enhancement_to_domain new_id e =
     res_bind (content_from_sdk (se_content e)) (\<lambda>content. Inr (default_root_id_for_root
       \<lparr> enh_id = new_id, enh_created_at = None, enh_updated_at = None, enh_source = se_source e,
         enh_visibility = se_visibility e, enh_robot_version = se_robot_version e, enh_derived_from = se_derived_from e,
         enh_supersedes = None, enh_root_id = None, enh_content = content, enh_reference_id = se_reference_id e \<rparr>))"

section \<open>The handler\<close>

datatype session = Live db | RolledBack

definition result_status :: "app_error \<Rightarrow> pending_enhancement_status \<times> string" where
  "result_status e =
     (if e = SQLNotFoundError then (PE_FAILED, ''Reference does not exist.'')
      else if e = DuplicateEnhancementError then (PE_DISCARDED, ''Exact duplicate enhancement already exists on reference.'')
      else (PE_FAILED, ''Failed to add enhancement to reference.''))"

fun handle_enhancement_result_entry ::
    "hasher \<Rightarrow> datetime \<Rightarrow> enhancement \<Rightarrow> session \<Rightarrow> (pending_enhancement_status \<times> string) \<times> session" where
  "handle_enhancement_result_entry H now e RolledBack = (result_status PendingRollbackError, RolledBack)"
| "handle_enhancement_result_entry H now e (Live db) =
     (case add_enhancement H now e db of
        Inr (_, db') \<Rightarrow> ((PE_COMPLETED, ''Enhancement added.''), Live db')
      | Inl err \<Rightarrow> (result_status err, if err = SQLIntegrityError then RolledBack else Live db))"

section \<open>The generator\<close>

record result_env =
  rre_parse :: "string \<Rightarrow> string + result_entry"
  rre_vocabulary :: vocabulary_client
  rre_hasher :: hasher
  rre_now :: datetime
  rre_blob :: blob_client
  rre_full_text_max_byte_size :: nat
  rre_enhancement_id :: "nat \<Rightarrow> uuid"
  rre_entitlements :: "entitlement set"
  rre_set_order :: "uuid list \<Rightarrow> uuid list"
  rre_str_exc :: "app_error \<Rightarrow> string"

record progress =
  pro_line_no :: nat
  pro_drawn :: nat
  pro_attempted :: "uuid list"
  pro_processed :: "uuid list"
  pro_imported :: "uuid list"
  pro_successful :: "uuid list"
  pro_discarded :: "uuid list"
  pro_session :: session

definition validate_linked_data_enhancement ::
    "result_env \<Rightarrow> sdk_enhancement \<Rightarrow> linked_robot_error option result" where
  "validate_linked_data_enhancement env e =
     (case se_content e of
        SdkContent (LinkedDataEnhancement ld) \<Rightarrow>
          (case validate_linked_data (rre_vocabulary env) (ld_data ld) (ld_vocabulary_uri ld) of
             Inl VocabularyFetchError \<Rightarrow>
               Inr (Some \<lparr> lre_reference_id = se_reference_id e, lre_message =
                 ''Could not fetch or parse the vocabulary needed to validate this enhancement. This may be transient. Detail: ''
                 @ rre_str_exc env VocabularyFetchError \<rparr>)
           | Inl err \<Rightarrow> Inl err
           | Inr v \<Rightarrow>
               Inr (if ldv_conforms v then None
                    else Some \<lparr> lre_reference_id = se_reference_id e,
                                lre_message = ''LinkedData validation failed: '' @ str_join ''; '' (ldv_errors v) \<rparr>))
      | _ \<Rightarrow> Inl PyTypeError)"

definition process_robot_error_line :: "linked_robot_error \<Rightarrow> progress \<Rightarrow> validation_entry \<times> progress" where
  "process_robot_error_line e p =
     (\<lparr> rve_reference_id = Some (lre_reference_id e), rve_error = Some (lre_message e) \<rparr>,
      p \<lparr> pro_attempted := List.insert (lre_reference_id e) (pro_attempted p) \<rparr>)"

definition process_enhancement_line ::
    "result_env \<Rightarrow> sdk_enhancement \<Rightarrow> progress \<Rightarrow> (validation_entry \<times> progress) result" where
  "process_enhancement_line env e p =
     (let rid = se_reference_id e;
          report = (\<lambda>err. \<lparr> rve_reference_id = Some rid, rve_error = err \<rparr>);
          p1 = p \<lparr> pro_attempted := List.insert rid (pro_attempted p), pro_drawn := pro_drawn p + 1 \<rparr>
      in res_bind (sdk_enhancement_to_domain (rre_enhancement_id env (pro_drawn p)) e) (\<lambda>enhancement.
         case (if content_type (enh_content enhancement) = ET_FULL_TEXT
               then store_full_text (rre_blob env) (rre_full_text_max_byte_size env) enhancement
               else Inr enhancement) of
           Inl exc \<Rightarrow> if is_full_text_error exc then Inr (report (Some (rre_str_exc env exc)), p1) else Inl exc
         | Inr stored \<Rightarrow>
             (let ((status, message), s') = handle_enhancement_result_entry (rre_hasher env) (rre_now env) stored (pro_session p1);
                  p2 = p1 \<lparr> pro_session := s' \<rparr>
              in if status = PE_COMPLETED then
                   Inr (report None, p2 \<lparr> pro_imported := List.insert (enh_id stored) (pro_imported p2),
                                          pro_successful := List.insert rid (pro_successful p2) \<rparr>)
                 else if status = PE_DISCARDED then
                   Inr (report (Some message), p2 \<lparr> pro_discarded := List.insert rid (pro_discarded p2) \<rparr>)
                 else Inr (report (Some message), p2))))"

definition process_result_line ::
    "result_env \<Rightarrow> uuid list \<Rightarrow> string \<Rightarrow> progress \<Rightarrow> (validation_entry list \<times> progress) result" where
  "process_result_line env expected line p =
     (if py_strip line = [] then Inr ([], p)
      else
        (let validated = result_from_raw (rre_parse env) line (pro_line_no p) expected (pro_processed p)
                           (may_write_raw_enhancements (rre_entitlements env));
             p1 = p \<lparr> pro_line_no := pro_line_no p + 1 \<rparr>;
             yield = (\<lambda>(entry, p'). ([entry], p'))
         in case validated of
              RobotError e \<Rightarrow>
                Inr (yield (process_robot_error_line e
                  (if lre_reference_id e \<in> set expected
                   then p1 \<lparr> pro_processed := List.insert (lre_reference_id e) (pro_processed p1) \<rparr> else p1)))
            | ParseFailure failure \<Rightarrow> Inr ([\<lparr> rve_reference_id = None, rve_error = Some failure \<rparr>], p1)
            | EnhancementToAdd e \<Rightarrow>
                (let p2 = p1 \<lparr> pro_processed := List.insert (se_reference_id e) (pro_processed p1) \<rparr>
                 in res_bind (if sdk_content_type (se_content e) = ET_LINKED_DATA
                              then validate_linked_data_enhancement env e else Inr None) (\<lambda>ld_error.
                      case ld_error of
                        Some err \<Rightarrow> Inr (yield (process_robot_error_line err p2))
                      | None \<Rightarrow> res_bind (process_enhancement_line env e p2) (\<lambda>r. Inr (yield r))))))"

fun process_result_lines ::
    "result_env \<Rightarrow> uuid list \<Rightarrow> string list \<Rightarrow> progress \<Rightarrow> (validation_entry list \<times> progress) result" where
  "process_result_lines env expected [] p = Inr ([], p)"
| "process_result_lines env expected (line # lines) p =
     res_bind (process_result_line env expected line p) (\<lambda>(entries, p1).
     res_bind (process_result_lines env expected lines p1) (\<lambda>(entries', p2). Inr (entries @ entries', p2)))"

definition missing_entries :: "result_env \<Rightarrow> uuid list \<Rightarrow> progress \<Rightarrow> validation_entry list" where
  "missing_entries env expected p =
     map (\<lambda>r. \<lparr> rve_reference_id = Some r, rve_error = Some ''Requested reference not in enhancement result.'' \<rparr>)
       (rre_set_order env (filter (\<lambda>r. r \<notin> set (pro_attempted p)) expected))"

definition process_robot_enhancement_batch_result ::
    "result_env \<Rightarrow> pending_enhancement list \<Rightarrow> string list \<Rightarrow> db \<Rightarrow> (validation_entry list \<times> progress) result" where
  "process_robot_enhancement_batch_result env pending_enhancements lines db =
     (let expected = remdups (map pe_reference_id pending_enhancements)
      in res_bind (process_result_lines env expected lines
             \<lparr> pro_line_no = 1, pro_drawn = 0, pro_attempted = [], pro_processed = [], pro_imported = [],
               pro_successful = [], pro_discarded = [], pro_session = Live db \<rparr>) (\<lambda>(entries, p).
           Inr (entries @ missing_entries env expected p, p)))"

text \<open>
  The transaction around it: uploading the entries, then writing the file's location to the batch,
  which is refused when the session was rolled back. On an exception the tables are as before.
\<close>

definition import_result_file ::
    "result_env \<Rightarrow> (validation_entry list \<Rightarrow> unit result) \<Rightarrow> pending_enhancement list \<Rightarrow> string list \<Rightarrow> db \<Rightarrow>
     (uuid list \<times> uuid list \<times> validation_entry list) result \<times> db" where
  "import_result_file env upload pending_enhancements lines db =
     (case process_robot_enhancement_batch_result env pending_enhancements lines db of
        Inl e \<Rightarrow> (Inl e, db)
      | Inr (entries, p) \<Rightarrow>
          (case upload entries of
             Inl e \<Rightarrow> (Inl e, db)
           | Inr _ \<Rightarrow>
               (case pro_session p of
                  RolledBack \<Rightarrow> (Inl PendingRollbackError, db)
                | Live db' \<Rightarrow> (Inr (pro_successful p, pro_discarded p, entries), db'))))"

section \<open>Adding one enhancement\<close>

text \<open>What the tables satisfy beyond the decisions: keys are unique and every row is in a chain.\<close>

definition aggregates_ok :: "db \<Rightarrow> bool" where
  "aggregates_ok db =
     (db_ok db \<and> distinct (map enh_id (db_enhancements db)) \<and> distinct (map lei_id (db_identifiers db)) \<and>
      list_all (\<lambda>e. enh_root_id e \<noteq> None) (db_enhancements db))"

lemma upsert_row_same: "distinct (map pk_of tbl) \<Longrightarrow> r \<in> set tbl \<Longrightarrow> upsert_row pk_of r tbl = tbl"
  by (auto simp: upsert_row_def replace_row_def inj_on_eq_iff distinct_map intro!: map_idI)

lemma fold_upsert_same:
  "distinct (map pk_of tbl) \<Longrightarrow> set cs \<subseteq> set tbl \<Longrightarrow> fold (upsert_row pk_of) cs tbl = tbl"
  by (induction cs) (auto simp: upsert_row_same)

lemma merge_children_same:
  assumes "distinct (map pk_of rows)"
  shows "merge_children pk_of owner rid (filter (\<lambda>x. owner x = rid) rows) rows = rows"
proof -
  have "filter (\<lambda>x. owner x \<noteq> rid \<or> pk_of x \<in> set (map pk_of (filter (\<lambda>x. owner x = rid) rows))) rows = rows"
    by (auto simp: filter_id_conv)
  then show ?thesis using fold_upsert_same [OF assms] by (simp add: merge_children_def)
qed

lemma merge_children_add:
  assumes "distinct (map pk_of rows)" "pk_of r \<notin> pk_of ` set rows"
  shows "merge_children pk_of owner rid (filter (\<lambda>x. owner x = rid) rows @ [r]) rows = rows @ [r]"
proof -
  have "filter (\<lambda>x. owner x \<noteq> rid \<or> pk_of x \<in> set (map pk_of (filter (\<lambda>x. owner x = rid) rows @ [r]))) rows = rows"
    by (auto simp: filter_id_conv)
  moreover have "upsert_row pk_of r rows = rows @ [r]" using assms(2) by (simp add: upsert_row_def)
  ultimately show ?thesis using fold_upsert_same [OF assms(1)] by (simp add: merge_children_def)
qed

lemma enhancement_to_domain_stored: "enh_root_id e \<noteq> None \<Longrightarrow> enhancement_to_domain e = e"
  by (auto simp: enhancement_to_domain_def default_root_id_for_root_def)

lemma enhancement_from_domain_Inr:
  "enhancement_from_domain now e = Inr row \<Longrightarrow>
     row = e \<lparr> enh_created_at := Some now, enh_updated_at := Some now \<rparr> \<and> enh_root_id e \<noteq> None"
  by (auto simp: enhancement_from_domain_def split: enhancement_content.splits if_splits)

lemma merged_enhancement_stored:
  assumes "merged_enhancement now rows e = Inr row" "distinct (map enh_id rows)" "e \<in> set rows"
  shows "row = e"
proof -
  have "find (\<lambda>x. enh_id x = enh_id e) rows = Some e" using find_unique assms(2,3) by metis
  with assms(1) show ?thesis
    by (auto simp: merged_enhancement_def res_bind_Inr_iff Let_def dest!: enhancement_from_domain_Inr split: if_splits)
qed

lemma merged_enhancement_new:
  assumes "merged_enhancement now rows e = Inr row" "enh_id e \<notin> enh_id ` set rows"
  shows "row = e \<lparr> enh_created_at := Some now, enh_updated_at := Some now \<rparr>" "enh_root_id row \<noteq> None"
proof -
  have "find (\<lambda>x. enh_id x = enh_id e) rows = None" using assms(2) by (auto simp: find_None_set image_iff)
  with assms(1) have "enhancement_from_domain now e = Inr row" by (simp add: merged_enhancement_def res_bind_Inr_iff)
  from enhancement_from_domain_Inr [OF this] show
    "row = e \<lparr> enh_created_at := Some now, enh_updated_at := Some now \<rparr>" "enh_root_id row \<noteq> None" by auto
qed

lemma res_mapM_append_Inr:
  "res_mapM f (xs @ ys) = Inr zs \<longleftrightarrow> (\<exists>us vs. res_mapM f xs = Inr us \<and> res_mapM f ys = Inr vs \<and> zs = us @ vs)"
  by (induction xs arbitrary: zs) (auto simp: res_bind_Inr_iff)

lemma res_mapM_same:
  "res_mapM f xs = Inr ys \<Longrightarrow> (\<And>x y. x \<in> set xs \<Longrightarrow> f x = Inr y \<Longrightarrow> y = x) \<Longrightarrow> ys = xs"
  by (induction xs arbitrary: ys) (auto simp: res_bind_Inr_iff)

lemma merged_aggregate:
  assumes "res_mapM (merged_enhancement now rows) (filter P rows @ [e]) = Inr out"
    and "distinct (map enh_id rows)" and "enh_id e \<notin> enh_id ` set rows"
  obtains row where "out = filter P rows @ [row]" "merged_enhancement now rows e = Inr row"
proof -
  from assms(1) obtain us row where us: "res_mapM (merged_enhancement now rows) (filter P rows) = Inr us"
    and row: "merged_enhancement now rows e = Inr row" "out = us @ [row]"
    by (auto simp: res_mapM_append_Inr res_bind_Inr_iff)
  have "us = filter P rows"
    by (rule res_mapM_same [OF us]) (use merged_enhancement_stored assms(2) in auto)
  with row that show thesis by blast
qed

lemma add_enhancement_effect:
  assumes ok: "aggregates_ok db" and new: "enh_id e \<notin> enh_id ` set (db_enhancements db)"
    and run: "add_enhancement H now e db = Inr (rid, db')"
  shows "\<exists>row. db' = db \<lparr> db_enhancements := db_enhancements db @ [row] \<rparr> \<and> enh_id row = enh_id e \<and>
           enh_reference_id row = enh_reference_id e \<and> aggregates_ok db'"
proof -
  note a = ok [unfolded aggregates_ok_def]
  let ?E = "db_enhancements db" and ?rid = "enh_reference_id e"
  from run obtain reference where get: "references_get_by_pk db ?rid [PL_enhancements, PL_identifiers, PL_duplicate_references] = Inr reference"
    and m: "references_merge now (reference \<lparr> ref_enhancements := Some (opt_list (ref_enhancements reference) @ [e]) \<rparr>) db = Inr (rid, db')"
    by (auto simp: add_enhancement_def res_bind_Inr_iff split: if_splits)
  obtain r where r: "r \<in> set (db_references db)" "refr_id r = ?rid"
    and ref: "reference = domain_of db [PL_enhancements, PL_identifiers, PL_duplicate_references] r"
    using references_get_by_pk_Inr [OF conjunct1 [OF a] get] by blast
  have old: "map enhancement_to_domain (filter P ?E) = filter P ?E" for P
    using a by (intro map_idI) (auto simp: list_all_iff intro: enhancement_to_domain_stored)
  have parts: "opt_list (ref_enhancements reference) = filter (\<lambda>x. enh_reference_id x = ?rid) ?E"
    "opt_list (ref_identifiers reference) = filter (\<lambda>x. lei_reference_id x = ?rid) (db_identifiers db)"
    "ref_id reference = ?rid" "ref_visibility reference = refr_visibility r"
    unfolding ref domain_of_def base_of_def using r(2) old by (simp_all add: opt_list_def)
  obtain rows where rows: "res_mapM (merged_enhancement now ?E) (filter (\<lambda>x. enh_reference_id x = ?rid) ?E @ [e]) = Inr rows"
    and db': "db' = db \<lparr> db_references := upsert_row refr_id \<lparr> refr_id = ?rid, refr_visibility = refr_visibility r \<rparr> (db_references db),
       db_identifiers := merge_children lei_id lei_reference_id ?rid (filter (\<lambda>x. lei_reference_id x = ?rid) (db_identifiers db)) (db_identifiers db),
       db_enhancements := merge_children enh_id enh_reference_id ?rid rows ?E \<rparr>"
    by (rule references_merge_Inr [OF m]) (simp add: parts opt_list_def [of "Some _"])
  obtain row where row: "rows = filter (\<lambda>x. enh_reference_id x = ?rid) ?E @ [row]" "merged_enhancement now ?E e = Inr row"
    using merged_aggregate [OF rows _ new] a by blast
  note keys = merged_enhancement_keys [OF row(2)] and rt = merged_enhancement_new [OF row(2) new]
  have "\<lparr> refr_id = ?rid, refr_visibility = refr_visibility r \<rparr> = r" using r(2) by simp
  then have "upsert_row refr_id \<lparr> refr_id = ?rid, refr_visibility = refr_visibility r \<rparr> (db_references db) = db_references db"
    using upsert_row_same [of refr_id "db_references db" r] a r(1) by (simp add: db_ok_def)
  then have eq: "db' = db \<lparr> db_enhancements := ?E @ [row] \<rparr>"
    using a new keys unfolding db' row(1) by (simp add: merge_children_same merge_children_add)
  moreover have "aggregates_ok db'"
    using references_merge_keeps(1) [OF conjunct1 [OF a] m] a new keys rt(2) unfolding aggregates_ok_def by (simp add: eq)
  ultimately show ?thesis using keys by blast
qed

section \<open>The lines of a file\<close>

definition fresh_enhancement_ids :: "result_env \<Rightarrow> db \<Rightarrow> bool" where
  "fresh_enhancement_ids env db =
     (inj (rre_enhancement_id env) \<and> range (rre_enhancement_id env) \<inter> enh_id ` set (db_enhancements db) = {})"

text \<open>The rows added so far: one for each successful reference, with identifiers drawn for them.\<close>

definition added_rows :: "result_env \<Rightarrow> nat \<Rightarrow> uuid list \<Rightarrow> db \<Rightarrow> db \<Rightarrow> enhancement list \<Rightarrow> bool" where
  "added_rows env drawn successful db db' added =
     (db' = db \<lparr> db_enhancements := db_enhancements db @ added \<rparr> \<and> aggregates_ok db' \<and>
      distinct (map enh_reference_id added) \<and> set (map enh_reference_id added) = set successful \<and>
      enh_id ` set added \<subseteq> rre_enhancement_id env ` {..<drawn})"

definition session_ok :: "result_env \<Rightarrow> nat \<Rightarrow> uuid list \<Rightarrow> db \<Rightarrow> session \<Rightarrow> bool" where
  "session_ok env n successful db s =
     (case s of RolledBack \<Rightarrow> True | Live db' \<Rightarrow> \<exists>added. added_rows env n successful db db' added)"

definition reported_ok :: "validation_entry list \<Rightarrow> uuid \<Rightarrow> bool" where
  "reported_ok entries r = (\<lparr> rve_reference_id = Some r, rve_error = None \<rparr> \<in> set entries)"

definition progress_ok ::
    "result_env \<Rightarrow> uuid list \<Rightarrow> db \<Rightarrow> validation_entry list \<Rightarrow> progress \<Rightarrow> bool" where
  "progress_ok env expected db entries p =
     (set (pro_processed p) \<subseteq> set expected \<and>
      set (pro_successful p) \<union> set (pro_discarded p) \<subseteq> set (pro_processed p) \<and>
      set (pro_successful p) \<inter> set (pro_discarded p) = {} \<and>
      Some ` set (pro_attempted p) \<subseteq> rve_reference_id ` set entries \<and>
      (\<forall>r. reported_ok entries r \<longleftrightarrow> r \<in> set (pro_successful p)) \<and>
      session_ok env (pro_drawn p) (pro_successful p) db (pro_session p))"

lemma progress_ok_line:
  "progress_ok env expected db entries p \<Longrightarrow> progress_ok env expected db entries (p \<lparr> pro_line_no := n \<rparr>)"
  by (simp add: progress_ok_def)

lemma progress_ok_processed:
  "progress_ok env expected db entries p \<Longrightarrow> r \<in> set expected \<Longrightarrow>
     progress_ok env expected db entries (p \<lparr> pro_processed := List.insert r (pro_processed p) \<rparr>)"
  by (auto simp: progress_ok_def)

lemma reported_ok_failure:
  "reported_ok (entries @ [\<lparr> rve_reference_id = r', rve_error = Some m \<rparr>]) r = reported_ok entries r"
  by (simp add: reported_ok_def)

lemma progress_ok_failure:
  assumes "progress_ok env expected db entries p"
  shows "progress_ok env expected db (entries @ [\<lparr> rve_reference_id = r, rve_error = Some m \<rparr>]) p"
    "progress_ok env expected db (entries @ [\<lparr> rve_reference_id = Some a, rve_error = Some m \<rparr>])
       (p \<lparr> pro_attempted := List.insert a (pro_attempted p) \<rparr>)"
  using assms by (auto simp: progress_ok_def reported_ok_failure)

lemma added_rows_drawn: "added_rows env n successful db db' added \<Longrightarrow> added_rows env (Suc n) successful db db' added"
  by (auto simp: added_rows_def lessThan_Suc)

lemma progress_ok_drawn:
  "progress_ok env expected db entries p \<Longrightarrow> progress_ok env expected db entries (p \<lparr> pro_drawn := pro_drawn p + 1 \<rparr>)"
  using added_rows_drawn by (fastforce simp: progress_ok_def session_ok_def split: session.splits)

lemma added_rows_add:
  assumes ok: "added_rows env n successful db db1 added" and fresh: "fresh_enhancement_ids env db"
    and run: "add_enhancement H now e db1 = Inr (rid, db2)"
    and e: "enh_id e = rre_enhancement_id env n" "enh_reference_id e \<notin> set successful"
  shows "\<exists>row. added_rows env (Suc n) (List.insert (enh_reference_id e) successful) db db2 (added @ [row])"
proof -
  have "rre_enhancement_id env n \<notin> rre_enhancement_id env ` {..<n}"
    using fresh by (auto simp: fresh_enhancement_ids_def inj_eq)
  moreover have "rre_enhancement_id env n \<notin> enh_id ` set (db_enhancements db)"
    using fresh unfolding fresh_enhancement_ids_def by blast
  ultimately have "enh_id e \<notin> enh_id ` set (db_enhancements db1)"
    using ok e(1) by (auto simp: added_rows_def)
  from add_enhancement_effect [OF _ this run] ok obtain row where
    "db2 = db1 \<lparr> db_enhancements := db_enhancements db1 @ [row] \<rparr>" "enh_id row = enh_id e"
    "enh_reference_id row = enh_reference_id e" "aggregates_ok db2"
    unfolding added_rows_def by blast
  with ok e show ?thesis
    by (intro exI [of _ row]) (auto simp: added_rows_def lessThan_Suc)
qed

lemma sdk_enhancement_to_domain_keys:
  "sdk_enhancement_to_domain i e = Inr x \<Longrightarrow> enh_id x = i \<and> enh_reference_id x = se_reference_id e"
  by (auto simp: sdk_enhancement_to_domain_def res_bind_Inr_iff default_root_id_for_root_def)

lemma progress_ok_success:
  assumes ok: "progress_ok env expected db entries p"
    and rows: "added_rows env (Suc (pro_drawn p)) (List.insert r (pro_successful p)) db db' added"
    and r: "r \<in> set (pro_processed p)" "r \<notin> set (pro_discarded p)"
  shows "progress_ok env expected db (entries @ [\<lparr> rve_reference_id = Some r, rve_error = None \<rparr>])
           (p \<lparr> pro_attempted := List.insert r (pro_attempted p), pro_drawn := pro_drawn p + 1, pro_session := Live db',
                pro_imported := imp, pro_successful := List.insert r (pro_successful p) \<rparr>)"
  using assms by (auto simp: progress_ok_def reported_ok_def session_ok_def)

lemma handle_entry_cases:
  assumes ok: "session_ok env n successful db s" and fresh: "fresh_enhancement_ids env db"
    and e: "enh_id e = rre_enhancement_id env n" "enh_reference_id e \<notin> set successful"
    and run: "handle_enhancement_result_entry H now e s = ((status, message), s')"
  obtains (added) db' added where "status = PE_COMPLETED" "s' = Live db'"
      "added_rows env (Suc n) (List.insert (enh_reference_id e) successful) db db' added"
  | (refused) "status \<noteq> PE_COMPLETED" "session_ok env (Suc n) successful db s'"
proof (cases s)
  case RolledBack
  with run show thesis by (intro refused) (auto simp: result_status_def session_ok_def)
next
  case (Live db1)
  with ok obtain rows where rows: "added_rows env n successful db db1 rows" by (auto simp: session_ok_def)
  show thesis
  proof (cases "add_enhancement H now e db1")
    case (Inl err)
    have "status \<noteq> PE_COMPLETED" using run Live Inl by (auto simp: result_status_def split: if_splits)
    moreover have "session_ok env (Suc n) successful db s'"
      using run Live Inl added_rows_drawn [OF rows] by (auto simp: session_ok_def)
    ultimately show thesis by (rule refused)
  next
    case (Inr q)
    then obtain rid db2 where q: "add_enhancement H now e db1 = Inr (rid, db2)" by (cases q) simp
    with run Live have "status = PE_COMPLETED" "s' = Live db2" by auto
    with added_rows_add [OF rows fresh q e] added show thesis by blast
  qed
qed

lemma progress_ok_refused:
  assumes ok: "progress_ok env expected db entries p" and s: "session_ok env (Suc (pro_drawn p)) (pro_successful p) db s'"
  shows "progress_ok env expected db (entries @ [\<lparr> rve_reference_id = Some r, rve_error = Some m \<rparr>])
           (p \<lparr> pro_attempted := List.insert r (pro_attempted p), pro_drawn := pro_drawn p + 1, pro_session := s' \<rparr>)"
  using assms by (auto simp: progress_ok_def reported_ok_failure)

lemma progress_ok_discarded:
  assumes "progress_ok env expected db entries p" "r \<in> set (pro_processed p)" "r \<notin> set (pro_successful p)"
  shows "progress_ok env expected db entries (p \<lparr> pro_discarded := List.insert r (pro_discarded p) \<rparr>)"
  using assms by (auto simp: progress_ok_def)

lemma progress_session_ok:
  "progress_ok env expected db entries p \<Longrightarrow> session_ok env (pro_drawn p) (pro_successful p) db (pro_session p)"
  by (simp add: progress_ok_def)

lemma process_enhancement_line_ok:
  assumes ok: "progress_ok env expected db entries p" and fresh: "fresh_enhancement_ids env db"
    and r: "se_reference_id e \<in> set (pro_processed p)" "se_reference_id e \<notin> set (pro_successful p)"
      "se_reference_id e \<notin> set (pro_discarded p)"
    and run: "process_enhancement_line env e p = Inr (entry, p')"
  shows "progress_ok env expected db (entries @ [entry]) p'"
proof -
  let ?rid = "se_reference_id e"
  let ?p1 = "p \<lparr> pro_attempted := List.insert ?rid (pro_attempted p), pro_drawn := pro_drawn p + 1 \<rparr>"
  from run obtain x where x: "sdk_enhancement_to_domain (rre_enhancement_id env (pro_drawn p)) e = Inr x"
    by (auto simp: process_enhancement_line_def Let_def res_bind_Inr_iff)
  note kx = sdk_enhancement_to_domain_keys [OF x]
  show ?thesis
  proof (cases "if content_type (enh_content x) = ET_FULL_TEXT
               then store_full_text (rre_blob env) (rre_full_text_max_byte_size env) x else Inr x")
    case (Inl exc)
    with run x have "entry = \<lparr> rve_reference_id = Some ?rid, rve_error = Some (rre_str_exc env exc) \<rparr>" "p' = ?p1"
      by (auto simp: process_enhancement_line_def Let_def split: if_splits)
    then show ?thesis using progress_ok_drawn [OF progress_ok_failure(2) [OF ok]] by simp
  next
    case (Inr y)
    have ky: "enh_id y = enh_id x \<and> enh_reference_id y = enh_reference_id x"
      using Inr store_full_text_keys [of "rre_blob env" _ x y] by (auto split: if_splits)
    obtain status message s' where h: "handle_enhancement_result_entry (rre_hasher env) (rre_now env) y (pro_session p) = ((status, message), s')"
      by (metis surj_pair)
    have eq: "process_enhancement_line env e p =
        (if status = PE_COMPLETED then
           Inr (\<lparr> rve_reference_id = Some ?rid, rve_error = None \<rparr>,
                ?p1 \<lparr> pro_session := s', pro_imported := List.insert (enh_id y) (pro_imported p),
                      pro_successful := List.insert ?rid (pro_successful p) \<rparr>)
         else if status = PE_DISCARDED then
           Inr (\<lparr> rve_reference_id = Some ?rid, rve_error = Some message \<rparr>,
                ?p1 \<lparr> pro_session := s', pro_discarded := List.insert ?rid (pro_discarded p) \<rparr>)
         else Inr (\<lparr> rve_reference_id = Some ?rid, rve_error = Some message \<rparr>, ?p1 \<lparr> pro_session := s' \<rparr>))"
      unfolding process_enhancement_line_def Let_def x res_bind.simps Inr by (simp add: h)
    have y: "enh_id y = rre_enhancement_id env (pro_drawn p)" "enh_reference_id y \<notin> set (pro_successful p)"
      using kx ky r by simp_all
    from progress_session_ok [OF ok] fresh y h show ?thesis
    proof (cases rule: handle_entry_cases)
      case (added db' rows)
      with progress_ok_success [OF ok, of ?rid db' rows] run eq r kx ky show ?thesis by auto
    next
      case refused
      note ref = progress_ok_refused [OF ok refused(2), of ?rid message]
      show ?thesis
      proof (cases "status = PE_DISCARDED")
        case True
        with progress_ok_discarded [OF ref, of ?rid] run eq r refused(1) show ?thesis by simp
      qed (use ref run eq refused(1) in simp)
    qed
  qed
qed

lemma result_from_raw_enhancement:
  assumes "result_from_raw parse entry n expected processed raw = EnhancementToAdd e"
  shows "se_reference_id e \<in> set expected" "se_reference_id e \<notin> set processed"
  using assms by (auto simp: result_from_raw_def Let_def split: sum.splits result_entry.splits if_splits)

lemma process_result_line_ok:
  assumes ok: "progress_ok env expected db entries p" and fresh: "fresh_enhancement_ids env db"
    and run: "process_result_line env expected line p = Inr (es, p')"
  shows "progress_ok env expected db (entries @ es) p'"
proof (cases "py_strip line = []")
  case True
  with run ok show ?thesis by (simp add: process_result_line_def)
next
  case False
  let ?p1 = "p \<lparr> pro_line_no := pro_line_no p + 1 \<rparr>"
  note ok1 = progress_ok_line [OF ok, of "pro_line_no p + 1"]
  show ?thesis
  proof (cases "result_from_raw (rre_parse env) line (pro_line_no p) expected (pro_processed p)
                  (may_write_raw_enhancements (rre_entitlements env))")
    case (ParseFailure f)
    with run False have "es = [\<lparr> rve_reference_id = None, rve_error = Some f \<rparr>]" "p' = ?p1"
      by (simp_all add: process_result_line_def)
    with progress_ok_failure(1) [OF ok1] show ?thesis by simp
  next
    case (RobotError e)
    let ?p2 = "if lre_reference_id e \<in> set expected
                 then ?p1 \<lparr> pro_processed := List.insert (lre_reference_id e) (pro_processed p) \<rparr> else ?p1"
    have "progress_ok env expected db entries ?p2" using ok1 progress_ok_processed [OF ok1] by simp
    from progress_ok_failure(2) [OF this] show ?thesis
      using run False RobotError by (auto simp: process_result_line_def process_robot_error_line_def Let_def)
  next
    case (EnhancementToAdd e)
    let ?p2 = "?p1 \<lparr> pro_processed := List.insert (se_reference_id e) (pro_processed ?p1) \<rparr>"
    note raw = result_from_raw_enhancement [OF EnhancementToAdd]
    have ok2: "progress_ok env expected db entries ?p2" by (rule progress_ok_processed [OF ok1 raw(1)])
    from run False EnhancementToAdd obtain ld where ld:
      "(case ld of None \<Rightarrow> res_bind (process_enhancement_line env e ?p2) (\<lambda>r. Inr (case r of (entry, q) \<Rightarrow> ([entry], q)))
         | Some err \<Rightarrow> Inr (case process_robot_error_line err ?p2 of (entry, q) \<Rightarrow> ([entry], q))) = Inr (es, p')"
      unfolding process_result_line_def Let_def
      by (simp only: if_False validated_result.case res_bind_Inr_iff) blast
    have "(\<exists>err. (es, p') = (case process_robot_error_line err ?p2 of (entry, q) \<Rightarrow> ([entry], q))) \<or>
        (\<exists>entry. process_enhancement_line env e ?p2 = Inr (entry, p') \<and> es = [entry])"
    proof (cases ld)
      case None
      with ld show ?thesis by (auto simp: res_bind_Inr_iff)
    next
      case (Some err)
      with ld have "(es, p') = (case process_robot_error_line err ?p2 of (entry, q) \<Rightarrow> ([entry], q))" by simp
      then show ?thesis by blast
    qed
    then consider err where "(es, p') = (case process_robot_error_line err ?p2 of (entry, q) \<Rightarrow> ([entry], q))"
      | entry where "process_enhancement_line env e ?p2 = Inr (entry, p')" "es = [entry]"
      by blast
    then show ?thesis
    proof cases
      case 1
      with progress_ok_failure(2) [OF ok2] show ?thesis by (simp add: process_robot_error_line_def)
    next
      case 2
      have "se_reference_id e \<notin> set (pro_successful p)" "se_reference_id e \<notin> set (pro_discarded p)"
        using ok raw(2) by (auto simp: progress_ok_def)
      with process_enhancement_line_ok [OF ok2 fresh _ _ _ 2(1)] 2(2) show ?thesis by simp
    qed
  qed
qed

lemma process_result_lines_ok:
  "progress_ok env expected db entries p \<Longrightarrow> fresh_enhancement_ids env db \<Longrightarrow>
     process_result_lines env expected lines p = Inr (es, p') \<Longrightarrow> progress_ok env expected db (entries @ es) p'"
proof (induction lines arbitrary: entries p es)
  case (Cons line lines)
  from Cons.prems(3) obtain es1 p1 es2 where 1: "process_result_line env expected line p = Inr (es1, p1)"
    and 2: "process_result_lines env expected lines p1 = Inr (es2, p')" "es = es1 @ es2"
    by (auto simp: res_bind_Inr_iff)
  from Cons.IH [OF process_result_line_ok [OF Cons.prems(1,2) 1] Cons.prems(2) 2(1)] 2(2) show ?case by simp
qed simp

section \<open>Properties\<close>

text \<open>
  C37 (safety). Importing the result file of a robot is all or nothing, and the report tells the
  truth. When the import returns, the only change of the tables is one new enhancement for each
  reference called successful, every other row of every table being kept; only references of the
  batch are named, none as both successful and discarded; every reference of the batch has an
  entry in the validation file, and an entry without error exactly when its enhancement was added.
  When it raises, an integrity error that rolled the transaction back included, the tables are as
  before.
\<close>

theorem result_file_import_exact:
  assumes "aggregates_ok db" and "fresh_enhancement_ids env db" and "\<And>xs. set (rre_set_order env xs) = set xs"
  shows "case import_result_file env upload rows lines db of
           (Inl _, db') \<Rightarrow> db' = db
         | (Inr (successful, discarded, entries), db') \<Rightarrow>
             (\<exists>added. db' = db \<lparr> db_enhancements := db_enhancements db @ added \<rparr> \<and>
                distinct (map enh_reference_id added) \<and> set (map enh_reference_id added) = set successful) \<and>
             set successful \<union> set discarded \<subseteq> set (map pe_reference_id rows) \<and>
             set successful \<inter> set discarded = {} \<and>
             Some ` set (map pe_reference_id rows) \<subseteq> rve_reference_id ` set entries \<and>
             (\<forall>r. reported_ok entries r \<longleftrightarrow> r \<in> set successful)"
proof (cases "process_robot_enhancement_batch_result env rows lines db")
  case (Inl e)
  then show ?thesis by (simp add: import_result_file_def)
next
  case (Inr q)
  let ?expected = "remdups (map pe_reference_id rows)"
  let ?p0 = "\<lparr> pro_line_no = 1, pro_drawn = 0, pro_attempted = [], pro_processed = [], pro_imported = [],
               pro_successful = [], pro_discarded = [], pro_session = Live db \<rparr>"
  from Inr obtain entries p where run: "process_result_lines env ?expected lines ?p0 = Inr (entries, p)"
    and q: "q = (entries @ missing_entries env ?expected p, p)"
    by (auto simp: process_robot_enhancement_batch_result_def Let_def res_bind_Inr_iff)
  have "progress_ok env ?expected db [] ?p0"
    using assms(1) by (auto simp: progress_ok_def session_ok_def added_rows_def reported_ok_def intro!: exI [of _ "[]"])
  from process_result_lines_ok [OF this assms(2) run] have ok: "progress_ok env ?expected db entries p" by simp
  let ?all = "entries @ missing_entries env ?expected p"
  have all: "Some ` set ?expected \<subseteq> rve_reference_id ` set ?all"
  proof
    fix x assume "x \<in> Some ` set ?expected"
    then obtain r where r: "x = Some r" "r \<in> set ?expected" by blast
    show "x \<in> rve_reference_id ` set ?all"
    proof (cases "r \<in> set (pro_attempted p)")
      case True
      with ok r show ?thesis by (auto simp: progress_ok_def)
    next
      case False
      with r show ?thesis by (force simp: missing_entries_def assms(3) image_iff)
    qed
  qed
  have rep: "reported_ok ?all r \<longleftrightarrow> r \<in> set (pro_successful p)" for r
    using ok by (auto simp: progress_ok_def reported_ok_def missing_entries_def)
  show ?thesis
    using Inr q ok all rep
    by (auto simp: import_result_file_def progress_ok_def session_ok_def added_rows_def split: sum.splits session.splits)
qed

definition sample_result_env :: result_env where
  "sample_result_env =
     \<lparr> rre_parse = (\<lambda>l. if l = ''x'' then Inl ''no'' else Inr (EntryEnhancement
         \<lparr> se_reference_id = length l, se_source = ''s'', se_visibility = VIS_PUBLIC, se_robot_version = None,
           se_derived_from = None, se_content = SdkContent (LocationEnhancement []) \<rparr>)),
       rre_vocabulary = ese_vocabulary sample_env, rre_hasher = ien_hasher sample_ingest_env, rre_now = 5,
       rre_blob = sample_blob_client, rre_full_text_max_byte_size = 9, rre_enhancement_id = (\<lambda>n. 300 + n),
       rre_entitlements = {}, rre_set_order = (\<lambda>xs. xs), rre_str_exc = (\<lambda>_. ''e'') \<rparr>"

definition sample_result_row :: "uuid \<Rightarrow> pending_enhancement" where
  "sample_result_row r =
     \<lparr> pe_id = 40 + r, pe_created_at = 0, pe_reference_id = r, pe_robot_id = 7, pe_enhancement_request_id = Some 20,
       pe_robot_enhancement_batch_id = Some 6, pe_status = PE_IMPORTING, pe_source = None, pe_expires_at = 9, pe_retry_of = None \<rparr>"

theorem result_file_import_exact_witness:
  "\<exists>entries db'. import_result_file sample_result_env (\<lambda>_. Inr ()) [sample_result_row 2, sample_result_row 3]
       [''22'', '' '', ''22'', ''x'', ''9999''] sample_db = (Inr ([2], [], entries), db') \<and>
     length entries = 5 \<and> reported_ok entries 2 \<and> \<not> reported_ok entries 3 \<and>
     (\<exists>row. db_enhancements db' = [row] \<and> enh_reference_id row = 2)"
proof -
  let ?run = "import_result_file sample_result_env (\<lambda>_. Inr ()) [sample_result_row 2, sample_result_row 3]
       [''22'', '' '', ''22'', ''x'', ''9999''] sample_db"
  have "(case fst ?run of Inr (s, d, es) \<Rightarrow> s = [2] \<and> d = [] \<and> length es = 5 | Inl _ \<Rightarrow> False)" by code_simp
  then obtain entries db' where run: "?run = (Inr ([2], [], entries), db')" "length entries = 5"
    by (cases ?run) (auto split: sum.splits)
  have ok: "aggregates_ok sample_db" using sample_db_ok by (simp add: aggregates_ok_def sample_db_def)
  have fresh: "fresh_enhancement_ids sample_result_env sample_db"
    by (simp add: fresh_enhancement_ids_def sample_result_env_def sample_db_def inj_def)
  have order: "set (rre_set_order sample_result_env xs) = set xs" for xs by (simp add: sample_result_env_def)
  from result_file_import_exact [where upload = "\<lambda>_. Inr ()" and rows = "[sample_result_row 2, sample_result_row 3]"
      and lines = "[''22'', '' '', ''22'', ''x'', ''9999'']", OF ok fresh order] run
  obtain added where a: "db' = sample_db \<lparr> db_enhancements := db_enhancements sample_db @ added \<rparr>"
      "distinct (map enh_reference_id added)" "set (map enh_reference_id added) = {2}"
    and rep: "reported_ok entries 2" "\<not> reported_ok entries 3" by auto
  have "length added = 1" using distinct_card [OF a(2)] a(3) by simp
  then obtain row where "added = [row]" by (cases added) auto
  with a run rep show ?thesis by (simp add: sample_db_def)
qed

end
