(* ===== verification/Authentication.thy ===== *)
theory Authentication
  imports Access_Control
begin

text \<open>
  Authentication of requests (\<^verbatim>\<open>src/app/api/auth.py\<close> and \<^verbatim>\<open>src/libs/sdk/src/destiny_sdk/auth.py\<close>): signatures of
  robots, tokens of Azure and Keycloak, and the entitlements a principal gets.

  Parameters are the SHA-256 message authentication code, the reading and printing of floats, the
  clock, the answers of the identity providers and what the token libraries make of a token under a
  key. \<^verbatim>\<open>AuthException\<close> of the SDK and \<^verbatim>\<open>AuthError\<close> of the application both carry their HTTP status.
\<close>

section \<open>Roles, scopes and entitlements\<close>

datatype auth_role =
  AR_ADMINISTRATOR | AR_IMPORT_WRITER | AR_REFERENCE_READER | AR_REFERENCE_FULL_TEXT_READER | AR_REFERENCE_DEDUPLICATOR
  | AR_ENHANCEMENT_REQUEST_WRITER | AR_ROBOT_WRITER | AR_ROBOT_ENTITLEMENT_WRITER

fun role_value :: "auth_role \<Rightarrow> string" where
  "role_value AR_ADMINISTRATOR = ''administrator''"
| "role_value AR_IMPORT_WRITER = ''import.writer''"
| "role_value AR_REFERENCE_READER = ''reference.reader''"
| "role_value AR_REFERENCE_FULL_TEXT_READER = ''reference.full_text.reader''"
| "role_value AR_REFERENCE_DEDUPLICATOR = ''reference.deduplicator''"
| "role_value AR_ENHANCEMENT_REQUEST_WRITER = ''enhancement_request.writer''"
| "role_value AR_ROBOT_WRITER = ''robot.writer''"
| "role_value AR_ROBOT_ENTITLEMENT_WRITER = ''robot.entitlement.writer''"

datatype auth_scope =
  AS_ADMINISTRATOR | AS_IMPORT_WRITER | AS_REFERENCE_READER | AS_REFERENCE_FULL_TEXT_READER | AS_REFERENCE_DEDUPLICATOR
  | AS_ENHANCEMENT_REQUEST_WRITER | AS_ROBOT_WRITER | AS_ROBOT_ENTITLEMENT_WRITER

fun scope_value :: "auth_scope \<Rightarrow> string" where
  "scope_value AS_ADMINISTRATOR = ''administrator.all''"
| "scope_value AS_IMPORT_WRITER = ''import.writer.all''"
| "scope_value AS_REFERENCE_READER = ''reference.reader.all''"
| "scope_value AS_REFERENCE_FULL_TEXT_READER = ''reference.full_text.reader.all''"
| "scope_value AS_REFERENCE_DEDUPLICATOR = ''reference.deduplicator.all''"
| "scope_value AS_ENHANCEMENT_REQUEST_WRITER = ''enhancement_request.writer.all''"
| "scope_value AS_ROBOT_WRITER = ''robot.writer.all''"
| "scope_value AS_ROBOT_ENTITLEMENT_WRITER = ''robot.entitlement.writer.all''"

datatype subject_type = ST_USER | ST_SERVICE | ST_ROBOT | ST_BYPASS

definition entitlement_to_grants :: "(entitlement \<times> string list) list" where
  "entitlement_to_grants =
     [(ENT_FULL_TEXT, [scope_value AS_REFERENCE_FULL_TEXT_READER, role_value AR_REFERENCE_FULL_TEXT_READER]),
      (ENT_ROBOT_ENTITLEMENT_WRITER, [scope_value AS_ROBOT_ENTITLEMENT_WRITER, role_value AR_ROBOT_ENTITLEMENT_WRITER])]"

definition derive_entitlements :: "subject_type \<Rightarrow> string list \<Rightarrow> entitlement set" where
  "derive_entitlements subject granted =
     (if subject = ST_BYPASS then {ENT_FULL_TEXT, ENT_RAW_ENHANCEMENT_WRITER, ENT_ROBOT_ENTITLEMENT_WRITER}
      else set (map fst (filter (\<lambda>(_, grants). list_ex (\<lambda>g. g \<in> set granted) grants) entitlement_to_grants)))"

section \<open>Signed requests\<close>

record http_request =
  rq_header :: "string \<Rightarrow> string option"
  rq_body :: string

text \<open>Floats as Python has them, as far as a comparison of differences needs them.\<close>

datatype py_float = Finite rat | PosInf | NegInf | NotANumber

record hmac_env =
  hme_hmac :: "string \<Rightarrow> string \<Rightarrow> string"
  hme_float :: "string \<Rightarrow> py_float option"
  hme_field_float :: "string \<Rightarrow> py_float option"
  hme_repr_float :: "py_float \<Rightarrow> string"
  hme_parse_uuid :: "string \<Rightarrow> uuid option"
  hme_now :: rat

fun bytes_of :: "nat \<Rightarrow> nat \<Rightarrow> string" where
  "bytes_of 0 u = []"
| "bytes_of (Suc n) u = bytes_of n (u div 256) @ [char_of (u mod 256)]"

definition uuid_bytes :: "uuid \<Rightarrow> string" where
  "uuid_bytes u = bytes_of 16 u"

definition signature_components :: "hmac_env \<Rightarrow> string \<Rightarrow> uuid \<Rightarrow> py_float \<Rightarrow> string" where
  "signature_components env request_body client_id timestamp =
     str_join '':'' [request_body, uuid_bytes client_id, hme_repr_float env timestamp]"

definition create_signature :: "hmac_env \<Rightarrow> string \<Rightarrow> string \<Rightarrow> uuid \<Rightarrow> py_float \<Rightarrow> string" where
  "create_signature env secret_key request_body client_id timestamp =
     hme_hmac env secret_key (signature_components env request_body client_id timestamp)"

text \<open>\<^verbatim>\<open>(now - t) > 300\<close>: false when \<open>t\<close> is not a number.\<close>

fun older_than_five_minutes :: "rat \<Rightarrow> py_float \<Rightarrow> bool" where
  "older_than_five_minutes now (Finite t) = (300 < now - t)"
| "older_than_five_minutes now PosInf = False"
| "older_than_five_minutes now NegInf = True"
| "older_than_five_minutes now NotANumber = False"

record hmac_headers =
  hmh_signature :: string
  hmh_client_id :: uuid
  hmh_timestamp :: py_float

definition header_text :: "http_request \<Rightarrow> string \<Rightarrow> string option" where
  "header_text rq name = (case rq_header rq name of Some (c # cs) \<Rightarrow> Some (c # cs) | _ \<Rightarrow> None)"

definition require_header :: "http_request \<Rightarrow> string \<Rightarrow> string result" where
  "require_header rq name = (case header_text rq name of None \<Rightarrow> Inl (AuthError 401) | Some t \<Rightarrow> Inr t)"

definition request_client_id :: "hmac_env \<Rightarrow> http_request \<Rightarrow> uuid result" where
  "request_client_id env rq =
     res_bind (require_header rq ''X-Client-Id'') (\<lambda>client.
       case hme_parse_uuid env client of None \<Rightarrow> Inl (AuthError 401) | Some client_id \<Rightarrow> Inr client_id)"

definition request_timestamp :: "hmac_env \<Rightarrow> http_request \<Rightarrow> py_float result" where
  "request_timestamp env rq =
     res_bind (require_header rq ''X-Request-Timestamp'') (\<lambda>timestamp.
       case hme_float env timestamp of
         None \<Rightarrow> Inl PyValueError
       | Some t \<Rightarrow>
           if older_than_five_minutes (hme_now env) t then Inl (AuthError 401)
           else (case hme_field_float env timestamp of None \<Rightarrow> Inl ValidationError | Some field \<Rightarrow> Inr field))"

definition headers_from_request :: "hmac_env \<Rightarrow> http_request \<Rightarrow> hmac_headers result" where
  "headers_from_request env rq =
     res_bind (require_header rq ''Authorization'') (\<lambda>signature_header.
       let (scheme, signature) = split_once (CHR '' '') signature_header
       in if scheme \<noteq> ''Signature'' then Inl (AuthError 401)
          else res_bind (request_client_id env rq) (\<lambda>client_id.
               res_bind (request_timestamp env rq) (\<lambda>timestamp.
                 Inr \<lparr> hmh_signature = signature, hmh_client_id = client_id, hmh_timestamp = timestamp \<rparr>)))"

text \<open>The SDK's check for robots, against one secret.\<close>

definition hmac_auth :: "hmac_env \<Rightarrow> string \<Rightarrow> http_request \<Rightarrow> bool result" where
  "hmac_auth env secret_key rq =
     res_bind (headers_from_request env rq) (\<lambda>h.
       if hmh_signature h = create_signature env secret_key (rq_body rq) (hmh_client_id h) (hmh_timestamp h)
       then Inr True else Inl (AuthError 401))"

text \<open>The repository's check, against the secret of the robot that the request names.\<close>

definition hmac_multi_client_auth ::
    "hmac_env \<Rightarrow> (uuid \<Rightarrow> (string \<times> entitlement set) result) \<Rightarrow> http_request \<Rightarrow> entitlement set result" where
  "hmac_multi_client_auth env get_auth_info rq =
     res_bind (headers_from_request env rq) (\<lambda>h.
       case get_auth_info (hmh_client_id h) of
         Inl SQLNotFoundError \<Rightarrow> Inl (AuthError 401)
       | Inl e \<Rightarrow> Inl e
       | Inr (secret, entitlements) \<Rightarrow>
           if hmh_signature h = create_signature env secret (rq_body rq) (hmh_client_id h) (hmh_timestamp h)
           then Inr entitlements else Inl (AuthError 401))"

section \<open>Tokens\<close>

record claims =
  clm_scp :: "string option"
  clm_roles :: "string list option"
  clm_resource_access :: "(string \<times> string list option) list option"
  clm_preferred_username :: "string option"
  clm_azp :: "string option"

definition python_split :: "string \<Rightarrow> string list" where
  "python_split s = filter (\<lambda>w. w \<noteq> []) (str_split (CHR '' '') (map (\<lambda>c. if py_isspace c then CHR '' '' else c) s))"

subsection \<open>Azure\<close>

type_synonym jwk = "(string \<times> string) list"

text \<open>
  What the key endpoint answers: an object with the list of keys, or JSON without one, which may be
  an empty object. Nothing is raised for an error status.
\<close>

datatype jwks = KeyList "jwk list" | NoKeyList bool

fun jwks_truthy :: "jwks \<Rightarrow> bool" where
  "jwks_truthy (KeyList _) = True"
| "jwks_truthy (NoKeyList nonempty) = nonempty"

datatype decode_outcome = Decoded claims | Expired | ClaimsMismatch | Undecodable

record azure_env =
  aze_fetch :: "jwks option"
  aze_unverified_kid :: "string \<Rightarrow> string option"
  aze_decode :: "string \<Rightarrow> jwk \<Rightarrow> decode_outcome"

definition complete_jwk :: "jwk \<Rightarrow> bool" where
  "complete_jwk k = list_all (\<lambda>f. map_of k f \<noteq> None) [''kty'', ''kid'', ''use'', ''n'', ''e'']"

text \<open>The loop over the keys: the last one with the token's \<^verbatim>\<open>kid\<close>; a missing field raises.\<close>

fun find_rsa_key :: "string option \<Rightarrow> jwk list \<Rightarrow> jwk option \<Rightarrow> jwk option option" where
  "find_rsa_key kid [] found = Some found"
| "find_rsa_key kid (k # ks) found =
     (case (map_of k ''kid'', kid) of
        (Some i, Some j) \<Rightarrow>
          if i = j then (if complete_jwk k then find_rsa_key kid ks (Some k) else None)
          else find_rsa_key kid ks found
      | _ \<Rightarrow> None)"

function azure_verify_token ::
    "azure_env \<Rightarrow> string \<Rightarrow> jwks option \<Rightarrow> claims result \<times> jwks option" where
  "azure_verify_token env token cache =
     (let cached = (case cache of None \<Rightarrow> False | Some j \<Rightarrow> jwks_truthy j);
          jwks = (if cached then cache else aze_fetch env)
      in case jwks of
           None \<Rightarrow> (Inl (AuthError 401), cache)
         | Some (NoKeyList b) \<Rightarrow> (Inl (AuthError 401), Some (NoKeyList b))
         | Some (KeyList ks) \<Rightarrow>
             (case find_rsa_key (aze_unverified_kid env token) ks None of
                None \<Rightarrow> (Inl (AuthError 401), Some (KeyList ks))
              | Some None \<Rightarrow> (Inl (AuthError 401), Some (KeyList ks))
              | Some (Some k) \<Rightarrow>
                  (case aze_decode env token k of
                     Decoded c \<Rightarrow> (Inr c, Some (KeyList ks))
                   | Expired \<Rightarrow> (Inl (AuthError 401), Some (KeyList ks))
                   | ClaimsMismatch \<Rightarrow> (Inl (AuthError 401), Some (KeyList ks))
                   | Undecodable \<Rightarrow>
                       if cached then azure_verify_token env token None else (Inl (AuthError 401), Some (KeyList ks)))))"
  by pat_completeness auto

termination
  by (relation "measure (\<lambda>(env, token, cache). if cache = None then 0 else 1)") (auto split: if_splits option.splits)

definition require_scope_or_role ::
    "auth_scope option \<Rightarrow> auth_role option \<Rightarrow> claims \<Rightarrow> subject_type result" where
  "require_scope_or_role scope role c =
     (if scope \<noteq> None \<and> opt_list (clm_scp c) \<noteq> [] then
        if scope_value (the scope) \<in> set (python_split (the (clm_scp c))) then Inr ST_USER else Inl (AuthError 403)
      else if role \<noteq> None \<and> opt_list (clm_roles c) \<noteq> [] then
        if role_value (the role) \<in> set (the (clm_roles c)) then Inr ST_SERVICE else Inl (AuthError 403)
      else Inl (AuthError 403))"

definition azure_jwt_auth ::
    "azure_env \<Rightarrow> auth_scope option \<Rightarrow> auth_role option \<Rightarrow> string option \<Rightarrow> jwks option \<Rightarrow>
     entitlement set result \<times> jwks option" where
  "azure_jwt_auth env scope role credentials cache =
     (case credentials of
        None \<Rightarrow> (Inl (AuthError 401), cache)
      | Some token \<Rightarrow>
          (let (verified, cache') = azure_verify_token env token cache
           in (res_bind verified (\<lambda>c.
               res_bind (require_scope_or_role scope role c) (\<lambda>subject.
                 Inr (derive_entitlements subject
                   (python_split (case clm_scp c of None \<Rightarrow> [] | Some s \<Rightarrow> s) @ opt_list (clm_roles c))))), cache')))"

subsection \<open>Keycloak\<close>

datatype keycloak_outcome = KcDecoded claims | KcExpired | KcInvalidClaim | KcJoseError

text \<open>Fetching raises for an error status and for a body that is not a key set.\<close>

record 'k keycloak_env =
  kce_fetch :: "'k option"
  kce_decode :: "string \<Rightarrow> 'k \<Rightarrow> keycloak_outcome"
  kce_truthy :: "'k \<Rightarrow> bool"

function keycloak_verify_token ::
    "'k keycloak_env \<Rightarrow> string \<Rightarrow> 'k option \<Rightarrow> claims result \<times> 'k option" where
  "keycloak_verify_token env token cache =
     (let cached = (case cache of None \<Rightarrow> False | Some j \<Rightarrow> kce_truthy env j);
          jwks = (if cached then cache else kce_fetch env)
      in case jwks of
           None \<Rightarrow> (Inl (AuthError 401), cache)
         | Some ks \<Rightarrow>
             (case kce_decode env token ks of
                KcDecoded c \<Rightarrow> (Inr c, Some ks)
              | KcExpired \<Rightarrow> (Inl (AuthError 401), Some ks)
              | KcInvalidClaim \<Rightarrow> (Inl (AuthError 401), Some ks)
              | KcJoseError \<Rightarrow>
                  if cached then keycloak_verify_token env token None else (Inl (AuthError 401), Some ks)))"
  by pat_completeness auto

termination
  by (relation "measure (\<lambda>(env, token, cache). if cache = None then 0 else 1)") (auto split: if_splits option.splits)

definition extract_roles :: "string \<Rightarrow> claims \<Rightarrow> string list" where
  "extract_roles client_id c =
     (case map_of (opt_list (clm_resource_access c)) client_id of
        None \<Rightarrow> [] | Some roles \<Rightarrow> opt_list roles)"

definition keycloak_subject_type :: "claims \<Rightarrow> subject_type" where
  "keycloak_subject_type c =
     (case clm_preferred_username c of
        Some (u # us) \<Rightarrow>
          if u # us \<noteq> ''service-account-'' @ (case clm_azp c of None \<Rightarrow> ''None'' | Some azp \<Rightarrow> azp) then ST_USER else ST_SERVICE
      | _ \<Rightarrow> ST_SERVICE)"

definition require_role :: "string \<Rightarrow> auth_role option \<Rightarrow> claims \<Rightarrow> subject_type result" where
  "require_role client_id role c =
     (case role of
        None \<Rightarrow> Inl (AuthError 403)
      | Some r \<Rightarrow> if role_value r \<in> set (extract_roles client_id c) then Inr (keycloak_subject_type c) else Inl (AuthError 403))"

definition keycloak_jwt_auth ::
    "'k keycloak_env \<Rightarrow> string \<Rightarrow> auth_role option \<Rightarrow> string option \<Rightarrow> 'k option \<Rightarrow>
     entitlement set result \<times> 'k option" where
  "keycloak_jwt_auth env client_id role credentials cache =
     (case credentials of
        None \<Rightarrow> (Inl (AuthError 401), cache)
      | Some token \<Rightarrow>
          (let (verified, cache') = keycloak_verify_token env token cache
           in (res_bind verified (\<lambda>c.
               res_bind (require_role client_id role c) (\<lambda>subject.
                 Inr (derive_entitlements subject (extract_roles client_id c)))), cache')))"

section \<open>Strategies\<close>

datatype jwt_method =
    AzureJwtAuth "auth_scope option" "auth_role option"
  | KeycloakJwtAuth "auth_role option"
  | MultiIssuerJwtAuth "auth_scope option" "auth_role option"

datatype auth_method = SuccessAuth | JwtAuth jwt_method | HMACMultiClientAuth | HybridAuth jwt_method

datatype auth_provider = Provider_azure | Provider_keycloak | Provider_both

record auth_settings =
  ast_auth_provider :: auth_provider
  ast_keycloak_url :: "string option"
  ast_keycloak_client_id :: "string option"
  ast_running_locally :: bool
  ast_bypass_auth :: "bool option"

definition should_bypass_auth :: "auth_settings \<Rightarrow> bool" where
  "should_bypass_auth st =
     (if \<not> ast_running_locally st then False
      else case ast_bypass_auth st of Some b \<Rightarrow> b | None \<Rightarrow> True)"

definition build_jwt_auth :: "auth_settings \<Rightarrow> auth_scope option \<Rightarrow> auth_role option \<Rightarrow> jwt_method result" where
  "build_jwt_auth st scope role =
     (if ast_auth_provider st = Provider_azure then Inr (AzureJwtAuth scope role)
      else if opt_list (ast_keycloak_url st) = [] \<or> opt_list (ast_keycloak_client_id st) = [] then Inl PyValueError
      else if ast_auth_provider st = Provider_keycloak then Inr (KeycloakJwtAuth role)
      else Inr (MultiIssuerJwtAuth scope role))"

definition choose_auth_strategy ::
    "auth_settings \<Rightarrow> auth_scope option \<Rightarrow> auth_role option \<Rightarrow> bool \<Rightarrow> auth_method result" where
  "choose_auth_strategy st scope role bypass_auth =
     (if bypass_auth then Inr SuccessAuth else res_bind (build_jwt_auth st scope role) (\<lambda>m. Inr (JwtAuth m)))"

definition choose_hmac_auth_strategy :: "auth_settings \<Rightarrow> auth_method" where
  "choose_hmac_auth_strategy st = (if ast_running_locally st then SuccessAuth else HMACMultiClientAuth)"

definition choose_hybrid_auth_strategy ::
    "auth_settings \<Rightarrow> auth_scope option \<Rightarrow> auth_role option \<Rightarrow> bool \<Rightarrow> auth_method result" where
  "choose_hybrid_auth_strategy st scope role bypass_auth =
     (if bypass_auth then Inr SuccessAuth else res_bind (build_jwt_auth st scope role) (\<lambda>m. Inr (HybridAuth m)))"

text \<open>Everything a call depends on, and the key sets cached by the validators.\<close>

record 'k auth_env =
  aue_azure :: azure_env
  aue_keycloak :: "'k keycloak_env"
  aue_client_id :: string
  aue_unverified_issuer :: "string \<Rightarrow> string option option"
  aue_azure_issuer :: string
  aue_keycloak_issuer :: string
  aue_hmac :: hmac_env
  aue_get_auth_info :: "uuid \<Rightarrow> (string \<times> entitlement set) result"

record 'k auth_caches =
  auc_azure :: "jwks option"
  auc_keycloak :: "'k option"

text \<open>The claims cannot be read: \<open>None\<close>; there is no issuer among them: \<open>Some None\<close>.\<close>

definition select_validator ::
    "'k auth_env \<Rightarrow> auth_scope option \<Rightarrow> auth_role option \<Rightarrow> string \<Rightarrow> jwt_method result" where
  "select_validator env scope role token =
     (case aue_unverified_issuer env token of
        None \<Rightarrow> Inl (AuthError 401)
      | Some issuer \<Rightarrow>
          if opt_list issuer = [] then Inl (AuthError 401)
          else if issuer = Some (aue_azure_issuer env) then Inr (AzureJwtAuth scope role)
          else if issuer = Some (aue_keycloak_issuer env) then Inr (KeycloakJwtAuth role)
          else Inl (AuthError 401))"

definition azure_call ::
    "'k auth_env \<Rightarrow> auth_scope option \<Rightarrow> auth_role option \<Rightarrow> string option \<Rightarrow> 'k auth_caches \<Rightarrow>
     entitlement set result \<times> 'k auth_caches" where
  "azure_call env scope role credentials caches =
     (let (r, cache) = azure_jwt_auth (aue_azure env) scope role credentials (auc_azure caches)
      in (r, caches \<lparr> auc_azure := cache \<rparr>))"

definition keycloak_call ::
    "'k auth_env \<Rightarrow> auth_role option \<Rightarrow> string option \<Rightarrow> 'k auth_caches \<Rightarrow> entitlement set result \<times> 'k auth_caches" where
  "keycloak_call env role credentials caches =
     (let (r, cache) = keycloak_jwt_auth (aue_keycloak env) (aue_client_id env) role credentials (auc_keycloak caches)
      in (r, caches \<lparr> auc_keycloak := cache \<rparr>))"

fun jwt_call ::
    "'k auth_env \<Rightarrow> jwt_method \<Rightarrow> string option \<Rightarrow> 'k auth_caches \<Rightarrow> entitlement set result \<times> 'k auth_caches" where
  "jwt_call env (AzureJwtAuth scope role) credentials caches = azure_call env scope role credentials caches"
| "jwt_call env (KeycloakJwtAuth role) credentials caches = keycloak_call env role credentials caches"
| "jwt_call env (MultiIssuerJwtAuth scope role) credentials caches =
     (case credentials of
        None \<Rightarrow> (Inl (AuthError 401), caches)
      | Some token \<Rightarrow>
          (case select_validator env scope role token of
             Inl e \<Rightarrow> (Inl e, caches)
           | Inr (AzureJwtAuth s r) \<Rightarrow> azure_call env s r credentials caches
           | Inr (KeycloakJwtAuth r) \<Rightarrow> keycloak_call env r credentials caches
           | Inr (MultiIssuerJwtAuth _ _) \<Rightarrow> (Inl (AuthError 401), caches)))"

fun auth_call ::
    "'k auth_env \<Rightarrow> auth_method \<Rightarrow> http_request \<Rightarrow> string option \<Rightarrow> 'k auth_caches \<Rightarrow>
     entitlement set result \<times> 'k auth_caches" where
  "auth_call env SuccessAuth rq credentials caches = (Inr (derive_entitlements ST_BYPASS []), caches)"
| "auth_call env (JwtAuth m) rq credentials caches = jwt_call env m credentials caches"
| "auth_call env HMACMultiClientAuth rq credentials caches =
     (hmac_multi_client_auth (aue_hmac env) (aue_get_auth_info env) rq, caches)"
| "auth_call env (HybridAuth m) rq credentials caches =
     (if opt_list credentials \<noteq> [] then jwt_call env m credentials caches
      else (hmac_multi_client_auth (aue_hmac env) (aue_get_auth_info env) rq, caches))"

section \<open>Signatures name one request\<close>

lemma length_bytes_of [simp]: "length (bytes_of n u) = n"
  by (induction n arbitrary: u) simp_all

fun number_of :: "string \<Rightarrow> nat" where
  "number_of s = foldl (\<lambda>a c. 256 * a + of_char c) 0 s"

lemma number_of_bytes: "number_of (bytes_of n u) = u mod 256 ^ n"
proof (induction n arbitrary: u)
  case (Suc n)
  have "number_of (bytes_of (Suc n) u) = 256 * (u div 256 mod 256 ^ n) + u mod 256"
    using Suc [of "u div 256"] by (simp add: of_char_of)
  also have "\<dots> = u mod 256 ^ Suc n" by (simp add: mod_mult2_eq mult.commute)
  finally show ?case .
qed simp

lemma uuid_bytes_inj:
  assumes "u < 256 ^ 16" "v < 256 ^ 16" "uuid_bytes u = uuid_bytes v"
  shows "u = v"
proof -
  have "u mod 256 ^ 16 = v mod 256 ^ 16"
    using number_of_bytes [of 16 u] number_of_bytes [of 16 v] assms(3) unfolding uuid_bytes_def by (simp only:)
  with assms(1,2) show ?thesis by (simp only: mod_less)
qed

lemma colon_append_inj:
  "c \<notin> set t \<Longrightarrow> c \<notin> set t' \<Longrightarrow> a @ c # t = a' @ c # t' \<longleftrightarrow> a = a' \<and> t = t'"
proof
  assume c: "c \<notin> set t" "c \<notin> set t'" and eq: "a @ c # t = a' @ c # t'"
  have "takeWhile (\<lambda>x. x \<noteq> c) (rev (a @ c # t)) = rev t" "takeWhile (\<lambda>x. x \<noteq> c) (rev (a' @ c # t')) = rev t'"
    using c by (auto simp: takeWhile_append)
  with eq have "t = t'" by simp
  with eq show "a = a' \<and> t = t'" by simp
qed simp

text \<open>What Python documents of \<^verbatim>\<open>repr\<close> of floats: it tells floats apart and prints no colon.\<close>

definition repr_faithful :: "hmac_env \<Rightarrow> bool" where
  "repr_faithful env = (inj (hme_repr_float env) \<and> (\<forall>t. CHR '':'' \<notin> set (hme_repr_float env t)))"

text \<open>A parsed identifier has 16 bytes.\<close>

definition uuids_in_range :: "hmac_env \<Rightarrow> bool" where
  "uuids_in_range env = (\<forall>s u. hme_parse_uuid env s = Some u \<longrightarrow> u < 256 ^ 16)"

lemma signature_components_inj:
  assumes r: "repr_faithful env" and u: "u < 256 ^ 16" "v < 256 ^ 16"
    and eq: "signature_components env b u t = signature_components env b' v t'"
  shows "b = b' \<and> u = v \<and> t = t'"
proof -
  let ?c = "CHR '':''"
  have "(b @ ?c # uuid_bytes u) @ ?c # hme_repr_float env t = (b' @ ?c # uuid_bytes v) @ ?c # hme_repr_float env t'"
    using eq unfolding signature_components_def by simp
  with colon_append_inj [of ?c "hme_repr_float env t" "hme_repr_float env t'"] r
  have "b @ ?c # uuid_bytes u = b' @ ?c # uuid_bytes v" and t: "hme_repr_float env t = hme_repr_float env t'"
    unfolding repr_faithful_def by blast+
  moreover have "length (uuid_bytes u) = length (uuid_bytes v)" unfolding uuid_bytes_def by (simp only: length_bytes_of)
  ultimately have "b = b' \<and> uuid_bytes u = uuid_bytes v" by (simp add: append_eq_append_conv)
  with t uuid_bytes_inj [OF u] r show ?thesis by (simp add: repr_faithful_def inj_eq)
qed

section \<open>Tokens are verified\<close>

declare azure_verify_token.simps [simp del] keycloak_verify_token.simps [simp del]

definition azure_key_sets :: "azure_env \<Rightarrow> jwks option \<Rightarrow> jwk list set" where
  "azure_key_sets env cache = {ks. Some (KeyList ks) \<in> {cache, aze_fetch env}}"

lemma find_rsa_key_mem: "find_rsa_key kid ks found = Some (Some k) \<Longrightarrow> k \<in> set ks \<or> found = Some k"
  by (induction ks arbitrary: found) (auto split: option.splits if_splits)

lemma azure_verify_sound:
  "azure_verify_token env token cache = (Inr c, cache') \<Longrightarrow>
     \<exists>ks \<in> azure_key_sets env cache. \<exists>k \<in> set ks. aze_decode env token k = Decoded c"
proof (induction env token cache arbitrary: cache' rule: azure_verify_token.induct)
  case (1 env token cache)
  let ?cached = "case cache of None \<Rightarrow> False | Some j \<Rightarrow> jwks_truthy j"
  let ?jwks = "if ?cached then cache else aze_fetch env"
  from "1.prems" obtain ks k where ks: "?jwks = Some (KeyList ks)"
    and k: "find_rsa_key (aze_unverified_kid env token) ks None = Some (Some k)"
    and out: "aze_decode env token k = Decoded c \<or>
       (aze_decode env token k = Undecodable \<and> ?cached \<and> azure_verify_token env token None = (Inr c, cache'))"
    by (subst (asm) azure_verify_token.simps) (auto simp: Let_def split: option.splits jwks.splits decode_outcome.splits if_splits)
  have mem: "ks \<in> azure_key_sets env cache" using ks by (auto simp: azure_key_sets_def split: if_splits)
  show ?case
  proof (cases "aze_decode env token k = Decoded c")
    case True
    with mem find_rsa_key_mem [OF k] show ?thesis by blast
  next
    case False
    with out have u: "aze_decode env token k = Undecodable" "?cached" "azure_verify_token env token None = (Inr c, cache')" by auto
    from "1.IH" [OF refl refl ks refl k _ u(1,2,3)]
    show ?thesis by (auto simp: azure_key_sets_def)
  qed
qed

lemma keycloak_verify_sound:
  "keycloak_verify_token env token cache = (Inr c, cache') \<Longrightarrow>
     \<exists>ks. Some ks \<in> {cache, kce_fetch env} \<and> kce_decode env token ks = KcDecoded c"
proof (induction env token cache arbitrary: cache' rule: keycloak_verify_token.induct)
  case (1 env token cache)
  let ?cached = "case cache of None \<Rightarrow> False | Some j \<Rightarrow> kce_truthy env j"
  let ?jwks = "if ?cached then cache else kce_fetch env"
  from "1.prems" obtain ks where ks: "?jwks = Some ks"
    and out: "kce_decode env token ks = KcDecoded c \<or>
       (kce_decode env token ks = KcJoseError \<and> ?cached \<and> keycloak_verify_token env token None = (Inr c, cache'))"
    by (subst (asm) keycloak_verify_token.simps) (auto simp: Let_def split: option.splits keycloak_outcome.splits if_splits)
  show ?case
  proof (cases "kce_decode env token ks = KcDecoded c")
    case True
    with ks show ?thesis by (auto split: if_splits)
  next
    case False
    with out have u: "kce_decode env token ks = KcJoseError" "?cached" "keycloak_verify_token env token None = (Inr c, cache')" by auto
    from "1.IH" [OF refl refl ks u(1,2,3)] show ?thesis by auto
  qed
qed

section \<open>What access means\<close>

definition azure_authentic :: "'k auth_env \<Rightarrow> 'k auth_caches \<Rightarrow> string \<Rightarrow> claims \<Rightarrow> bool" where
  "azure_authentic env caches token c =
     (\<exists>ks \<in> azure_key_sets (aue_azure env) (auc_azure caches). \<exists>k \<in> set ks. aze_decode (aue_azure env) token k = Decoded c)"

definition keycloak_authentic :: "'k auth_env \<Rightarrow> 'k auth_caches \<Rightarrow> string \<Rightarrow> claims \<Rightarrow> bool" where
  "keycloak_authentic env caches token c =
     (\<exists>ks. Some ks \<in> {auc_keycloak caches, kce_fetch (aue_keycloak env)} \<and> kce_decode (aue_keycloak env) token ks = KcDecoded c)"

definition azure_grants :: "claims \<Rightarrow> string list" where
  "azure_grants c = python_split (opt_list (clm_scp c)) @ opt_list (clm_roles c)"

definition access_granted ::
    "'k auth_env \<Rightarrow> 'k auth_caches \<Rightarrow> auth_scope \<Rightarrow> auth_role \<Rightarrow> string \<Rightarrow> entitlement set \<Rightarrow> bool" where
  "access_granted env caches scope role token ents =
     (\<exists>c. (azure_authentic env caches token c \<and>
           {scope_value scope, role_value role} \<inter> set (azure_grants c) \<noteq> {} \<and>
           ents = derive_entitlements ST_USER (azure_grants c)) \<or>
          (keycloak_authentic env caches token c \<and> role_value role \<in> set (extract_roles (aue_client_id env) c) \<and>
           ents = derive_entitlements ST_USER (extract_roles (aue_client_id env) c)))"

lemma derive_entitlements_subject:
  "s \<noteq> ST_BYPASS \<Longrightarrow> derive_entitlements s grants = derive_entitlements ST_USER grants"
  by (simp add: derive_entitlements_def)

lemma require_scope_or_role_Inr:
  "require_scope_or_role (Some scope) (Some role) c = Inr s \<Longrightarrow>
     s \<noteq> ST_BYPASS \<and> {scope_value scope, role_value role} \<inter> set (azure_grants c) \<noteq> {}"
  by (auto simp: require_scope_or_role_def azure_grants_def opt_list_def split: if_splits option.splits)

lemma azure_call_Inr:
  assumes "azure_call env (Some scope) (Some role) credentials caches = (Inr ents, caches')"
  shows "\<exists>token. credentials = Some token \<and> access_granted env caches scope role token ents"
proof -
  from assms obtain token where t: "credentials = Some token"
    by (cases credentials) (auto simp: azure_call_def azure_jwt_auth_def)
  obtain verified cache' where v': "azure_verify_token (aue_azure env) token (auc_azure caches) = (verified, cache')"
    by (cases "azure_verify_token (aue_azure env) token (auc_azure caches)")
  let ?granted = "\<lambda>c. python_split (case clm_scp c of None \<Rightarrow> [] | Some x \<Rightarrow> x) @ opt_list (clm_roles c)"
  from assms t v' have "res_bind verified (\<lambda>c. res_bind (require_scope_or_role (Some scope) (Some role) c)
      (\<lambda>subject. Inr (derive_entitlements subject (?granted c)))) = Inr ents"
    by (simp add: azure_call_def azure_jwt_auth_def)
  then obtain c s where c: "verified = Inr c" and r: "require_scope_or_role (Some scope) (Some role) c = Inr s"
    and e: "ents = derive_entitlements s (?granted c)"
    by (simp only: res_bind_Inr_iff sum.inject) blast
  note v = v' [unfolded c]
  have "(case clm_scp c of None \<Rightarrow> [] | Some x \<Rightarrow> x) = opt_list (clm_scp c)" by (simp add: opt_list_def split: option.splits)
  then have "ents = derive_entitlements ST_USER (azure_grants c)"
    using e require_scope_or_role_Inr [OF r] derive_entitlements_subject [of s "azure_grants c"]
    by (simp only: azure_grants_def simp_thms)
  with azure_verify_sound [OF v] require_scope_or_role_Inr [OF r] t show ?thesis
    unfolding access_granted_def azure_authentic_def by blast
qed

lemma keycloak_call_Inr:
  assumes "keycloak_call env (Some role) credentials caches = (Inr ents, caches')"
  shows "\<exists>token. credentials = Some token \<and> access_granted env caches scope role token ents"
proof -
  from assms obtain token where t: "credentials = Some token"
    by (cases credentials) (auto simp: keycloak_call_def keycloak_jwt_auth_def)
  obtain verified cache' where v': "keycloak_verify_token (aue_keycloak env) token (auc_keycloak caches) = (verified, cache')"
    by (cases "keycloak_verify_token (aue_keycloak env) token (auc_keycloak caches)")
  from assms t v' obtain c s where v: "keycloak_verify_token (aue_keycloak env) token (auc_keycloak caches) = (Inr c, cache')"
    and r: "require_role (aue_client_id env) (Some role) c = Inr s"
    and e: "ents = derive_entitlements s (extract_roles (aue_client_id env) c)"
    by (auto simp: keycloak_call_def keycloak_jwt_auth_def res_bind_Inr_iff)
  from r have "s \<noteq> ST_BYPASS" "role_value role \<in> set (extract_roles (aue_client_id env) c)"
    by (auto simp: require_role_def keycloak_subject_type_def split: if_splits option.splits list.splits)
  with e derive_entitlements_subject [of s "extract_roles (aue_client_id env) c"] keycloak_verify_sound [OF v] t show ?thesis
    unfolding access_granted_def keycloak_authentic_def by blast
qed

lemma jwt_call_Inr:
  assumes m: "build_jwt_auth st (Some scope) (Some role) = Inr m"
    and run: "jwt_call env m credentials caches = (Inr ents, caches')"
  shows "\<exists>token. credentials = Some token \<and> access_granted env caches scope role token ents"
proof -
  from m consider "m = AzureJwtAuth (Some scope) (Some role)" | "m = KeycloakJwtAuth (Some role)"
    | "m = MultiIssuerJwtAuth (Some scope) (Some role)"
    by (auto simp: build_jwt_auth_def split: if_splits)
  then show ?thesis
  proof cases
    case 3
    with run have "azure_call env (Some scope) (Some role) credentials caches = (Inr ents, caches') \<or>
        keycloak_call env (Some role) credentials caches = (Inr ents, caches')"
      by (auto simp: select_validator_def split: option.splits if_splits)
    with azure_call_Inr keycloak_call_Inr show ?thesis by blast
  qed (use run azure_call_Inr keycloak_call_Inr in auto)
qed

lemma require_header_Inr: "require_header rq name = Inr t \<Longrightarrow> rq_header rq name = Some t"
  by (auto simp: require_header_def header_text_def split: option.splits list.splits)

lemma headers_from_request_Inr:
  assumes "headers_from_request env rq = Inr h"
  obtains client stamp t where "hme_parse_uuid env client = Some (hmh_client_id h)"
    "rq_header rq ''X-Request-Timestamp'' = Some stamp" "hme_float env stamp = Some t"
    "\<not> older_than_five_minutes (hme_now env) t"
proof -
  from assms obtain x where x: "require_header rq ''Authorization'' = Inr x"
    by (auto simp: headers_from_request_def res_bind_Inr_iff)
  obtain scheme signature where sp: "split_once (CHR '' '') x = (scheme, signature)" by (cases "split_once (CHR '' '') x")
  from assms x sp have "request_client_id env rq = Inr (hmh_client_id h)" "request_timestamp env rq = Inr (hmh_timestamp h)"
    by (auto simp: headers_from_request_def res_bind_Inr_iff split: if_splits)
  then obtain client stamp t where "hme_parse_uuid env client = Some (hmh_client_id h)"
    "require_header rq ''X-Request-Timestamp'' = Inr stamp" "hme_float env stamp = Some t"
    "\<not> older_than_five_minutes (hme_now env) t"
    by (auto simp: request_client_id_def request_timestamp_def res_bind_Inr_iff split: option.splits if_splits)
  with require_header_Inr that show thesis by blast
qed

lemma hmac_multi_client_Inr:
  assumes "hmac_multi_client_auth env info rq = Inr ents"
  obtains h secret where "headers_from_request env rq = Inr h" "info (hmh_client_id h) = Inr (secret, ents)"
    "hmh_signature h = create_signature env secret (rq_body rq) (hmh_client_id h) (hmh_timestamp h)"
proof -
  from assms obtain h where h: "headers_from_request env rq = Inr h"
    by (auto simp: hmac_multi_client_auth_def res_bind_Inr_iff)
  show thesis
  proof (cases "info (hmh_client_id h)")
    case (Inl e)
    with assms h show thesis by (cases e) (simp_all add: hmac_multi_client_auth_def)
  next
    case (Inr q)
    with assms h that show thesis by (cases q) (auto simp: hmac_multi_client_auth_def split: if_splits)
  qed
qed

lemma robot_auth_info_Inr:
  assumes "get_robot_auth_info rows pk = Inr (secret, ents)"
  obtains row where "row \<in> set rows" "rrow_id row = pk" "secret = rrow_client_secret row" "ents = rrow_entitlements row"
proof -
  from assms obtain row where row: "find (\<lambda>x. rrow_id x = pk) rows = Some row"
    and s: "get_client_secret (robot_to_domain row) = Inr secret" "ents = rob_entitlements (robot_to_domain row)"
    by (auto simp: get_robot_auth_info_def robots_get_by_pk_def res_bind_Inr_iff repo_get_by_pk_Inr_iff)
  from s have "secret = rrow_client_secret row" "ents = rrow_entitlements row"
    by (auto simp: robot_to_domain_def get_client_secret_def split: list.splits)
  with find_Some_set [OF row] that show thesis by blast
qed

section \<open>Properties\<close>


text \<open>
  C40 (safety). Without the bypass of local environments, a token gives access only on claims that
  one of the providers' keys verified, whatever issuer the token names itself: for Azure the
  required scope or role is among its grants, for Keycloak the required role is among the roles on
  this client. The entitlements are exactly those the grants stand for; writing raw enhancements is
  not among them.
\<close>

theorem token_access_verified:
  assumes "choose_auth_strategy st (Some scope) (Some role) (should_bypass_auth st) = Inr method"
    and "\<not> ast_running_locally st"
    and "auth_call env method rq credentials caches = (Inr ents, caches')"
  shows "\<exists>token. credentials = Some token \<and> access_granted env caches scope role token ents \<and>
           ENT_RAW_ENHANCEMENT_WRITER \<notin> ents"
proof -
  from assms(1,2) obtain m where m: "build_jwt_auth st (Some scope) (Some role) = Inr m" "method = JwtAuth m"
    by (auto simp: choose_auth_strategy_def should_bypass_auth_def res_bind_Inr_iff)
  with assms(3) have "jwt_call env m credentials caches = (Inr ents, caches')" by simp
  from jwt_call_Inr [OF m(1) this] obtain token where t: "credentials = Some token" "access_granted env caches scope role token ents"
    by blast
  have "ENT_RAW_ENHANCEMENT_WRITER \<notin> derive_entitlements ST_USER g" for g
    by (auto simp: derive_entitlements_def entitlement_to_grants_def)
  with t show ?thesis unfolding access_granted_def by blast
qed

text \<open>A printing of floats in unary, for the witness.\<close>

definition unary_float :: "py_float \<Rightarrow> string" where
  "unary_float f =
     (case f of
        Finite r \<Rightarrow> (case quotient_of r of (n, d) \<Rightarrow>
          (if n < 0 then CHR ''m'' else CHR ''p'') # replicate (nat \<bar>n\<bar>) (CHR ''i'') @ CHR ''s'' # replicate (nat d) (CHR ''i''))
      | PosInf \<Rightarrow> ''x'' | NegInf \<Rightarrow> ''y'' | NotANumber \<Rightarrow> ''z'')"

lemma replicate_sep_inj:
  "a \<noteq> b \<Longrightarrow> replicate k a @ b # replicate l a = replicate k' a @ b # replicate l' a \<Longrightarrow> k = k' \<and> l = l'"
proof -
  assume ab: "a \<noteq> b" and eq: "replicate k a @ b # replicate l a = replicate k' a @ b # replicate l' a"
  have "takeWhile (\<lambda>x. x = a) (replicate k a @ b # replicate l a) = replicate k a"
    "takeWhile (\<lambda>x. x = a) (replicate k' a @ b # replicate l' a) = replicate k' a"
    using ab by (simp_all add: takeWhile_append)
  with eq have "replicate k a = replicate k' a" by simp
  then have "k = k'" by (metis length_replicate)
  with eq show ?thesis by (metis append_eq_append_conv length_replicate list.inject)
qed

lemma unary_float_faithful: "inj unary_float" "CHR '':'' \<notin> set (unary_float f)"
proof -
  have fin: "r = r'" if eq: "unary_float (Finite r) = unary_float (Finite r')" for r r'
  proof -
    obtain n d n' d' where q: "quotient_of r = (n, d)" "quotient_of r' = (n', d')" by (metis surj_pair)
    have d: "0 < d" "0 < d'" using q quotient_of_denom_pos by blast+
    from eq q have sign: "n < 0 \<longleftrightarrow> n' < 0"
      and body: "replicate (nat \<bar>n\<bar>) (CHR ''i'') @ CHR ''s'' # replicate (nat d) (CHR ''i'') =
        replicate (nat \<bar>n'\<bar>) (CHR ''i'') @ CHR ''s'' # replicate (nat d') (CHR ''i'')"
      by (auto simp: unary_float_def split: if_splits)
    have "nat \<bar>n\<bar> = nat \<bar>n'\<bar> \<and> nat d = nat d'" by (rule replicate_sep_inj [OF _ body]) simp
    with sign d have "n = n'" "d = d'" by auto
    with q show ?thesis by (metis quotient_of_inject)
  qed
  show "inj unary_float"
  proof (rule injI)
    fix x y :: py_float assume "unary_float x = unary_float y"
    then show "x = y"
      using fin by (cases x; cases y) (auto simp: unary_float_def split: prod.splits if_splits)
  qed
  show "CHR '':'' \<notin> set (unary_float f)"
    by (cases f) (auto simp: unary_float_def split: prod.splits)
qed

definition sample_hmac_env :: hmac_env where
  "sample_hmac_env =
     \<lparr> hme_hmac = (\<lambda>secret m. m), hme_float = (\<lambda>s. Some (Finite (rat_of_nat (length s)))),
       hme_field_float = (\<lambda>s. Some (Finite (rat_of_nat (length s)))), hme_repr_float = unary_float,
       hme_parse_uuid = (\<lambda>s. if s = ''one'' then Some 1 else None), hme_now = 10 \<rparr>"

definition sample_request_to_sign :: http_request where
  "sample_request_to_sign =
     \<lparr> rq_header = (\<lambda>n. if n = ''Authorization''
         then Some (''Signature '' @ create_signature sample_hmac_env ''k'' ''body'' 1 (Finite 2))
         else if n = ''X-Client-Id'' then Some ''one'' else if n = ''X-Request-Timestamp'' then Some ''ab'' else None),
       rq_body = ''body'' \<rparr>"


definition sample_claims :: claims where
  "sample_claims =
     \<lparr> clm_scp = Some ''reference.reader.all other'', clm_roles = None,
       clm_resource_access = Some [(''repo'', Some [''reference.reader'', ''reference.full_text.reader''])],
       clm_preferred_username = Some ''ann'', clm_azp = None \<rparr>"

text \<open>Azure signs with the key of the identifier \<^verbatim>\<open>new\<close>, Keycloak with the key set 2; both rotated their keys.\<close>

definition sample_jwk :: "string \<Rightarrow> jwk" where
  "sample_jwk kid = [(''kty'', ''RSA''), (''kid'', kid), (''use'', ''sig''), (''n'', ''n''), (''e'', ''e'')]"

definition sample_auth_env :: "nat auth_env" where
  "sample_auth_env =
     \<lparr> aue_azure = \<lparr> aze_fetch = Some (KeyList [sample_jwk ''new'']), aze_unverified_kid = (\<lambda>_. Some ''new''),
         aze_decode = (\<lambda>t k. if map_of k ''kid'' = Some ''new'' then Decoded sample_claims else Undecodable) \<rparr>,
       aue_keycloak = \<lparr> kce_fetch = Some 2, kce_decode = (\<lambda>t ks. if ks = 2 then KcDecoded sample_claims else KcJoseError),
         kce_truthy = (\<lambda>_. True) \<rparr>,
       aue_client_id = ''repo'', aue_unverified_issuer = (\<lambda>t. Some (Some t)), aue_azure_issuer = ''azure'',
       aue_keycloak_issuer = ''keycloak'', aue_hmac = sample_hmac_env, aue_get_auth_info = (\<lambda>_. Inl SQLNotFoundError) \<rparr>"

definition sample_auth_settings :: auth_settings where
  "sample_auth_settings =
     \<lparr> ast_auth_provider = Provider_both, ast_keycloak_url = Some ''u'', ast_keycloak_client_id = Some ''repo'',
       ast_running_locally = False, ast_bypass_auth = Some True \<rparr>"

theorem token_access_verified_witness:
  "\<exists>ents caches'. auth_call sample_auth_env (JwtAuth (MultiIssuerJwtAuth (Some AS_REFERENCE_READER) (Some AR_REFERENCE_READER)))
       sample_request_to_sign (Some ''keycloak'') \<lparr> auc_azure = None, auc_keycloak = Some 1 \<rparr> = (Inr ents, caches') \<and>
     ents = {ENT_FULL_TEXT} \<and>
     access_granted sample_auth_env \<lparr> auc_azure = None, auc_keycloak = Some 1 \<rparr> AS_REFERENCE_READER AR_REFERENCE_READER ''keycloak'' ents"
proof -
  let ?m = "JwtAuth (MultiIssuerJwtAuth (Some AS_REFERENCE_READER) (Some AR_REFERENCE_READER))"
  let ?c = "\<lparr> auc_azure = None, auc_keycloak = Some 1 \<rparr>"
  have "case fst (auth_call sample_auth_env ?m sample_request_to_sign (Some ''keycloak'') ?c) of
      Inr ents \<Rightarrow> ents = {ENT_FULL_TEXT} | Inl _ \<Rightarrow> False" by code_simp
  then obtain caches' where run: "auth_call sample_auth_env ?m sample_request_to_sign (Some ''keycloak'') ?c = (Inr {ENT_FULL_TEXT}, caches')"
    by (cases "auth_call sample_auth_env ?m sample_request_to_sign (Some ''keycloak'') ?c") (auto split: sum.splits)
  have "choose_auth_strategy sample_auth_settings (Some AS_REFERENCE_READER) (Some AR_REFERENCE_READER)
      (should_bypass_auth sample_auth_settings) = Inr ?m" by code_simp
  from token_access_verified [OF this _ run] run show ?thesis by (simp add: sample_auth_settings_def)
qed

text \<open>
  Keycloak may rotate its keys at any time: a token that the keys now served verify
  is accepted even when the cached keys do not verify it, and the cache then holds the new keys.
\<close>

lemma keycloak_accepts_rotated_key:
  assumes "kce_decode env token old = KcJoseError"
    and "kce_fetch env = Some new" and "kce_decode env token new = KcDecoded c"
  shows "keycloak_verify_token env token (Some old) = (Inr c, Some new)"
proof -
  have fresh: "keycloak_verify_token env token None = (Inr c, Some new)"
    by (subst keycloak_verify_token.simps) (simp add: assms)
  show ?thesis
  proof (cases "kce_truthy env old")
    case True
    then show ?thesis by (subst keycloak_verify_token.simps) (simp add: assms(1) fresh)
  next
    case False
    then show ?thesis by (subst keycloak_verify_token.simps) (simp add: assms)
  qed
qed

lemma keycloak_accepts_rotated_key_witness:
  "keycloak_verify_token (aue_keycloak sample_auth_env) ''t'' (Some 1) = (Inr sample_claims, Some 2)"
  using keycloak_accepts_rotated_key [of "aue_keycloak sample_auth_env" "''t''" 1 2 sample_claims]
  by (simp add: sample_auth_env_def)

text \<open>
  After Azure rotates its keys, a token signed with a new key is refused although the
  keys now served verify it: the cached keys have no key of that identifier, which raises before
  the retry with fresh keys, and the cache is kept, so this holds until its entry expires. A token
  whose identifier is known is retried.
\<close>

lemma azure_refuses_rotated_key:
  assumes "aze_unverified_kid env token = Some kid"
    and "list_all (\<lambda>k. \<exists>i. map_of k ''kid'' = Some i \<and> i \<noteq> kid) old"
    and "aze_fetch env = Some (KeyList new)" and "find_rsa_key (Some kid) new None = Some (Some k)"
    and "aze_decode env token k = Decoded c"
  shows "azure_verify_token env token None = (Inr c, Some (KeyList new)) \<and>
         azure_verify_token env token (Some (KeyList old)) = (Inl (AuthError 401), Some (KeyList old))"
proof
  show "azure_verify_token env token None = (Inr c, Some (KeyList new))"
    by (subst azure_verify_token.simps) (simp add: assms)
  have "find_rsa_key (Some kid) old None = Some None" using assms(2) by (induction old) auto
  then show "azure_verify_token env token (Some (KeyList old)) = (Inl (AuthError 401), Some (KeyList old))"
    by (subst azure_verify_token.simps) (simp add: assms(1))
qed

lemma azure_refuses_rotated_key_witness:
  "azure_verify_token (aue_azure sample_auth_env) ''t'' None = (Inr sample_claims, Some (KeyList [sample_jwk ''new''])) \<and>
   azure_verify_token (aue_azure sample_auth_env) ''t'' (Some (KeyList [sample_jwk ''old''])) =
     (Inl (AuthError 401), Some (KeyList [sample_jwk ''old'']))"
  using azure_refuses_rotated_key [of "aue_azure sample_auth_env" "''t''" "''new''" "[sample_jwk ''old'']"
      "[sample_jwk ''new'']" "sample_jwk ''new''" sample_claims]
  by (simp add: sample_auth_env_def sample_jwk_def complete_jwk_def)

end
