(* ===== verification/Blob_Repository.thy ===== *)
theory Blob_Repository
  imports Blob_Storage
begin

text \<open>
  Writing files with \<^verbatim>\<open>BlobRepository\<close> (\<^verbatim>\<open>src/app/persistence/blob/repository.py\<close>) from a
  \<^verbatim>\<open>FileStream\<close> (\<^verbatim>\<open>src/app/persistence/blob/stream.py\<close>) or from bytes, through the Azure client
  (\<^verbatim>\<open>src/app/persistence/blob/clients/azure.py\<close>).

  The storage account is a parameter: which uploads it refuses. What it holds is state, a list of
  files with their contents. Texts stand for their UTF-8 encodings.
\<close>

type_synonym blobs = "(blob_storage_file \<times> string) list"

text \<open>
  The write backend: its location, the name of its operations container, and whether the account
  refuses an upload.
\<close>

record blob_account =
  ba_location :: blob_storage_location
  ba_operations_container :: string
  ba_refuses :: "blob_storage_file \<Rightarrow> string \<Rightarrow> bool"

definition destination :: "blob_account \<Rightarrow> string \<Rightarrow> string \<Rightarrow> blob_storage_file result" where
  "destination ba path filename =
     (let f = \<lparr> bsf_location = ba_location ba, bsf_container = ba_operations_container ba,
               bsf_path = path, bsf_filename = filename \<rparr>
      in if blob_file_valid f then Inr f else Inl ValidationError)"

section \<open>FileStream\<close>

text \<open>Every item of a chunk is followed by a line break.\<close>

definition stream_to_str :: "string list \<Rightarrow> string" where
  "stream_to_str items = concat (map (\<lambda>s. s @ ''\<newline>'') items)"

text \<open>
  \<open>stream()\<close> over a function: the chunks in the order of the arguments, up to the first call that
  raises. The client sees the exception while it uploads.
\<close>

definition file_stream :: "('k \<Rightarrow> string list result) \<Rightarrow> 'k list \<Rightarrow> string result" where
  "file_stream fn fn_kwargs =
     res_bind (res_mapM (\<lambda>k. res_bind (fn k) (\<lambda>items. Inr (stream_to_str items))) fn_kwargs)
       (\<lambda>parts. Inr (concat parts))"

section \<open>Uploading\<close>

text \<open>
  \<open>upload_file\<close> with \<open>overwrite=True\<close>. Any exception, one raised by the stream included, becomes an
  \<^verbatim>\<open>AzureBlobStorageError\<close>, and no file is committed.
\<close>

definition upload_file ::
    "blob_account \<Rightarrow> string result \<Rightarrow> blob_storage_file \<Rightarrow> blobs \<Rightarrow> blobs result" where
  "upload_file ba content f blobs =
     (case content of
        Inl _ \<Rightarrow> Inl BlobStorageError
      | Inr text \<Rightarrow> if ba_refuses ba f text then Inl BlobStorageError
                    else Inr (AList.update f text blobs))"

definition upload_file_to_blob_storage ::
    "blob_account \<Rightarrow> string result \<Rightarrow> string \<Rightarrow> string \<Rightarrow> blobs \<Rightarrow> (blob_storage_file \<times> blobs) result" where
  "upload_file_to_blob_storage ba content path filename blobs =
     res_bind (destination ba path filename) (\<lambda>f.
     res_bind (upload_file ba content f blobs) (\<lambda>blobs'. Inr (f, blobs')))"

section \<open>Lemmas\<close>

lemma upload_Inr:
  assumes "upload_file_to_blob_storage ba content path filename blobs = Inr (f, blobs')"
  obtains body where "content = Inr body" and "blobs' = AList.update f body blobs"
    and "blob_file_valid f" and "bsf_path f = path" and "bsf_filename f = filename"
    and "map_of blobs' f = Some body"
    and "\<And>g. g \<noteq> f \<Longrightarrow> map_of blobs' g = map_of blobs g"
  using assms
  by (auto simp: upload_file_to_blob_storage_def upload_file_def destination_def Let_def result_simps
      AList.update_conv' split: sum.splits if_splits)

text \<open>Files named after a UUID have a valid name.\<close>

lemma set_hex_pad: "set (hex_pad w n) \<subseteq> set ''0123456789abcdef''"
proof (induction w arbitrary: n)
  case (Suc w)
  have "hex_digit n \<in> set ''0123456789abcdef''"
    unfolding hex_digit_def by (rule nth_mem) simp
  with Suc show ?case by auto
qed simp

lemma set_str_uuid: "set (str_uuid u) \<subseteq> insert (CHR ''-'') (set ''0123456789abcdef'')"
proof -
  have "set (str_uuid u) \<subseteq> insert (CHR ''-'') (set (hex_pad 32 u))"
    unfolding str_uuid_def Let_def set_append
    by (intro Un_least) (auto dest: in_set_takeD in_set_dropD)
  with set_hex_pad show ?thesis by blast
qed

lemma no_slash_in_str_uuid [simp]: "CHR ''/'' \<notin> set (str_uuid u)"
  using set_str_uuid by fastforce

text \<open>Without a line break inside the items the lines of a file are the items streamed.\<close>

lemma str_split_stream:
  "\<forall>s \<in> set items. CHR ''\<newline>'' \<notin> set s \<Longrightarrow>
     str_split (CHR ''\<newline>'') (stream_to_str items) = items @ [[]]"
  by (induction items) (auto simp: stream_to_str_def str_split_append)

lemma stream_to_str_append: "stream_to_str (xs @ ys) = stream_to_str xs @ stream_to_str ys"
  by (simp add: stream_to_str_def)

lemma file_stream_Inr:
  "file_stream fn ks = Inr body \<longleftrightarrow>
     (\<exists>items. res_mapM fn ks = Inr items \<and> body = stream_to_str (concat items))"
proof (induction ks arbitrary: body)
  case Nil
  then show ?case by (auto simp: file_stream_def stream_to_str_def)
next
  case (Cons k ks)
  have step: "file_stream fn (k # ks) =
      res_bind (fn k) (\<lambda>i. res_bind (file_stream fn ks) (\<lambda>t. Inr (stream_to_str i @ t)))"
    by (cases "fn k";
        cases "res_mapM (\<lambda>k. res_bind (fn k) (\<lambda>items. Inr (stream_to_str items))) ks")
      (simp_all add: file_stream_def)
  show ?case
    by (auto simp: step Cons.IH result_simps stream_to_str_append)
qed

end
