(* ===== verification/Deduplication_Assessment.thy ===== *)
theory Deduplication_Assessment
  imports Candidate_Selection Blob_Repository
begin

text \<open>
  Deep-deduplication assessments: retrieve the candidates of a reference, score every pair with the
  Deduper, and summarise the scores as a proposal, without writing a decision.

  \<^item> \<^verbatim>\<open>src/app/domain/references/services/deduplication_assessment_service.py\<close>: the orchestration.
  \<^item> \<^verbatim>\<open>src/app/domain/references/services/deduper_pair_scorer.py\<close>: the adapter around the released
    Deduper, which is a parameter: what it answers for two records, or the name of the exception it
    raises.
  \<^item> The models in \<^verbatim>\<open>src/app/domain/references/models/models.py\<close>, their validators included.

  Probabilities and scores are rationals.
\<close>

section \<open>Evidence for one pair\<close>

datatype dedup_field_status = FS_COMPARED | FS_MISSING_INCOMING | FS_MISSING_CANDIDATE | FS_MISSING_BOTH

record field_comparison =
  fc_incoming_value :: "json option"
  fc_candidate_value :: "json option"
  fc_normalised_incoming_value :: "string option"
  fc_normalised_candidate_value :: "string option"
  fc_status :: dedup_field_status
  fc_score :: "rat option"

record pair_result =
  pr_probability :: "rat option"
  pr_field_comparisons :: "(string \<times> field_comparison) list"
  pr_early_stop_reason :: "string option"
  pr_doi_mismatch_adjusted :: bool
  pr_suggested_label :: "string option"
  pr_unscorable_reason :: "string option"

text \<open>The bounds on the probability and \<open>validate_scoring_state\<close>.\<close>

definition pair_result_valid :: "pair_result \<Rightarrow> bool" where
  "pair_result_valid p =
     ((case pr_probability p of None \<Rightarrow> True | Some q \<Rightarrow> 0 \<le> q \<and> q \<le> 1) \<and>
      (pr_probability p = None) \<noteq> (pr_unscorable_reason p = None))"

definition make_pair_result :: "pair_result \<Rightarrow> pair_result result" where
  "make_pair_result p = (if pair_result_valid p then Inr p else Inl ValidationError)"

definition unscorable_pair :: "string \<Rightarrow> pair_result" where
  "unscorable_pair reason =
     \<lparr> pr_probability = None, pr_field_comparisons = [], pr_early_stop_reason = None,
       pr_doi_mismatch_adjusted = False, pr_suggested_label = None,
       pr_unscorable_reason = Some reason \<rparr>"

record deduper_metadata =
  dm_package_version :: string
  dm_configuration_hash :: string
  dm_threshold :: rat
  dm_effective_configuration :: json_dict

definition deduper_metadata_valid :: "deduper_metadata \<Rightarrow> bool" where
  "deduper_metadata_valid m = (0 \<le> dm_threshold m \<and> dm_threshold m \<le> 1)"

section \<open>The Deduper\<close>

text \<open>What the library reports for a pair; sides A and B are the positions of its arguments.\<close>

datatype lib_field_status = LIB_COMPARED | LIB_MISSING_A | LIB_MISSING_B | LIB_MISSING_BOTH

record lib_field_result =
  lf_value_a :: "string option"
  lf_value_b :: "string option"
  lf_normalised_value_a :: "string option"
  lf_normalised_value_b :: "string option"
  lf_status :: lib_field_status
  lf_score :: "rat option"

record lib_pair_score =
  ls_probability :: rat
  ls_field_results :: "(string \<times> lib_field_result) list"
  ls_early_stop_reason :: "string option"
  ls_doi_mismatch_adjustment_applied :: bool
  ls_label :: "string option"
  ls_unscorable_reason :: "string option"

fun field_statuses :: "lib_field_status \<Rightarrow> dedup_field_status" where
  "field_statuses LIB_COMPARED = FS_COMPARED"
| "field_statuses LIB_MISSING_A = FS_MISSING_INCOMING"
| "field_statuses LIB_MISSING_B = FS_MISSING_CANDIDATE"
| "field_statuses LIB_MISSING_BOTH = FS_MISSING_BOTH"

text \<open>
  The keyword arguments of the library's \<^verbatim>\<open>Paper\<close>: the fields that are there, the venue under its
  name \<^verbatim>\<open>journal\<close>. A \<open>None\<close> is an argument that is not passed, apart from the journal.
\<close>

record paper_kwargs =
  pk_doi :: "external_identifier option"
  pk_openalex_id :: "external_identifier option"
  pk_pubmed_id :: "external_identifier option"
  pk_title :: "string option"
  pk_authors :: "authorship list option"
  pk_year :: "int option"
  pk_journal :: "string option"
  pk_venue_type :: "publication_venue_type option"
  pk_issn :: "string option"
  pk_publisher :: "string option"
  pk_pages :: "string option"
  pk_volume :: "string option"
  pk_issue :: "string option"

definition deduper_paper :: "deduplication_paper \<Rightarrow> paper_kwargs" where
  "deduper_paper p =
     \<lparr> pk_doi = dp_doi p, pk_openalex_id = dp_openalex_id p, pk_pubmed_id = dp_pubmed_id p,
       pk_title = dp_title p, pk_authors = dp_authors p, pk_year = dp_year p,
       pk_journal = dp_venue p, pk_venue_type = dp_venue_type p, pk_issn = dp_issn p,
       pk_publisher = dp_publisher p, pk_pages = dp_pages p, pk_volume = dp_volume p,
       pk_issue = dp_issue p \<rparr>"

text \<open>
  The library: its answer for two papers, built from their arguments, or the name of the exception
  that building or scoring them raises.
\<close>

type_synonym deduper = "paper_kwargs \<Rightarrow> paper_kwargs \<Rightarrow> string + lib_pair_score"

definition run_deduper :: "deduper \<Rightarrow> deduplication_paper \<Rightarrow> deduplication_paper \<Rightarrow> string + lib_pair_score" where
  "run_deduper dd incoming candidate = dd (deduper_paper incoming) (deduper_paper candidate)"

text \<open>JSON values of the compared fields; of the authors only the display names.\<close>

definition json_opt :: "('a \<Rightarrow> json) \<Rightarrow> 'a option \<Rightarrow> json" where
  "json_opt f x = (case x of None \<Rightarrow> JNull | Some v \<Rightarrow> f v)"

fun identifier_json :: "external_identifier \<Rightarrow> json" where
  "identifier_json (PubMedIdentifier n) =
     JObj [(''identifier'', JNum (of_int n)), (''identifier_type'', JStr (id_type_value ID_PM_ID))]"
| "identifier_json i =
     JObj [(''identifier'', JStr (identifier_str i)),
           (''identifier_type'', JStr (id_type_value (identifier_type i)))]"

fun venue_type_value :: "publication_venue_type \<Rightarrow> string" where
  "venue_type_value VT_JOURNAL = ''journal''"
| "venue_type_value VT_REPOSITORY = ''repository''"
| "venue_type_value VT_CONFERENCE = ''conference''"
| "venue_type_value VT_EBOOK_PLATFORM = ''ebook_platform''"
| "venue_type_value VT_BOOK_SERIES = ''book_series''"
| "venue_type_value VT_OTHER = ''other''"

definition compared_values :: "deduplication_paper \<Rightarrow> (string \<times> json) list" where
  "compared_values p =
     [(''doi'', json_opt identifier_json (dp_doi p)),
      (''openalex_id'', json_opt identifier_json (dp_openalex_id p)),
      (''pubmed_id'', json_opt identifier_json (dp_pubmed_id p)),
      (''title'', json_opt JStr (dp_title p)),
      (''authors'', json_opt (\<lambda>as. JArr (map (\<lambda>a. JStr (au_display_name a)) as)) (dp_authors p)),
      (''year'', json_opt (\<lambda>n. JNum (of_int n)) (dp_year p)),
      (''venue'', json_opt JStr (dp_venue p)),
      (''venue_type'', json_opt (\<lambda>t. JStr (venue_type_value t)) (dp_venue_type p)),
      (''issn'', json_opt JStr (dp_issn p)),
      (''publisher'', json_opt JStr (dp_publisher p)),
      (''pages'', json_opt JStr (dp_pages p)),
      (''volume'', json_opt JStr (dp_volume p)),
      (''issue'', json_opt JStr (dp_issue p))]"

definition compared_value :: "(string \<times> json) list \<Rightarrow> string \<Rightarrow> string option \<Rightarrow> json option" where
  "compared_value values f fallback =
     (case map_of values f of
        Some j \<Rightarrow> (if j = JNull then None else Some j)
      | None \<Rightarrow> map_option JStr fallback)"

definition to_pair_result ::
    "lib_pair_score \<Rightarrow> deduplication_paper \<Rightarrow> deduplication_paper \<Rightarrow> pair_result result" where
  "to_pair_result scored incoming candidate =
     make_pair_result
       \<lparr> pr_probability = (if truthy_opt_str (ls_unscorable_reason scored) then None
                           else Some (ls_probability scored)),
         pr_field_comparisons =
           map (\<lambda>(f, r). (f,
             \<lparr> fc_incoming_value = compared_value (compared_values incoming) f (lf_value_a r),
               fc_candidate_value = compared_value (compared_values candidate) f (lf_value_b r),
               fc_normalised_incoming_value = lf_normalised_value_a r,
               fc_normalised_candidate_value = lf_normalised_value_b r,
               fc_status = field_statuses (lf_status r), fc_score = lf_score r \<rparr>))
             (ls_field_results scored),
         pr_early_stop_reason = ls_early_stop_reason scored,
         pr_doi_mismatch_adjusted = ls_doi_mismatch_adjustment_applied scored,
         pr_suggested_label = ls_label scored,
         pr_unscorable_reason = ls_unscorable_reason scored \<rparr>"

text \<open>\<open>_score\<close>: an exception of the library makes the pair unscorable, a bad answer raises.\<close>

definition score_pair ::
    "deduper \<Rightarrow> deduplication_paper \<Rightarrow> deduplication_paper \<Rightarrow> pair_result result" where
  "score_pair dd incoming candidate =
     (case run_deduper dd incoming candidate of
        Inl exn \<Rightarrow> make_pair_result (unscorable_pair (''Deduper raised '' @ exn))
      | Inr scored \<Rightarrow> to_pair_result scored incoming candidate)"

section \<open>Assessments\<close>

record scored_candidate =
  scd_candidate :: candidate
  scd_pair_result :: pair_result
  scd_clears_threshold :: "bool option"

datatype assessment_outcome = PROPOSE_CANONICAL | PROPOSE_DUPLICATE | NO_PROPOSAL

record assessment =
  as_incoming_reference_id :: uuid
  as_candidate_selection :: selection_result
  as_deduper :: deduper_metadata
  as_scored_candidates :: "scored_candidate list"
  as_outcome :: assessment_outcome
  as_proposed_duplicate_of_id :: "uuid option"
  as_threshold_clearing_candidate_ids :: "uuid list"
  as_unscorable_candidate_ids :: "uuid list"

section \<open>DeduplicationAssessmentService\<close>

text \<open>
  The dependencies the service is constructed with: the candidate selector, the reader of stored
  references, and the pair scorer with its metadata.
\<close>

record assessor =
  asr_candidate_selector :: "selection_request \<Rightarrow> selection_result result"
  asr_get_hydrated :: "uuid list \<Rightarrow> enhancement_type list option \<Rightarrow> reference list result"
  asr_metadata :: deduper_metadata
  asr_score_pair :: "deduplication_paper \<Rightarrow> deduplication_paper \<Rightarrow> pair_result result"
  asr_projector :: projector

text \<open>
  \<^verbatim>\<open>INFRASTRUCTURE_ERRORS\<close>: the \<^verbatim>\<open>ESError\<close> family and connectivity failures of the database driver
  (\<^verbatim>\<open>OperationalError\<close> and \<^verbatim>\<open>InterfaceError\<close>, both \<^verbatim>\<open>DBAPIError\<close>).
\<close>

definition infrastructure_error :: "app_error \<Rightarrow> bool" where
  "infrastructure_error e =
     (e \<in> set [ESError, ESNotFoundError, ESMalformedDocumentError, ESQueryError, DBAPIError])"

definition wrap_infrastructure :: "'a result \<Rightarrow> 'a result" where
  "wrap_infrastructure r =
     (case r of
        Inl e \<Rightarrow> Inl (if infrastructure_error e then DeduplicationError else e)
      | Inr x \<Rightarrow> Inr x)"

definition scored_enhancement_types :: "enhancement_type list" where
  "scored_enhancement_types = [ET_BIBLIOGRAPHIC]"

definition unprojectable_candidate_reason :: string where
  "unprojectable_candidate_reason = ''Candidate could not be projected for scoring.''"

definition to_scorer_paper :: "'r reference_t \<Rightarrow> deduplication_paper result" where
  "to_scorer_paper reference =
     (case deduplication_paper_from_reference reference of
        Inl e \<Rightarrow> Inl (if e = ProjectionError then DeduplicationValueError else e)
      | Inr p \<Rightarrow> Inr p)"

definition hydrate_one :: "assessor \<Rightarrow> uuid \<Rightarrow> reference result" where
  "hydrate_one A reference_id =
     res_bind (asr_get_hydrated A [reference_id] (Some scored_enhancement_types)) (\<lambda>hydrated.
       case hydrated of [] \<Rightarrow> Inl DeduplicationNotFoundError | r # _ \<Rightarrow> Inr r)"

text \<open>Outcome and proposal from the identifiers that clear the threshold and those unscored.\<close>

definition summarise :: "uuid list \<Rightarrow> uuid list \<Rightarrow> bool \<Rightarrow> assessment_outcome \<times> uuid option" where
  "summarise threshold_clearing_ids unscorable_ids input_searchable =
     (if unscorable_ids \<noteq> [] \<or> 1 < length threshold_clearing_ids then (NO_PROPOSAL, None)
      else if threshold_clearing_ids \<noteq> [] then (PROPOSE_DUPLICATE, Some (hd threshold_clearing_ids))
      else if \<not> input_searchable then (NO_PROPOSAL, None)
      else (PROPOSE_CANONICAL, None))"

text \<open>
  Hydrating the candidates found: all of them have to be there. The dictionary by identifier keeps
  the last reference under each.
\<close>

definition hydrate_candidates :: "assessor \<Rightarrow> uuid list \<Rightarrow> (uuid \<times> reference) list result" where
  "hydrate_candidates A candidate_ids =
     (if candidate_ids = [] then Inr []
      else
        res_bind (wrap_infrastructure
                    (asr_get_hydrated A candidate_ids (Some scored_enhancement_types))) (\<lambda>hydrated.
          let candidates_by_id = dict_comp ref_id id hydrated
          in if list_all (\<lambda>c. map_of candidates_by_id c \<noteq> None) candidate_ids
             then Inr candidates_by_id else Inl DeduplicationError))"

text \<open>
  One turn of the scoring loop. A candidate that cannot be projected is recorded as unscorable; an
  exception of the scorer ends the assessment.
\<close>

definition score_candidate ::
    "assessor \<Rightarrow> rat \<Rightarrow> deduplication_paper \<Rightarrow> (uuid \<times> reference) list \<Rightarrow> candidate \<Rightarrow> scored_candidate result" where
  "score_candidate A threshold scored_incoming candidates_by_id c =
     (case map_of candidates_by_id (cand_reference_id c) of
        None \<Rightarrow> Inl PyKeyError
      | Some reference \<Rightarrow>
          res_bind
            (case to_scorer_paper reference of
               Inl e \<Rightarrow> if e = DeduplicationValueError
                        then make_pair_result (unscorable_pair unprojectable_candidate_reason)
                        else Inl e
             | Inr paper \<Rightarrow> asr_score_pair A scored_incoming paper)
            (\<lambda>p. Inr \<lparr> scd_candidate = c, scd_pair_result = p,
                      scd_clears_threshold = map_option (\<lambda>q. threshold \<le> q) (pr_probability p) \<rparr>))"

definition ids_where :: "bool option \<Rightarrow> scored_candidate list \<Rightarrow> uuid list" where
  "ids_where v scored =
     map (\<lambda>s. cand_reference_id (scd_candidate s)) (filter (\<lambda>s. scd_clears_threshold s = v) scored)"

definition assess ::
    "assessor \<Rightarrow> 'r reference_t \<Rightarrow> selection_input \<Rightarrow> retrieval_policy_name option \<Rightarrow> nat option \<Rightarrow>
     assessment result" where
  "assess A incoming selection retrieval_policy k =
     res_bind (to_scorer_paper incoming) (\<lambda>scored_incoming.
     let request = \<lparr> sr_input = selection, sr_retrieval_policy = retrieval_policy, sr_k = k,
                     sr_hydrate = False, sr_track_total_hits = True \<rparr> in
     res_bind (if selection_request_valid request then Inr () else Inl ValidationError) (\<lambda>_.
     res_bind (wrap_infrastructure (asr_candidate_selector A request)) (\<lambda>sel.
     let candidate_ids = map cand_reference_id (sel_candidates sel) in
     res_bind (if ref_id incoming \<in> set candidate_ids then Inl DeduplicationValueError else Inr ()) (\<lambda>_.
     res_bind (hydrate_candidates A candidate_ids) (\<lambda>candidates_by_id.
     res_bind (res_mapM (score_candidate A (dm_threshold (asr_metadata A)) scored_incoming candidates_by_id)
                 (sel_candidates sel)) (\<lambda>scored.
       let clearing = ids_where (Some True) scored;
           unscorable = ids_where None scored;
           (outcome, proposed) = summarise clearing unscorable (sel_searchable sel)
       in Inr \<lparr> as_incoming_reference_id = ref_id incoming, as_candidate_selection = sel,
                as_deduper = asr_metadata A, as_scored_candidates = scored, as_outcome = outcome,
                as_proposed_duplicate_of_id = proposed,
                as_threshold_clearing_candidate_ids = clearing,
                as_unscorable_candidate_ids = unscorable \<rparr>))))))"

text \<open>Assessing a stored reference: the query is what its candidate projection holds.\<close>

definition evaluate ::
    "assessor \<Rightarrow> uuid \<Rightarrow> retrieval_policy_name option \<Rightarrow> nat option \<Rightarrow> assessment result" where
  "evaluate A reference_id retrieval_policy k =
     res_bind (hydrate_one A reference_id) (\<lambda>reference.
     res_bind (candidate_reference_from_reference (asr_projector A) reference) (\<lambda>c.
     let selection = \<lparr> si_reference_id = None, si_title = cr_title c, si_authors = cr_authors c,
                       si_publication_year = cr_publication_year c,
                       si_identifiers = cr_identifiers c,
                       si_excluded_reference_id = Some reference_id \<rparr>
     in if \<not> selection_input_valid selection then Inl DeduplicationValueError
        else assess A reference selection retrieval_policy k))"

text \<open>Assessing a supplied record against a query the caller built.\<close>

definition evaluate_supplied ::
    "assessor \<Rightarrow> 'r reference_t \<Rightarrow> selection_input \<Rightarrow> retrieval_policy_name option \<Rightarrow> nat option \<Rightarrow>
     assessment result" where
  "evaluate_supplied A incoming selection retrieval_policy k =
     assess A incoming selection retrieval_policy k"

text \<open>The service as it is wired to the database, the search index and the Deduper.\<close>

definition wired_assessor ::
    "pydantic \<Rightarrow> projector \<Rightarrow> es_search \<Rightarrow> scoring_config \<Rightarrow> deduper \<Rightarrow> deduper_metadata \<Rightarrow> db \<Rightarrow> assessor" where
  "wired_assessor P prj es cfg dd meta db =
     \<lparr> asr_candidate_selector = (\<lambda>request. get_deduplication_candidates P prj es cfg request db),
       asr_get_hydrated = (\<lambda>ids types. get_hydrated db ids types None),
       asr_metadata = meta, asr_score_pair = score_pair dd, asr_projector = prj \<rparr>"

section \<open>What an assessment relies on\<close>

text \<open>
  The contract of the collaborators of an assessment: the reader returns references that are stored
  and were asked for, the scorer returns valid evidence.
\<close>

locale assessment_collaborators =
  fixes reader :: "uuid list \<Rightarrow> enhancement_type list option \<Rightarrow> reference list result"
    and scorer :: "deduplication_paper \<Rightarrow> deduplication_paper \<Rightarrow> pair_result result"
    and stored :: "uuid set"
  assumes reader_stored: "reader ids types = Inr rs \<Longrightarrow> r \<in> set rs \<Longrightarrow> ref_id r \<in> stored \<inter> set ids"
    and scorer_valid: "scorer p q = Inr e \<Longrightarrow> pair_result_valid e"
begin

lemma hydrated_stored:
  assumes "asr_get_hydrated A = reader" and "hydrate_candidates A ids = Inr by_id" and "c \<in> set ids"
  shows "c \<in> stored"
proof -
  from assms(2,3) have "ids \<noteq> []" by auto
  with assms(2) obtain rs where
    w: "wrap_infrastructure (asr_get_hydrated A ids (Some scored_enhancement_types)) = Inr rs"
    and "list_all (\<lambda>c. map_of (dict_comp ref_id id rs) c \<noteq> None) ids"
    by (auto simp: hydrate_candidates_def result_simps Let_def split: if_splits)
  with assms(3) have "map_of (dict_comp ref_id id rs) c \<noteq> None" by (simp add: list_all_iff)
  then obtain r where "find (\<lambda>r. ref_id r = c) (rev rs) = Some r" by (auto simp: map_of_dict_comp)
  then have r: "r \<in> set rs" "ref_id r = c" by (auto dest: find_Some_set)
  from w have "asr_get_hydrated A ids (Some scored_enhancement_types) = Inr rs"
    by (auto simp: wrap_infrastructure_def split: sum.splits)
  then have "reader ids (Some scored_enhancement_types) = Inr rs" by (simp add: assms(1))
  from reader_stored [OF this r(1)] r(2) show ?thesis by simp
qed

lemma scored_valid:
  assumes "asr_score_pair A = scorer" and "score_candidate A t p by_id c = Inr s"
  shows "scd_candidate s = c \<and> pair_result_valid (scd_pair_result s) \<and>
     scd_clears_threshold s = map_option (\<lambda>q. t \<le> q) (pr_probability (scd_pair_result s))"
  using assms(2)
  by (auto simp: score_candidate_def result_simps make_pair_result_def assms(1)
      split: option.splits sum.splits if_splits dest: scorer_valid)

lemma assessed:
  assumes A: "asr_get_hydrated A = reader" "asr_score_pair A = scorer"
    and run: "assess A incoming selection policy k = Inr a"
  defines "sel \<equiv> as_candidate_selection a"
  shows "asr_candidate_selector A \<lparr> sr_input = selection, sr_retrieval_policy = policy, sr_k = k,
            sr_hydrate = False, sr_track_total_hits = True \<rparr> = Inr sel"
    and "map scd_candidate (as_scored_candidates a) = sel_candidates sel"
    and "ref_id incoming \<notin> cand_reference_id ` set (sel_candidates sel)"
    and "cand_reference_id ` set (sel_candidates sel) \<subseteq> stored"
    and "\<forall>s \<in> set (as_scored_candidates a). pair_result_valid (scd_pair_result s) \<and>
           scd_clears_threshold s =
             map_option (\<lambda>q. dm_threshold (asr_metadata A) \<le> q) (pr_probability (scd_pair_result s))"
    and "as_deduper a = asr_metadata A" and "as_incoming_reference_id a = ref_id incoming"
    and "as_threshold_clearing_candidate_ids a = ids_where (Some True) (as_scored_candidates a)"
    and "as_unscorable_candidate_ids a = ids_where None (as_scored_candidates a)"
    and "(as_outcome a, as_proposed_duplicate_of_id a) =
           summarise (ids_where (Some True) (as_scored_candidates a))
             (ids_where None (as_scored_candidates a)) (sel_searchable sel)"
proof -
  let ?req = "\<lparr> sr_input = selection, sr_retrieval_policy = policy, sr_k = k,
            sr_hydrate = False, sr_track_total_hits = True \<rparr>"
  from run obtain paper selr by_id scored where
    w: "wrap_infrastructure (asr_candidate_selector A ?req) = Inr selr"
    and self: "ref_id incoming \<notin> set (map cand_reference_id (sel_candidates selr))"
    and h: "hydrate_candidates A (map cand_reference_id (sel_candidates selr)) = Inr by_id"
    and m: "res_mapM (score_candidate A (dm_threshold (asr_metadata A)) paper by_id)
              (sel_candidates selr) = Inr scored"
    and a: "a = \<lparr> as_incoming_reference_id = ref_id incoming, as_candidate_selection = selr,
                as_deduper = asr_metadata A, as_scored_candidates = scored,
                as_outcome = fst (summarise (ids_where (Some True) scored) (ids_where None scored)
                  (sel_searchable selr)),
                as_proposed_duplicate_of_id = snd (summarise (ids_where (Some True) scored)
                  (ids_where None scored) (sel_searchable selr)),
                as_threshold_clearing_candidate_ids = ids_where (Some True) scored,
                as_unscorable_candidate_ids = ids_where None scored \<rparr>"
    by (auto simp: assess_def Let_def result_simps case_prod_beta split: if_splits)
  have len: "length scored = length (sel_candidates selr)" by (rule res_mapM_Inr_length [OF m])
  have each: "i < length scored \<Longrightarrow> scd_candidate (scored ! i) = sel_candidates selr ! i \<and>
      pair_result_valid (scd_pair_result (scored ! i)) \<and> scd_clears_threshold (scored ! i) =
        map_option (\<lambda>q. dm_threshold (asr_metadata A) \<le> q) (pr_probability (scd_pair_result (scored ! i)))" for i
    by (rule scored_valid [OF A(2) res_mapM_Inr_nth [OF m]]) (simp add: len)
  from w show "asr_candidate_selector A ?req = Inr sel"
    by (auto simp: sel_def a wrap_infrastructure_def split: sum.splits)
  show "map scd_candidate (as_scored_candidates a) = sel_candidates sel"
    by (rule nth_equalityI) (auto simp: sel_def a len each)
  show "ref_id incoming \<notin> cand_reference_id ` set (sel_candidates sel)"
    using self by (simp add: sel_def a)
  show "cand_reference_id ` set (sel_candidates sel) \<subseteq> stored"
    using hydrated_stored [OF A(1) h] by (auto simp: sel_def a)
  show "\<forall>s \<in> set (as_scored_candidates a). pair_result_valid (scd_pair_result s) \<and>
           scd_clears_threshold s =
             map_option (\<lambda>q. dm_threshold (asr_metadata A) \<le> q) (pr_probability (scd_pair_result s))"
    using each by (auto simp: a in_set_conv_nth)
  show "as_deduper a = asr_metadata A" "as_incoming_reference_id a = ref_id incoming"
    "as_threshold_clearing_candidate_ids a = ids_where (Some True) (as_scored_candidates a)"
    "as_unscorable_candidate_ids a = ids_where None (as_scored_candidates a)"
    "(as_outcome a, as_proposed_duplicate_of_id a) =
       summarise (ids_where (Some True) (as_scored_candidates a))
         (ids_where None (as_scored_candidates a)) (sel_searchable sel)"
    by (simp_all add: a sel_def)
qed

end

lemma get_hydrated_stored:
  assumes "get_hydrated db ids types kinds = Inr rs" and "r \<in> set rs"
  shows "ref_id r \<in> refr_id ` set (db_references db) \<inter> set ids"
proof -
  from assms(2) obtain i where i: "i < length rs" "r = rs ! i" by (auto simp: in_set_conv_nth)
  let ?rows = "filter (\<lambda>r. refr_id r \<in> set ids) (db_references db)"
  from assms(1) obtain d where m: "res_mapM (reference_to_domain d [PL_enhancements, PL_identifiers]) ?rows = Inr rs"
    by (auto simp: get_hydrated_def Let_def)
  note len = res_mapM_Inr_length [OF m]
  have "reference_to_domain d [PL_enhancements, PL_identifiers] (?rows ! i) = Inr r"
    unfolding i(2) by (rule res_mapM_Inr_nth [OF m]) (use i(1) len in simp)
  then have "ref_id r = refr_id (?rows ! i)"
    by (auto simp: reference_to_domain_def reference_base_def result_simps Let_def split: if_splits)
  moreover have "?rows ! i \<in> set ?rows" by (rule nth_mem) (use i(1) len in simp)
  ultimately show ?thesis by auto
qed

lemma score_pair_valid: "score_pair dd p q = Inr e \<Longrightarrow> pair_result_valid e"
  by (auto simp: score_pair_def make_pair_result_def to_pair_result_def split: sum.splits if_splits)

interpretation wired: assessment_collaborators
  "\<lambda>ids types. get_hydrated db ids types None" "score_pair dd" "refr_id ` set (db_references db)"
  for db dd
  by unfold_locales (rule get_hydrated_stored, assumption+, rule score_pair_valid)

text \<open>The proposal in terms of the scores.\<close>

lemma ids_where_Nil_iff: "ids_where v scored = [] \<longleftrightarrow> (\<forall>s \<in> set scored. scd_clears_threshold s \<noteq> v)"
  by (auto simp: ids_where_def filter_empty_conv)

lemma summarise_iff:
  assumes "(outcome, proposed) = summarise clearing unscorable searchable"
  shows "outcome = PROPOSE_DUPLICATE \<longleftrightarrow> unscorable = [] \<and> (\<exists>c. clearing = [c])"
    and "outcome = PROPOSE_CANONICAL \<longleftrightarrow> unscorable = [] \<and> clearing = [] \<and> searchable"
    and "proposed = (if outcome = PROPOSE_DUPLICATE then Some (hd clearing) else None)"
proof -
  have "(outcome = PROPOSE_DUPLICATE \<longleftrightarrow> unscorable = [] \<and> (\<exists>c. clearing = [c])) \<and>
    (outcome = PROPOSE_CANONICAL \<longleftrightarrow> unscorable = [] \<and> clearing = [] \<and> searchable) \<and>
    proposed = (if outcome = PROPOSE_DUPLICATE then Some (hd clearing) else None)"
    using assms by (cases clearing; cases "tl clearing"; cases unscorable)
      (auto simp: summarise_def split: if_splits)
  then show "outcome = PROPOSE_DUPLICATE \<longleftrightarrow> unscorable = [] \<and> (\<exists>c. clearing = [c])"
    and "outcome = PROPOSE_CANONICAL \<longleftrightarrow> unscorable = [] \<and> clearing = [] \<and> searchable"
    and "proposed = (if outcome = PROPOSE_DUPLICATE then Some (hd clearing) else None)"
    by blast+
qed

lemma evaluate_Inr:
  assumes "evaluate (wired_assessor P prj es cfg dd meta db) rid policy k = Inr a"
  obtains incoming :: reference and selection where
    "assess (wired_assessor P prj es cfg dd meta db) incoming selection policy k = Inr a"
    and "ref_id incoming = rid"
    and "si_reference_id selection = None" and "si_excluded_reference_id selection = Some rid"
proof -
  let ?A = "wired_assessor P prj es cfg dd meta db"
  from assms have "\<exists>incoming selection. hydrate_one ?A rid = Inr incoming \<and>
      assess ?A incoming selection policy k = Inr a \<and>
      si_reference_id selection = None \<and> si_excluded_reference_id selection = Some rid"
    by (auto simp: evaluate_def Let_def result_simps split: if_splits intro!: exI)
  then obtain incoming selection where h: "hydrate_one ?A rid = Inr incoming"
    and a: "assess ?A incoming selection policy k = Inr a"
    and i: "si_reference_id selection = None" "si_excluded_reference_id selection = Some rid"
    by blast
  from h obtain rs where g: "get_hydrated db [rid] (Some scored_enhancement_types) None = Inr rs"
    and "(case rs of [] \<Rightarrow> Inl DeduplicationNotFoundError | r # _ \<Rightarrow> Inr r) = Inr incoming"
    by (auto simp: hydrate_one_def wired_assessor_def res_bind_Inr_iff)
  then have "incoming \<in> set rs" by (cases rs) simp_all
  with g have "ref_id incoming = rid" using get_hydrated_stored by fastforce
  from that [OF a this i] show thesis .
qed

section \<open>Properties\<close>

definition pair_clears :: "rat \<Rightarrow> scored_candidate \<Rightarrow> bool" where
  "pair_clears threshold s =
     (case pr_probability (scd_pair_result s) of None \<Rightarrow> False | Some q \<Rightarrow> threshold \<le> q)"

definition pair_scored :: "scored_candidate \<Rightarrow> bool" where
  "pair_scored s = (pr_probability (scd_pair_result s) \<noteq> None)"

lemma ids_where_clears:
  assumes "\<forall>s \<in> set scored. scd_clears_threshold s = map_option (\<lambda>q. t \<le> q) (pr_probability (scd_pair_result s))"
  shows "ids_where (Some True) scored = map (\<lambda>s. cand_reference_id (scd_candidate s)) (filter (pair_clears t) scored)"
    and "ids_where None scored = map (\<lambda>s. cand_reference_id (scd_candidate s)) (filter (\<lambda>s. \<not> pair_scored s) scored)"
  unfolding ids_where_def using assms
  by (auto simp: pair_clears_def pair_scored_def intro!: arg_cong [where f = "map _"] filter_cong
      split: option.splits)

lemma evaluate_assessed:
  assumes "evaluate (wired_assessor P prj es cfg dd meta db) rid policy k = Inr a"
  defines "scored \<equiv> as_scored_candidates a" and "sel \<equiv> as_candidate_selection a"
  shows "as_deduper a = meta"
    and "map scd_candidate scored = sel_candidates sel \<and>
         rid \<notin> cand_reference_id ` set (sel_candidates sel) \<and>
         cand_reference_id ` set (sel_candidates sel) \<subseteq> refr_id ` set (db_references db)"
    and "(as_outcome a, as_proposed_duplicate_of_id a) =
           summarise (map (\<lambda>s. cand_reference_id (scd_candidate s)) (filter (pair_clears (dm_threshold meta)) scored))
             (map (\<lambda>s. cand_reference_id (scd_candidate s)) (filter (\<lambda>s. \<not> pair_scored s) scored))
             (sel_searchable sel)"
proof -
  obtain incoming :: reference and selection where
    run: "assess (wired_assessor P prj es cfg dd meta db) incoming selection policy k = Inr a"
    and id: "ref_id incoming = rid"
    by (rule evaluate_Inr [OF assms(1)])
  note ok = wired.assessed [OF _ _ run, of db dd, unfolded wired_assessor_def, simplified]
  note ids = ids_where_clears [OF ball_conj_distrib [THEN iffD1, THEN conjunct2, OF ok(5)]]
  show "as_deduper a = meta" using ok(6) by simp
  show "map scd_candidate scored = sel_candidates sel \<and>
      rid \<notin> cand_reference_id ` set (sel_candidates sel) \<and>
      cand_reference_id ` set (sel_candidates sel) \<subseteq> refr_id ` set (db_references db)"
    using ok(2,3,4) id by (simp add: scored_def sel_def)
  show "(as_outcome a, as_proposed_duplicate_of_id a) =
      summarise (map (\<lambda>s. cand_reference_id (scd_candidate s)) (filter (pair_clears (dm_threshold meta)) scored))
        (map (\<lambda>s. cand_reference_id (scd_candidate s)) (filter (\<lambda>s. \<not> pair_scored s) scored))
        (sel_searchable sel)"
    using ok(10) by (simp add: ids scored_def sel_def)
qed

lemma evaluate_proposal_stored:
  assumes "evaluate (wired_assessor P prj es cfg dd meta db) rid policy k = Inr a"
    and "as_proposed_duplicate_of_id a = Some c"
  shows "c \<in> refr_id ` set (db_references db)"
proof -
  note e = evaluate_assessed [OF assms(1)]
  let ?ids = "map (\<lambda>s. cand_reference_id (scd_candidate s))
    (filter (pair_clears (dm_threshold meta)) (as_scored_candidates a))"
  from summarise_iff(1,3) [OF e(3)] assms(2) have "?ids = [c]" by (auto split: if_splits)
  then have "c \<in> set ?ids" by simp
  then have "c \<in> cand_reference_id ` set (map scd_candidate (as_scored_candidates a))" by auto
  with e(2) show ?thesis by auto
qed

text \<open>
  C10 (functional). An assessment that returns scores every candidate of the selection, in rank
  order and once, never the reference itself and only stored references. It proposes a duplicate
  exactly when every pair has a score and one candidate alone reaches the threshold, and then
  proposes that candidate; it proposes canonical exactly when every pair has a score, none reaches
  the threshold and the input was searchable; otherwise it proposes nothing.
\<close>

theorem assessment_sound:
  assumes "es_search_ok es"
    and "evaluate (wired_assessor P prj es cfg dd meta db) rid policy k = Inr a"
  shows "let scored = as_scored_candidates a;
             sel = as_candidate_selection a;
             ids = map cand_reference_id (sel_candidates sel);
             clearing = filter (pair_clears (dm_threshold meta)) scored
         in map scd_candidate scored = sel_candidates sel \<and>
            distinct ids \<and> rid \<notin> set ids \<and> set ids \<subseteq> refr_id ` set (db_references db) \<and>
            (as_outcome a = PROPOSE_DUPLICATE \<longleftrightarrow> list_all pair_scored scored \<and> length clearing = 1) \<and>
            (as_outcome a = PROPOSE_CANONICAL \<longleftrightarrow>
               list_all pair_scored scored \<and> clearing = [] \<and> sel_searchable sel) \<and>
            as_proposed_duplicate_of_id a =
              (if as_outcome a = PROPOSE_DUPLICATE
               then Some (cand_reference_id (scd_candidate (hd clearing))) else None)"
proof -
  obtain incoming :: reference and selection where
    run: "assess (wired_assessor P prj es cfg dd meta db) incoming selection policy k = Inr a"
    by (rule evaluate_Inr [OF assms(2)])
  note sel = wired.assessed(1) [OF _ _ run, of db dd, unfolded wired_assessor_def, simplified]
  have d: "distinct (map cand_reference_id (sel_candidates (as_candidate_selection a)))"
    by (rule selected_ids [OF assms(1) sel])
  note e = evaluate_assessed [OF assms(2)]
  show ?thesis
    unfolding Let_def using e(2) d summarise_iff [OF e(3)]
    by (auto simp: list_all_iff filter_empty_conv length_Suc_conv hd_map map_eq_Cons_conv)
qed

definition sample_deduper :: deduper where
  "sample_deduper a b =
     Inr \<lparr> ls_probability = 9 / 10, ls_field_results = [], ls_early_stop_reason = None,
          ls_doi_mismatch_adjustment_applied = False, ls_label = None, ls_unscorable_reason = None \<rparr>"

definition sample_metadata :: deduper_metadata where
  "sample_metadata = \<lparr> dm_package_version = ''1.0'', dm_configuration_hash = ''c0'', dm_threshold = 1 / 2,
     dm_effective_configuration = [] \<rparr>"

definition sample_assessor :: assessor where
  "sample_assessor = wired_assessor decimal_pydantic sample_projector sample_es sample_cfg
     sample_deduper sample_metadata sample_paper_db"

theorem assessment_sound_witness:
  "\<exists>a. evaluate sample_assessor 1 None None = Inr a \<and> as_outcome a = PROPOSE_DUPLICATE \<and>
     as_proposed_duplicate_of_id a = Some 2 \<and> list_all pair_scored (as_scored_candidates a)"
proof -
  have "case evaluate sample_assessor 1 None None of
      Inl _ \<Rightarrow> False
    | Inr a \<Rightarrow> as_outcome a = PROPOSE_DUPLICATE \<and> as_proposed_duplicate_of_id a = Some 2"
    by code_simp
  then obtain a where r: "evaluate sample_assessor 1 None None = Inr a"
    and o: "as_outcome a = PROPOSE_DUPLICATE" "as_proposed_duplicate_of_id a = Some 2"
    by (auto split: sum.splits)
  from assessment_sound [OF sample_es_ok r [unfolded sample_assessor_def]] r o show ?thesis
    by (auto simp: Let_def)
qed

end
