(* ===== verification/Assessment_Records.thy ===== *)
theory Assessment_Records
  imports Deduplication_Assessment
begin

text \<open>
  Durable records of deduplication assessments:
  \<^verbatim>\<open>src/app/domain/references/services/deduplication_assessment_recorder.py\<close>, the record in
  \<^verbatim>\<open>src/app/domain/references/models/models.py\<close> and its table in
  \<^verbatim>\<open>src/app/domain/references/models/sql.py\<close> and \<^verbatim>\<open>src/app/domain/references/repository.py\<close>.

  A delivery looks its idempotency key up, uploads the evidence when it is worth keeping, and
  inserts the summary; another delivery may commit between the lookup and the insert, which is an
  argument of the model. The BLAKE2b digest, the JSON rendering of an assessment and the text of an
  exception are parameters.
\<close>

unbundle bit_operations_syntax

section \<open>The record\<close>

record candidate_summary =
  cs_reference_id :: uuid
  cs_rank :: nat
  cs_routes :: "candidate_route list"
  cs_probability :: "rat option"
  cs_clears_threshold :: "bool option"
  cs_unscorable_reason :: "string option"
  cs_early_stop_reason :: "string option"
  cs_doi_mismatch_adjusted :: bool
  cs_suggested_label :: "string option"
  cs_field_availability :: "(string \<times> dedup_field_status) list"

definition validate_field_availability :: "(string \<times> dedup_field_status) list \<Rightarrow> bool" where
  "validate_field_availability fa = (FS_COMPARED \<notin> set (dict_values fa))"

definition from_scored_candidate :: "scored_candidate \<Rightarrow> candidate_summary result" where
  "from_scored_candidate s =
     (let c = scd_candidate s; p = scd_pair_result s;
          availability = map (\<lambda>(f, fc). (f, fc_status fc))
            (filter (\<lambda>(f, fc). fc_status fc \<noteq> FS_COMPARED) (pr_field_comparisons p))
      in if \<not> validate_field_availability availability then Inl ValidationError
         else Inr \<lparr> cs_reference_id = cand_reference_id c, cs_rank = cand_rank c,
                    cs_routes = cand_routes c, cs_probability = pr_probability p,
                    cs_clears_threshold = scd_clears_threshold s,
                    cs_unscorable_reason = pr_unscorable_reason p,
                    cs_early_stop_reason = pr_early_stop_reason p,
                    cs_doi_mismatch_adjusted = pr_doi_mismatch_adjusted p,
                    cs_suggested_label = pr_suggested_label p,
                    cs_field_availability = availability \<rparr>)"

datatype assessment_purpose = DEDUPLICATION | PERFORMANCE_SHADOW

datatype payload_state = NOT_RETAINED | STORED | PAYLOAD_FAILED

record assessment_record =
  ar_id :: uuid
  ar_idempotency_key :: uuid
  ar_incoming_reference_id :: uuid
  ar_purpose :: assessment_purpose
  ar_policy_generation :: string
  ar_retrieval_policy :: retrieval_policy_name
  ar_k :: nat
  ar_candidate_count :: nat
  ar_es_route_ran :: bool
  ar_input_searchability_reason :: "string option"
  ar_deduper_version :: string
  ar_deduper_config_hash :: string
  ar_threshold :: rat
  ar_outcome :: assessment_outcome
  ar_proposed_duplicate_of_id :: "uuid option"
  ar_best_score :: "rat option"
  ar_best_non_winning_score :: "rat option"
  ar_scored_candidates :: "candidate_summary list"
  ar_payload_state :: payload_state
  ar_payload_blob_url :: "string option"
  ar_payload_reason :: "string option"
  ar_payload_sampled :: bool
  ar_payload_bytes :: "nat option"

definition assessment_record_valid :: "assessment_record \<Rightarrow> bool" where
  "assessment_record_valid r =
     (0 \<le> ar_threshold r \<and> ar_threshold r \<le> 1 \<and>
      list_all (\<lambda>c. validate_field_availability (cs_field_availability c)) (ar_scored_candidates r))"

section \<open>The table\<close>

text \<open>\<^verbatim>\<open>ck_deduplication_assessment_payload_state\<close>.\<close>

definition payload_columns_coherent :: "assessment_record \<Rightarrow> bool" where
  "payload_columns_coherent r =
     (ar_payload_state r = STORED \<and> ar_payload_blob_url r \<noteq> None \<or>
      ar_payload_state r = PAYLOAD_FAILED \<and> ar_payload_blob_url r = None \<or>
      ar_payload_state r = NOT_RETAINED \<and> ar_payload_blob_url r = None \<and> ar_payload_bytes r = None \<and>
        ar_payload_reason r = None)"

definition proposal_stored :: "uuid set \<Rightarrow> assessment_record \<Rightarrow> bool" where
  "proposal_stored refs r =
     (case ar_proposed_duplicate_of_id r of None \<Rightarrow> True | Some c \<Rightarrow> c \<in> refs)"

definition records_ok :: "uuid set \<Rightarrow> assessment_record list \<Rightarrow> bool" where
  "records_ok refs rows =
     (distinct (map ar_id rows) \<and> distinct (map ar_idempotency_key rows) \<and>
      list_all payload_columns_coherent rows \<and> list_all (proposal_stored refs) rows \<and>
      list_all assessment_record_valid rows)"

definition find_by_key :: "uuid \<Rightarrow> assessment_record list \<Rightarrow> assessment_record list" where
  "find_by_key key rows = filter (\<lambda>r. ar_idempotency_key r = key) rows"

text \<open>
  \<open>add_or_find_by_idempotency_key\<close>: the insert runs in a savepoint; only a collision on the
  idempotency key falls back to the row that won. PostgreSQL tests the check constraint before the
  unique indices and the foreign key last.
\<close>

definition add_or_find_by_idempotency_key ::
    "uuid set \<Rightarrow> assessment_record \<Rightarrow> assessment_record list \<Rightarrow>
     (assessment_record \<times> assessment_record list) result" where
  "add_or_find_by_idempotency_key refs r rows =
     (if \<not> payload_columns_coherent r then Inl SQLIntegrityError
      else if ar_id r \<in> set (map ar_id rows) then Inl SQLIntegrityError
      else if ar_idempotency_key r \<in> set (map ar_idempotency_key rows)
      then (case find_by_key (ar_idempotency_key r) rows of
              [] \<Rightarrow> Inl SQLIntegrityError
            | x # _ \<Rightarrow> if assessment_record_valid x then Inr (x, rows) else Inl ValidationError)
      else if \<not> proposal_stored refs r then Inl SQLIntegrityError
      else if \<not> assessment_record_valid r then Inl ValidationError
      else Inr (r, rows @ [r]))"

section \<open>The recorder\<close>

record recorder =
  rec_blob_account :: blob_account
  rec_dump :: "assessment \<Rightarrow> string"
  rec_digest :: "uuid \<Rightarrow> nat"
  rec_error_text :: "app_error \<Rightarrow> string"
  rec_sample_rate_bits :: "nat option"

text \<open>\<^verbatim>\<open>DedupAssessmentRecordingConfig\<close> keeps the rate within the digest.\<close>

definition recording_config_valid :: "nat option \<Rightarrow> bool" where
  "recording_config_valid bits = (case bits of None \<Rightarrow> True | Some b \<Rightarrow> b \<le> 64)"

definition evidence_sampled :: "(uuid \<Rightarrow> nat) \<Rightarrow> uuid \<Rightarrow> nat option \<Rightarrow> bool" where
  "evidence_sampled digest reference_id sample_rate_bits =
     (case sample_rate_bits of
        None \<Rightarrow> False
      | Some bits \<Rightarrow> digest reference_id AND (push_bit bits 1 - 1) = 0)"

definition is_interesting :: "assessment \<Rightarrow> bool" where
  "is_interesting a =
     (as_threshold_clearing_candidate_ids a \<noteq> [] \<or> as_unscorable_candidate_ids a \<noteq> [])"

fun max_default :: "rat list \<Rightarrow> rat option" where
  "max_default [] = None"
| "max_default (x # xs) = Some (fold max xs x)"

definition probabilities_of :: "(scored_candidate \<Rightarrow> bool) \<Rightarrow> assessment \<Rightarrow> rat list" where
  "probabilities_of P a =
     List.map_filter (\<lambda>s. pr_probability (scd_pair_result s)) (filter P (as_scored_candidates a))"

definition assessment_scores :: "assessment \<Rightarrow> rat option \<times> rat option" where
  "assessment_scores a =
     (max_default (probabilities_of (\<lambda>_. True) a),
      max_default (probabilities_of
        (\<lambda>s. Some (cand_reference_id (scd_candidate s)) \<noteq> as_proposed_duplicate_of_id a) a))"

record payload_outcome =
  po_state :: payload_state
  po_location :: "string option"
  po_size_bytes :: "nat option"
  po_reason :: "string option"

definition payload_path :: string where
  "payload_path = ''deduplication-assessments''"

definition write_payload ::
    "recorder \<Rightarrow> uuid \<Rightarrow> assessment \<Rightarrow> blobs \<Rightarrow> ((string \<times> nat) \<times> blobs) result" where
  "write_payload R payload_id a blobs =
     res_bind (upload_file_to_blob_storage (rec_blob_account R) (Inr (rec_dump R a)) payload_path
                 (str_uuid payload_id @ ''.json'') blobs)
       (\<lambda>(f, blobs'). Inr ((to_uri f, length (rec_dump R a)), blobs'))"

definition is_blob_storage_error :: "app_error \<Rightarrow> bool" where
  "is_blob_storage_error e = (e \<in> set [BlobStorageError, RemoteBlobStorageError, BlobSizeExceededError])"

definition store_payload ::
    "recorder \<Rightarrow> uuid \<Rightarrow> assessment \<Rightarrow> blobs \<Rightarrow> (payload_outcome \<times> blobs) result" where
  "store_payload R payload_id a blobs =
     (case write_payload R payload_id a blobs of
        Inl e \<Rightarrow>
          if is_blob_storage_error e
          then Inr (\<lparr> po_state = PAYLOAD_FAILED, po_location = None, po_size_bytes = None,
                      po_reason = Some (rec_error_text R e) \<rparr>, blobs)
          else Inl e
      | Inr ((location, bytes), blobs') \<Rightarrow>
          Inr (\<lparr> po_state = STORED, po_location = Some location, po_size_bytes = Some bytes,
                 po_reason = None \<rparr>, blobs'))"

definition retain_payload :: "recorder \<Rightarrow> assessment \<Rightarrow> bool" where
  "retain_payload R a =
     (is_interesting a \<or>
      evidence_sampled (rec_digest R) (as_incoming_reference_id a) (rec_sample_rate_bits R))"

definition settle_payload ::
    "recorder \<Rightarrow> uuid \<Rightarrow> assessment \<Rightarrow> blobs \<Rightarrow> (payload_outcome \<times> blobs) result" where
  "settle_payload R key a blobs =
     (if retain_payload R a then store_payload R key a blobs
      else Inr (\<lparr> po_state = NOT_RETAINED, po_location = None, po_size_bytes = None, po_reason = None \<rparr>,
                blobs))"

definition summary_record ::
    "recorder \<Rightarrow> uuid \<Rightarrow> assessment \<Rightarrow> assessment_purpose \<Rightarrow> string \<Rightarrow> uuid \<Rightarrow> payload_outcome \<Rightarrow>
     assessment_record result" where
  "summary_record R new_id a purpose policy_generation key payload =
     res_bind (res_mapM from_scored_candidate (as_scored_candidates a)) (\<lambda>summaries.
     let sel = as_candidate_selection a;
         (best_score, best_non_winning_score) = assessment_scores a;
         r = \<lparr> ar_id = new_id, ar_idempotency_key = key,
               ar_incoming_reference_id = as_incoming_reference_id a, ar_purpose = purpose,
               ar_policy_generation = policy_generation,
               ar_retrieval_policy = sel_retrieval_policy sel, ar_k = sel_k_requested sel,
               ar_candidate_count = diag_candidate_count (sel_diagnostics sel),
               ar_es_route_ran = sel_searchable sel,
               ar_input_searchability_reason = Some (sel_reason sel),
               ar_deduper_version = dm_package_version (as_deduper a),
               ar_deduper_config_hash = dm_configuration_hash (as_deduper a),
               ar_threshold = dm_threshold (as_deduper a), ar_outcome = as_outcome a,
               ar_proposed_duplicate_of_id = as_proposed_duplicate_of_id a,
               ar_best_score = best_score, ar_best_non_winning_score = best_non_winning_score,
               ar_scored_candidates = summaries, ar_payload_state = po_state payload,
               ar_payload_blob_url = po_location payload, ar_payload_reason = po_reason payload,
               ar_payload_sampled =
                 evidence_sampled (rec_digest R) (as_incoming_reference_id a) (rec_sample_rate_bits R),
               ar_payload_bytes = po_size_bytes payload \<rparr>
     in if assessment_record_valid r then Inr r else Inl ValidationError)"

record assessment_store =
  ast_rows :: "assessment_record list"
  ast_blobs :: blobs

text \<open>
  \<open>record\<close>. \<open>others\<close> are the rows that other deliveries commit between the first lookup and the
  insert. Blob storage is not part of the transaction: what was uploaded stays when a later step
  raises.
\<close>

definition record_assessment ::
    "recorder \<Rightarrow> uuid set \<Rightarrow> uuid \<Rightarrow> assessment_record list \<Rightarrow> assessment \<Rightarrow> assessment_purpose \<Rightarrow> string \<Rightarrow>
     uuid \<Rightarrow> assessment_store \<Rightarrow> assessment_record result \<times> assessment_store" where
  "record_assessment R refs new_id others a purpose policy_generation key st =
     (case find_by_key key (ast_rows st) of
        x # _ \<Rightarrow> (Inr x, st)
      | [] \<Rightarrow>
          let rows = ast_rows st @ others
          in (case settle_payload R key a (ast_blobs st) of
                Inl e \<Rightarrow> (Inl e, st \<lparr> ast_rows := rows \<rparr>)
              | Inr (payload, blobs') \<Rightarrow>
                  let st' = st \<lparr> ast_rows := rows, ast_blobs := blobs' \<rparr>
                  in (case res_bind (summary_record R new_id a purpose policy_generation key payload)
                              (\<lambda>r. add_or_find_by_idempotency_key refs r rows) of
                        Inl e \<Rightarrow> (Inl e, st')
                      | Inr (r, rows') \<Rightarrow> (Inr r, st' \<lparr> ast_rows := rows' \<rparr>))))"

section \<open>Lemmas\<close>

text \<open>The sample at a rate is a divisibility test, so finer samples are contained in coarser ones.\<close>

lemma evidence_sampled_iff:
  "evidence_sampled digest rid (Some bits) \<longleftrightarrow> 2 ^ bits dvd digest rid"
proof -
  have "digest rid AND (push_bit bits 1 - 1) = take_bit bits (digest rid)"
    by (simp add: take_bit_eq_mask mask_eq_exp_minus_1 push_bit_eq_mult)
  then show ?thesis by (simp add: evidence_sampled_def take_bit_eq_mod dvd_eq_mod_eq_0)
qed

lemma evidence_samples_nested:
  "b \<le> c \<Longrightarrow> evidence_sampled digest rid (Some c) \<Longrightarrow> evidence_sampled digest rid (Some b)"
  by (auto simp: evidence_sampled_iff intro: dvd_trans le_imp_power_dvd)

lemma max_default_Some:
  assumes "max_default xs = Some m"
  shows "m \<in> set xs \<and> (\<forall>x \<in> set xs. x \<le> m)"
proof -
  from assms obtain y ys where "xs = y # ys" and "m = fold max ys y" by (cases xs) auto
  then have "m = Max (set xs)" by (simp only: Max.set_eq_fold)
  with \<open>xs = y # ys\<close> show ?thesis by (metis List.finite_set Max_ge Max_in list.set_intros(1) empty_iff)
qed

lemma from_scored_candidate_total:
  "\<exists>c. from_scored_candidate s = Inr c \<and> validate_field_availability (cs_field_availability c) \<and>
     cs_reference_id c = cand_reference_id (scd_candidate s) \<and>
     cs_probability c = pr_probability (scd_pair_result s)"
  by (auto simp: from_scored_candidate_def Let_def validate_field_availability_def dict_values_def)

lemma summaries_total:
  "\<exists>cs. res_mapM from_scored_candidate scored = Inr cs \<and>
     list_all (\<lambda>c. validate_field_availability (cs_field_availability c)) cs \<and>
     map cs_reference_id cs = map (\<lambda>s. cand_reference_id (scd_candidate s)) scored \<and>
     map cs_probability cs = map (\<lambda>s. pr_probability (scd_pair_result s)) scored"
proof (induction scored)
  case (Cons s scored)
  with from_scored_candidate_total [of s] show ?case by auto
qed simp

definition payload_file :: "recorder \<Rightarrow> uuid \<Rightarrow> blob_storage_file" where
  "payload_file R key =
     \<lparr> bsf_location = ba_location (rec_blob_account R),
       bsf_container = ba_operations_container (rec_blob_account R), bsf_path = payload_path,
       bsf_filename = str_uuid key @ ''.json'' \<rparr>"

text \<open>What becomes of the payload: settled without raising, whatever the storage account does.\<close>

definition payload_settled :: "recorder \<Rightarrow> uuid \<Rightarrow> assessment \<Rightarrow> blobs \<Rightarrow> payload_outcome \<Rightarrow> blobs \<Rightarrow> bool" where
  "payload_settled R key a blobs p blobs' =
     (if \<not> retain_payload R a
      then po_state p = NOT_RETAINED \<and> po_location p = None \<and> po_size_bytes p = None \<and> po_reason p = None \<and>
           blobs' = blobs
      else if ba_refuses (rec_blob_account R) (payload_file R key) (rec_dump R a)
      then po_state p = PAYLOAD_FAILED \<and> po_location p = None \<and> blobs' = blobs
      else po_state p = STORED \<and> po_location p = Some (to_uri (payload_file R key)) \<and>
           po_size_bytes p = Some (length (rec_dump R a)) \<and>
           blobs' = AList.update (payload_file R key) (rec_dump R a) blobs)"

lemma settle_payload_total:
  assumes "blob_file_valid (payload_file R key)"
  obtains p blobs' where "settle_payload R key a blobs = Inr (p, blobs')"
    and "payload_settled R key a blobs p blobs'"
proof -
  have "\<exists>p blobs'. settle_payload R key a blobs = Inr (p, blobs') \<and> payload_settled R key a blobs p blobs'"
    using assms
    by (auto simp: settle_payload_def payload_settled_def store_payload_def write_payload_def
        upload_file_to_blob_storage_def upload_file_def destination_def payload_file_def
        is_blob_storage_error_def)
  with that show thesis by blast
qed

lemma summary_record_total:
  assumes "payload_settled R key a blobs p blobs'" and "deduper_metadata_valid (as_deduper a)"
  obtains r where "summary_record R new_id a purpose gen key p = Inr r"
    and "payload_columns_coherent r" and "assessment_record_valid r"
    and "ar_id r = new_id" and "ar_idempotency_key r = key"
    and "ar_outcome r = as_outcome a" and "ar_proposed_duplicate_of_id r = as_proposed_duplicate_of_id a"
    and "(ar_best_score r, ar_best_non_winning_score r) = assessment_scores a"
    and "ar_payload_state r = po_state p" and "ar_payload_blob_url r = po_location p"
    and "map cs_reference_id (ar_scored_candidates r) =
           map (\<lambda>s. cand_reference_id (scd_candidate s)) (as_scored_candidates a)"
    and "map cs_probability (ar_scored_candidates r) =
           map (\<lambda>s. pr_probability (scd_pair_result s)) (as_scored_candidates a)"
proof -
  obtain cs where cs: "res_mapM from_scored_candidate (as_scored_candidates a) = Inr cs"
    "list_all (\<lambda>c. validate_field_availability (cs_field_availability c)) cs"
    "map cs_reference_id cs = map (\<lambda>s. cand_reference_id (scd_candidate s)) (as_scored_candidates a)"
    "map cs_probability cs = map (\<lambda>s. pr_probability (scd_pair_result s)) (as_scored_candidates a)"
    using summaries_total by blast
  let ?s = "summary_record R new_id a purpose gen key p"
  have "\<exists>r. ?s = Inr r" using cs(2) assms(2)
    by (simp add: summary_record_def cs(1) Let_def case_prod_beta assessment_record_valid_def
        deduper_metadata_valid_def)
  then obtain r where r: "?s = Inr r" by blast
  have valid: "assessment_record_valid r" using r
    by (auto simp: summary_record_def cs(1) Let_def case_prod_beta split: if_splits)
  have coherent: "payload_columns_coherent r" using r assms(1)
    by (auto simp: summary_record_def cs(1) Let_def case_prod_beta payload_columns_coherent_def
        payload_settled_def split: if_splits)
  show thesis
    by (rule that [OF r coherent valid])
      (use r cs in \<open>auto simp: summary_record_def Let_def case_prod_beta split: if_splits\<close>)
qed

text \<open>A proposal has a score that reaches the threshold, and every other score stays below it.\<close>

lemma proposal_margin:
  assumes "evaluate (wired_assessor P prj es cfg dd meta db) rid policy k = Inr a"
    and "as_outcome a = PROPOSE_DUPLICATE" and "assessment_scores a = (best, runner_up)"
  shows "(\<exists>b. best = Some b \<and> dm_threshold meta \<le> b) \<and> (\<forall>q. runner_up = Some q \<longrightarrow> q < dm_threshold meta)"
proof -
  note e = evaluate_assessed [OF assms(1)]
  from e(3) assms(2) obtain s where c: "filter (pair_clears (dm_threshold meta)) (as_scored_candidates a) = [s]"
    and pd: "as_proposed_duplicate_of_id a = Some (cand_reference_id (scd_candidate s))"
    using summarise_iff(1,3) [OF e(3)] by (auto simp: map_eq_Cons_conv)
  have "s \<in> set (filter (pair_clears (dm_threshold meta)) (as_scored_candidates a))"
    unfolding c by simp
  then have s: "s \<in> set (as_scored_candidates a)" "pair_clears (dm_threshold meta) s" by simp_all
  then obtain p where p: "pr_probability (scd_pair_result s) = Some p" "dm_threshold meta \<le> p"
    by (auto simp: pair_clears_def split: option.splits)
  have mem: "p \<in> set (probabilities_of (\<lambda>_. True) a)"
    using s(1) p(1) by (force simp: probabilities_of_def List.map_filter_def)
  then obtain b where b: "best = Some b"
    using assms(3) by (cases "probabilities_of (\<lambda>_. True) a") (auto simp: assessment_scores_def)
  with assms(3) have "max_default (probabilities_of (\<lambda>_. True) a) = Some b"
    by (simp add: assessment_scores_def)
  from max_default_Some [OF this] mem p(2) have best: "dm_threshold meta \<le> b" by auto
  have "q < dm_threshold meta" if q: "runner_up = Some q" for q
  proof (rule ccontr)
    assume above: "\<not> q < dm_threshold meta"
    from q assms(3) have "q \<in> set (probabilities_of
        (\<lambda>s. Some (cand_reference_id (scd_candidate s)) \<noteq> as_proposed_duplicate_of_id a) a)"
      by (auto simp: assessment_scores_def dest!: max_default_Some)
    then obtain u where u: "u \<in> set (as_scored_candidates a)" "pr_probability (scd_pair_result u) = Some q"
      "Some (cand_reference_id (scd_candidate u)) \<noteq> as_proposed_duplicate_of_id a"
      by (auto simp: probabilities_of_def List.map_filter_def)
    with above have "u \<in> set (filter (pair_clears (dm_threshold meta)) (as_scored_candidates a))"
      by (simp add: pair_clears_def)
    with c u(3) pd show False by simp
  qed
  with b best show ?thesis by blast
qed

lemma find_by_key_Cons:
  assumes "records_ok refs rows" and "key \<in> ar_idempotency_key ` set rows"
  obtains x xs where "find_by_key key rows = x # xs" and "x \<in> set rows" and "ar_idempotency_key x = key"
    and "assessment_record_valid x"
proof -
  from assms(2) have "find_by_key key rows \<noteq> []" by (auto simp: find_by_key_def filter_empty_conv)
  then obtain x xs where x: "find_by_key key rows = x # xs" by (cases "find_by_key key rows") auto
  then have "x \<in> set (find_by_key key rows)" by simp
  then have "x \<in> set rows" "ar_idempotency_key x = key" by (auto simp: find_by_key_def)
  with assms(1) x that show thesis by (auto simp: records_ok_def list_all_iff)
qed

text \<open>A delivery without a row: the payload is settled, the summary built, the insert tried.\<close>

lemma record_attempt:
  assumes "deduper_metadata_valid (as_deduper a)" and "blob_file_valid (payload_file R key)"
    and "key \<notin> ar_idempotency_key ` set (ast_rows st)"
  obtains r p blobs' where
    "record_assessment R refs new_id others a purpose gen key st =
      (let st' = st \<lparr> ast_rows := ast_rows st @ others, ast_blobs := blobs' \<rparr>
       in case add_or_find_by_idempotency_key refs r (ast_rows st @ others) of
            Inl e \<Rightarrow> (Inl e, st') | Inr (r', rows') \<Rightarrow> (Inr r', st' \<lparr> ast_rows := rows' \<rparr>))"
    and "payload_settled R key a (ast_blobs st) p blobs'"
    and "payload_columns_coherent r" and "assessment_record_valid r"
    and "ar_id r = new_id" and "ar_idempotency_key r = key"
    and "ar_outcome r = as_outcome a" and "ar_proposed_duplicate_of_id r = as_proposed_duplicate_of_id a"
    and "(ar_best_score r, ar_best_non_winning_score r) = assessment_scores a"
    and "ar_payload_state r = po_state p"
proof -
  from assms(3) have none: "find_by_key key (ast_rows st) = []"
    by (auto simp: find_by_key_def filter_empty_conv)
  obtain p blobs' where s: "settle_payload R key a (ast_blobs st) = Inr (p, blobs')"
    and ps: "payload_settled R key a (ast_blobs st) p blobs'"
    by (rule settle_payload_total [OF assms(2)])
  obtain r where r: "summary_record R new_id a purpose gen key p = Inr r"
    and facts: "payload_columns_coherent r" "assessment_record_valid r"
      "ar_id r = new_id" "ar_idempotency_key r = key" "ar_outcome r = as_outcome a"
      "ar_proposed_duplicate_of_id r = as_proposed_duplicate_of_id a"
      "(ar_best_score r, ar_best_non_winning_score r) = assessment_scores a"
      "ar_payload_state r = po_state p"
    by (rule summary_record_total [OF ps assms(1)])
  show thesis
    by (rule that [OF _ ps facts]) (simp add: record_assessment_def none s r Let_def)
qed

lemma payload_settled_blobs:
  assumes "payload_settled R key a blobs p blobs'"
  shows "f \<noteq> payload_file R key \<Longrightarrow> map_of blobs' f = map_of blobs f"
    and "po_state p = STORED \<longleftrightarrow> retain_payload R a \<and>
           \<not> ba_refuses (rec_blob_account R) (payload_file R key) (rec_dump R a)"
    and "po_state p = STORED \<Longrightarrow> map_of blobs' (payload_file R key) = Some (rec_dump R a)"
  using assms by (auto simp: payload_settled_def AList.update_conv' split: if_splits)

lemma add_raced:
  assumes "records_ok refs rows" and "ar_idempotency_key r \<in> ar_idempotency_key ` set rows"
    and "payload_columns_coherent r" and "ar_id r \<notin> ar_id ` set rows"
  obtains x xs where "add_or_find_by_idempotency_key refs r rows = Inr (x, rows)" and "x \<in> set rows"
    and "ar_idempotency_key x = ar_idempotency_key r" and "find_by_key (ar_idempotency_key r) rows = x # xs"
proof -
  obtain x xs where x: "find_by_key (ar_idempotency_key r) rows = x # xs" "x \<in> set rows"
    "ar_idempotency_key x = ar_idempotency_key r" "assessment_record_valid x"
    by (rule find_by_key_Cons [OF assms(1,2)])
  show thesis
    by (rule that [OF _ x(2,3,1)]) (use x assms in \<open>auto simp: add_or_find_by_idempotency_key_def\<close>)
qed

lemma add_new:
  assumes "records_ok refs rows" and "ar_idempotency_key r \<notin> ar_idempotency_key ` set rows"
    and "payload_columns_coherent r" and "ar_id r \<notin> ar_id ` set rows"
    and "proposal_stored refs r" and "assessment_record_valid r"
  shows "add_or_find_by_idempotency_key refs r rows = Inr (r, rows @ [r])"
    and "records_ok refs (rows @ [r])" and "find_by_key (ar_idempotency_key r) (rows @ [r]) = [r]"
proof -
  show "add_or_find_by_idempotency_key refs r rows = Inr (r, rows @ [r])"
    using assms by (simp add: add_or_find_by_idempotency_key_def)
  show "records_ok refs (rows @ [r])" using assms by (simp add: records_ok_def)
  have "x \<in> set rows \<Longrightarrow> ar_idempotency_key x \<noteq> ar_idempotency_key r" for x
    using assms(2) by (metis imageI)
  then show "find_by_key (ar_idempotency_key r) (rows @ [r]) = [r]"
    by (simp add: find_by_key_def filter_empty_conv)
qed

section \<open>Properties\<close>

text \<open>
  C11 (invariant). Recording an assessment always succeeds, whether or not blob storage takes the
  payload, and keeps the table's constraints. When the delivery has no row yet, its own or one that
  a racing delivery commits meanwhile, exactly one row is added; it carries the outcome and
  proposal of the assessment, and its payload is stored exactly when the assessment is worth keeping
  and the account accepts it. Otherwise no row is added and the row already there is returned, so a
  redelivery changes nothing. Behind a proposal the best score reaches the threshold and the
  runner-up does not. No other payload is touched.
\<close>

theorem assessment_recorded_once:
  assumes "evaluate (wired_assessor P prj es cfg dd meta db) rid policy k = Inr a"
    and "deduper_metadata_valid meta" and "blob_file_valid (payload_file R key)"
    and "records_ok (refr_id ` set (db_references db)) (ast_rows st @ others)"
    and "new_id \<notin> ar_id ` set (ast_rows st @ others)"
  shows "case record_assessment R (refr_id ` set (db_references db)) new_id others a purpose gen key st of
      (res, st') \<Rightarrow>
        (\<exists>row. res = Inr row \<and> row \<in> set (ast_rows st') \<and> ar_idempotency_key row = key \<and>
           records_ok (refr_id ` set (db_references db)) (ast_rows st') \<and>
           (if key \<in> ar_idempotency_key ` set (ast_rows st) then st' = st
            else if key \<in> ar_idempotency_key ` set others then ast_rows st' = ast_rows st @ others
            else ast_rows st' = ast_rows st @ others @ [row] \<and>
                 ar_outcome row = as_outcome a \<and>
                 ar_proposed_duplicate_of_id row = as_proposed_duplicate_of_id a \<and>
                 (ar_payload_state row = STORED \<longleftrightarrow> retain_payload R a \<and>
                    \<not> ba_refuses (rec_blob_account R) (payload_file R key) (rec_dump R a)) \<and>
                 (ar_payload_state row = STORED \<longrightarrow>
                    map_of (ast_blobs st') (payload_file R key) = Some (rec_dump R a)) \<and>
                 (ar_outcome row = PROPOSE_DUPLICATE \<longrightarrow>
                    (\<exists>b. ar_best_score row = Some b \<and> dm_threshold meta \<le> b) \<and>
                    (\<forall>q. ar_best_non_winning_score row = Some q \<longrightarrow> q < dm_threshold meta))) \<and>
           (\<forall>f. f \<noteq> payload_file R key \<longrightarrow> map_of (ast_blobs st') f = map_of (ast_blobs st) f) \<and>
           record_assessment R (refr_id ` set (db_references db)) new_id' others' a' purpose' gen' key st'
             = (Inr row, st'))"
proof (cases "key \<in> ar_idempotency_key ` set (ast_rows st)")
  case True
  from assms(4) have ok: "records_ok (refr_id ` set (db_references db)) (ast_rows st)"
    by (auto simp: records_ok_def)
  obtain x xs where x: "find_by_key key (ast_rows st) = x # xs" "x \<in> set (ast_rows st)"
    "ar_idempotency_key x = key"
    by (rule find_by_key_Cons [OF ok True])
  with True ok show ?thesis by (simp add: record_assessment_def)
next
  case False
  let ?refs = "refr_id ` set (db_references db)" and ?rows = "ast_rows st @ others"
  have meta: "deduper_metadata_valid (as_deduper a)"
    using evaluate_assessed(1) [OF assms(1)] assms(2) by simp
  obtain r p blobs' where run: "record_assessment R ?refs new_id others a purpose gen key st =
      (let st' = st \<lparr> ast_rows := ?rows, ast_blobs := blobs' \<rparr>
       in case add_or_find_by_idempotency_key ?refs r ?rows of
            Inl e \<Rightarrow> (Inl e, st') | Inr (r', rows') \<Rightarrow> (Inr r', st' \<lparr> ast_rows := rows' \<rparr>))"
    and ps: "payload_settled R key a (ast_blobs st) p blobs'"
    and r: "payload_columns_coherent r" "assessment_record_valid r" "ar_id r = new_id"
      "ar_idempotency_key r = key" "ar_outcome r = as_outcome a"
      "ar_proposed_duplicate_of_id r = as_proposed_duplicate_of_id a"
    and sc: "(ar_best_score r, ar_best_non_winning_score r) = assessment_scores a"
    and pst: "ar_payload_state r = po_state p"
    by (rule record_attempt [OF meta assms(3) False])
  note blobs = payload_settled_blobs [OF ps]
  show ?thesis
  proof (cases "key \<in> ar_idempotency_key ` set others")
    case True
    obtain x xs where "add_or_find_by_idempotency_key ?refs r ?rows = Inr (x, ?rows)" "x \<in> set ?rows"
      "ar_idempotency_key x = ar_idempotency_key r" "find_by_key (ar_idempotency_key r) ?rows = x # xs"
      by (rule add_raced [OF assms(4) _ r(1)]) (use True r assms(5) in auto)
    with run r(4) True False blobs(1) assms(4) show ?thesis by (simp add: record_assessment_def)
  next
    case new: False
    have fk: "proposal_stored ?refs r"
      using evaluate_proposal_stored [OF assms(1)] by (simp add: proposal_stored_def r split: option.splits)
    have key: "ar_idempotency_key r \<notin> ar_idempotency_key ` set ?rows" and "ar_id r \<notin> ar_id ` set ?rows"
      using new False r assms(5) by auto
    note added = add_new [OF assms(4) key r(1) this(2) fk r(2)]
    have "as_outcome a = PROPOSE_DUPLICATE \<longrightarrow>
        (\<exists>b. ar_best_score r = Some b \<and> dm_threshold meta \<le> b) \<and>
        (\<forall>q. ar_best_non_winning_score r = Some q \<longrightarrow> q < dm_threshold meta)"
      using proposal_margin [OF assms(1) _ sc [symmetric]] by blast
    with run added False new r pst blobs show ?thesis by (simp add: record_assessment_def)
  qed
qed

definition sample_recorder :: recorder where
  "sample_recorder =
     \<lparr> rec_blob_account = \<lparr> ba_location = BL_AZURE, ba_operations_container = ''ops'', ba_refuses = (\<lambda>_ _. False) \<rparr>,
       rec_dump = (\<lambda>a. str_uuid (as_incoming_reference_id a)), rec_digest = (\<lambda>u. 12345),
       rec_error_text = (\<lambda>_. ''failed''), rec_sample_rate_bits = Some 3 \<rparr>"

lemma sample_payload_file_valid: "blob_file_valid (payload_file sample_recorder 7)"
  by (simp add: blob_file_valid_def payload_file_def sample_recorder_def)

theorem assessment_recorded_once_witness:
  "\<exists>a row st'. evaluate sample_assessor 1 None None = Inr a \<and>
     record_assessment sample_recorder {1, 2, 3} 70 [] a DEDUPLICATION ''g1'' 7 \<lparr> ast_rows = [], ast_blobs = [] \<rparr>
       = (Inr row, st') \<and>
     ast_rows st' = [row] \<and> ar_payload_state row = STORED \<and>
     record_assessment sample_recorder {1, 2, 3} 71 [] a DEDUPLICATION ''g1'' 7 st' = (Inr row, st')"
proof -
  let ?st = "\<lparr> ast_rows = [], ast_blobs = [] \<rparr>"
  have "case evaluate sample_assessor 1 None None of Inl _ \<Rightarrow> False | Inr a \<Rightarrow> is_interesting a"
    by code_simp
  then obtain a where a: "evaluate sample_assessor 1 None None = Inr a" and i: "is_interesting a"
    by (auto split: sum.splits)
  have refs: "refr_id ` set (db_references sample_paper_db) = {1, 2, 3}" by (simp add: sample_paper_db_def)
  have *: "deduper_metadata_valid sample_metadata" "records_ok {1, 2, 3} (ast_rows ?st @ [])"
    by (simp_all add: deduper_metadata_valid_def sample_metadata_def records_ok_def)
  obtain res st' where run: "record_assessment sample_recorder {1, 2, 3} 70 [] a DEDUPLICATION ''g1'' 7 ?st = (res, st')"
    by fastforce
  have "retain_payload sample_recorder a" "ba_refuses (rec_blob_account sample_recorder) f t = False" for f t
    using i by (simp_all add: retain_payload_def sample_recorder_def)
  with assessment_recorded_once [OF a [unfolded sample_assessor_def], where R = sample_recorder and key = 7
      and st = ?st and others = "[]" and new_id = 70 and purpose = DEDUPLICATION and gen = "''g1''"
      and new_id' = 71 and others' = "[]" and a' = a and purpose' = DEDUPLICATION and gen' = "''g1''",
      unfolded refs, OF *(1) sample_payload_file_valid *(2)] a run
  show ?thesis by auto
qed

end
