(* ===== verification/Search_Queries.thy ===== *)
theory Search_Queries
  imports Reference_Index Blob_Storage
begin

text \<open>
  Searching references: the parameters of a search (\<^verbatim>\<open>src/app/domain/references/routes.py\<close> and
  \<^verbatim>\<open>services/anti_corruption_service.py\<close>), the search specification of
  \<^verbatim>\<open>src/app/domain/references/models/models.py\<close>, and its translation to the query language of
  Elasticsearch (\<^verbatim>\<open>src/app/domain/references/repository.py\<close>,
  \<^verbatim>\<open>src/app/persistence/es/repository.py\<close>).

  Elasticsearch is a parameter: which documents a query matches. What the code relies on is the
  hypothesis \<open>es_matches_ok\<close>, the documented meaning of the clauses it builds; nothing is said about
  the Lucene syntax of the query string.
\<close>

section \<open>The search specification\<close>

record publication_year_range =
  yr_start :: "int option"
  yr_end :: "int option"

text \<open>Positive years, and \<open>validate_end_ge_start\<close>.\<close>

definition year_range_valid :: "publication_year_range \<Rightarrow> bool" where
  "year_range_valid r =
     ((case yr_start r of None \<Rightarrow> True | Some s \<Rightarrow> 0 < s) \<and>
      (case yr_end r of None \<Rightarrow> True | Some e \<Rightarrow> 0 < e) \<and>
      (case (yr_start r, yr_end r) of (Some s, Some e) \<Rightarrow> s \<le> e | _ \<Rightarrow> True))"

record annotation_filter =
  af_scheme :: string
  af_label :: "string option"
  af_score :: "rat option"

definition annotation_filter_valid :: "annotation_filter \<Rightarrow> bool" where
  "annotation_filter_valid f = (case af_score f of None \<Rightarrow> True | Some s \<Rightarrow> 0 \<le> s \<and> s \<le> 1)"

text \<open>Each linked-data filter is a list of values of which one has to match.\<close>

type_synonym concept_filter = "string list"
type_synonym country_filter = "string list"
type_synonym region_filter = "string list"

definition concept_filter_valid :: "concept_filter \<Rightarrow> bool" where
  "concept_filter_valid uris = (uris \<noteq> [])"

definition is_upper_az :: "char \<Rightarrow> bool" where
  "is_upper_az c = (let n = of_char c :: nat in 65 \<le> n \<and> n \<le> 90)"

definition country_filter_valid :: "country_filter \<Rightarrow> bool" where
  "country_filter_valid codes =
     (codes \<noteq> [] \<and> list_all (\<lambda>c. length c = 2 \<and> list_all is_upper_az c) codes)"

definition region_filter_valid :: "region_filter \<Rightarrow> bool" where
  "region_filter_valid ids = (ids \<noteq> [] \<and> list_all (\<lambda>i. i \<in> set world_bank_regions) ids)"

datatype facet_type = FACET_CONCEPTS | FACET_COUNTRIES | FACET_COUNTRY_WB_REGIONS

record search_query =
  sq_query_string :: string
  sq_annotation_filters :: "annotation_filter list"
  sq_publication_year_range :: "publication_year_range option"
  sq_concept_filters :: "concept_filter list"
  sq_country_filters :: "country_filter list"
  sq_region_filters :: "region_filter list"

section \<open>Query parameters\<close>

text \<open>
  Python's \<open>str.upper\<close> on the alphabet of the model. The sharp s becomes two letters; the micro sign
  and the y with diaeresis have capitals outside the alphabet and stay, which no caller can tell
  apart, since neither form is a letter from A to Z.
\<close>

definition upper_char :: "char \<Rightarrow> string" where
  "upper_char c =
     (let n = of_char c :: nat
      in if (97 \<le> n \<and> n \<le> 122) \<or> (224 \<le> n \<and> n \<le> 254 \<and> n \<noteq> 247) then [char_of (n - 32)]
         else if n = 223 then ''SS'' else [c])"

definition py_upper :: "string \<Rightarrow> string" where
  "py_upper s = concat (map upper_char s)"

definition comma_pieces :: "string \<Rightarrow> string list" where
  "comma_pieces s = map py_strip (str_split (CHR '','') s)"

definition checked :: "('a \<Rightarrow> bool) \<Rightarrow> 'a \<Rightarrow> 'a result" where
  "checked valid x = (if valid x then Inr x else Inl ValidationError)"

definition publication_year_range_from_query_parameter ::
    "int option \<Rightarrow> int option \<Rightarrow> publication_year_range result" where
  "publication_year_range_from_query_parameter start end =
     checked year_range_valid \<lparr> yr_start = start, yr_end = end \<rparr>"

text \<open>
  \<open>scheme[/label][@score]\<close>: the score is behind the last \<^verbatim>\<open>@\<close>, the label behind the first slash.
  \<open>to_float\<close> is Python's \<^verbatim>\<open>float\<close>.
\<close>

definition annotation_filter_from_query_parameter ::
    "(string \<Rightarrow> rat result) \<Rightarrow> string \<Rightarrow> annotation_filter result" where
  "annotation_filter_from_query_parameter to_float s =
     (let pieces = str_split (CHR ''@'') s in
      res_bind (if CHR ''@'' \<in> set s
                then res_bind (to_float (last pieces)) (\<lambda>q. Inr (Some q, str_join ''@'' (butlast pieces)))
                else Inr (None, s))
        (\<lambda>(score, rest).
           checked annotation_filter_valid
             \<lparr> af_scheme = fst (split_once (CHR ''/'') rest),
               af_label = (if CHR ''/'' \<in> set rest then Some (snd (split_once (CHR ''/'') rest)) else None),
               af_score = score \<rparr>))"

definition concept_filter_from_query_parameter :: "string \<Rightarrow> concept_filter result" where
  "concept_filter_from_query_parameter s =
     (if [] \<in> set (comma_pieces s) then Inl PyValueError
      else checked concept_filter_valid (comma_pieces s))"

definition country_filter_from_query_parameter :: "string \<Rightarrow> country_filter result" where
  "country_filter_from_query_parameter s =
     checked country_filter_valid (map py_upper (comma_pieces s))"

definition region_filter_from_query_parameter :: "string \<Rightarrow> region_filter result" where
  "region_filter_from_query_parameter s =
     checked region_filter_valid (map py_upper (comma_pieces s))"

text \<open>What the routes do with a \<^verbatim>\<open>ValueError\<close>, of which \<^verbatim>\<open>ValidationError\<close> is one.\<close>

definition as_parse_error :: "'a result \<Rightarrow> 'a result" where
  "as_parse_error r =
     (case r of Inl e \<Rightarrow> Inl (if e = PyValueError \<or> e = ValidationError then ParseError else e) | Inr x \<Rightarrow> Inr x)"

definition parse_publication_year_range ::
    "int option \<Rightarrow> int option \<Rightarrow> publication_year_range option result" where
  "parse_publication_year_range start end =
     (if truthy_opt_int start \<or> truthy_opt_int end
      then as_parse_error (res_bind (publication_year_range_from_query_parameter start end)
                             (\<lambda>r. Inr (Some r)))
      else Inr None)"

definition parse_annotation_filters ::
    "(string \<Rightarrow> rat result) \<Rightarrow> string list \<Rightarrow> annotation_filter list result" where
  "parse_annotation_filters to_float annotation =
     as_parse_error (res_mapM (annotation_filter_from_query_parameter to_float) annotation)"

definition parse_linked_data_concept_filters :: "string list \<Rightarrow> concept_filter list result" where
  "parse_linked_data_concept_filters concept =
     as_parse_error (res_mapM concept_filter_from_query_parameter concept)"

definition parse_linked_data_country_filters :: "string list \<Rightarrow> country_filter list result" where
  "parse_linked_data_country_filters country =
     as_parse_error (res_mapM country_filter_from_query_parameter country)"

definition parse_linked_data_country_wb_region_filters :: "string list \<Rightarrow> region_filter list result" where
  "parse_linked_data_country_wb_region_filters region =
     as_parse_error (res_mapM region_filter_from_query_parameter region)"

record search_parameters =
  sp_q :: string
  sp_start_year :: "int option"
  sp_end_year :: "int option"
  sp_annotation :: "string list"
  sp_concept :: "string list"
  sp_country :: "string list"
  sp_country_wb_region :: "string list"

definition parse_search_query :: "(string \<Rightarrow> rat result) \<Rightarrow> search_parameters \<Rightarrow> search_query result" where
  "parse_search_query to_float p =
     res_bind (parse_publication_year_range (sp_start_year p) (sp_end_year p)) (\<lambda>years.
     res_bind (parse_annotation_filters to_float (sp_annotation p)) (\<lambda>annotations.
     res_bind (parse_linked_data_concept_filters (sp_concept p)) (\<lambda>concepts.
     res_bind (parse_linked_data_country_filters (sp_country p)) (\<lambda>countries.
     res_bind (parse_linked_data_country_wb_region_filters (sp_country_wb_region p)) (\<lambda>regions.
       Inr \<lparr> sq_query_string = sp_q p, sq_annotation_filters = annotations,
            sq_publication_year_range = years, sq_concept_filters = concepts,
            sq_country_filters = countries, sq_region_filters = regions \<rparr>)))))"

section \<open>Clauses for Elasticsearch\<close>

datatype es_query =
    QueryString string "string list"
  | Range string "rat option" "rat option"
  | Terms string "string list"
  | Term string string
  | Prefix string string
  | Exists string
  | MatchAll
  | Bool "es_query list" "es_query list"

definition facet_field :: "facet_type \<Rightarrow> string" where
  "facet_field f =
     (case f of FACET_CONCEPTS \<Rightarrow> ''linked_data_concepts''
      | FACET_COUNTRIES \<Rightarrow> ''linked_data_countries''
      | FACET_COUNTRY_WB_REGIONS \<Rightarrow> ''linked_data_country_wb_regions'')"

definition default_search_fields :: "string list" where
  "default_search_fields = [''title'', ''abstract'']"

definition build_publication_year_clause :: "publication_year_range \<Rightarrow> es_query option" where
  "build_publication_year_clause r =
     (if yr_start r = None \<and> yr_end r = None then None
      else Some (Range ''publication_year'' (map_option of_int (yr_start r)) (map_option of_int (yr_end r))))"

definition annotation_score_field :: "annotation_filter \<Rightarrow> string" where
  "annotation_score_field a =
     map (\<lambda>c. if c = CHR '':'' then CHR ''_'' else c) (af_scheme a) @
     (if truthy_opt_str (af_label a) then ''_'' @ the (af_label a) else [])"

definition build_annotation_clause :: "annotation_filter \<Rightarrow> es_query" where
  "build_annotation_clause a =
     (case af_score a of
        Some score \<Rightarrow> Range (annotation_score_field a) (Some score) None
      | None \<Rightarrow>
          if \<not> truthy_opt_str (af_label a) then Prefix ''annotations'' (af_scheme a @ ''/'')
          else Term ''annotations'' (af_scheme a @ ''/'' @ the (af_label a)))"

definition build_filter_clauses :: "search_query \<Rightarrow> facet_type option \<Rightarrow> es_query list" where
  "build_filter_clauses q exclude_facet =
     (case sq_publication_year_range q of
        None \<Rightarrow> []
      | Some r \<Rightarrow> (case build_publication_year_clause r of None \<Rightarrow> [] | Some c \<Rightarrow> [c])) @
     map build_annotation_clause (sq_annotation_filters q) @
     (if exclude_facet \<noteq> Some FACET_CONCEPTS
      then map (Terms (facet_field FACET_CONCEPTS)) (sq_concept_filters q) else []) @
     (if exclude_facet \<noteq> Some FACET_COUNTRIES
      then map (Terms (facet_field FACET_COUNTRIES)) (sq_country_filters q) else []) @
     (if exclude_facet \<noteq> Some FACET_COUNTRY_WB_REGIONS
      then map (Terms (facet_field FACET_COUNTRY_WB_REGIONS)) (sq_region_filters q) else [])"

definition compose_query :: "string \<Rightarrow> string list \<Rightarrow> es_query list \<Rightarrow> bool \<Rightarrow> es_query" where
  "compose_query query_string fs filter_clauses score =
     (let main = QueryString query_string fs
      in if \<not> score then Bool [] (main # filter_clauses)
         else if filter_clauses = [] then main
         else Bool [main] filter_clauses)"

text \<open>The clauses of \<open>search\<close>, \<open>scan\<close> and \<open>count\<close>.\<close>

definition reference_query :: "search_query \<Rightarrow> bool \<Rightarrow> es_query" where
  "reference_query q score =
     compose_query (sq_query_string q) default_search_fields (build_filter_clauses q None) score"

section \<open>What the clauses mean\<close>

text \<open>
  The values a document is indexed with, by field, from the mapping of \<^verbatim>\<open>ReferenceSearchFieldsMixin\<close>:
  the keyword fields the code queries and the numeric fields. The inclusion score is a scaled float
  of factor \<open>10 ^ 4\<close>.
\<close>

definition doc_keywords :: "reference_document \<Rightarrow> string \<Rightarrow> string list" where
  "doc_keywords d f =
     (let s = rdoc_search_fields d
      in if f = ''annotations'' then opt_list (sfm_annotations s)
         else if f = ''evaluated_schemes'' then opt_list (sfm_evaluated_schemes s)
         else if f = ''linked_data_concepts'' then opt_list (sfm_linked_data_concepts s)
         else if f = ''linked_data_evaluated_properties'' then opt_list (sfm_linked_data_evaluated_properties s)
         else if f = ''linked_data_countries'' then opt_list (sfm_linked_data_countries s)
         else if f = ''linked_data_country_wb_regions'' then opt_list (sfm_linked_data_country_wb_regions s)
         else [])"

definition opt_to_list :: "'a option \<Rightarrow> 'a list" where
  "opt_to_list x = (case x of None \<Rightarrow> [] | Some v \<Rightarrow> [v])"

definition scaled_score :: "rat \<Rightarrow> rat" where
  "scaled_score q = of_int (round (q * 10000)) / 10000"

definition doc_numbers :: "reference_document \<Rightarrow> string \<Rightarrow> rat list" where
  "doc_numbers d f =
     (let s = rdoc_search_fields d
      in if f = ''publication_year'' then map of_int (opt_to_list (sfm_publication_year s))
         else if f = ''inclusion_destiny'' then map scaled_score (opt_to_list (sfm_inclusion_destiny s))
         else [])"

definition in_bounds :: "rat option \<Rightarrow> rat option \<Rightarrow> rat \<Rightarrow> bool" where
  "in_bounds lo hi v =
     ((case lo of None \<Rightarrow> True | Some l \<Rightarrow> l \<le> v) \<and> (case hi of None \<Rightarrow> True | Some h \<Rightarrow> v \<le> h))"

type_synonym es_matcher = "es_query \<Rightarrow> reference_document \<Rightarrow> bool"

text \<open>
  The documented meaning of the clauses: a term-level clause matches when one of the values of its
  field does, a boolean clause when all of its parts do.
\<close>

definition es_matches_ok :: "es_matcher \<Rightarrow> bool" where
  "es_matches_ok m =
     ((\<forall>f lo hi d. m (Range f lo hi) d = list_ex (in_bounds lo hi) (doc_numbers d f)) \<and>
      (\<forall>f vs d. m (Terms f vs) d = list_ex (\<lambda>v. v \<in> set vs) (doc_keywords d f)) \<and>
      (\<forall>f v d. m (Term f v) d = (v \<in> set (doc_keywords d f))) \<and>
      (\<forall>f p d. m (Prefix f p) d = list_ex (\<lambda>v. take (length p) v = p) (doc_keywords d f)) \<and>
      (\<forall>f d. m (Exists f) d = (doc_keywords d f \<noteq> [] \<or> doc_numbers d f \<noteq> [])) \<and>
      (\<forall>d. m MatchAll d) \<and>
      (\<forall>must flt d. m (Bool must flt) d = list_all (\<lambda>q. m q d) (must @ flt)))"

lemma es_matches_simps:
  assumes "es_matches_ok m"
  shows "m (Range f lo hi) d = list_ex (in_bounds lo hi) (doc_numbers d f)"
    and "m (Terms f vs) d = list_ex (\<lambda>v. v \<in> set vs) (doc_keywords d f)"
    and "m (Term f v) d = (v \<in> set (doc_keywords d f))"
    and "m (Prefix f p) d = list_ex (\<lambda>v. take (length p) v = p) (doc_keywords d f)"
    and "m (Exists f) d = (doc_keywords d f \<noteq> [] \<or> doc_numbers d f \<noteq> [])"
    and "m MatchAll d"
    and "m (Bool must flt) d = list_all (\<lambda>q. m q d) (must @ flt)"
  using assms by (simp_all add: es_matches_ok_def)

section \<open>The search specified on projections\<close>

text \<open>
  What a search asks of a reference, stated on its search fields and linked data: the years within
  the range, every annotation filter, and of every linked-data filter at least one value.
\<close>

definition year_wanted :: "publication_year_range \<Rightarrow> reference_search_projection \<Rightarrow> bool" where
  "year_wanted r p =
     (yr_start r = None \<and> yr_end r = None \<or>
      (case rsf_publication_year (rsp_search_fields p) of
         None \<Rightarrow> False
       | Some y \<Rightarrow> (case yr_start r of None \<Rightarrow> True | Some s \<Rightarrow> s \<le> y) \<and>
                   (case yr_end r of None \<Rightarrow> True | Some e \<Rightarrow> y \<le> e)))"

text \<open>
  Of all scores only the inclusion score is indexed. A score asked of anything else matches nothing,
  or the publication year when the name of the annotation happens to spell that field.
\<close>

definition scored_at_least :: "string \<Rightarrow> rat \<Rightarrow> reference_search_projection \<Rightarrow> bool" where
  "scored_at_least f s p =
     (if f = ''inclusion_destiny''
      then (case rsf_destiny_inclusion_score (rsp_search_fields p) of
              None \<Rightarrow> False | Some q \<Rightarrow> s \<le> scaled_score q)
      else if f = ''publication_year''
      then (case rsf_publication_year (rsp_search_fields p) of None \<Rightarrow> False | Some y \<Rightarrow> s \<le> of_int y)
      else False)"

definition annotation_wanted :: "annotation_filter \<Rightarrow> reference_search_projection \<Rightarrow> bool" where
  "annotation_wanted a p =
     (let anns = rsf_annotations (rsp_search_fields p)
      in case af_score a of
           Some s \<Rightarrow> scored_at_least (annotation_score_field a) s p
         | None \<Rightarrow>
             if truthy_opt_str (af_label a) then af_scheme a @ ''/'' @ the (af_label a) \<in> set anns
             else list_ex (\<lambda>l. \<exists>label. l = af_scheme a @ ''/'' @ label) anns)"

definition linked_values :: "facet_type \<Rightarrow> reference_search_projection \<Rightarrow> string list" where
  "linked_values f p =
     (case rsp_linked_data_projection p of
        None \<Rightarrow> []
      | Some l \<Rightarrow> (case f of FACET_CONCEPTS \<Rightarrow> ldp_concepts l | FACET_COUNTRIES \<Rightarrow> ldp_countries l
                   | FACET_COUNTRY_WB_REGIONS \<Rightarrow> ldp_country_wb_regions l))"

definition facet_filters :: "search_query \<Rightarrow> facet_type \<Rightarrow> string list list" where
  "facet_filters q f =
     (case f of FACET_CONCEPTS \<Rightarrow> sq_concept_filters q | FACET_COUNTRIES \<Rightarrow> sq_country_filters q
      | FACET_COUNTRY_WB_REGIONS \<Rightarrow> sq_region_filters q)"

definition linked_wanted :: "search_query \<Rightarrow> facet_type \<Rightarrow> reference_search_projection \<Rightarrow> bool" where
  "linked_wanted q f p =
     list_all (\<lambda>vs. list_ex (\<lambda>v. v \<in> set (linked_values f p)) vs) (facet_filters q f)"

definition wanted :: "search_query \<Rightarrow> reference_search_projection \<Rightarrow> bool" where
  "wanted q p =
     ((case sq_publication_year_range q of None \<Rightarrow> True | Some r \<Rightarrow> year_wanted r p) \<and>
      list_all (\<lambda>a. annotation_wanted a p) (sq_annotation_filters q) \<and>
      linked_wanted q FACET_CONCEPTS p \<and> linked_wanted q FACET_COUNTRIES p \<and>
      linked_wanted q FACET_COUNTRY_WB_REGIONS p)"

section \<open>Lemmas\<close>

lemma doc_keywords_linked [simp]: "doc_keywords (document_from_domain p) (facet_field f) = linked_values f p"
  by (cases f; cases "rsp_linked_data_projection p")
    (simp_all add: doc_keywords_def document_from_domain_def from_projections_def facet_field_def
      linked_values_def opt_list_def)

lemma doc_keywords_annotations [simp]:
  "doc_keywords (document_from_domain p) ''annotations'' = rsf_annotations (rsp_search_fields p)"
  by (simp add: doc_keywords_def document_from_domain_def from_projections_def opt_list_def)

lemma doc_numbers_year [simp]:
  "doc_numbers (document_from_domain p) ''publication_year'' =
     map of_int (opt_to_list (rsf_publication_year (rsp_search_fields p)))"
  by (simp add: doc_numbers_def document_from_domain_def from_projections_def)

lemma list_ex_mem_swap: "list_ex (\<lambda>v. v \<in> set vs) ws = list_ex (\<lambda>v. v \<in> set ws) vs"
  by (auto simp: list_ex_iff)

lemma linked_clauses:
  assumes "es_matches_ok m"
  shows "list_all (\<lambda>c. m c (document_from_domain p)) (map (Terms (facet_field f)) (facet_filters q f)) =
    linked_wanted q f p"
  by (simp add: linked_wanted_def list.pred_map comp_def es_matches_simps [OF assms]
      list_ex_mem_swap [of _ "linked_values f p"])

lemma year_clause:
  assumes "es_matches_ok m"
  shows "(case build_publication_year_clause r of None \<Rightarrow> True | Some c \<Rightarrow> m c (document_from_domain p)) =
    year_wanted r p"
  by (auto simp: build_publication_year_clause_def year_wanted_def es_matches_simps [OF assms]
      opt_to_list_def in_bounds_def split: option.splits)

lemma prefix_take: "(take (length p) v = p) = (\<exists>r. v = p @ r)"
  by (metis append_eq_conv_conj append_take_drop_id)

lemma score_clause:
  assumes "es_matches_ok m"
  shows "m (Range f (Some s) None) (document_from_domain p) = scored_at_least f s p"
  by (auto simp: es_matches_simps [OF assms] scored_at_least_def doc_numbers_def document_from_domain_def
      from_projections_def opt_to_list_def in_bounds_def split: option.splits)

lemma annotation_clause:
  assumes "es_matches_ok m"
  shows "m (build_annotation_clause a) (document_from_domain p) = annotation_wanted a p"
proof (cases "af_score a")
  case None
  then show ?thesis
    using prefix_take [of "af_scheme a @ ''/''"]
    by (auto simp: build_annotation_clause_def annotation_wanted_def es_matches_simps [OF assms] list_ex_iff)
next
  case (Some s)
  then show ?thesis
    by (simp add: build_annotation_clause_def annotation_wanted_def score_clause [OF assms])
qed

lemma filter_clauses:
  assumes "es_matches_ok m"
  shows "list_all (\<lambda>c. m c (document_from_domain p)) (build_filter_clauses q None) = wanted q p"
proof -
  have years: "list_all (\<lambda>c. m c (document_from_domain p))
      (case sq_publication_year_range q of None \<Rightarrow> []
       | Some r \<Rightarrow> (case build_publication_year_clause r of None \<Rightarrow> [] | Some c \<Rightarrow> [c])) =
      (case sq_publication_year_range q of None \<Rightarrow> True | Some r \<Rightarrow> year_wanted r p)"
    by (simp add: year_clause [OF assms, symmetric] split: option.splits)
  have anns: "list_all (\<lambda>c. m c (document_from_domain p)) (map build_annotation_clause xs) =
      list_all (\<lambda>a. annotation_wanted a p) xs" for xs
    by (simp add: list.pred_map comp_def annotation_clause [OF assms])
  note linked = linked_clauses [OF assms, of p _ q, unfolded facet_filters_def]
  show ?thesis
    unfolding build_filter_clauses_def wanted_def list_all_append years anns
      linked [of FACET_CONCEPTS, unfolded facet_type.case, symmetric]
      linked [of FACET_COUNTRIES, unfolded facet_type.case, symmetric]
      linked [of FACET_COUNTRY_WB_REGIONS, unfolded facet_type.case, symmetric]
    by simp
qed

lemma composed_query:
  assumes "es_matches_ok m"
  shows "m (compose_query s fs cs score) d = (m (QueryString s fs) d \<and> list_all (\<lambda>c. m c d) cs)"
  by (simp add: compose_query_def Let_def es_matches_simps [OF assms])

section \<open>Properties\<close>


text \<open>A matcher of the documented meaning, over any reading of query strings.\<close>

fun documented_matches :: "(string \<Rightarrow> string list \<Rightarrow> reference_document \<Rightarrow> bool) \<Rightarrow> es_matcher" where
  "documented_matches lucene (QueryString s fs) d = lucene s fs d"
| "documented_matches lucene (Range f lo hi) d = list_ex (in_bounds lo hi) (doc_numbers d f)"
| "documented_matches lucene (Terms f vs) d = list_ex (\<lambda>v. v \<in> set vs) (doc_keywords d f)"
| "documented_matches lucene (Term f v) d = (v \<in> set (doc_keywords d f))"
| "documented_matches lucene (Prefix f p) d = list_ex (\<lambda>v. take (length p) v = p) (doc_keywords d f)"
| "documented_matches lucene (Exists f) d = (doc_keywords d f \<noteq> [] \<or> doc_numbers d f \<noteq> [])"
| "documented_matches lucene MatchAll d = True"
| "documented_matches lucene (Bool must flt) d = list_all (\<lambda>q. documented_matches lucene q d) (must @ flt)"

lemma documented_matches_ok: "es_matches_ok (documented_matches lucene)"
  by (simp add: es_matches_ok_def)

text \<open>For the witnesses: the query string is the title.\<close>

definition title_lucene :: "string \<Rightarrow> string list \<Rightarrow> reference_document \<Rightarrow> bool" where
  "title_lucene s fs d = (sfm_title (rdoc_search_fields d) = Some s)"

definition sample_projection :: reference_search_projection where
  "sample_projection =
     \<lparr> rsp_id = 1, rsp_visibility = VIS_PUBLIC, rsp_duplicate_determination = Some DD_CANONICAL,
       rsp_search_fields = empty_search_fields
         \<lparr> rsf_title := Some ''pigs'', rsf_publication_year := Some 1999, rsf_annotations := [''a:b/c''],
           rsf_destiny_inclusion_score := Some (4 / 5) \<rparr>,
       rsp_linked_data_projection = Some
         \<lparr> ldp_concepts = [''u1''], ldp_labels = [], ldp_evaluated_properties = [],
           ldp_countries = [''FR''], ldp_country_wb_regions = [''ECS''] \<rparr> \<rparr>"

definition sample_search :: search_query where
  "sample_search =
     \<lparr> sq_query_string = ''pigs'',
       sq_annotation_filters = [\<lparr> af_scheme = ''a:b'', af_label = None, af_score = None \<rparr>,
         \<lparr> af_scheme = ''inclusion:destiny'', af_label = None, af_score = Some (1 / 2) \<rparr>],
       sq_publication_year_range = Some \<lparr> yr_start = Some 1990, yr_end = None \<rparr>,
       sq_concept_filters = [[''u1'', ''u2'']], sq_country_filters = [[''FR'']], sq_region_filters = [] \<rparr>"


end
