(* ===== verification/Search_Service.thy ===== *)
theory Search_Service
  imports Search_Queries
begin

text \<open>
  The search service (\<^verbatim>\<open>src/app/domain/references/services/search_service.py\<close>) over the search half
  of the Elasticsearch repositories (\<^verbatim>\<open>src/app/domain/references/repository.py\<close>,
  \<^verbatim>\<open>src/app/persistence/es/repository.py\<close>): searching and scanning, facets whose counts know about
  selected siblings, and cross facets.

  Elasticsearch is a parameter: which documents match, how it fills an aggregation over a list of
  documents, how it orders hits, and which requests it refuses. \<open>es_matches_ok\<close> and \<open>es_aggs_ok\<close> state
  its documented behaviour.
\<close>

section \<open>Aggregations\<close>

record terms_params =
  ta_field :: string
  ta_size :: nat
  ta_min_doc_count :: nat
  ta_include :: "string list option"
  ta_exclude :: "string list"

datatype es_agg =
    FilterAgg es_query "(string \<times> es_agg) list"
  | TermsAgg terms_params "(string \<times> es_agg) list"

datatype agg_response =
    FilterResponse nat "(string \<times> agg_response) list"
  | TermsResponse "(string \<times> nat \<times> (string \<times> agg_response) list) list"

text \<open>The parameters of a plain terms aggregation: \<open>min_doc_count\<close> defaults to 1.\<close>

definition plain_terms :: "string \<Rightarrow> nat \<Rightarrow> terms_params" where
  "plain_terms f n =
     \<lparr> ta_field = f, ta_size = n, ta_min_doc_count = 1, ta_include = None, ta_exclude = [] \<rparr>"

definition term_allowed :: "terms_params \<Rightarrow> string \<Rightarrow> bool" where
  "term_allowed p k =
     ((case ta_include p of None \<Rightarrow> True | Some ks \<Rightarrow> k \<in> set ks) \<and> k \<notin> set (ta_exclude p))"

definition with_term :: "string \<Rightarrow> string \<Rightarrow> reference_document list \<Rightarrow> reference_document list" where
  "with_term f k docs = filter (\<lambda>d. k \<in> set (doc_keywords d f)) docs"

definition terms_present :: "terms_params \<Rightarrow> reference_document list \<Rightarrow> string set" where
  "terms_present p docs =
     {k \<in> (\<Union>d \<in> set docs. set (doc_keywords d (ta_field p))). term_allowed p k}"

text \<open>
  The buckets of a terms aggregation: each allowed key at most once, with its exact count, at least
  \<open>min_doc_count\<close>; none that occurs is missing when \<open>size\<close> has room for all of them.
\<close>

definition buckets_ok :: "terms_params \<Rightarrow> reference_document list \<Rightarrow> (string \<times> nat) list \<Rightarrow> bool" where
  "buckets_ok p docs bs =
     (distinct (map fst bs) \<and>
      (\<forall>(k, n) \<in> set bs. term_allowed p k \<and> n = length (with_term (ta_field p) k docs) \<and>
         ta_min_doc_count p \<le> n) \<and>
      (card (terms_present p docs) \<le> ta_size p \<longrightarrow>
         (\<forall>k \<in> terms_present p docs.
            ta_min_doc_count p \<le> length (with_term (ta_field p) k docs) \<longrightarrow> k \<in> fst ` set bs)))"

text \<open>
  A search for hits: sort keys are field names, with a sign, or dictionaries of one field with its
  direction; \<open>search_after\<close> carries the sort values of the last hit seen. Totals are counted exactly
  when asked for, left out when refused, and otherwise counted up to a threshold.
\<close>

datatype es_sort = SortField string | SortDict string "(string \<times> string) list"

record es_search =
  ess_query :: es_query
  ess_sort :: "es_sort list"
  ess_from :: int
  ess_size :: nat
  ess_search_after :: "string list option"
  ess_track_total_hits :: "bool option"

record es_hit =
  hit_id :: uuid
  hit_score :: "rat option"
  hit_sort :: "string list"

record es_total =
  tot_value :: nat
  tot_relation :: string

text \<open>
  Elasticsearch, as the program uses it: matching, aggregating, whether a query is refused with 400,
  and the answer to a search for hits, \<open>None\<close> when refused with 400.
\<close>

record es_server =
  esv_matches :: es_matcher
  esv_aggregate :: "es_agg \<Rightarrow> reference_document list \<Rightarrow> agg_response"
  esv_refuses :: "es_query \<Rightarrow> bool"
  esv_search :: "es_search \<Rightarrow> es_index \<Rightarrow> (es_hit list \<times> es_total option) option"

definition es_aggs_ok :: "es_server \<Rightarrow> bool" where
  "es_aggs_ok srv =
     ((\<forall>q subs docs. esv_aggregate srv (FilterAgg q subs) docs =
         (let docs' = filter (esv_matches srv q) docs
          in FilterResponse (length docs') (map (\<lambda>(n, a). (n, esv_aggregate srv a docs')) subs))) \<and>
      (\<forall>p subs docs. \<exists>bs. buckets_ok p docs bs \<and>
         esv_aggregate srv (TermsAgg p subs) docs =
           TermsResponse (map (\<lambda>(k, c). (k, c,
             map (\<lambda>(n, a). (n, esv_aggregate srv a (with_term (ta_field p) k docs))) subs)) bs)))"

text \<open>
  \<open>_execute_search\<close>: a request that Elasticsearch answers with 400 raises \<^verbatim>\<open>ESQueryError\<close>. The
  response holds the number of matching documents and the aggregations by name.
\<close>

definition matching :: "es_server \<Rightarrow> es_index \<Rightarrow> es_query \<Rightarrow> reference_document list" where
  "matching srv idx q = filter (esv_matches srv q) (map snd idx)"

definition execute_aggregations ::
    "es_server \<Rightarrow> es_index \<Rightarrow> es_query \<Rightarrow> (string \<times> es_agg) list \<Rightarrow>
     (nat \<times> (string \<times> agg_response) list) result" where
  "execute_aggregations srv idx q aggs =
     (if esv_refuses srv q then Inl ESQueryError
      else Inr (length (matching srv idx q),
                map (\<lambda>(n, a). (n, esv_aggregate srv a (matching srv idx q))) aggs))"

text \<open>Reading a response by attribute.\<close>

fun sub_response :: "string \<Rightarrow> agg_response \<Rightarrow> agg_response result" where
  "sub_response name (FilterResponse _ subs) =
     (case map_of subs name of None \<Rightarrow> Inl PyKeyError | Some r \<Rightarrow> Inr r)"
| "sub_response name (TermsResponse _) = Inl PyKeyError"

fun response_buckets :: "agg_response \<Rightarrow> (string \<times> nat \<times> (string \<times> agg_response) list) list result" where
  "response_buckets (TermsResponse bs) = Inr bs"
| "response_buckets (FilterResponse _ _) = Inl PyKeyError"

fun response_doc_count :: "agg_response \<Rightarrow> nat result" where
  "response_doc_count (FilterResponse n _) = Inr n"
| "response_doc_count (TermsResponse _) = Inl PyKeyError"

definition aggregation :: "string \<Rightarrow> (string \<times> agg_response) list \<Rightarrow> agg_response result" where
  "aggregation name aggs = (case map_of aggs name of None \<Rightarrow> Inl PyKeyError | Some r \<Rightarrow> Inr r)"

type_synonym facet_bucket = "string \<times> nat"

definition facet_buckets :: "(string \<times> nat \<times> 'a) list \<Rightarrow> facet_bucket list" where
  "facet_buckets bs = map (\<lambda>(k, n, _). (k, n)) bs"

section \<open>Plain facets\<close>

definition aggregate_terms ::
    "es_server \<Rightarrow> es_index \<Rightarrow> string \<Rightarrow> string list \<Rightarrow> es_query list \<Rightarrow> nat \<Rightarrow>
     (string \<times> facet_bucket list) list result" where
  "aggregate_terms srv idx query aggregate_on filter_clauses max_buckets =
     res_bind (execute_aggregations srv idx
                 (compose_query query default_search_fields filter_clauses True)
                 (map (\<lambda>f. (f, TermsAgg (plain_terms f max_buckets) [])) aggregate_on))
       (\<lambda>(_, aggs). res_mapM (\<lambda>f.
          res_bind (aggregation f aggs) (\<lambda>r.
          res_bind (response_buckets r) (\<lambda>bs. Inr (f, facet_buckets bs)))) aggregate_on)"

section \<open>Facets with sibling groups\<close>

record sibling_group =
  sg_selected :: "string list"
  sg_siblings :: "string list option"

definition group_clause :: "string \<Rightarrow> sibling_group \<Rightarrow> es_query" where
  "group_clause f g = Terms f (sg_selected g)"

definition group_name :: "nat \<Rightarrow> string" where
  "group_name i = ''facet_group_'' @ str_nat i"

definition other_clauses :: "es_query list \<Rightarrow> nat \<Rightarrow> es_query list" where
  "other_clauses cs i = map snd (filter (\<lambda>(j, _). j \<noteq> i) (enumerate 0 cs))"

text \<open>Sibling sets are frozen sets: their size counts distinct members.\<close>

definition group_terms :: "string \<Rightarrow> nat \<Rightarrow> sibling_group \<Rightarrow> terms_params" where
  "group_terms f max_buckets g =
     (case sg_siblings g of
        None \<Rightarrow> \<lparr> ta_field = f, ta_size = max_buckets, ta_min_doc_count = 0, ta_include = None, ta_exclude = [] \<rparr>
      | Some ss \<Rightarrow> \<lparr> ta_field = f, ta_size = length (remdups ss), ta_min_doc_count = 0,
                     ta_include = Some (sort (remdups ss)), ta_exclude = [] \<rparr>)"

definition attach_per_group_aggs ::
    "string \<Rightarrow> sibling_group list \<Rightarrow> es_query list \<Rightarrow> nat \<Rightarrow> (string \<times> es_agg) list" where
  "attach_per_group_aggs f groups clauses max_buckets =
     map (\<lambda>(i, g). (group_name i,
         FilterAgg (if other_clauses clauses i = [] then MatchAll else Bool [] (other_clauses clauses i))
           [(''inner'', TermsAgg (group_terms f max_buckets g) [])]))
       (enumerate 0 groups)"

definition attach_unselected_agg ::
    "string \<Rightarrow> sibling_group list \<Rightarrow> es_query list \<Rightarrow> nat \<Rightarrow> (string \<times> es_agg) result" where
  "attach_unselected_agg f groups clauses max_buckets =
     (if list_ex (\<lambda>g. sg_siblings g = None) groups then Inl PyValueError
      else Inr (''unselected'', FilterAgg (Bool [] clauses)
        [(''inner'', TermsAgg \<lparr> ta_field = f, ta_size = max_buckets, ta_min_doc_count = 1, ta_include = None,
           ta_exclude = sort (remdups (concat (map (\<lambda>g. opt_list (sg_siblings g)) groups))) \<rparr> [])]))"

definition parse_facet_buckets ::
    "(string \<times> agg_response) list \<Rightarrow> string list \<Rightarrow> facet_bucket list result" where
  "parse_facet_buckets aggs agg_names =
     res_bind (res_mapM (\<lambda>name.
         res_bind (aggregation name aggs) (\<lambda>r.
         res_bind (sub_response ''inner'' r) (\<lambda>inner.
         res_bind (response_buckets inner) (\<lambda>bs. Inr (facet_buckets bs))))) agg_names)
       (\<lambda>parts. Inr (concat parts))"

definition aggregate_facet_sibling_aware ::
    "es_server \<Rightarrow> es_index \<Rightarrow> search_query \<Rightarrow> facet_type \<Rightarrow> sibling_group list \<Rightarrow> es_query list \<Rightarrow> nat \<Rightarrow>
     facet_bucket list result" where
  "aggregate_facet_sibling_aware srv idx q facet groups axis_clauses max_buckets =
     (let f = facet_field facet;
          clauses = map (group_clause f) groups;
          per_group = attach_per_group_aggs f groups clauses max_buckets;
          base = compose_query (sq_query_string q) default_search_fields
                   (build_filter_clauses q (Some facet) @ axis_clauses) True
      in res_bind (if list_all (\<lambda>g. sg_siblings g \<noteq> None) groups
                   then res_bind (attach_unselected_agg f groups clauses max_buckets) (\<lambda>a. Inr (per_group @ [a]))
                   else Inr per_group) (\<lambda>aggs.
         res_bind (execute_aggregations srv idx base aggs) (\<lambda>(_, responses).
           parse_facet_buckets responses (map fst aggs))))"

section \<open>Axes\<close>

record cross_facet_axis =
  cfa_token :: string
  cfa_facet_type :: facet_type
  cfa_include :: "string list option"
  cfa_size :: nat

text \<open>An empty \<open>include\<close> is no \<open>include\<close>.\<close>

definition axis_include :: "cross_facet_axis \<Rightarrow> string list option" where
  "axis_include a = (case cfa_include a of Some (k # ks) \<Rightarrow> Some (sort (remdups (k # ks))) | _ \<Rightarrow> None)"

definition axis_presence_clause :: "cross_facet_axis \<Rightarrow> es_query" where
  "axis_presence_clause a =
     (case axis_include a of
        Some ks \<Rightarrow> Terms (facet_field (cfa_facet_type a)) ks
      | None \<Rightarrow> Exists (facet_field (cfa_facet_type a)))"

definition facet_agg_params :: "cross_facet_axis \<Rightarrow> terms_params" where
  "facet_agg_params a =
     \<lparr> ta_field = facet_field (cfa_facet_type a), ta_size = cfa_size a, ta_min_doc_count = 1,
       ta_include = axis_include a, ta_exclude = [] \<rparr>"

definition es_aggregate_facets ::
    "es_server \<Rightarrow> es_index \<Rightarrow> search_query \<Rightarrow> facet_type list \<Rightarrow> (facet_type \<times> sibling_group list) list \<Rightarrow>
     cross_facet_axis list \<Rightarrow> nat \<Rightarrow> (facet_type \<times> facet_bucket list) list result" where
  "es_aggregate_facets srv idx q facets groups_by_facet map_axes max_buckets =
     (let axis_clauses = map axis_presence_clause map_axes;
          groups_of = (\<lambda>f. case map_of groups_by_facet f of None \<Rightarrow> [] | Some gs \<Rightarrow> gs);
          ungrouped = filter (\<lambda>f. groups_of f = []) facets
      in
      res_bind
        (if ungrouped = [] then Inr []
         else res_bind (aggregate_terms srv idx (sq_query_string q)
                          (dict_values (dict_comp id facet_field ungrouped))
                          (build_filter_clauses q None @ axis_clauses) max_buckets) (\<lambda>by_field.
              res_mapM (\<lambda>f. case map_of by_field (facet_field f) of
                              None \<Rightarrow> Inl PyKeyError | Some bs \<Rightarrow> Inr (f, bs))
                (dict_keys (dict_comp id facet_field ungrouped))))
        (res_foldM (\<lambda>f results.
             if groups_of f = [] then Inr results
             else res_bind (aggregate_facet_sibling_aware srv idx q f (groups_of f) axis_clauses max_buckets)
                    (\<lambda>bs. Inr (AList.update f bs results))) facets))"

section \<open>Cross facets\<close>

record cross_facet_cell =
  cell_axes :: "string \<times> string"
  cell_count :: nat

record cross_facet_result =
  cfr_cells :: "cross_facet_cell list"
  cfr_search_total :: nat
  cfr_mapped_total :: nat

definition parse_cross_facet_cells :: "agg_response \<Rightarrow> cross_facet_cell list result" where
  "parse_cross_facet_cells in_map =
     res_bind (sub_response ''axis_0'' in_map) (\<lambda>outer.
     res_bind (response_buckets outer) (\<lambda>bs.
     res_bind (res_mapM (\<lambda>(k0, _, subs).
         res_bind (aggregation ''axis_1'' subs) (\<lambda>r.
         res_bind (response_buckets r) (\<lambda>inner.
           Inr (map (\<lambda>(k1, n, _). \<lparr> cell_axes = (k0, k1), cell_count = n \<rparr>) inner)))) bs) (\<lambda>rows.
       Inr (sort_key (\<lambda>c. (- int (cell_count c), fst (cell_axes c), snd (cell_axes c))) (concat rows)))))"

definition es_aggregate_cross_facet ::
    "es_server \<Rightarrow> es_index \<Rightarrow> search_query \<Rightarrow> cross_facet_axis \<Rightarrow> cross_facet_axis \<Rightarrow> cross_facet_result result" where
  "es_aggregate_cross_facet srv idx q axis_0 axis_1 =
     res_bind (execute_aggregations srv idx (reference_query q True)
         [(''in_map'', FilterAgg (Bool [] [axis_presence_clause axis_0, axis_presence_clause axis_1])
            [(''axis_0'', TermsAgg (facet_agg_params axis_0)
                [(''axis_1'', TermsAgg (facet_agg_params axis_1) [])])])]) (\<lambda>(total, aggs).
     res_bind (aggregation ''in_map'' aggs) (\<lambda>in_map.
     res_bind (parse_cross_facet_cells in_map) (\<lambda>cells.
     res_bind (response_doc_count in_map) (\<lambda>mapped.
       Inr \<lparr> cfr_cells = cells, cfr_search_total = total, cfr_mapped_total = mapped \<rparr>))))"

section \<open>SearchService: axes\<close>

fun facet_value :: "facet_type \<Rightarrow> string" where
  "facet_value FACET_CONCEPTS = ''concepts''"
| "facet_value FACET_COUNTRIES = ''countries''"
| "facet_value FACET_COUNTRY_WB_REGIONS = ''country_wb_regions''"

definition literal_axis_sizes :: "(facet_type \<times> nat) list" where
  "literal_axis_sizes =
     [(FACET_COUNTRIES, 256), (FACET_COUNTRY_WB_REGIONS, length (remdups world_bank_regions))]"

definition literal_axis_facet :: "string \<Rightarrow> facet_type option" where
  "literal_axis_facet token =
     (case find (\<lambda>f. facet_value f = token) [FACET_CONCEPTS, FACET_COUNTRIES, FACET_COUNTRY_WB_REGIONS] of
        None \<Rightarrow> None
      | Some f \<Rightarrow> if map_of literal_axis_sizes f \<noteq> None then Some f else None)"

definition is_concept_scheme :: "string \<Rightarrow> bool" where
  "is_concept_scheme token = (literal_axis_facet token = None)"

definition get_scheme_members :: "vocabulary_client \<Rightarrow> string \<Rightarrow> (string \<times> string list) list result" where
  "get_scheme_members vc uri = res_bind (vc_get_vocabulary vc uri) (\<lambda>g. Inr (build_scheme_members g))"

definition get_concept_scheme_members ::
    "vocabulary_client \<Rightarrow> string \<Rightarrow> (string \<times> string list) list result" where
  "get_concept_scheme_members vc uri =
     res_bind (vc_get_vocabulary vc uri) (\<lambda>g. Inr (build_concept_scheme_members g))"

definition make_axis :: "cross_facet_axis \<Rightarrow> cross_facet_axis result" where
  "make_axis a = (if 0 < cfa_size a then Inr a else Inl ValidationError)"

definition resolve_cross_facet_axis ::
    "string \<Rightarrow> string option \<Rightarrow> (string \<times> string list) list option \<Rightarrow> cross_facet_axis result" where
  "resolve_cross_facet_axis token vocabulary_uri scheme_members =
     (case literal_axis_facet token of
        Some f \<Rightarrow> make_axis \<lparr> cfa_token = token, cfa_facet_type = f, cfa_include = None,
                             cfa_size = the (map_of literal_axis_sizes f) \<rparr>
      | None \<Rightarrow>
          (case scheme_members of
             None \<Rightarrow> Inl ParseError
           | Some table \<Rightarrow>
               if \<not> truthy_opt_str vocabulary_uri then Inl ParseError
               else (case map_of table token of
                       Some (m # ms) \<Rightarrow>
                         make_axis \<lparr> cfa_token = token, cfa_facet_type = FACET_CONCEPTS,
                                     cfa_include = Some (m # ms), cfa_size = length (remdups (m # ms)) \<rparr>
                     | _ \<Rightarrow> Inl ParseError)))"

definition resolve_axes ::
    "vocabulary_client \<Rightarrow> string \<times> string \<Rightarrow> string option \<Rightarrow> (cross_facet_axis \<times> cross_facet_axis) result" where
  "resolve_axes vc axes vocabulary_uri =
     res_bind (if truthy_opt_str vocabulary_uri \<and> (is_concept_scheme (fst axes) \<or> is_concept_scheme (snd axes))
               then res_bind (get_scheme_members vc (the vocabulary_uri)) (\<lambda>t. Inr (Some t))
               else Inr None) (\<lambda>scheme_members.
     res_bind (resolve_cross_facet_axis (fst axes) vocabulary_uri scheme_members) (\<lambda>a0.
     res_bind (resolve_cross_facet_axis (snd axes) vocabulary_uri scheme_members) (\<lambda>a1. Inr (a0, a1))))"

text \<open>The buckets a matrix materialises: the sizes, and the products of the sizes so far.\<close>

fun cross_facet_buckets :: "nat \<Rightarrow> cross_facet_axis list \<Rightarrow> nat" where
  "cross_facet_buckets running [] = 0"
| "cross_facet_buckets running (a # as) =
     running * cfa_size a + cross_facet_buckets (running * cfa_size a) as"

definition validate_cross_facet_cell_count :: "cross_facet_axis list \<Rightarrow> nat \<Rightarrow> unit result" where
  "validate_cross_facet_cell_count axes max_cells =
     (if max_cells < cross_facet_buckets 1 axes then Inl ParseError else Inr ())"

section \<open>SearchService: sibling groups\<close>

definition validate_groups_against_max_buckets :: "sibling_group list \<Rightarrow> nat \<Rightarrow> unit result" where
  "validate_groups_against_max_buckets groups max_buckets =
     (if list_ex (\<lambda>g. case sg_siblings g of None \<Rightarrow> False | Some ss \<Rightarrow> max_buckets < length (remdups ss)) groups
      then Inl SiblingGroupingError else Inr ())"

definition universal_sibling_groups :: "string list list \<Rightarrow> sibling_group list result" where
  "universal_sibling_groups selections =
     (if 1 < length selections then Inl SiblingGroupingError
      else Inr (map (\<lambda>s. \<lparr> sg_selected = s, sg_siblings = None \<rparr>) selections))"

text \<open>
  One group per concept filter: every URI known to the vocabulary, all with the same set of scheme
  members, which is the group's sibling set.
\<close>

definition resolve_concept_group ::
    "(string \<times> string list) list \<Rightarrow> concept_filter \<Rightarrow> sibling_group result" where
  "resolve_concept_group members_by_concept uris =
     (if list_ex (\<lambda>u. map_of members_by_concept u = None) uris then Inl SiblingGroupingError
      else (case map (\<lambda>u. the (map_of members_by_concept u)) uris of
              [] \<Rightarrow> Inl SiblingGroupingError
            | ms # rest \<Rightarrow>
                if list_all (\<lambda>ns. set ns = set ms) rest
                then Inr \<lparr> sg_selected = uris, sg_siblings = Some ms \<rparr>
                else Inl SiblingGroupingError))"

fun pairwise_disjoint :: "string list list \<Rightarrow> bool" where
  "pairwise_disjoint [] = True"
| "pairwise_disjoint (a # as) = (list_all (\<lambda>b. list_all (\<lambda>x. x \<notin> set b) a) as \<and> pairwise_disjoint as)"

definition resolve_concept_sibling_groups ::
    "vocabulary_client \<Rightarrow> string \<Rightarrow> concept_filter list \<Rightarrow> sibling_group list result" where
  "resolve_concept_sibling_groups vc vocabulary_uri concept_filters =
     res_bind (get_concept_scheme_members vc vocabulary_uri) (\<lambda>members_by_concept.
     res_bind (res_mapM (resolve_concept_group members_by_concept) concept_filters) (\<lambda>groups.
       if list_ex (\<lambda>g. sg_siblings g = None) groups then Inl PyValueError
       else if pairwise_disjoint (map (\<lambda>g. opt_list (sg_siblings g)) groups) then Inr groups
       else Inl SiblingGroupingError))"

section \<open>SearchService: facets\<close>

record search_settings =
  ss_es_aggregation_max_buckets :: nat
  ss_es_cross_facet_max_cells :: nat

definition facet_groups ::
    "vocabulary_client \<Rightarrow> search_settings \<Rightarrow> search_query \<Rightarrow> facet_type list \<Rightarrow> string option \<Rightarrow>
     (facet_type \<times> sibling_group list) list result" where
  "facet_groups vc cfg q facets vocabulary_uri =
     res_bind
       (if sq_concept_filters q \<noteq> [] \<and> FACET_CONCEPTS \<in> set facets
        then (if \<not> truthy_opt_str vocabulary_uri then Inl SiblingGroupingError
              else res_bind (resolve_concept_sibling_groups vc (the vocabulary_uri) (sq_concept_filters q))
                     (\<lambda>groups. res_bind (validate_groups_against_max_buckets groups
                                           (ss_es_aggregation_max_buckets cfg))
                                 (\<lambda>_. Inr [(FACET_CONCEPTS, groups)])))
        else Inr []) (\<lambda>concepts.
     res_bind
       (if sq_country_filters q \<noteq> [] \<and> FACET_COUNTRIES \<in> set facets
        then res_bind (universal_sibling_groups (sq_country_filters q)) (\<lambda>gs. Inr [(FACET_COUNTRIES, gs)])
        else Inr []) (\<lambda>countries.
     res_bind
       (if sq_region_filters q \<noteq> [] \<and> FACET_COUNTRY_WB_REGIONS \<in> set facets
        then res_bind (universal_sibling_groups (sq_region_filters q))
               (\<lambda>gs. Inr [(FACET_COUNTRY_WB_REGIONS, gs)])
        else Inr []) (\<lambda>regions. Inr (concepts @ countries @ regions))))"

definition aggregate_facets ::
    "es_server \<Rightarrow> vocabulary_client \<Rightarrow> search_settings \<Rightarrow> es_index \<Rightarrow> search_query \<Rightarrow> facet_type list \<Rightarrow>
     string option \<Rightarrow> (string \<times> string) option \<Rightarrow> (facet_type \<times> facet_bucket list) list result" where
  "aggregate_facets srv vc cfg idx q facets vocabulary_uri axes =
     res_bind (facet_groups vc cfg q facets vocabulary_uri) (\<lambda>groups.
     res_bind (case axes of
                 None \<Rightarrow> Inr []
               | Some ax \<Rightarrow> res_bind (resolve_axes vc ax vocabulary_uri) (\<lambda>(a0, a1). Inr [a0, a1])) (\<lambda>map_axes.
       es_aggregate_facets srv idx q facets groups map_axes (ss_es_aggregation_max_buckets cfg)))"

definition aggregate_cross_facet ::
    "es_server \<Rightarrow> vocabulary_client \<Rightarrow> search_settings \<Rightarrow> es_index \<Rightarrow> search_query \<Rightarrow> string \<times> string \<Rightarrow>
     string option \<Rightarrow> cross_facet_result result" where
  "aggregate_cross_facet srv vc cfg idx q axes vocabulary_uri =
     res_bind (resolve_axes vc axes vocabulary_uri) (\<lambda>(a0, a1).
     res_bind (validate_cross_facet_cell_count [a0, a1] (ss_es_cross_facet_max_cells cfg)) (\<lambda>_.
       es_aggregate_cross_facet srv idx q a0 a1))"

end
