(* ===== verification/Search_Facets.thy ===== *)
theory Search_Facets
  imports Search_Service
begin

text \<open>
  The counts of facets and cross facets: what the buckets that the search service returns say about
  the documents of the index. The locale \<open>search_engine\<close> holds what Elasticsearch is relied on for,
  and the lemmas on aggregated responses.
\<close>

section \<open>Lists and names\<close>

lemma res_mapM_ex:
  assumes "\<And>x. x \<in> set xs \<Longrightarrow> \<exists>y. f x = Inr y \<and> R x y"
  obtains ys where "res_mapM f xs = Inr ys" and "list_all2 R xs ys"
proof -
  from assms have "\<exists>ys. res_mapM f xs = Inr ys \<and> list_all2 R xs ys"
  proof (induction xs)
    case (Cons x xs)
    from Cons.prems [of x] obtain y where "f x = Inr y" "R x y" by auto
    moreover from Cons obtain ys where "res_mapM f xs = Inr ys" "list_all2 R xs ys" by auto
    ultimately show ?case by (intro exI [of _ "y # ys"]) simp
  qed simp
  with that show thesis by blast
qed

definition remove_nth :: "nat \<Rightarrow> 'a list \<Rightarrow> 'a list" where
  "remove_nth i xs = take i xs @ drop (Suc i) xs"

lemma enumerate_remove:
  "map snd (filter (\<lambda>(j, _). j \<noteq> n + i) (enumerate n xs)) = remove_nth i xs"
proof (induction xs arbitrary: n i)
  case Nil
  then show ?case by (simp add: remove_nth_def)
next
  case (Cons x xs)
  show ?case
  proof (cases i)
    case 0
    have "filter (\<lambda>(j, _). j \<noteq> n) (enumerate (Suc n) xs) = enumerate (Suc n) xs"
      by (auto simp: filter_id_conv in_set_enumerate_eq)
    with 0 show ?thesis by (simp add: remove_nth_def)
  next
    case (Suc k)
    have "n \<noteq> n + Suc k" by simp
    with Cons.IH [of "Suc n" k] Suc show ?thesis by (simp add: remove_nth_def)
  qed
qed

lemma other_clauses_remove: "other_clauses cs i = remove_nth i cs"
  using enumerate_remove [of 0 i cs] by (simp add: other_clauses_def)

lemma remove_nth_map: "remove_nth i (map f xs) = map f (remove_nth i xs)"
  by (simp add: remove_nth_def take_map drop_map)

lemma group_name_inj: "group_name i = group_name j \<Longrightarrow> i = j"
  unfolding group_name_def by (metis nat_of_digits_str_nat same_append_eq)

lemma map_of_renamed:
  assumes "distinct (map fst xs)" and "(n, a) \<in> set xs"
  shows "map_of (map (\<lambda>(n, a). (n, f a)) xs) n = Some (f a)"
proof -
  have "distinct (map fst (map (\<lambda>(n, a). (n, f a)) xs))"
    using assms(1) by (simp add: comp_def case_prod_beta)
  moreover have "(n, f a) \<in> set (map (\<lambda>(n, a). (n, f a)) xs)" using assms(2) by force
  ultimately show ?thesis by (rule map_of_is_SomeI)
qed

section \<open>Searches with one filter left out\<close>

text \<open>The query a facet without selections counts over.\<close>

definition facet_query :: "search_query \<Rightarrow> es_query list \<Rightarrow> es_query" where
  "facet_query q axis_clauses =
     compose_query (sq_query_string q) default_search_fields (build_filter_clauses q None @ axis_clauses) True"

definition drop_filter :: "facet_type \<Rightarrow> nat \<Rightarrow> search_query \<Rightarrow> search_query" where
  "drop_filter f i q =
     (case f of
        FACET_CONCEPTS \<Rightarrow> q \<lparr> sq_concept_filters := remove_nth i (sq_concept_filters q) \<rparr>
      | FACET_COUNTRIES \<Rightarrow> q \<lparr> sq_country_filters := remove_nth i (sq_country_filters q) \<rparr>
      | FACET_COUNTRY_WB_REGIONS \<Rightarrow> q \<lparr> sq_region_filters := remove_nth i (sq_region_filters q) \<rparr>)"

lemma drop_filter_simps [simp]:
  "sq_query_string (drop_filter f i q) = sq_query_string q"
  "build_filter_clauses (drop_filter f i q) (Some f) = build_filter_clauses q (Some f)"
  "facet_filters (drop_filter f i q) f = remove_nth i (facet_filters q f)"
  by (cases f; simp add: drop_filter_def build_filter_clauses_def facet_filters_def)+

lemma clauses_split:
  "list_all P (build_filter_clauses q None) \<longleftrightarrow>
     list_all P (build_filter_clauses q (Some f)) \<and> list_all P (map (Terms (facet_field f)) (facet_filters q f))"
  by (cases f) (auto simp: build_filter_clauses_def facet_filters_def)

text \<open>The aggregations of a facet with enumerated groups, as names, filters and terms.\<close>

definition unselected_terms :: "string \<Rightarrow> nat \<Rightarrow> sibling_group list \<Rightarrow> terms_params" where
  "unselected_terms f max_buckets groups =
     \<lparr> ta_field = f, ta_size = max_buckets, ta_min_doc_count = 1, ta_include = None,
       ta_exclude = sort (remdups (concat (map (\<lambda>g. opt_list (sg_siblings g)) groups))) \<rparr>"

definition sibling_specs ::
    "string \<Rightarrow> sibling_group list \<Rightarrow> es_query list \<Rightarrow> nat \<Rightarrow> (string \<times> es_query \<times> terms_params) list" where
  "sibling_specs f groups cs max_buckets =
     map (\<lambda>(i, g). (group_name i,
        (if other_clauses cs i = [] then MatchAll else Bool [] (other_clauses cs i)),
        group_terms f max_buckets g)) (enumerate 0 groups) @
     [(''unselected'', Bool [] cs, unselected_terms f max_buckets groups)]"

lemma distinct_sibling_specs: "distinct (map fst (sibling_specs f groups cs max_buckets))"
proof -
  have "map (\<lambda>x. group_name (fst x)) (enumerate 0 groups) = map group_name (map fst (enumerate 0 groups))"
    by (simp only: map_map comp_def)
  then have "map fst (sibling_specs f groups cs max_buckets) = map group_name [0 ..< length groups] @ [''unselected'']"
    by (simp add: sibling_specs_def comp_def case_prod_beta)
  moreover have "''unselected'' \<notin> range group_name" by (auto simp: group_name_def)
  ultimately show ?thesis
    by (auto simp: distinct_map inj_on_def simp del: map_map dest: group_name_inj)
qed

lemma sibling_aggs:
  assumes "list_all (\<lambda>g. sg_siblings g \<noteq> None) groups"
  shows "res_bind (attach_unselected_agg f groups cs n) (\<lambda>a. Inr (attach_per_group_aggs f groups cs n @ [a])) =
    Inr (map (\<lambda>(n, q, p). (n, FilterAgg q [(''inner'', TermsAgg p [])])) (sibling_specs f groups cs n))"
proof -
  have "\<not> list_ex (\<lambda>g. sg_siblings g = None) groups" using assms by (auto simp: list_ex_iff list_all_iff)
  then show ?thesis
    by (simp add: attach_unselected_agg_def sibling_specs_def attach_per_group_aggs_def comp_def
        case_prod_beta unselected_terms_def)
qed

section \<open>What the service relies on\<close>

locale search_engine =
  fixes srv :: es_server
  assumes matches_ok: "es_matches_ok (esv_matches srv)"
    and aggs_ok: "es_aggs_ok srv"
begin

lemmas matches = es_matches_simps [OF matches_ok]

lemma terms_response:
  obtains bs where "buckets_ok p docs bs" and "esv_aggregate srv (TermsAgg p subs) docs =
    TermsResponse (map (\<lambda>(k, c). (k, c,
      map (\<lambda>(n, a). (n, esv_aggregate srv a (with_term (ta_field p) k docs))) subs)) bs)"
  using aggs_ok unfolding es_aggs_ok_def by blast

lemma filter_response:
  "esv_aggregate srv (FilterAgg q subs) docs =
     FilterResponse (length (filter (esv_matches srv q) docs))
       (map (\<lambda>(n, a). (n, esv_aggregate srv a (filter (esv_matches srv q) docs))) subs)"
  using aggs_ok unfolding es_aggs_ok_def Let_def by blast

lemma facet_buckets_flat [simp]: "facet_buckets (map (\<lambda>(k, c). (k, c, g k c)) bs) = bs"
  by (induction bs) (auto simp: facet_buckets_def)

text \<open>Aggregations of the shape \<open>filter > terms\<close>, read back by name.\<close>

lemma parse_filtered_terms:
  assumes "distinct (map fst specs)"
    and "aggs = map (\<lambda>(n, q, p). (n, FilterAgg q [(''inner'', TermsAgg p [])])) specs"
  obtains bss where
    "parse_facet_buckets (map (\<lambda>(n, a). (n, esv_aggregate srv a docs)) aggs) (map fst aggs) = Inr (concat bss)"
    and "list_all2 (\<lambda>x bs. case x of (n, q, p) \<Rightarrow> buckets_ok p (filter (esv_matches srv q) docs) bs) specs bss"
proof -
  let ?rs = "map (\<lambda>(n, a). (n, esv_aggregate srv a docs)) aggs"
  let ?step = "\<lambda>name. res_bind (aggregation name ?rs) (\<lambda>r. res_bind (sub_response ''inner'' r)
      (\<lambda>inner. res_bind (response_buckets inner) (\<lambda>bs. Inr (facet_buckets bs))))"
  have names: "map fst aggs = map fst specs" by (simp add: assms(2) comp_def case_prod_beta)
  let ?R = "\<lambda>x bs. case x of (n, q, p) \<Rightarrow> buckets_ok p (filter (esv_matches srv q) docs) bs"
  have each: "\<exists>bs. ?step (fst x) = Inr bs \<and> ?R x bs" if x: "x \<in> set specs" for x
  proof -
    obtain n q p where xe: "x = (n, q, p)" by (cases x) auto
    let ?docs = "filter (esv_matches srv q) docs"
    from x xe have "(n, FilterAgg q [(''inner'', TermsAgg p [])]) \<in> set aggs"
      by (force simp: assms(2))
    from map_of_renamed [OF _ this] names assms(1)
    have "map_of ?rs n = Some (esv_aggregate srv (FilterAgg q [(''inner'', TermsAgg p [])]) docs)" by simp
    moreover obtain bs where "buckets_ok p ?docs bs"
      and "esv_aggregate srv (TermsAgg p []) ?docs = TermsResponse (map (\<lambda>(k, c). (k, c, [])) bs)"
      by (rule terms_response [of p ?docs "[]"]) auto
    ultimately show ?thesis by (simp add: xe aggregation_def filter_response)
  qed
  obtain bss where "res_mapM (\<lambda>x. ?step (fst x)) specs = Inr bss"
    and ok: "list_all2 ?R specs bss"
    by (rule res_mapM_ex [where R = ?R, OF each])
  moreover have "res_mapM ?step (map fst specs) = res_mapM (\<lambda>x. ?step (fst x)) specs"
    by (induction specs) simp_all
  ultimately have "parse_facet_buckets ?rs (map fst aggs) = Inr (concat bss)"
    by (simp add: parse_facet_buckets_def names)
  from that [OF this ok] show thesis .
qed

text \<open>A group sees the documents of the search with its own filter left out.\<close>

lemma facet_base_docs:
  assumes "base = compose_query (sq_query_string q) default_search_fields
      (build_filter_clauses q (Some f) @ axis_clauses) True"
    and "cs = map (Terms (facet_field f)) (facet_filters q f)"
  shows "filter (esv_matches srv (Bool [] cs)) (matching srv idx base) = matching srv idx (facet_query q axis_clauses)"
    and "filter (esv_matches srv (if other_clauses cs i = [] then MatchAll else Bool [] (other_clauses cs i)))
           (matching srv idx base) = matching srv idx (facet_query (drop_filter f i q) axis_clauses)"
proof -
  have base: "esv_matches srv base d \<longleftrightarrow> esv_matches srv (QueryString (sq_query_string q) default_search_fields) d \<and>
      list_all (\<lambda>c. esv_matches srv c d) (build_filter_clauses q (Some f)) \<and>
      list_all (\<lambda>c. esv_matches srv c d) axis_clauses" for d
    by (simp add: assms(1) composed_query [OF matches_ok])
  have full: "esv_matches srv (facet_query q' axis_clauses) d \<longleftrightarrow>
      esv_matches srv (QueryString (sq_query_string q') default_search_fields) d \<and>
      list_all (\<lambda>c. esv_matches srv c d) (build_filter_clauses q' (Some f)) \<and>
      list_all (\<lambda>c. esv_matches srv c d) (map (Terms (facet_field f)) (facet_filters q' f)) \<and>
      list_all (\<lambda>c. esv_matches srv c d) axis_clauses" for q' d
    by (simp add: facet_query_def composed_query [OF matches_ok] clauses_split [of _ q' f])
  show "filter (esv_matches srv (Bool [] cs)) (matching srv idx base) = matching srv idx (facet_query q axis_clauses)"
    unfolding matching_def filter_filter by (rule filter_cong) (auto simp: base full matches assms(2))
  have others: "esv_matches srv (if other_clauses cs i = [] then MatchAll else Bool [] (other_clauses cs i)) d \<longleftrightarrow>
      list_all (\<lambda>c. esv_matches srv c d) (map (Terms (facet_field f)) (remove_nth i (facet_filters q f)))" for d
    by (auto simp: matches other_clauses_remove assms(2) remove_nth_map)
  show "filter (esv_matches srv (if other_clauses cs i = [] then MatchAll else Bool [] (other_clauses cs i)))
           (matching srv idx base) = matching srv idx (facet_query (drop_filter f i q) axis_clauses)"
    unfolding matching_def filter_filter by (rule filter_cong) (auto simp: base full others)
qed

lemma sibling_aware_buckets:
  assumes groups: "map sg_selected groups = facet_filters q f"
    and enum: "list_all (\<lambda>g. sg_siblings g \<noteq> None) groups"
    and run: "aggregate_facet_sibling_aware srv idx q f groups axis_clauses max_buckets = Inr buckets"
  obtains bss unselected where "buckets = concat bss @ unselected" and "length bss = length groups"
    and "\<forall>i < length groups. buckets_ok (group_terms (facet_field f) max_buckets (groups ! i))
           (matching srv idx (facet_query (drop_filter f i q) axis_clauses)) (bss ! i)"
    and "buckets_ok (unselected_terms (facet_field f) max_buckets groups)
           (matching srv idx (facet_query q axis_clauses)) unselected"
proof -
  let ?f = "facet_field f"
  define cs where "cs = map (group_clause ?f) groups"
  have cs: "cs = map (Terms ?f) (facet_filters q f)"
    by (simp add: cs_def groups [symmetric] group_clause_def comp_def)
  define base where "base = compose_query (sq_query_string q) default_search_fields
      (build_filter_clauses q (Some f) @ axis_clauses) True"
  define specs where "specs = sibling_specs ?f groups cs max_buckets"
  define aggs where "aggs = map (\<lambda>(n, q, p). (n, FilterAgg q [(''inner'', TermsAgg p [])])) specs"
  have "parse_facet_buckets (map (\<lambda>(n, a). (n, esv_aggregate srv a (matching srv idx base))) aggs)
      (map fst aggs) = Inr buckets"
    using run enum sibling_aggs [OF enum, of ?f cs max_buckets, folded specs_def, folded aggs_def]
    by (auto simp: aggregate_facet_sibling_aware_def Let_def execute_aggregations_def
        cs_def [symmetric] base_def [symmetric] split: if_splits)
  moreover obtain bss where
    "parse_facet_buckets (map (\<lambda>(n, a). (n, esv_aggregate srv a (matching srv idx base))) aggs) (map fst aggs)
       = Inr (concat bss)"
    and ok: "list_all2 (\<lambda>x bs. case x of (n, q, p) \<Rightarrow>
       buckets_ok p (filter (esv_matches srv q) (matching srv idx base)) bs) specs bss"
    by (rule parse_filtered_terms [OF distinct_sibling_specs [of ?f groups cs max_buckets, folded specs_def] aggs_def])
  ultimately have b: "buckets = concat bss" by simp
  have len: "length bss = Suc (length groups)" using list_all2_lengthD [OF ok] by (simp add: specs_def sibling_specs_def)
  then obtain front u where bss: "bss = front @ [u]" "length front = length groups"
    by (metis length_append_singleton rev_exhaust list.size(3) nat.inject nat.distinct(1))
  have nth: "case specs ! i of (n, q, p) \<Rightarrow> buckets_ok p (filter (esv_matches srv q) (matching srv idx base)) (bss ! i)"
    if "i \<le> length groups" for i
    using list_all2_nthD2 [OF ok, of i] len that by simp
  show thesis
  proof (rule that [of front u])
    show "\<forall>i < length groups. buckets_ok (group_terms ?f max_buckets (groups ! i))
        (matching srv idx (facet_query (drop_filter f i q) axis_clauses)) (front ! i)"
    proof (intro allI impI)
      fix i assume "i < length groups"
      with nth [of i] bss(2) show "buckets_ok (group_terms ?f max_buckets (groups ! i))
          (matching srv idx (facet_query (drop_filter f i q) axis_clauses)) (front ! i)"
        by (simp add: specs_def sibling_specs_def nth_append nth_enumerate_eq
            facet_base_docs(2) [OF base_def cs] bss)
    qed
    show "buckets_ok (unselected_terms ?f max_buckets groups) (matching srv idx (facet_query q axis_clauses)) u"
      using nth [of "length groups"] bss(2)
      by (simp add: specs_def sibling_specs_def nth_append facet_base_docs(1) [OF base_def cs] bss)
  qed (simp_all add: b bss)
qed

end

section \<open>Groups of the service\<close>

definition siblings_of :: "sibling_group \<Rightarrow> string set" where
  "siblings_of g = set (opt_list (sg_siblings g))"

lemma resolve_concept_group_Inr:
  "resolve_concept_group table uris = Inr g \<Longrightarrow> sg_selected g = uris \<and> sg_siblings g \<noteq> None"
  by (auto simp: resolve_concept_group_def split: if_splits list.splits)

lemma pairwise_disjoint_nth:
  "pairwise_disjoint xs \<Longrightarrow> i < length xs \<Longrightarrow> j < length xs \<Longrightarrow> i \<noteq> j \<Longrightarrow> set (xs ! i) \<inter> set (xs ! j) = {}"
proof (induction xs arbitrary: i j)
  case (Cons a xs)
  then show ?case
    by (cases i; cases j) (fastforce simp: list_all_iff)+
qed simp

lemma resolve_concept_sibling_groups_Inr:
  assumes "resolve_concept_sibling_groups vc uri filters = Inr groups"
  shows "map sg_selected groups = filters" and "list_all (\<lambda>g. sg_siblings g \<noteq> None) groups"
    and "\<And>i j. i < length groups \<Longrightarrow> j < length groups \<Longrightarrow> i \<noteq> j \<Longrightarrow>
           siblings_of (groups ! i) \<inter> siblings_of (groups ! j) = {}"
proof -
  from assms obtain table where m: "res_mapM (resolve_concept_group table) filters = Inr groups"
    and d: "pairwise_disjoint (map (\<lambda>g. opt_list (sg_siblings g)) groups)"
    by (auto simp: resolve_concept_sibling_groups_def result_simps split: if_splits)
  note len = res_mapM_Inr_length [OF m]
  have each: "i < length filters \<Longrightarrow> sg_selected (groups ! i) = filters ! i \<and> sg_siblings (groups ! i) \<noteq> None" for i
    using resolve_concept_group_Inr [OF res_mapM_Inr_nth [OF m]] by blast
  show "map sg_selected groups = filters" by (rule nth_equalityI) (auto simp: len each)
  show "list_all (\<lambda>g. sg_siblings g \<noteq> None) groups" using each len by (auto simp: list_all_length)
  show "\<And>i j. i < length groups \<Longrightarrow> j < length groups \<Longrightarrow> i \<noteq> j \<Longrightarrow>
           siblings_of (groups ! i) \<inter> siblings_of (groups ! j) = {}"
    using pairwise_disjoint_nth [OF d] by (simp add: siblings_of_def)
qed

text \<open>Buckets that belong to disjoint sets of keys, put together.\<close>

lemma concat_disjoint_keys:
  assumes "\<And>i. i < length bss \<Longrightarrow> distinct (map fst (bss ! i)) \<and> fst ` set (bss ! i) \<subseteq> K i"
    and "\<And>i j. i < length bss \<Longrightarrow> j < length bss \<Longrightarrow> i \<noteq> j \<Longrightarrow> K i \<inter> K j = {}"
  shows "distinct (map fst (concat bss))"
  using assms
proof (induction bss arbitrary: K)
  case (Cons bs bss)
  have IH: "distinct (map fst (concat bss))"
    by (rule Cons.IH [of "\<lambda>i. K (Suc i)"]) (use Cons.prems(1) [of "Suc i" for i] Cons.prems(2) [of "Suc i" "Suc j" for i j] in auto)
  have "fst ` set bs \<inter> fst ` set cs = {}" if "cs \<in> set bss" for cs
  proof -
    from that obtain j where "j < length bss" "cs = bss ! j" by (auto simp: in_set_conv_nth)
    with Cons.prems(1) [of 0] Cons.prems(1) [of "Suc j"] Cons.prems(2) [of 0 "Suc j"] show ?thesis by fastforce
  qed
  then have "set (map fst bs) \<inter> set (map fst (concat bss)) = {}" by fastforce
  with IH Cons.prems(1) [of 0] show ?case by simp
qed simp

text \<open>The number of documents a facet query finds with a value.\<close>

definition facet_count :: "es_server \<Rightarrow> es_index \<Rightarrow> search_query \<Rightarrow> es_query list \<Rightarrow> facet_type \<Rightarrow> string \<Rightarrow> nat" where
  "facet_count srv idx q axis_clauses f v =
     length (with_term (facet_field f) v (matching srv idx (facet_query q axis_clauses)))"

lemma with_term_pos_iff: "0 < length (with_term f v docs) \<longleftrightarrow> v \<in> (\<Union>d \<in> set docs. set (doc_keywords d f))"
  by (auto simp: with_term_def filter_empty_conv)

lemma group_bucket_exact:
  assumes ok: "buckets_ok (group_terms f n g) docs bs" and ss: "sg_siblings g = Some ss"
  shows "distinct (map fst bs)" and "fst ` set bs \<subseteq> set ss"
    and "v \<in> set ss \<Longrightarrow>
      (case map_of bs v of None \<Rightarrow> length (with_term f v docs) = 0 | Some c \<Rightarrow> c = length (with_term f v docs))"
proof -
  have params: "ta_field (group_terms f n g) = f" "ta_min_doc_count (group_terms f n g) = 0"
    "term_allowed (group_terms f n g) k \<longleftrightarrow> k \<in> set ss" "ta_size (group_terms f n g) = card (set ss)" for k
    by (simp_all add: group_terms_def ss term_allowed_def length_remdups_card_conv)
  show "distinct (map fst bs)" "fst ` set bs \<subseteq> set ss" using ok by (auto simp: buckets_ok_def params)
  have "terms_present (group_terms f n g) docs \<subseteq> set ss" by (auto simp: terms_present_def params)
  then have "card (terms_present (group_terms f n g) docs) \<le> ta_size (group_terms f n g)"
    by (simp add: params card_mono)
  with ok have all: "\<forall>k \<in> terms_present (group_terms f n g) docs. k \<in> fst ` set bs"
    by (simp add: buckets_ok_def params)
  show "case map_of bs v of None \<Rightarrow> length (with_term f v docs) = 0 | Some c \<Rightarrow> c = length (with_term f v docs)"
    if v: "v \<in> set ss"
  proof (cases "map_of bs v")
    case None
    then have "v \<notin> terms_present (group_terms f n g) docs" using all by (auto simp: map_of_eq_None_iff)
    with v have "\<not> 0 < length (with_term f v docs)"
      unfolding with_term_pos_iff by (simp add: terms_present_def params)
    with None show ?thesis by simp
  next
    case (Some c)
    with ok show ?thesis by (auto simp: buckets_ok_def params dest!: map_of_SomeD)
  qed
qed

section \<open>The documented engine\<close>

definition documented_buckets :: "terms_params \<Rightarrow> reference_document list \<Rightarrow> (string \<times> nat) list" where
  "documented_buckets p docs =
     filter (\<lambda>(k, n). ta_min_doc_count p \<le> n)
       (map (\<lambda>k. (k, length (with_term (ta_field p) k docs)))
         (take (ta_size p) (remdups (filter (term_allowed p) (concat (map (\<lambda>d. doc_keywords d (ta_field p)) docs))))))"

lemma documented_buckets_ok: "buckets_ok p docs (documented_buckets p docs)"
proof -
  let ?ks = "remdups (filter (term_allowed p) (concat (map (\<lambda>d. doc_keywords d (ta_field p)) docs)))"
  have keys: "set ?ks = terms_present p docs" by (auto simp: terms_present_def)
  have "distinct (map fst (map (\<lambda>k. (k, length (with_term (ta_field p) k docs))) (take (ta_size p) ?ks)))"
    by (simp add: comp_def distinct_take)
  then have "distinct (map fst (documented_buckets p docs))"
    unfolding documented_buckets_def by (rule distinct_map_filter)
  moreover have "\<forall>(k, n) \<in> set (documented_buckets p docs). term_allowed p k \<and>
      n = length (with_term (ta_field p) k docs) \<and> ta_min_doc_count p \<le> n"
    by (auto simp: documented_buckets_def dest: in_set_takeD)
  moreover have "k \<in> fst ` set (documented_buckets p docs)"
    if "card (terms_present p docs) \<le> ta_size p" "k \<in> terms_present p docs"
      "ta_min_doc_count p \<le> length (with_term (ta_field p) k docs)" for k
  proof -
    have "length ?ks \<le> ta_size p" using that(1) unfolding keys [symmetric] by (simp add: length_remdups_card_conv)
    then have "k \<in> set (take (ta_size p) ?ks)" using that(2) keys by simp
    with that(3) show ?thesis by (force simp: documented_buckets_def)
  qed
  ultimately show ?thesis unfolding buckets_ok_def by blast
qed

fun documented_aggregate :: "es_matcher \<Rightarrow> es_agg \<Rightarrow> reference_document list \<Rightarrow> agg_response" where
  "documented_aggregate m (FilterAgg q subs) docs =
     FilterResponse (length (filter (m q) docs))
       (map (\<lambda>(n, a). (n, documented_aggregate m a (filter (m q) docs))) subs)"
| "documented_aggregate m (TermsAgg p subs) docs =
     TermsResponse (map (\<lambda>(k, c). (k, c,
         map (\<lambda>(n, a). (n, documented_aggregate m a (with_term (ta_field p) k docs))) subs))
       (documented_buckets p docs))"

definition documented_server ::
    "(string \<Rightarrow> string list \<Rightarrow> reference_document \<Rightarrow> bool) \<Rightarrow> (es_query \<Rightarrow> bool) \<Rightarrow>
     (es_search \<Rightarrow> es_index \<Rightarrow> (es_hit list \<times> es_total option) option) \<Rightarrow> es_server" where
  "documented_server lucene refuses hits =
     \<lparr> esv_matches = documented_matches lucene, esv_aggregate = documented_aggregate (documented_matches lucene),
       esv_refuses = refuses, esv_search = hits \<rparr>"

interpretation documented: search_engine "documented_server lucene refuses hits" for lucene refuses hits
proof
  show "es_matches_ok (esv_matches (documented_server lucene refuses hits))"
    by (simp add: documented_server_def documented_matches_ok)
  show "es_aggs_ok (documented_server lucene refuses hits)"
    unfolding es_aggs_ok_def
  proof (intro conjI allI)
    fix p subs docs
    show "\<exists>bs. buckets_ok p docs bs \<and> esv_aggregate (documented_server lucene refuses hits) (TermsAgg p subs) docs =
        TermsResponse (map (\<lambda>(k, c). (k, c, map (\<lambda>(n, a). (n, esv_aggregate (documented_server lucene refuses hits)
          a (with_term (ta_field p) k docs))) subs)) bs)"
      by (rule exI [of _ "documented_buckets p docs"]) (simp add: documented_server_def documented_buckets_ok)
  qed (simp add: documented_server_def Let_def)
qed

lemma facets_with_concept_groups:
  assumes "sq_concept_filters q \<noteq> []"
    and "aggregate_facets srv vc cfg idx q [FACET_CONCEPTS] (Some uri) None = Inr res"
  obtains groups buckets where "resolve_concept_sibling_groups vc uri (sq_concept_filters q) = Inr groups"
    and "res = [(FACET_CONCEPTS, buckets)]"
    and "aggregate_facet_sibling_aware srv idx q FACET_CONCEPTS groups [] (ss_es_aggregation_max_buckets cfg) = Inr buckets"
proof -
  from assms obtain groups where g: "resolve_concept_sibling_groups vc uri (sq_concept_filters q) = Inr groups"
    and es: "es_aggregate_facets srv idx q [FACET_CONCEPTS] [(FACET_CONCEPTS, groups)] []
        (ss_es_aggregation_max_buckets cfg) = Inr res"
    by (auto simp: aggregate_facets_def facet_groups_def result_simps split: if_splits)
  from resolve_concept_sibling_groups_Inr(1) [OF g] assms(1) have "groups \<noteq> []" by auto
  with es obtain bs where
    "aggregate_facet_sibling_aware srv idx q FACET_CONCEPTS groups [] (ss_es_aggregation_max_buckets cfg) = Inr bs"
    and "res = [(FACET_CONCEPTS, bs)]"
    by (auto simp: es_aggregate_facets_def Let_def result_simps)
  with that g show thesis by blast
qed

text \<open>What the answer for a value says, from the buckets of the groups and the remaining ones.\<close>

lemma sibling_bucket_of:
  assumes keys: "\<And>i. i < length bss \<Longrightarrow> fst ` set (bss ! i) \<subseteq> K i" and "fst ` set u \<inter> K i = {}"
    and "\<And>i j. i < length bss \<Longrightarrow> j < length bss \<Longrightarrow> i \<noteq> j \<Longrightarrow> K i \<inter> K j = {}"
    and "distinct (map fst (concat bss @ u))" and "i < length bss" and "v \<in> K i"
  shows "map_of (concat bss @ u) v = map_of (bss ! i) v"
proof (cases "map_of (bss ! i) v")
  case None
  have "v \<notin> fst ` set (bss ! j)" if "j < length bss" for j
    using None keys [OF that] assms(3) [OF that assms(5)] assms(6) by (cases "j = i") (auto simp: map_of_eq_None_iff)
  then have "v \<notin> fst ` set cs" if "cs \<in> set bss" for cs using that by (metis in_set_conv_nth)
  moreover have "v \<notin> fst ` set u" using assms(2,6) by blast
  ultimately have "v \<notin> fst ` set (concat bss @ u)" by auto
  then have "map_of (concat bss @ u) v = None" by (simp only: map_of_eq_None_iff) simp
  with None show ?thesis by simp
next
  case (Some n)
  then have "(v, n) \<in> set (concat bss @ u)" using assms(5) by (auto dest!: map_of_SomeD intro: nth_mem)
  with assms(4) Some show ?thesis by (metis map_of_is_SomeI)
qed

text \<open>The answer for a facet with enumerated, disjoint groups, split by group.\<close>

lemma sibling_answer:
  assumes "search_engine srv" and "map sg_selected groups = facet_filters q f"
    and enum: "list_all (\<lambda>g. sg_siblings g \<noteq> None) groups"
    and dis: "\<And>i j. i < length groups \<Longrightarrow> j < length groups \<Longrightarrow> i \<noteq> j \<Longrightarrow>
          siblings_of (groups ! i) \<inter> siblings_of (groups ! j) = {}"
    and "aggregate_facet_sibling_aware srv idx q f groups axis_clauses n = Inr buckets"
  shows "distinct (map fst buckets)"
    and "i < length groups \<Longrightarrow> v \<in> siblings_of (groups ! i) \<Longrightarrow>
      (case map_of buckets v of
         None \<Rightarrow> facet_count srv idx (drop_filter f i q) axis_clauses f v = 0
       | Some c \<Rightarrow> c = facet_count srv idx (drop_filter f i q) axis_clauses f v)"
    and "\<exists>u. buckets_ok (unselected_terms (facet_field f) n groups)
           (matching srv idx (facet_query q axis_clauses)) u \<and>
         (\<forall>v. (\<forall>g \<in> set groups. v \<notin> siblings_of g) \<longrightarrow> map_of buckets v = map_of u v)"
proof -
  let ?f = "facet_field f"
  obtain bss u where b: "buckets = concat bss @ u" "length bss = length groups"
    and ok: "\<forall>i < length groups. buckets_ok (group_terms ?f n (groups ! i))
        (matching srv idx (facet_query (drop_filter f i q) axis_clauses)) (bss ! i)"
    and uok: "buckets_ok (unselected_terms ?f n groups) (matching srv idx (facet_query q axis_clauses)) u"
    by (rule search_engine.sibling_aware_buckets [OF assms(1,2,3,5)])
  have sib: "i < length groups \<Longrightarrow> \<exists>ss. sg_siblings (groups ! i) = Some ss \<and> siblings_of (groups ! i) = set ss" for i
    using enum by (auto simp: list_all_length siblings_of_def opt_list_def)
  have keys: "i < length bss \<Longrightarrow> distinct (map fst (bss ! i)) \<and> fst ` set (bss ! i) \<subseteq> siblings_of (groups ! i)" for i
    using group_bucket_exact(1,2) [OF ok [rule_format, of i]] sib [of i] b(2) by auto
  have ukeys: "distinct (map fst u)" "g \<in> set groups \<Longrightarrow> fst ` set u \<inter> siblings_of g = {}" for g
    using uok by (auto simp: buckets_ok_def unselected_terms_def term_allowed_def siblings_of_def)
  have dis': "i < length bss \<Longrightarrow> j < length bss \<Longrightarrow> i \<noteq> j \<Longrightarrow> siblings_of (groups ! i) \<inter> siblings_of (groups ! j) = {}" for i j
    using dis b(2) by simp
  have out: "cs \<in> set bss \<Longrightarrow> \<exists>g \<in> set groups. fst ` set cs \<subseteq> siblings_of g" for cs
    using keys b(2) by (metis in_set_conv_nth nth_mem)
  have "distinct (map fst (concat bss))" by (rule concat_disjoint_keys [OF keys dis'])
  moreover have "set (map fst (concat bss)) \<inter> set (map fst u) = {}" using out ukeys(2) by fastforce
  ultimately show dist: "distinct (map fst buckets)" using ukeys(1) by (simp add: b)
  show "case map_of buckets v of
         None \<Rightarrow> facet_count srv idx (drop_filter f i q) axis_clauses f v = 0
       | Some c \<Rightarrow> c = facet_count srv idx (drop_filter f i q) axis_clauses f v"
    if i: "i < length groups" and v: "v \<in> siblings_of (groups ! i)"
  proof -
    have "map_of buckets v = map_of (bss ! i) v"
      unfolding b(1) using keys dis' dist v i b(2) ukeys(2)
      by (intro sibling_bucket_of [where K = "\<lambda>i. siblings_of (groups ! i)"]) (auto simp: b(1))
    moreover from sib [OF i] v obtain ss where "sg_siblings (groups ! i) = Some ss" "v \<in> set ss" by auto
    ultimately show ?thesis
      using group_bucket_exact(3) [OF ok [rule_format, OF i]] unfolding facet_count_def by metis
  qed
  have "map_of buckets v = map_of u v" if "\<forall>g \<in> set groups. v \<notin> siblings_of g" for v
  proof -
    have "v \<notin> fst ` set (concat bss)" using out that by fastforce
    then have "map_of (concat bss) v = None" by (simp only: map_of_eq_None_iff) simp
    then show ?thesis by (simp add: b(1) map_add_def)
  qed
  with uok show "\<exists>u. buckets_ok (unselected_terms ?f n groups) (matching srv idx (facet_query q axis_clauses)) u \<and>
         (\<forall>v. (\<forall>g \<in> set groups. v \<notin> siblings_of g) \<longrightarrow> map_of buckets v = map_of u v)"
    by blast
qed

text \<open>Buckets of the values outside every group.\<close>

lemma unselected_bucket:
  assumes ok: "buckets_ok (unselected_terms (facet_field f) n groups) (matching srv idx (facet_query q cs)) u"
    and out: "\<forall>g \<in> set groups. v \<notin> siblings_of g"
  shows "case map_of u v of
      Some c \<Rightarrow> c = facet_count srv idx q cs f v \<and> 0 < c
    | None \<Rightarrow> card {v. 0 < facet_count srv idx q cs f v} \<le> n \<longrightarrow> facet_count srv idx q cs f v = 0"
proof (cases "map_of u v")
  case None
  let ?p = "unselected_terms (facet_field f) n groups" and ?docs = "matching srv idx (facet_query q cs)"
  have pos: "0 < facet_count srv idx q cs f w \<longleftrightarrow> w \<in> (\<Union>d \<in> set ?docs. set (doc_keywords d (facet_field f)))" for w
    unfolding facet_count_def by (rule with_term_pos_iff)
  have params: "ta_field ?p = facet_field f" "ta_size ?p = n" "ta_min_doc_count ?p = 1"
    by (simp_all add: unselected_terms_def)
  have "facet_count srv idx q cs f v = 0" if c: "card {v. 0 < facet_count srv idx q cs f v} \<le> n"
  proof (rule ccontr)
    assume "facet_count srv idx q cs f v \<noteq> 0"
    then have v: "0 < facet_count srv idx q cs f v" by simp
    have "terms_present ?p ?docs \<subseteq> {v. 0 < facet_count srv idx q cs f v}"
      by (auto simp: terms_present_def pos params)
    moreover have "finite {v. 0 < facet_count srv idx q cs f v}" by (simp add: pos)
    ultimately have "card (terms_present ?p ?docs) \<le> n" using c by (meson card_mono le_trans)
    moreover have "v \<in> terms_present ?p ?docs"
      using v out by (auto simp: pos terms_present_def params term_allowed_def unselected_terms_def siblings_of_def)
    moreover have "1 \<le> length (with_term (facet_field f) v ?docs)"
      using v unfolding facet_count_def by linarith
    ultimately have "v \<in> fst ` set u" using ok by (simp add: buckets_ok_def params)
    with None show False by (simp add: map_of_eq_None_iff)
  qed
  with None show ?thesis by simp
next
  case (Some c)
  with ok show ?thesis
    by (auto simp: buckets_ok_def facet_count_def unselected_terms_def dest!: map_of_SomeD)
qed

section \<open>Properties\<close>


definition sample_server :: es_server where
  "sample_server = documented_server title_lucene (\<lambda>_. False) (\<lambda>_ _. None)"

definition sample_client :: vocabulary_client where
  "sample_client = offline_vocabulary
     \<lparr> vc_get_vocabulary := (\<lambda>_. Inr [(URIRef ''u1'', skos ''inScheme'', URIRef ''s''),
         (URIRef ''u2'', skos ''inScheme'', URIRef ''s''), (URIRef ''w'', skos ''inScheme'', URIRef ''t'')]) \<rparr>"

definition sample_index :: es_index where
  "sample_index = [(1, document_from_domain sample_projection)]"

definition sample_settings :: search_settings where
  "sample_settings = \<lparr> ss_es_aggregation_max_buckets = 10, ss_es_cross_facet_max_cells = 1000 \<rparr>"

lemma sample_server_ok: "es_matches_ok (esv_matches sample_server)" "es_aggs_ok sample_server"
  unfolding sample_server_def by (rule documented.matches_ok, rule documented.aggs_ok)


end
