(* ===== verification/Search_Cross_Facets.thy ===== *)
theory Search_Cross_Facets
  imports Search_Facets
begin

text \<open>
  The matrix of a cross facet: the cells the service reports are the numbers of references that
  carry both values, under the limit on materialised buckets.
\<close>

definition cell_key :: "cross_facet_cell \<Rightarrow> int \<times> string \<times> string" where
  "cell_key c = (- int (cell_count c), fst (cell_axes c), snd (cell_axes c))"

definition cells_of :: "(string \<times> nat) list \<Rightarrow> (string \<Rightarrow> (string \<times> nat) list) \<Rightarrow> cross_facet_cell list" where
  "cells_of bs B =
     concat (map (\<lambda>(k0, _). map (\<lambda>(k1, n). \<lparr> cell_axes = (k0, k1), cell_count = n \<rparr>) (B k0)) bs)"

text \<open>Reading the nested buckets, when every inner response is there.\<close>

lemma parse_cells:
  assumes "r = FilterResponse n [(''axis_0'', TermsResponse (map (\<lambda>(k, c). (k, c, [(''axis_1'', T k)])) bs))]"
    and "\<And>k. T k = TermsResponse (map (\<lambda>(k, c). (k, c, [])) (B k))"
  shows "parse_cross_facet_cells r = Inr (sort_key cell_key (cells_of bs B))"
proof -
  let ?row = "\<lambda>(k0, c :: nat, subs). res_bind (aggregation ''axis_1'' subs) (\<lambda>r. res_bind (response_buckets r)
      (\<lambda>inner. Inr (map (\<lambda>(k1, n, _). \<lparr> cell_axes = (k0, k1), cell_count = n \<rparr>) inner)))"
  have "res_mapM ?row (map (\<lambda>(k, c). (k, c, [(''axis_1'', T k)])) bs) =
      Inr (map (\<lambda>(k0, _). map (\<lambda>(k1, n). \<lparr> cell_axes = (k0, k1), cell_count = n \<rparr>) (B k0)) bs)"
    by (induction bs) (auto simp: aggregation_def assms(2) comp_def case_prod_beta)
  then show ?thesis
    by (simp add: parse_cross_facet_cells_def assms(1) cells_of_def cell_key_def [abs_def])
qed

context search_engine
begin

lemma terms_function:
  obtains B where "\<forall>docs. buckets_ok p docs (B docs)"
    and "\<forall>docs. esv_aggregate srv (TermsAgg p []) docs = TermsResponse (map (\<lambda>(k, c). (k, c, [])) (B docs))"
proof -
  have "\<forall>docs. \<exists>bs. buckets_ok p docs bs \<and>
      esv_aggregate srv (TermsAgg p []) docs = TermsResponse (map (\<lambda>(k, c). (k, c, [])) bs)"
  proof
    fix docs
    obtain bs where "buckets_ok p docs bs"
      "esv_aggregate srv (TermsAgg p []) docs = TermsResponse (map (\<lambda>(k, c). (k, c, [])) bs)"
      by (rule terms_response [of p docs "[]"]) auto
    then show "\<exists>bs. buckets_ok p docs bs \<and>
      esv_aggregate srv (TermsAgg p []) docs = TermsResponse (map (\<lambda>(k, c). (k, c, [])) bs)" by blast
  qed
  then obtain B where "\<forall>docs. buckets_ok p docs (B docs) \<and>
      esv_aggregate srv (TermsAgg p []) docs = TermsResponse (map (\<lambda>(k, c). (k, c, [])) (B docs))"
    by metis
  with that show thesis by blast
qed

lemma cross_response:
  assumes "es_aggregate_cross_facet srv idx q a0 a1 = Inr r"
  defines "docs \<equiv> matching srv idx (reference_query q True)"
  defines "in_map \<equiv> filter (\<lambda>d. esv_matches srv (axis_presence_clause a0) d \<and>
      esv_matches srv (axis_presence_clause a1) d) docs"
  obtains bs B where "buckets_ok (facet_agg_params a0) in_map bs"
    and "\<forall>k. buckets_ok (facet_agg_params a1) (with_term (facet_field (cfa_facet_type a0)) k in_map) (B k)"
    and "cfr_cells r = sort_key cell_key (cells_of bs B)"
    and "cfr_search_total r = length docs" and "cfr_mapped_total r = length in_map"
proof -
  let ?f0 = "facet_field (cfa_facet_type a0)"
  let ?clause = "Bool [] [axis_presence_clause a0, axis_presence_clause a1]"
  let ?outer = "TermsAgg (facet_agg_params a0) [(''axis_1'', TermsAgg (facet_agg_params a1) [])]"
  have docs: "filter (esv_matches srv ?clause) docs = in_map"
    unfolding in_map_def by (rule filter_cong) (simp_all add: matches)
  obtain B where B: "\<forall>docs. buckets_ok (facet_agg_params a1) docs (B docs)"
    "\<forall>docs. esv_aggregate srv (TermsAgg (facet_agg_params a1) []) docs = TermsResponse (map (\<lambda>(k, c). (k, c, [])) (B docs))"
    by (rule terms_function)
  obtain bs where bs: "buckets_ok (facet_agg_params a0) in_map bs"
    and outer: "esv_aggregate srv ?outer in_map = TermsResponse (map (\<lambda>(k, c). (k, c,
      [(''axis_1'', esv_aggregate srv (TermsAgg (facet_agg_params a1) []) (with_term ?f0 k in_map))])) bs)"
    by (rule terms_response [of "facet_agg_params a0" in_map "[(''axis_1'', TermsAgg (facet_agg_params a1) [])]"])
      (simp add: facet_agg_params_def)
  let ?r = "esv_aggregate srv (FilterAgg ?clause [(''axis_0'', ?outer)]) docs"
  have resp: "?r = FilterResponse (length in_map) [(''axis_0'', TermsResponse (map (\<lambda>(k, c). (k, c,
      [(''axis_1'', esv_aggregate srv (TermsAgg (facet_agg_params a1) []) (with_term ?f0 k in_map))])) bs))]"
    by (simp add: filter_response docs outer)
  have "parse_cross_facet_cells ?r = Inr (sort_key cell_key (cells_of bs (\<lambda>k. B (with_term ?f0 k in_map))))"
    by (rule parse_cells [OF resp]) (simp add: B(2))
  with assms(1) resp have "cfr_cells r = sort_key cell_key (cells_of bs (\<lambda>k. B (with_term ?f0 k in_map)))"
    "cfr_search_total r = length docs" "cfr_mapped_total r = length in_map"
    by (auto simp: es_aggregate_cross_facet_def execute_aggregations_def aggregation_def docs_def [symmetric]
        result_simps split: if_splits)
  with that [OF bs, of "\<lambda>k. B (with_term ?f0 k in_map)"] B(1) show thesis by simp
qed

end

section \<open>Counts\<close>

definition axis_allows :: "cross_facet_axis \<Rightarrow> string \<Rightarrow> bool" where
  "axis_allows a k = (case axis_include a of None \<Rightarrow> True | Some ks \<Rightarrow> k \<in> set ks)"

definition axis_values :: "cross_facet_axis \<Rightarrow> reference_document \<Rightarrow> string list" where
  "axis_values a d = filter (axis_allows a) (doc_keywords d (facet_field (cfa_facet_type a)))"

definition cross_count :: "es_server \<Rightarrow> es_index \<Rightarrow> search_query \<Rightarrow> cross_facet_axis \<Rightarrow> cross_facet_axis \<Rightarrow>
    string \<Rightarrow> string \<Rightarrow> nat" where
  "cross_count srv idx q a0 a1 k0 k1 =
     length (filter (\<lambda>d. k0 \<in> set (axis_values a0 d) \<and> k1 \<in> set (axis_values a1 d))
       (matching srv idx (reference_query q True)))"

text \<open>An axis has room for every value: a scheme always has, a literal axis when its values fit.\<close>

definition axis_fits :: "cross_facet_axis \<Rightarrow> reference_document list \<Rightarrow> bool" where
  "axis_fits a docs = (card (\<Union>d \<in> set docs. set (axis_values a d)) \<le> cfa_size a)"

lemma doc_numbers_facet [simp]: "doc_numbers d (facet_field f) = []"
  by (cases f) (simp_all add: facet_field_def doc_numbers_def Let_def)

lemma axis_presence:
  assumes "es_matches_ok m"
  shows "m (axis_presence_clause a) d \<longleftrightarrow> axis_values a d \<noteq> []"
proof (cases "axis_include a")
  case None
  have "filter (axis_allows a) xs = xs" for xs by (simp add: axis_allows_def None)
  with None show ?thesis by (simp add: axis_presence_clause_def axis_values_def es_matches_simps [OF assms])
next
  case (Some ks)
  then show ?thesis
    by (auto simp: axis_presence_clause_def axis_values_def axis_allows_def es_matches_simps [OF assms]
        filter_empty_conv list_ex_iff)
qed

lemma axis_term_allowed [simp]:
  "term_allowed (facet_agg_params a) k \<longleftrightarrow> axis_allows a k"
  "ta_field (facet_agg_params a) = facet_field (cfa_facet_type a)"
  "ta_size (facet_agg_params a) = cfa_size a" "ta_min_doc_count (facet_agg_params a) = 1"
  by (simp_all add: term_allowed_def facet_agg_params_def axis_allows_def)

lemma terms_present_axis: "terms_present (facet_agg_params a) docs = (\<Union>d \<in> set docs. set (axis_values a d))"
  by (auto simp: terms_present_def axis_values_def)

lemma with_term_allowed:
  "axis_allows a k \<Longrightarrow> with_term (facet_field (cfa_facet_type a)) k docs = filter (\<lambda>d. k \<in> set (axis_values a d)) docs"
  by (auto simp: with_term_def axis_values_def intro: filter_cong)

text \<open>Buckets of an axis over some documents: exact, and complete when the axis has room.\<close>

lemma axis_buckets:
  assumes "buckets_ok (facet_agg_params a) docs bs"
  shows "distinct (map fst bs)"
    and "(k, n) \<in> set bs \<Longrightarrow> axis_allows a k \<and> n = length (filter (\<lambda>d. k \<in> set (axis_values a d)) docs) \<and> 0 < n"
    and "axis_fits a docs \<Longrightarrow> d \<in> set docs \<Longrightarrow> k \<in> set (axis_values a d) \<Longrightarrow> k \<in> fst ` set bs"
proof -
  show "distinct (map fst bs)" using assms by (simp add: buckets_ok_def)
  show "axis_allows a k \<and> n = length (filter (\<lambda>d. k \<in> set (axis_values a d)) docs) \<and> 0 < n" if "(k, n) \<in> set bs"
    using assms that by (auto simp: buckets_ok_def with_term_allowed)
  assume fits: "axis_fits a docs" and d: "d \<in> set docs" and k: "k \<in> set (axis_values a d)"
  then have "axis_allows a k" by (simp add: axis_values_def)
  then have "d \<in> set (with_term (facet_field (cfa_facet_type a)) k docs)" using d k by (simp add: with_term_allowed)
  then have "1 \<le> length (with_term (facet_field (cfa_facet_type a)) k docs)" by (cases "with_term (facet_field (cfa_facet_type a)) k docs") auto
  moreover have "k \<in> terms_present (facet_agg_params a) docs" using d k by (auto simp: terms_present_axis)
  ultimately show "k \<in> fst ` set bs"
    using assms fits unfolding buckets_ok_def axis_fits_def terms_present_axis [symmetric] by simp
qed

lemma axis_fits_sub: "axis_fits a docs \<Longrightarrow> set docs' \<subseteq> set docs \<Longrightarrow> axis_fits a docs'"
  unfolding axis_fits_def by (rule le_trans [OF card_mono]) auto

lemma set_cells_of:
  "c \<in> set (cells_of bs B) \<longleftrightarrow>
     (\<exists>n. (fst (cell_axes c), n) \<in> set bs) \<and> (snd (cell_axes c), cell_count c) \<in> set (B (fst (cell_axes c)))"
  by (cases c) (force simp: cells_of_def)

lemma distinct_cells_of:
  assumes "distinct (map fst bs)" and "\<And>k. distinct (map fst (B k))"
  shows "distinct (map cell_axes (cells_of bs B))"
proof -
  have row: "map cell_axes (map (\<lambda>(k1, n). \<lparr> cell_axes = (k0, k1), cell_count = n \<rparr>) ks) = map (Pair k0) (map fst ks)"
    for k0 and ks :: "(string \<times> nat) list"
    by (simp add: comp_def case_prod_beta)
  have "distinct (map (Pair k0) (map fst (B k0)))" for k0 using assms(2) by (simp add: distinct_map inj_on_def)
  with assms(1) show ?thesis
    by (induction bs) (auto simp: cells_of_def row simp del: map_map, force simp: cells_of_def)
qed

text \<open>The values of a scheme's axis are among its members, for which it has room.\<close>

lemma resolved_axis:
  assumes "resolve_cross_facet_axis token uri table = Inr a" and "cfa_facet_type a = FACET_CONCEPTS"
  obtains m ms where "cfa_include a = Some (m # ms)" and "cfa_size a = card (set (m # ms))"
  using assms
  by (auto simp: resolve_cross_facet_axis_def make_axis_def literal_axis_facet_def literal_axis_sizes_def
      length_remdups_card_conv card_insert_if split: option.splits if_splits list.splits)

lemma resolved_scheme_fits:
  assumes "resolve_axes vc axes uri = Inr (a0, a1)" and "a \<in> {a0, a1}" and "cfa_facet_type a = FACET_CONCEPTS"
  shows "axis_fits a docs"
proof -
  from assms(1,2) obtain token table where "resolve_cross_facet_axis token uri table = Inr a"
    by (auto simp: resolve_axes_def result_simps)
  from resolved_axis [OF this assms(3)] obtain m ms where
    a: "cfa_include a = Some (m # ms)" "cfa_size a = card (set (m # ms))" .
  then have "(\<Union>d \<in> set docs. set (axis_values a d)) \<subseteq> set (m # ms)"
    by (auto simp: axis_values_def axis_allows_def axis_include_def)
  with a(2) show ?thesis unfolding axis_fits_def by (simp only: card_mono List.finite_set)
qed

section \<open>Properties\<close>

text \<open>Which references have a value on both axes.\<close>

definition on_both_axes :: "cross_facet_axis \<Rightarrow> cross_facet_axis \<Rightarrow> reference_document \<Rightarrow> bool" where
  "on_both_axes a0 a1 d = (axis_values a0 d \<noteq> [] \<and> axis_values a1 d \<noteq> [])"

lemma cross_cells:
  assumes eng: "search_engine srv" and run: "es_aggregate_cross_facet srv idx q a0 a1 = Inr r"
  defines "docs \<equiv> matching srv idx (reference_query q True)"
  shows "distinct (map cell_axes (cfr_cells r))" and "sorted (map cell_key (cfr_cells r))"
    and "c \<in> set (cfr_cells r) \<Longrightarrow> case cell_axes c of (k0, k1) \<Rightarrow>
           cell_count c = cross_count srv idx q a0 a1 k0 k1 \<and> 0 < cell_count c"
    and "axis_fits a0 docs \<Longrightarrow> axis_fits a1 docs \<Longrightarrow> 0 < cross_count srv idx q a0 a1 k0 k1 \<Longrightarrow>
           (k0, k1) \<in> cell_axes ` set (cfr_cells r)"
    and "cfr_search_total r = length docs" and "cfr_mapped_total r = length (filter (on_both_axes a0 a1) docs)"
proof -
  have m: "es_matches_ok (esv_matches srv)" using eng by (simp add: search_engine_def)
  define in_map where "in_map = filter (on_both_axes a0 a1) docs"
  have "filter (\<lambda>d. esv_matches srv (axis_presence_clause a0) d \<and> esv_matches srv (axis_presence_clause a1) d)
      (matching srv idx (reference_query q True)) = in_map"
    unfolding in_map_def docs_def by (rule filter_cong) (simp_all add: axis_presence [OF m] on_both_axes_def)
  note response = search_engine.cross_response [OF eng run, unfolded this, folded docs_def]
  obtain bs B where b: "buckets_ok (facet_agg_params a0) in_map bs"
    and B: "\<forall>k. buckets_ok (facet_agg_params a1) (with_term (facet_field (cfa_facet_type a0)) k in_map) (B k)"
    and cells: "cfr_cells r = sort_key cell_key (cells_of bs B)"
    and "cfr_search_total r = length docs" "cfr_mapped_total r = length in_map"
    by (rule response)
  then show "cfr_search_total r = length docs" "cfr_mapped_total r = length (filter (on_both_axes a0 a1) docs)"
    by (simp_all add: in_map_def)
  note outer = axis_buckets [OF b] and inner = axis_buckets [OF B [rule_format]]
  have "distinct (map cell_axes (cells_of bs B))" by (rule distinct_cells_of [OF outer(1) inner(1)])
  then show "distinct (map cell_axes (cfr_cells r))"
    unfolding cells by (metis mset_eq_imp_distinct_iff mset_map mset_sort)
  show "sorted (map cell_key (cfr_cells r))" by (simp add: cells)
  have count: "length (filter (\<lambda>d. k1 \<in> set (axis_values a1 d)) (with_term (facet_field (cfa_facet_type a0)) k0 in_map)) =
      cross_count srv idx q a0 a1 k0 k1" if "axis_allows a0 k0" for k0 k1
    unfolding with_term_allowed [OF that] cross_count_def in_map_def filter_filter docs_def
    by (rule arg_cong [where f = length], rule filter_cong) (auto simp: on_both_axes_def)
  show "case cell_axes c of (k0, k1) \<Rightarrow> cell_count c = cross_count srv idx q a0 a1 k0 k1 \<and> 0 < cell_count c"
    if "c \<in> set (cfr_cells r)"
  proof -
    from that obtain n where c: "(fst (cell_axes c), n) \<in> set bs"
      "(snd (cell_axes c), cell_count c) \<in> set (B (fst (cell_axes c)))"
      by (auto simp: cells set_cells_of)
    from outer(2) [OF c(1)] inner(2) [OF c(2)] count show ?thesis by (simp add: case_prod_beta)
  qed
  assume fits: "axis_fits a0 docs" "axis_fits a1 docs" and pos: "0 < cross_count srv idx q a0 a1 k0 k1"
  then obtain d where d: "d \<in> set docs" "k0 \<in> set (axis_values a0 d)" "k1 \<in> set (axis_values a1 d)"
    by (auto simp: cross_count_def docs_def filter_empty_conv)
  then have "d \<in> set in_map" by (auto simp: in_map_def on_both_axes_def)
  with d(2) fits(1) have "k0 \<in> fst ` set bs"
    by (intro outer(3) [of d]) (auto simp: in_map_def elim: axis_fits_sub)
  then obtain n0 where n0: "(k0, n0) \<in> set bs" by auto
  from d(2) have allowed: "axis_allows a0 k0" by (simp add: axis_values_def)
  have "k1 \<in> fst ` set (B k0)"
  proof (rule inner(3) [of _ d])
    show "axis_fits a1 (with_term (facet_field (cfa_facet_type a0)) k0 in_map)"
      using fits(2) by (rule axis_fits_sub) (auto simp: with_term_def in_map_def)
    show "d \<in> set (with_term (facet_field (cfa_facet_type a0)) k0 in_map)"
      using \<open>d \<in> set in_map\<close> d(2) by (simp add: with_term_allowed [OF allowed])
  qed (rule d(3))
  then obtain n1 where "(k1, n1) \<in> set (B k0)" by auto
  with n0 have "\<lparr> cell_axes = (k0, k1), cell_count = n1 \<rparr> \<in> set (cfr_cells r)" by (auto simp: cells set_cells_of)
  then show "(k0, k1) \<in> cell_axes ` set (cfr_cells r)" by force
qed



end
