(* ===== verification/Search_Scans.thy ===== *)
theory Search_Scans
  imports Search_Facets "HOL-Library.Multiset" "HOL-Library.Sublist"
begin

text \<open>
  Searches for hits: the pages, counts and scans of \<^verbatim>\<open>GenericAsyncESRepository\<close> and
  \<^verbatim>\<open>ReferenceESRepository\<close>. A scan asks for page after page of a point in time, a snapshot of the
  index; the loop is a partial function, since only what Elasticsearch promises makes it end.
\<close>

section \<open>Sort keys\<close>

definition strip_sign :: "string \<Rightarrow> string" where
  "strip_sign s = dropWhile (\<lambda>c. c = CHR ''-'' \<or> c = CHR ''+'') s"

fun sort_key_field :: "es_sort \<Rightarrow> string" where
  "sort_key_field (SortDict f _) = f"
| "sort_key_field (SortField s) = strip_sign s"

definition scan_sort_keys :: "es_sort list \<Rightarrow> es_sort list" where
  "scan_sort_keys keys =
     (if keys = [] then [SortField ''_doc'', SortField ''_shard_doc'']
      else if list_ex (\<lambda>k. sort_key_field k = ''_shard_doc'') keys then keys
      else keys @ [SortField ''_shard_doc''])"

definition normalize_sort_key :: "string \<Rightarrow> es_sort" where
  "normalize_sort_key key =
     (if strip_sign key = ''relevance''
      then SortDict ''_score'' [(''order'', if take 1 key = ''-'' then ''asc'' else ''desc'')]
      else SortField key)"

text \<open>\<^verbatim>\<open>sort or default\<close>: an empty list is no list.\<close>

definition sort_or :: "string list option \<Rightarrow> string list \<Rightarrow> string list" where
  "sort_or sort_by dflt = (case sort_by of Some (k # ks) \<Rightarrow> k # ks | _ \<Rightarrow> dflt)"

section \<open>Answers\<close>

record search_hit =
  sh_id :: uuid
  sh_score :: "rat option"

record search_result =
  sr_hits :: "search_hit list"
  sr_total :: es_total
  sr_page :: nat

definition parse_hits :: "es_hit list \<Rightarrow> search_hit list" where
  "parse_hits hits = map (\<lambda>h. \<lparr> sh_id = hit_id h, sh_score = hit_score h \<rparr>) hits"

definition extract_total :: "es_total option \<Rightarrow> es_total result" where
  "extract_total t = (case t of None \<Rightarrow> Inl PyKeyError | Some t \<Rightarrow> Inr t)"

definition execute_search :: "es_server \<Rightarrow> es_index \<Rightarrow> es_search \<Rightarrow> (es_hit list \<times> es_total option) result" where
  "execute_search srv idx rq =
     (case esv_search srv rq idx of None \<Rightarrow> Inl ESQueryError | Some r \<Rightarrow> Inr r)"

section \<open>Pages and counts\<close>

definition search_with_query_string ::
    "es_server \<Rightarrow> es_index \<Rightarrow> string \<Rightarrow> nat \<Rightarrow> nat \<Rightarrow> es_sort list \<Rightarrow> es_query list \<Rightarrow> bool \<Rightarrow> search_result result" where
  "search_with_query_string srv idx query page page_size sort_by filter_clauses track =
     res_bind (execute_search srv idx
         \<lparr> ess_query = compose_query query default_search_fields filter_clauses True, ess_sort = sort_by,
           ess_from = (int page - 1) * int page_size, ess_size = page_size, ess_search_after = None,
           ess_track_total_hits = (if track then Some True else None) \<rparr>) (\<lambda>(hits, tot).
     res_bind (extract_total tot) (\<lambda>t.
       Inr \<lparr> sr_hits = parse_hits hits, sr_total = t, sr_page = page \<rparr>))"

definition count_with_query_string :: "es_server \<Rightarrow> es_index \<Rightarrow> string \<Rightarrow> es_query list \<Rightarrow> es_total result" where
  "count_with_query_string srv idx query filter_clauses =
     res_bind (execute_search srv idx
         \<lparr> ess_query = compose_query query default_search_fields filter_clauses False, ess_sort = [],
           ess_from = 0, ess_size = 0, ess_search_after = None, ess_track_total_hits = Some True \<rparr>)
       (\<lambda>(_, tot). extract_total tot)"

definition tiebreaker :: es_sort where
  "tiebreaker = SortDict ''id'' [(''order'', ''desc''), (''unmapped_type'', ''keyword'')]"

definition search_references ::
    "es_server \<Rightarrow> es_index \<Rightarrow> search_query \<Rightarrow> nat \<Rightarrow> nat \<Rightarrow> string list option \<Rightarrow> bool \<Rightarrow> search_result result" where
  "search_references srv idx q page page_size sort_by track =
     search_with_query_string srv idx (sq_query_string q) page page_size
       (map normalize_sort_key (sort_or sort_by [''relevance'']) @ [tiebreaker]) (build_filter_clauses q None) track"

definition count_references :: "es_server \<Rightarrow> es_index \<Rightarrow> search_query \<Rightarrow> es_total result" where
  "count_references srv idx q = count_with_query_string srv idx (sq_query_string q) (build_filter_clauses q None)"

section \<open>Scans\<close>

text \<open>
  The pages a generator has yielded and the exception that ended it, if one did. \<open>ask\<close> issues the
  request of a page: its number, the cursor, the size and whether totals are tracked.
\<close>

type_synonym scan = "search_result list \<times> app_error option"

type_synonym page_request = "nat \<Rightarrow> string list option \<Rightarrow> nat \<Rightarrow> bool \<Rightarrow> (es_hit list \<times> es_total option) result"

definition current_size :: "nat \<Rightarrow> nat option \<Rightarrow> nat \<Rightarrow> nat" where
  "current_size page_size limit emitted =
     (case limit of None \<Rightarrow> page_size | Some l \<Rightarrow> min page_size (l - emitted))"

definition reached :: "nat option \<Rightarrow> nat \<Rightarrow> bool" where
  "reached limit emitted = (case limit of None \<Rightarrow> False | Some l \<Rightarrow> l \<le> emitted)"

partial_function (option) scan_pages ::
    "page_request \<Rightarrow> nat \<Rightarrow> nat option \<Rightarrow> nat \<Rightarrow> nat \<Rightarrow> string list option \<Rightarrow> es_total option \<Rightarrow> scan option" where
  "scan_pages ask page_size limit emitted page after cached_total =
     (case ask page after (current_size page_size limit emitted) (cached_total = None) of
        Inl e \<Rightarrow> Some ([], Some e)
      | Inr (hits, tot) \<Rightarrow>
          (case (case cached_total of Some t \<Rightarrow> Inr t | None \<Rightarrow> extract_total tot) of
             Inl e \<Rightarrow> Some ([], Some e)
           | Inr t \<Rightarrow>
               if hits = [] then Some ([], None)
               else if reached limit (emitted + length hits) \<or> length hits < current_size page_size limit emitted
               then Some ([\<lparr> sr_hits = parse_hits hits, sr_total = t, sr_page = page \<rparr>], None)
               else Option.bind
                      (scan_pages ask page_size limit (emitted + length hits) (Suc page)
                         (Some (hit_sort (last hits))) (Some t))
                      (\<lambda>(ps, e). Some (\<lparr> sr_hits = parse_hits hits, sr_total = t, sr_page = page \<rparr> # ps, e))))"

declare scan_pages.simps [code]

definition es_max_page_size :: int where "es_max_page_size = 10000"

text \<open>\<open>net n\<close> is what the connection raises on the request of page \<open>n\<close>, if anything.\<close>

definition ask_page ::
    "es_server \<Rightarrow> (nat \<Rightarrow> app_error option) \<Rightarrow> es_index \<Rightarrow> es_query \<Rightarrow> es_sort list \<Rightarrow> page_request" where
  "ask_page srv net idx query keys page after n track =
     (case net page of
        Some e \<Rightarrow> Inl e
      | None \<Rightarrow> execute_search srv idx
          \<lparr> ess_query = query, ess_sort = keys, ess_from = 0, ess_size = n, ess_search_after = after,
            ess_track_total_hits = Some track \<rparr>)"

definition scan_with_query_string ::
    "es_server \<Rightarrow> (nat \<Rightarrow> app_error option) \<Rightarrow> es_index \<Rightarrow> string \<Rightarrow> int \<Rightarrow> int option \<Rightarrow> es_sort list \<Rightarrow>
     es_query list \<Rightarrow> bool \<Rightarrow> scan option" where
  "scan_with_query_string srv net idx query page_size limit sort_by filter_clauses score =
     (if \<not> (1 \<le> page_size \<and> page_size \<le> es_max_page_size) then Some ([], Some ESError)
      else if (case limit of None \<Rightarrow> False | Some l \<Rightarrow> l < 1) then Some ([], Some ESError)
      else scan_pages
             (ask_page srv net idx (compose_query query default_search_fields filter_clauses score)
                (scan_sort_keys sort_by))
             (nat page_size) (map_option nat limit) 0 1 None None)"

definition scan_references ::
    "es_server \<Rightarrow> (nat \<Rightarrow> app_error option) \<Rightarrow> es_index \<Rightarrow> search_query \<Rightarrow> string list option \<Rightarrow> int option \<Rightarrow>
     int \<Rightarrow> bool \<Rightarrow> scan option" where
  "scan_references srv net idx q sort_by limit page_size score =
     scan_with_query_string srv net idx (sq_query_string q) page_size limit
       (map normalize_sort_key (sort_or sort_by (if score then [''relevance''] else [])))
       (build_filter_clauses q None) score"

section \<open>What Elasticsearch promises\<close>

text \<open>
  Hits come in an order fixed by the query, the sort keys and the snapshot. \<^verbatim>\<open>search_after\<close> continues
  behind the hits whose sort values are those given. With \<^verbatim>\<open>_shard_doc\<close> or the identifier among
  the keys no two hits have the same sort values.
\<close>

definition ids_matching :: "es_server \<Rightarrow> es_index \<Rightarrow> es_query \<Rightarrow> uuid list" where
  "ids_matching srv idx q = map fst (filter (\<lambda>(_, d). esv_matches srv q d) idx)"

definition search_after :: "string list \<Rightarrow> es_hit list \<Rightarrow> es_hit list" where
  "search_after v hs = dropWhile (\<lambda>h. hit_sort h = v) (dropWhile (\<lambda>h. hit_sort h \<noteq> v) hs)"

definition exact_total :: "nat \<Rightarrow> es_total" where
  "exact_total n = \<lparr> tot_value = n, tot_relation = ''eq'' \<rparr>"

definition answers_ranked :: "es_server \<Rightarrow> es_index \<Rightarrow> es_hit list \<Rightarrow> es_search \<Rightarrow> bool" where
  "answers_ranked srv idx ranked rq =
     (case esv_search srv rq idx of
        None \<Rightarrow> True
      | Some (hits, tot) \<Rightarrow>
          hits = take (ess_size rq)
            (case ess_search_after rq of
               None \<Rightarrow> drop (nat (ess_from rq)) ranked
             | Some v \<Rightarrow> search_after v ranked) \<and>
          (ess_track_total_hits rq = Some True \<longrightarrow> tot = Some (exact_total (length ranked))))"

definition es_hits_ok :: "es_server \<Rightarrow> bool" where
  "es_hits_ok srv =
     (\<forall>q keys idx. \<exists>ranked. mset (map hit_id ranked) = mset (ids_matching srv idx q) \<and>
        (list_ex (\<lambda>k. sort_key_field k \<in> {''_shard_doc'', ''id''}) keys \<longrightarrow> distinct (map hit_sort ranked)) \<and>
        (\<forall>rq. ess_query rq = q \<and> ess_sort rq = keys \<longrightarrow> answers_ranked srv idx ranked rq))"

lemma scan_sort_keys_total: "list_ex (\<lambda>k. sort_key_field k \<in> {''_shard_doc'', ''id''}) (scan_sort_keys keys)"
  by (auto simp: scan_sort_keys_def list_ex_iff strip_sign_def)

lemma search_after_nth:
  assumes "distinct (map hit_sort hs)" and "i < length hs"
  shows "search_after (hit_sort (hs ! i)) hs = drop (Suc i) hs"
proof -
  have eq: "hit_sort (hs ! j) = hit_sort (hs ! i) \<longleftrightarrow> j = i" if "j < length hs" for j
    using nth_eq_iff_index_eq [OF assms(1), of j i] that assms(2) by simp
  have split: "hs = take i hs @ hs ! i # drop (Suc i) hs" using assms(2) by (rule id_take_nth_drop)
  have "dropWhile (\<lambda>h. hit_sort h \<noteq> hit_sort (hs ! i)) hs = hs ! i # drop (Suc i) hs"
  proof (subst (2) split, rule trans [OF dropWhile_append2])
    show "hit_sort x \<noteq> hit_sort (hs ! i)" if "x \<in> set (take i hs)" for x
      using that eq assms(2) by (auto simp: in_set_conv_nth)
  qed simp
  moreover have "dropWhile (\<lambda>h. hit_sort h = hit_sort (hs ! i)) (drop (Suc i) hs) = drop (Suc i) hs"
    using eq [of "Suc i"] by (cases "Suc i < length hs") (auto simp: Cons_nth_drop_Suc [symmetric])
  ultimately show ?thesis by (simp add: search_after_def)
qed

section \<open>A scan enumerates the ranking\<close>

definition limited :: "nat option \<Rightarrow> 'a list \<Rightarrow> 'a list" where
  "limited limit xs = (case limit of None \<Rightarrow> xs | Some l \<Rightarrow> take l xs)"

text \<open>Where a cursor stands in the ranking.\<close>

definition cursor_at :: "es_hit list \<Rightarrow> nat \<Rightarrow> string list option \<Rightarrow> bool" where
  "cursor_at hs i after =
     (case after of None \<Rightarrow> i = 0 | Some v \<Rightarrow> 0 < i \<and> i \<le> length hs \<and> v = hit_sort (hs ! (i - 1)))"

definition answers_pages :: "page_request \<Rightarrow> es_hit list \<Rightarrow> bool" where
  "answers_pages ask hs =
     (\<forall>page after n track i. cursor_at hs i after \<longrightarrow>
        (case ask page after n track of
           Inl e \<Rightarrow> True
         | Inr (hits, tot) \<Rightarrow> hits = take n (drop i hs) \<and> (track \<longrightarrow> tot = Some (exact_total (length hs)))))"

text \<open>The pages yielded from a position on: full, numbered, and nothing skipped or repeated.\<close>

definition page_ok :: "nat \<Rightarrow> nat \<Rightarrow> search_result \<Rightarrow> bool" where
  "page_ok page_size n p =
     (sr_hits p \<noteq> [] \<and> length (sr_hits p) \<le> page_size \<and> sr_total p = exact_total n)"

definition scan_ok ::
    "page_request \<Rightarrow> nat \<Rightarrow> nat \<Rightarrow> nat \<Rightarrow> es_hit list \<Rightarrow> scan \<Rightarrow> bool" where
  "scan_ok ask page_size m page rest r =
     (case r of (ps, e) \<Rightarrow>
        prefix (concat (map sr_hits ps)) (parse_hits rest) \<and>
        map sr_page ps = [page ..< page + length ps] \<and> list_all (page_ok page_size m) ps \<and>
        (case e of
           None \<Rightarrow> concat (map sr_hits ps) = parse_hits rest
         | Some err \<Rightarrow> \<exists>n after k track. ask n after k track = Inl err))"

lemma parse_hits_simps [simp]:
  "parse_hits [] = []" "parse_hits (xs @ ys) = parse_hits xs @ parse_hits ys"
  "parse_hits xs = [] \<longleftrightarrow> xs = []" "length (parse_hits xs) = length xs"
  by (simp_all add: parse_hits_def)

lemma current_size_bounds:
  assumes "0 < page_size" and "\<not> reached limit i"
  shows "0 < current_size page_size limit i" and "current_size page_size limit i \<le> page_size"
    and "limit = Some l \<Longrightarrow> current_size page_size limit i \<le> l - i"
  using assms by (auto simp: current_size_def reached_def split: option.splits)

lemma limited_rest:
  assumes "\<not> reached limit i" and "n \<le> current_size page_size limit i"
  shows "drop i (limited limit hs) = take n (drop i hs) @ drop (i + n) (limited limit hs)"
proof -
  have "take n (drop i (limited limit hs)) = take n (drop i hs)"
    using assms by (auto simp: limited_def current_size_def reached_def drop_take min_def split: option.splits if_splits)
  then show ?thesis by (metis append_take_drop_id drop_drop add.commute)
qed

lemma last_page:
  assumes "\<not> reached limit i" and "hits = take (current_size page_size limit i) (drop i hs)"
    and "reached limit (i + length hits) \<or> length hits < current_size page_size limit i"
  shows "drop i (limited limit hs) = hits"
proof -
  have "drop (i + length hits) (limited limit hs) = []"
    using assms by (auto simp: limited_def reached_def current_size_def min_def split: option.splits if_splits)
  moreover have "length hits \<le> current_size page_size limit i" by (simp add: assms(2))
  moreover have "take (length hits) (drop i hs) = hits" by (simp add: assms(2) min_def)
  ultimately show ?thesis using limited_rest [OF assms(1), of "length hits" page_size hs] by simp
qed

lemma scan_ok_last:
  assumes "parse_hits rest = parse_hits hits" and "hits \<noteq> []" and "length hits \<le> page_size" and "t = exact_total n"
  shows "scan_ok ask page_size n page rest ([\<lparr> sr_hits = parse_hits hits, sr_total = t, sr_page = page \<rparr>], None)"
  using assms by (simp add: scan_ok_def page_ok_def)

lemma scan_ok_more:
  assumes "scan_ok ask page_size n (Suc page) rest (ps, e)" and "hits \<noteq> []" and "length hits \<le> page_size"
    and "t = exact_total n"
  shows "scan_ok ask page_size n page (hits @ rest)
    (\<lparr> sr_hits = parse_hits hits, sr_total = t, sr_page = page \<rparr> # ps, e)"
  using assms by (auto simp: scan_ok_def page_ok_def upt_conv_Cons simp del: upt_Suc split: option.splits)

lemma scan_pages_ok:
  assumes ask: "answers_pages ask hs" and pos: "0 < page_size"
    and "cursor_at hs i after" and "\<not> reached limit i" and "cached = None \<or> cached = Some (exact_total (length hs))"
  shows "\<exists>r. scan_pages ask page_size limit i page after cached = Some r \<and>
    scan_ok ask page_size (length hs) page (drop i (limited limit hs)) r"
  using assms(3-)
proof (induction "length hs - i" arbitrary: i page after cached rule: less_induct)
  case less
  let ?n = "current_size page_size limit i"
  note n = current_size_bounds [OF pos less.prems(2)]
  show ?case
  proof (cases "ask page after ?n (cached = None)")
    case (Inl e)
    then show ?thesis by (subst scan_pages.simps) (auto simp: scan_ok_def)
  next
    case (Inr r)
    obtain hits tot where r: "r = (hits, tot)" by (cases r)
    have hits: "hits = take ?n (drop i hs)" and tot: "cached = None \<Longrightarrow> tot = Some (exact_total (length hs))"
      using ask less.prems(1) Inr r unfolding answers_pages_def by (auto dest!: spec [of _ page] split: sum.splits)
    have total: "(case cached of Some t \<Rightarrow> Inr t | None \<Rightarrow> extract_total tot) = Inr (exact_total (length hs))"
      using less.prems(3) tot by (auto simp: extract_total_def)
    note step = scan_pages.simps [of ask page_size limit i page after cached]
    have "length hits \<le> ?n" by (simp add: hits)
    then consider "hits = []"
      | "hits \<noteq> []" "reached limit (i + length hits) \<or> length hits < ?n"
      | "hits \<noteq> []" "\<not> reached limit (i + length hits)" "length hits = ?n"
      by (meson le_neq_implies_less)
    then show ?thesis
    proof cases
      case 1
      then have "drop i (limited limit hs) = []" using n(1) hits by (auto simp: limited_def split: option.splits)
      with 1 show ?thesis by (simp add: step Inr r total scan_ok_def)
    next
      case 2
      have "drop i (limited limit hs) = hits" by (rule last_page [OF less.prems(2) hits 2(2)])
      moreover have "length hits \<le> page_size" using hits n(2) by simp
      ultimately show ?thesis using 2 by (simp add: step Inr r total scan_ok_last)
    next
      case 3
      let ?i = "i + length hits"
      have len: "?i \<le> length hs" "length hs - ?i < length hs - i" using hits 3 n(1) by auto
      have "last hits = hs ! (?i - 1)"
        using 3 hits by (simp add: last_conv_nth)
      then have "cursor_at hs ?i (Some (hit_sort (last hits)))" using len 3 n(1) by (simp add: cursor_at_def)
      from less.hyps [OF len(2) this 3(2), of "Some (exact_total (length hs))" "Suc page"]
      obtain ps e where rec: "scan_pages ask page_size limit ?i (Suc page) (Some (hit_sort (last hits)))
          (Some (exact_total (length hs))) = Some (ps, e)"
        and ok: "scan_ok ask page_size (length hs) (Suc page) (drop ?i (limited limit hs)) (ps, e)" by auto
      have "drop i (limited limit hs) = hits @ drop ?i (limited limit hs)"
        using limited_rest [OF less.prems(2), of "?n" page_size hs] hits 3(3) by simp
      moreover have "length hits \<le> page_size" using 3(3) n(2) by simp
      ultimately show ?thesis using 3 rec scan_ok_more [OF ok 3(1)] by (simp add: step Inr r total)
    qed
  qed
qed

text \<open>The requests of a scan, when Elasticsearch keeps its promises.\<close>

lemma ask_page_answers:
  assumes "distinct (map hit_sort ranked)"
    and "\<And>rq. ess_query rq = q \<and> ess_sort rq = keys \<Longrightarrow> answers_ranked srv idx ranked rq"
  shows "answers_pages (ask_page srv net idx q keys) ranked"
  unfolding answers_pages_def
proof (intro allI impI)
  fix page after n track i
  assume c: "cursor_at ranked i after"
  let ?rq = "\<lparr> ess_query = q, ess_sort = keys, ess_from = 0, ess_size = n, ess_search_after = after,
      ess_track_total_hits = Some track \<rparr>"
  have start: "(case after of None \<Rightarrow> drop 0 ranked | Some v \<Rightarrow> search_after v ranked) = drop i ranked"
    using c search_after_nth [OF assms(1), of "i - 1"] by (auto simp: cursor_at_def split: option.splits)
  have "answers_ranked srv idx ranked ?rq" by (rule assms(2)) simp
  with start show "case ask_page srv net idx q keys page after n track of
      Inl e \<Rightarrow> True
    | Inr (hits, tot) \<Rightarrow> hits = take n (drop i ranked) \<and> (track \<longrightarrow> tot = Some (exact_total (length ranked)))"
    by (auto simp: ask_page_def execute_search_def answers_ranked_def split: option.splits prod.splits)
qed

lemma ask_page_failure:
  "ask_page srv net idx q keys page after n track = Inl e \<Longrightarrow>
     net page = Some e \<or> e = ESQueryError \<and> (\<exists>rq. ess_query rq = q \<and> ess_sort rq = keys \<and> esv_search srv rq idx = None)"
  by (cases "net page") (auto simp: ask_page_def execute_search_def split: option.splits
      intro: exI [of _ "\<lparr> ess_query = q, ess_sort = keys, ess_from = 0, ess_size = n,
        ess_search_after = after, ess_track_total_hits = Some track \<rparr>"])

text \<open>The query of a scan, and the identifiers of the references it matches.\<close>

definition scan_query :: "search_query \<Rightarrow> bool \<Rightarrow> es_query" where
  "scan_query q score = compose_query (sq_query_string q) default_search_fields (build_filter_clauses q None) score"

definition scan_keys :: "string list option \<Rightarrow> bool \<Rightarrow> es_sort list" where
  "scan_keys sort_by score =
     scan_sort_keys (map normalize_sort_key (sort_or sort_by (if score then [''relevance''] else [])))"

definition scan_arguments_ok :: "int option \<Rightarrow> int \<Rightarrow> bool" where
  "scan_arguments_ok limit page_size =
     (1 \<le> page_size \<and> page_size \<le> es_max_page_size \<and> (case limit of None \<Rightarrow> True | Some l \<Rightarrow> 1 \<le> l))"

locale scan_engine =
  fixes srv :: es_server
  assumes hits_ok: "es_hits_ok srv"
begin

lemma scan_references_ranked:
  assumes "scan_arguments_ok limit page_size"
  obtains ranked r where "mset (map hit_id ranked) = mset (ids_matching srv idx (scan_query q score))"
    and "scan_references srv net idx q sort_by limit page_size score = Some r"
    and "scan_ok (ask_page srv net idx (scan_query q score) (scan_keys sort_by score)) (nat page_size)
           (length ranked) 1 (limited (map_option nat limit) ranked) r"
proof -
  let ?q = "scan_query q score" and ?keys = "scan_keys sort_by score"
  have "list_ex (\<lambda>k. sort_key_field k \<in> {''_shard_doc'', ''id''}) ?keys"
    unfolding scan_keys_def by (rule scan_sort_keys_total)
  with hits_ok obtain ranked where ids: "mset (map hit_id ranked) = mset (ids_matching srv idx ?q)"
    and d: "distinct (map hit_sort ranked)"
    and a: "\<And>rq. ess_query rq = ?q \<and> ess_sort rq = ?keys \<Longrightarrow> answers_ranked srv idx ranked rq"
    unfolding es_hits_ok_def by blast
  have start: "cursor_at ranked 0 None" "0 < nat page_size" "\<not> reached (map_option nat limit) 0"
    using assms by (auto simp: cursor_at_def scan_arguments_ok_def reached_def split: option.splits)
  have "answers_pages (ask_page srv net idx ?q ?keys) ranked" by (rule ask_page_answers [OF d a])
  from scan_pages_ok [OF this start(2,1,3), where cached = None and page = 1]
  obtain r where "scan_pages (ask_page srv net idx ?q ?keys) (nat page_size) (map_option nat limit) 0 1 None None = Some r"
    and ok: "scan_ok (ask_page srv net idx ?q ?keys) (nat page_size) (length ranked) 1
        (limited (map_option nat limit) ranked) r"
    by auto
  then have "scan_references srv net idx q sort_by limit page_size score = Some r"
    using assms by (auto simp: scan_references_def scan_with_query_string_def scan_arguments_ok_def
        scan_query_def scan_keys_def split: option.splits)
  with that ids ok show thesis by blast
qed

end

section \<open>Properties\<close>

definition found_ids :: "search_result list \<Rightarrow> uuid list" where
  "found_ids ps = map sh_id (concat (map sr_hits ps))"

lemma limited_ids: "limited limit (map hit_id hs) = map sh_id (parse_hits (limited limit hs))"
  by (simp add: limited_def parse_hits_def take_map comp_def split: option.splits)

lemma limited_length: "length (limited limit xs) = (case limit of None \<Rightarrow> length xs | Some l \<Rightarrow> min l (length xs))"
  by (simp add: limited_def min.commute split: option.splits)

lemma distinct_ids_matching: "distinct (map fst idx) \<Longrightarrow> distinct (ids_matching srv idx q)"
  unfolding ids_matching_def by (rule distinct_map_filter)

lemma scan_refused_arguments:
  "\<not> scan_arguments_ok limit page_size \<Longrightarrow>
     scan_references srv net idx q sort_by limit page_size score = Some ([], Some ESError)"
  by (auto simp: scan_references_def scan_with_query_string_def scan_arguments_ok_def split: option.splits)

text \<open>How a scan ends, and what it has found by then.\<close>

definition scan_failure ::
    "es_server \<Rightarrow> (nat \<Rightarrow> app_error option) \<Rightarrow> es_index \<Rightarrow> es_query \<Rightarrow> int option \<Rightarrow> int \<Rightarrow> app_error \<Rightarrow> bool" where
  "scan_failure srv net idx query limit page_size err \<longleftrightarrow>
     err = ESError \<and> \<not> scan_arguments_ok limit page_size \<or> (\<exists>n. net n = Some err) \<or>
     err = ESQueryError \<and> (\<exists>rq. ess_query rq = query \<and> esv_search srv rq idx = None)"

lemma scan_outcome:
  assumes "es_hits_ok srv" and "distinct (map fst idx)"
  obtains ps e where "scan_references srv net idx q sort_by limit page_size score = Some (ps, e)"
    and "distinct (found_ids ps)" and "set (found_ids ps) \<subseteq> set (ids_matching srv idx (scan_query q score))"
    and "map sr_page ps = [1 ..< Suc (length ps)]"
    and "list_all (page_ok (nat page_size) (length (ids_matching srv idx (scan_query q score)))) ps"
    and "e = None \<longrightarrow> length (found_ids ps) =
          (case limit of None \<Rightarrow> length (ids_matching srv idx (scan_query q score))
           | Some l \<Rightarrow> min (nat l) (length (ids_matching srv idx (scan_query q score))))"
    and "\<forall>err. e = Some err \<longrightarrow> scan_failure srv net idx (scan_query q score) limit page_size err"
proof (cases "scan_arguments_ok limit page_size")
  case False
  from that [OF scan_refused_arguments [OF this]] False show ?thesis by (simp add: found_ids_def scan_failure_def)
next
  case True
  obtain ranked r where ids: "mset (map hit_id ranked) = mset (ids_matching srv idx (scan_query q score))"
    and run: "scan_references srv net idx q sort_by limit page_size score = Some r"
    and ok: "scan_ok (ask_page srv net idx (scan_query q score) (scan_keys sort_by score)) (nat page_size)
           (length ranked) 1 (limited (map_option nat limit) ranked) r"
    by (rule scan_engine.scan_references_ranked [OF scan_engine.intro [OF assms(1)] True])
  obtain ps e where r: "r = (ps, e)" by (cases r)
  let ?ids = "map hit_id ranked" and ?wanted = "ids_matching srv idx (scan_query q score)"
  have len: "length ranked = length ?wanted" using arg_cong [OF ids, of size] by simp
  have d: "distinct ?ids" using ids distinct_ids_matching [OF assms(2)] mset_eq_imp_distinct_iff by blast
  have pre: "prefix (found_ids ps) (limited (map_option nat limit) ?ids)"
    using ok unfolding r scan_ok_def found_ids_def limited_ids by (auto intro: map_mono_prefix)
  then have sub: "prefix (found_ids ps) ?ids"
    by (rule prefix_order.trans) (simp add: limited_def take_is_prefix split: option.splits)
  have all: "length (found_ids ps) = (case limit of None \<Rightarrow> length ?wanted | Some l \<Rightarrow> min (nat l) (length ?wanted))"
    if "e = None"
  proof -
    have "found_ids ps = limited (map_option nat limit) ?ids"
      using ok that unfolding r scan_ok_def found_ids_def limited_ids by simp
    then show ?thesis by (simp add: limited_length len split: option.splits)
  qed
  have err: "scan_failure srv net idx (scan_query q score) limit page_size err" if "e = Some err" for err
    using ok that ask_page_failure unfolding r scan_ok_def scan_failure_def by fastforce
  show ?thesis
  proof (rule that)
    show "scan_references srv net idx q sort_by limit page_size score = Some (ps, e)" by (simp add: run r)
    show "distinct (found_ids ps)" using sub d by (metis distinct_append prefixE)
    show "set (found_ids ps) \<subseteq> set ?wanted" using set_mono_prefix [OF sub] mset_eq_setD [OF ids] by simp
    show "map sr_page ps = [1 ..< Suc (length ps)]" "list_all (page_ok (nat page_size) (length ?wanted)) ps"
      using ok unfolding r scan_ok_def len by simp_all
  qed (use all err in auto)
qed

text \<open>
  C24 (termination). A scan always ends. Its pages are numbered from one, not empty, never larger
  than asked, and each carries the exact number of references matching; together they hold matching
  references only, each once. Without an exception they hold all of them, or as many as the limit
  allows. An exception comes from arguments out of range, a query that Elasticsearch refuses, or
  the connection.
\<close>

theorem scan_enumerates:
  assumes "es_hits_ok srv" and "distinct (map fst idx)"
  shows "\<exists>ps e. scan_references srv net idx q sort_by limit page_size score = Some (ps, e) \<and>
    (let wanted_ids = ids_matching srv idx (scan_query q score) in
     distinct (found_ids ps) \<and> set (found_ids ps) \<subseteq> set wanted_ids \<and>
     map sr_page ps = [1 ..< Suc (length ps)] \<and>
     list_all (page_ok (nat page_size) (length wanted_ids)) ps \<and>
     (case e of
        None \<Rightarrow> length (found_ids ps) =
          (case limit of None \<Rightarrow> length wanted_ids | Some l \<Rightarrow> min (nat l) (length wanted_ids))
      | Some err \<Rightarrow> scan_failure srv net idx (scan_query q score) limit page_size err))"
proof -
  obtain ps e where o: "scan_references srv net idx q sort_by limit page_size score = Some (ps, e)"
    "distinct (found_ids ps)" "set (found_ids ps) \<subseteq> set (ids_matching srv idx (scan_query q score))"
    "map sr_page ps = [1 ..< Suc (length ps)]"
    "list_all (page_ok (nat page_size) (length (ids_matching srv idx (scan_query q score)))) ps"
    "e = None \<longrightarrow> length (found_ids ps) =
          (case limit of None \<Rightarrow> length (ids_matching srv idx (scan_query q score))
           | Some l \<Rightarrow> min (nat l) (length (ids_matching srv idx (scan_query q score))))"
    "\<forall>err. e = Some err \<longrightarrow> scan_failure srv net idx (scan_query q score) limit page_size err"
    by (rule scan_outcome [OF assms])
  then show ?thesis by (cases e) (simp_all add: Let_def)
qed

text \<open>
  An engine that ranks by position in the snapshot, which is what \<^verbatim>\<open>_shard_doc\<close> stands for.
\<close>

definition documented_ranking :: "es_matcher \<Rightarrow> es_query \<Rightarrow> es_index \<Rightarrow> es_hit list" where
  "documented_ranking m q idx =
     map (\<lambda>(n, i, _). \<lparr> hit_id = i, hit_score = None, hit_sort = [str_nat n] \<rparr>)
       (enumerate 0 (filter (\<lambda>(_, d). m q d) idx))"

definition documented_search ::
    "(string \<Rightarrow> string list \<Rightarrow> reference_document \<Rightarrow> bool) \<Rightarrow> es_search \<Rightarrow> es_index \<Rightarrow>
     (es_hit list \<times> es_total option) option" where
  "documented_search lucene rq idx =
     (let ranked = documented_ranking (documented_matches lucene) (ess_query rq) idx
      in Some (take (ess_size rq)
                (case ess_search_after rq of
                   None \<Rightarrow> drop (nat (ess_from rq)) ranked
                 | Some v \<Rightarrow> search_after v ranked),
               if ess_track_total_hits rq = Some False then None else Some (exact_total (length ranked))))"

lemma documented_ranking_ids:
  "map hit_id (documented_ranking m q idx) = map fst (filter (\<lambda>(_, d). m q d) idx)"
proof -
  have "map (\<lambda>x. fst (snd x)) (enumerate n xs) = map fst xs" for n and xs :: "(uuid \<times> reference_document) list"
    by (induction xs arbitrary: n) simp_all
  then show ?thesis by (simp add: documented_ranking_def comp_def case_prod_beta)
qed

lemma documented_ranking_distinct: "distinct (map hit_sort (documented_ranking m q idx))"
proof -
  have "map hit_sort (documented_ranking m q idx) =
      map (\<lambda>n. [str_nat n]) (map fst (enumerate 0 (filter (\<lambda>(_, d). m q d) idx)))"
    by (simp add: documented_ranking_def comp_def case_prod_beta del: map_fst_enumerate)
  moreover have "inj (\<lambda>n. [str_nat n])" by (rule injI) (metis list.inject nat_of_digits_str_nat)
  ultimately show ?thesis by (simp add: distinct_map inj_on_def inj_def)
qed

interpretation documented_scan: scan_engine "documented_server lucene refuses (documented_search lucene)"
  for lucene refuses
proof
  show "es_hits_ok (documented_server lucene refuses (documented_search lucene))"
    unfolding es_hits_ok_def
  proof (intro allI)
    fix q keys idx
    let ?srv = "documented_server lucene refuses (documented_search lucene)"
      and ?ranked = "documented_ranking (documented_matches lucene) q idx"
    have "\<forall>rq. ess_query rq = q \<and> ess_sort rq = keys \<longrightarrow> answers_ranked ?srv idx ?ranked rq"
      by (simp add: answers_ranked_def documented_server_def documented_search_def Let_def)
    then show "\<exists>ranked. mset (map hit_id ranked) = mset (ids_matching ?srv idx q) \<and>
        (list_ex (\<lambda>k. sort_key_field k \<in> {''_shard_doc'', ''id''}) keys \<longrightarrow> distinct (map hit_sort ranked)) \<and>
        (\<forall>rq. ess_query rq = q \<and> ess_sort rq = keys \<longrightarrow> answers_ranked ?srv idx ranked rq)"
      using documented_ranking_distinct [of "documented_matches lucene" q idx]
      by (intro exI [of _ ?ranked])
        (simp add: documented_ranking_ids ids_matching_def documented_server_def case_prod_unfold)
  qed
qed

text \<open>Two matching references scanned in pages of one.\<close>

definition scan_server :: es_server where
  "scan_server = documented_server title_lucene (\<lambda>_. False) (documented_search title_lucene)"

definition scan_index :: es_index where
  "scan_index = [(1, document_from_domain sample_projection), (2, document_from_domain sample_projection)]"

theorem scan_enumerates_witness:
  "\<exists>ps. scan_references scan_server (\<lambda>_. None) scan_index sample_search None None 1 False = Some (ps, None) \<and>
     found_ids ps = [1, 2] \<and> ids_matching scan_server scan_index (scan_query sample_search False) = [1, 2]"
proof -
  have ok: "es_hits_ok scan_server" unfolding scan_server_def by (rule documented_scan.hits_ok)
  have d: "distinct (map fst scan_index)" by (simp add: scan_index_def)
  have run: "scan_references scan_server (\<lambda>_. None) scan_index sample_search None None 1 False =
      Some ([\<lparr> sr_hits = [\<lparr> sh_id = 1, sh_score = None \<rparr>], sr_total = \<lparr> tot_value = 2, tot_relation = ''eq'' \<rparr>, sr_page = 1 \<rparr>,
             \<lparr> sr_hits = [\<lparr> sh_id = 2, sh_score = None \<rparr>], sr_total = \<lparr> tot_value = 2, tot_relation = ''eq'' \<rparr>, sr_page = 2 \<rparr>], None)"
    by code_simp
  have ids: "ids_matching scan_server scan_index (scan_query sample_search False) = [1, 2]" by code_simp
  from scan_enumerates [OF ok d, of "\<lambda>_. None" sample_search None None 1 False] run ids show ?thesis
    by (auto simp: found_ids_def)
qed

end
