(* ===== verification/Search_Requests.thy ===== *)
theory Search_Requests
  imports Search_Scans Queue_Runs
begin

text \<open>
  Enhancement requests for every reference that a search matches: the route that registers one, and
  the task that scans the search and fills the queue of pending enhancements, page by page, each
  page in its own transaction (\<^verbatim>\<open>ReferenceService.collect_pending_enhancements_from_search\<close>).
  Other transactions on the queue may run between those of the task.
\<close>

type_synonym request_db = "search_query work_db"

section \<open>The request row\<close>

definition update_request ::
    "uuid \<Rightarrow> (search_query enhancement_request \<Rightarrow> search_query enhancement_request) \<Rightarrow> request_db \<Rightarrow> request_db result" where
  "update_request i f w =
     res_bind (repo_update_by_pk er_id (\<lambda>tbl. distinct (map er_id tbl)) validate_search_xor_reference_ids f i (w_requests w))
       (\<lambda>(_, tbl). Inr (w\<lparr> w_requests := tbl \<rparr>))"

definition claim_search_enhancement_request ::
    "uuid \<Rightarrow> request_db \<Rightarrow> (search_query enhancement_request option \<times> request_db) result" where
  "claim_search_enhancement_request i w =
     (case claim_search_request w i of (claimed, w1) \<Rightarrow>
        if \<not> claimed then Inr (None, w1)
        else res_bind (repo_get_by_pk er_id (w_requests w1) i) (\<lambda>r.
               if validate_search_xor_reference_ids r then Inr (Some r, w1) else Inl ValidationError))"

definition record_search_match_total :: "uuid \<Rightarrow> int \<Rightarrow> request_db \<Rightarrow> request_db result" where
  "record_search_match_total i n = update_request i (\<lambda>r. r\<lparr> er_n_matched := Some n \<rparr>)"

definition complete_search_enhancement_request :: "uuid \<Rightarrow> request_db \<Rightarrow> request_db result" where
  "complete_search_enhancement_request i = update_request i (\<lambda>r. r\<lparr> er_search_status := Some SS_COMPLETED \<rparr>)"

definition fail_search_enhancement_request :: "uuid \<Rightarrow> string \<Rightarrow> request_db \<Rightarrow> request_db result" where
  "fail_search_enhancement_request i err =
     update_request i (\<lambda>r. r\<lparr> er_search_status := Some SS_FAILED, er_error := Some err \<rparr>)"

section \<open>Registering a request\<close>

definition search_request ::
    "uuid \<Rightarrow> uuid \<Rightarrow> string option \<Rightarrow> string \<Rightarrow> search_query enhancement_request" where
  "search_request new_id robot_id source query_string =
     \<lparr> er_id = new_id, er_reference_ids = [], er_robot_id = robot_id, er_request_status = ER_RECEIVED,
       er_source = source,
       er_search = Some \<lparr> sq_query_string = query_string, sq_annotation_filters = [], sq_publication_year_range = None,
         sq_concept_filters = [], sq_country_filters = [], sq_region_filters = [] \<rparr>,
       er_search_status = Some SS_PENDING, er_n_matched = None, er_enhancement_parameters = None, er_error = None,
       er_reference_data_file = None, er_result_file = None, er_validation_result_file = None \<rparr>"

datatype search_response =
    MatchCount nat bool
  | RequestAccepted "search_query enhancement_request"
  | ServiceUnavailable

text \<open>\<open>enqueue\<close> is the outcome of handing the task to the broker, \<open>message\<close> prints an exception.\<close>

definition request_search_enhancement ::
    "es_server \<Rightarrow> es_index \<Rightarrow> (app_error \<Rightarrow> string) \<Rightarrow> unit result \<Rightarrow> bool \<Rightarrow> search_query enhancement_request \<Rightarrow>
     request_db \<Rightarrow> search_response result \<times> request_db" where
  "request_search_enhancement srv idx message enqueue dry_run r w =
     (if er_robot_id r \<notin> set (w_robots w) then (Inl SQLNotFoundError, w)
      else if dry_run
      then (res_bind (count_references srv idx (the (er_search r))) (\<lambda>t.
              Inr (MatchCount (tot_value t) (tot_relation t \<noteq> ''eq''))), w)
      else (case add_enhancement_request r w of
              Inl e \<Rightarrow> (Inl e, w)
            | Inr w1 \<Rightarrow>
                (case enqueue of
                   Inr _ \<Rightarrow> (Inr (RequestAccepted r), w1)
                 | Inl e \<Rightarrow>
                     (case fail_search_enhancement_request (er_id r)
                             (''Failed to enqueue collection task: '' @ message e) w1 of
                        Inl e' \<Rightarrow> (Inl e', w1)
                      | Inr w2 \<Rightarrow> (Inr ServiceUnavailable, w2)))))"

section \<open>Collecting\<close>

text \<open>
  The surroundings of the task: the search engine and its connection, identifiers and times drawn
  for each page, and what other transactions do to the tables before each transaction of the task.
\<close>

datatype moment = Recording | Creating nat | Settling

record collect_env =
  ce_server :: es_server
  ce_net :: "nat \<Rightarrow> app_error option"
  ce_index :: es_index
  ce_page_size :: int
  ce_fresh :: "nat \<Rightarrow> nat \<Rightarrow> uuid"
  ce_now :: "nat \<Rightarrow> datetime"
  ce_others :: "moment \<Rightarrow> request_db \<Rightarrow> request_db"
  ce_message :: "app_error \<Rightarrow> string"

definition record_total :: "collect_env \<Rightarrow> uuid \<Rightarrow> nat \<Rightarrow> request_db \<Rightarrow> app_error option \<times> request_db" where
  "record_total E i n w =
     (let w1 = ce_others E Recording w
      in case record_search_match_total i (int n) w1 of Inl e \<Rightarrow> (Some e, w1) | Inr w2 \<Rightarrow> (None, w2))"

definition collect_page :: "collect_env \<Rightarrow> uuid \<Rightarrow> uuid \<Rightarrow> search_result \<Rightarrow> request_db \<Rightarrow> app_error option \<times> request_db" where
  "collect_page E i robot_id p w =
     (let w1 = ce_others E (Creating (sr_page p)) w
      in case create_pending_enhancements (ce_fresh E (sr_page p)) (ce_now E (sr_page p)) robot_id
                (map sh_id (sr_hits p)) (Some i) None w1 of
           Inl e \<Rightarrow> (Some e, w1)
         | Inr w2 \<Rightarrow> (None, w2))"

fun collect_pages ::
    "collect_env \<Rightarrow> uuid \<Rightarrow> uuid \<Rightarrow> search_result list \<Rightarrow> request_db \<Rightarrow> app_error option \<times> request_db" where
  "collect_pages E i robot_id [] w = (None, w)"
| "collect_pages E i robot_id (p # ps) w =
     (case collect_page E i robot_id p w of
        (Some e, w1) \<Rightarrow> (Some e, w1)
      | (None, w1) \<Rightarrow> collect_pages E i robot_id ps w1)"

text \<open>The total is recorded with the first page, or as zero after a scan without pages.\<close>

definition collect_scan ::
    "collect_env \<Rightarrow> uuid \<Rightarrow> uuid \<Rightarrow> scan \<Rightarrow> request_db \<Rightarrow> app_error option \<times> request_db" where
  "collect_scan E i robot_id s w =
     (case s of
        ([], Some e) \<Rightarrow> (Some e, w)
      | ([], None) \<Rightarrow> record_total E i 0 w
      | (p # ps, scan_error) \<Rightarrow>
          (case record_total E i (tot_value (sr_total p)) w of
             (Some e, w1) \<Rightarrow> (Some e, w1)
           | (None, w1) \<Rightarrow>
               (case collect_pages E i robot_id (p # ps) w1 of
                  (Some e, w2) \<Rightarrow> (Some e, w2)
                | (None, w2) \<Rightarrow> (scan_error, w2))))"

definition settle_request :: "collect_env \<Rightarrow> uuid \<Rightarrow> app_error option \<Rightarrow> request_db \<Rightarrow> unit result \<times> request_db" where
  "settle_request E i failure w =
     (let w1 = ce_others E Settling w
      in case (case failure of
                 Some e \<Rightarrow> fail_search_enhancement_request i (''Failed to collect references: '' @ ce_message E e) w1
               | None \<Rightarrow> complete_search_enhancement_request i w1) of
           Inl e \<Rightarrow> (Inl e, w1)
         | Inr w2 \<Rightarrow> (Inr (), w2))"

definition collect_pending_enhancements_from_search ::
    "collect_env \<Rightarrow> uuid \<Rightarrow> request_db \<Rightarrow> (unit result \<times> request_db) option" where
  "collect_pending_enhancements_from_search E i w =
     (case claim_search_enhancement_request i w of
        Inl e \<Rightarrow> Some (Inl e, w)
      | Inr (None, w1) \<Rightarrow> Some (Inr (), w1)
      | Inr (Some r, w1) \<Rightarrow>
          (case er_search r of
             None \<Rightarrow>
               Some (case fail_search_enhancement_request i ''Request has no search to collect.'' (ce_others E Settling w1) of
                       Inl e \<Rightarrow> (Inl e, ce_others E Settling w1)
                     | Inr w2 \<Rightarrow> (Inr (), w2))
           | Some q \<Rightarrow>
               Option.bind (scan_references (ce_server E) (ce_net E) (ce_index E) q None None (ce_page_size E) False)
                 (\<lambda>s. case collect_scan E i (er_robot_id r) s w1 of (failure, w2) \<Rightarrow> Some (settle_request E i failure w2))))"

section \<open>What each transaction does to the request\<close>

definition request_rows :: "uuid \<Rightarrow> request_db \<Rightarrow> search_query enhancement_request list" where
  "request_rows i w = filter (\<lambda>r. er_id r = i) (w_requests w)"

text \<open>The references that have an original row of the request.\<close>

definition requested :: "uuid \<Rightarrow> request_db \<Rightarrow> uuid set" where
  "requested i w = {ref. \<exists>p \<in> set (w_pending w). non_retry_key p = Some (i, ref)}"

definition covers_request :: "uuid \<Rightarrow> uuid set \<Rightarrow> uuid set \<Rightarrow> request_db \<Rightarrow> request_db \<Rightarrow> bool" where
  "covers_request i lower upper w v =
     (set (w_references w) \<subseteq> set (w_references v) \<and>
      requested i w \<union> (lower \<inter> set (w_references w)) \<subseteq> requested i v \<and>
      requested i v \<subseteq> requested i w \<union> upper)"

lemma covers_request_trans:
  "covers_request i l u w v \<Longrightarrow> covers_request i l' u' v x \<Longrightarrow> covers_request i (l \<union> l') (u \<union> u') w x"
  unfolding covers_request_def by blast

lemma covers_request_weaken:
  "covers_request i l u w v \<Longrightarrow> l' \<subseteq> l \<Longrightarrow> u \<subseteq> u' \<Longrightarrow> covers_request i l' u' w v"
  unfolding covers_request_def by blast

lemma covers_request_same:
  "w_references v = w_references w \<Longrightarrow> w_pending v = w_pending w \<Longrightarrow> covers_request i {} {} w v"
  by (simp add: covers_request_def requested_def)

text \<open>What the task relies on other transactions for, and a state the task keeps.\<close>

definition quiet_others :: "nat \<Rightarrow> uuid \<Rightarrow> collect_env \<Rightarrow> bool" where
  "quiet_others m i E =
     (\<forall>mo w. queue_ok m w \<longrightarrow>
        (queue_step m)\<^sup>*\<^sup>* w (ce_others E mo w) \<and> request_rows i (ce_others E mo w) = request_rows i w \<and>
        set (w_references w) \<subseteq> set (w_references (ce_others E mo w)) \<and>
        requested i (ce_others E mo w) \<subseteq> requested i w)"

lemma requested_life:
  assumes "(queue_step m)\<^sup>*\<^sup>* w w'" and "queue_ok m w"
  shows "requested i w \<subseteq> requested i w'"
proof
  fix ref assume "ref \<in> requested i w"
  then obtain p where p: "p \<in> set (w_pending w)" "non_retry_key p = Some (i, ref)" by (auto simp: requested_def)
  from queue_runs_life [OF assms p(1)] obtain p' where p': "p' \<in> set (w_pending w')" "spine p' = spine p"
    by (auto simp: row_life_def)
  then have "non_retry_key p' = non_retry_key p" by (simp add: non_retry_key_def spine_def)
  with p p' show "ref \<in> requested i w'" by (auto simp: requested_def)
qed

lemma others_quiet:
  assumes "quiet_others m i E" and "queue_ok m w"
  shows "queue_ok m (ce_others E mo w)" and "request_rows i (ce_others E mo w) = request_rows i w"
    and "covers_request i {} {} w (ce_others E mo w)"
proof -
  from assms have q: "(queue_step m)\<^sup>*\<^sup>* w (ce_others E mo w)" by (simp add: quiet_others_def)
  show "queue_ok m (ce_others E mo w)" by (rule queue_runs_good [OF q assms(2)])
  show "request_rows i (ce_others E mo w) = request_rows i w" using assms by (simp add: quiet_others_def)
  show "covers_request i {} {} w (ce_others E mo w)"
    using assms requested_life [OF q assms(2), of i] by (auto simp: covers_request_def quiet_others_def)
qed

lemma request_row_found:
  assumes "request_rows i w = [r]"
  shows "find (\<lambda>r. er_id r = i) (w_requests w) = Some r"
proof -
  have "filter P xs = r # ys \<Longrightarrow> find P xs = Some r" for P xs ys by (induction xs) (auto split: if_splits)
  with assms show ?thesis by (simp add: request_rows_def)
qed

lemma update_request_ok:
  assumes ok: "queue_ok m w" and r: "request_rows i w = [r]"
    and f: "er_id (f r) = er_id r" and valid: "validate_search_xor_reference_ids (f r)"
  shows "\<exists>w'. update_request i f w = Inr w' \<and> queue_ok m w' \<and> request_rows i w' = [f r] \<and>
    covers_request i {} {} w w'"
proof -
  let ?tbl = "replace_row er_id (f r) (w_requests w)"
  let ?w' = "w\<lparr> w_requests := ?tbl \<rparr>"
  from r have "r \<in> set (request_rows i w)" by simp
  then have i: "er_id r = i" by (simp add: request_rows_def)
  have ids: "distinct (map er_id (w_requests w))" using ok by (simp add: queue_ok_def)
  have "update_request i f w = Inr ?w'"
    using valid ids by (simp add: update_request_def repo_update_by_pk_def request_row_found [OF r] flush_and_read_def)
  moreover have "around w ?w'" using ids by (simp add: around_def batch_heads_def)
  then have "queue_ok m ?w'" by (rule queue_ok_around [OF ok])
  moreover have "filter (\<lambda>x. er_id x = i) (replace_row er_id (f r) tbl) = map (\<lambda>_. f r) (filter (\<lambda>x. er_id x = i) tbl)" for tbl
    using f i by (induction tbl) (auto simp: replace_row_def)
  with r have "request_rows i ?w' = [f r]" by (simp add: request_rows_def)
  moreover have "covers_request i {} {} w ?w'" by (rule covers_request_same) simp_all
  ultimately show ?thesis by blast
qed

text \<open>Creating pending enhancements, whether or not some are there already.\<close>

lemma insert_unless_conflict_keys:
  "Some k \<in> non_retry_key ` set (fold insert_unless_conflict rs tbl) \<longleftrightarrow>
     Some k \<in> non_retry_key ` set tbl \<or> Some k \<in> non_retry_key ` set rs"
proof (induction rs arbitrary: tbl)
  case (Cons r rs)
  have "Some k \<in> non_retry_key ` set (insert_unless_conflict r tbl) \<longleftrightarrow>
      Some k \<in> non_retry_key ` set tbl \<or> Some k = non_retry_key r"
    by (force simp: insert_unless_conflict_def non_retry_conflict_def list_ex_iff)
  with Cons show ?case by auto
qed simp

lemma requested_iff: "ref \<in> requested i w \<longleftrightarrow> Some (i, ref) \<in> non_retry_key ` set (w_pending w)"
  by (force simp: requested_def)

lemma create_requested:
  assumes ok: "queue_ok m w"
    and run: "create_pending_enhancements fresh now robot refs (Some i) None w = Inr w'"
  shows "queue_ok m w' \<and> request_rows i w' = request_rows i w \<and> covers_request i (set refs) (set refs) w w'"
proof -
  have good: "queue_ok m w'" using create_good [OF ok run] by (simp add: good_step_def)
  let ?rs = "map (\<lambda>(j, ref). new_pending_enhancement (fresh j) now ref robot (Some i) None None) (enumerate 0 refs)"
  let ?known = "filter (\<lambda>r. pe_reference_id r \<in> set (w_references w)) ?rs"
  define tbl where "tbl = fold insert_unless_conflict ?known (w_pending w)"
  have w': "w' = w\<lparr> w_pending := tbl \<rparr>"
    unfolding tbl_def using run by (auto simp: create_pending_enhancements_def add_bulk_ignore_conflicts_def Let_def result_simps
        split: if_splits)
  have "map pe_reference_id ?rs = refs" by (rule nth_equalityI) (auto simp: nth_enumerate_eq new_pending_enhancement_def)
  then have refs: "pe_reference_id ` set ?rs = set refs" by (metis set_map)
  have "non_retry_key p = Some (i, pe_reference_id p)" if "p \<in> set ?known" for p
    using that by (auto simp: new_pending_enhancement_def non_retry_key_def)
  then have "non_retry_key ` set ?known = (\<lambda>p. Some (i, pe_reference_id p)) ` set ?known" by (rule image_cong [OF refl])
  also have "\<dots> = (\<lambda>ref. Some (i, ref)) ` (pe_reference_id ` set ?known)" by (simp only: image_image)
  also have "pe_reference_id ` set ?known = set refs \<inter> set (w_references w)"
    unfolding set_filter refs [symmetric] by blast
  finally have keys: "Some (i, ref) \<in> non_retry_key ` set ?known \<longleftrightarrow> ref \<in> set refs \<inter> set (w_references w)" for ref by auto
  have same: "w_pending w' = tbl" "w_references w' = w_references w" "w_requests w' = w_requests w" by (simp_all add: w')
  have "requested i w' = requested i w \<union> (set refs \<inter> set (w_references w))"
    unfolding set_eq_iff Un_iff requested_iff same tbl_def insert_unless_conflict_keys keys by (rule allI) (rule refl)
  then show ?thesis using good by (simp add: covers_request_def request_rows_def same) blast
qed

section \<open>A run of the task\<close>

text \<open>The state between two transactions of the task: its row is there, unsettled, and its work is done up to \<open>lower\<close>.\<close>

definition collecting ::
    "nat \<Rightarrow> uuid \<Rightarrow> search_query enhancement_request \<Rightarrow> uuid set \<Rightarrow> uuid set \<Rightarrow> request_db \<Rightarrow> request_db \<Rightarrow> bool" where
  "collecting m i r lower upper w v =
     (queue_ok m v \<and> request_rows i v = [r] \<and> covers_request i lower upper w v)"

lemma collecting_step:
  assumes "collecting m i r l u w v" and "queue_ok m v'" and "request_rows i v' = [r']" and "covers_request i l' u' v v'"
  shows "collecting m i r' (l \<union> l') (u \<union> u') w v'"
  using assms covers_request_trans unfolding collecting_def by blast

lemma collecting_weaken: "collecting m i r l u w v \<Longrightarrow> l' \<subseteq> l \<Longrightarrow> u \<subseteq> u' \<Longrightarrow> collecting m i r l' u' w v"
  using covers_request_weaken unfolding collecting_def by blast

lemma collecting_others:
  assumes "quiet_others m i E" and c: "collecting m i r l u w v"
  shows "collecting m i r l u w (ce_others E mo v)"
proof -
  have ok: "queue_ok m v" and row: "request_rows i v = [r]" using c by (simp_all add: collecting_def)
  note o = others_quiet [OF assms(1) ok, of mo]
  from collecting_step [OF c o(1) _ o(3)] o(2) row show ?thesis by simp
qed

lemma collecting_update:
  assumes c: "collecting m i r l u w v" and "er_id (f r) = er_id r" and "validate_search_xor_reference_ids (f r)"
  obtains v' where "update_request i f v = Inr v'" and "collecting m i (f r) l u w v'"
proof -
  have ok: "queue_ok m v" and row: "request_rows i v = [r]" using c by (simp_all add: collecting_def)
  from update_request_ok [OF ok row, of f, OF assms(2,3)] obtain v' where "update_request i f v = Inr v'"
    "queue_ok m v'" "request_rows i v' = [f r]" "covers_request i {} {} v v'" by blast
  with that collecting_step [OF c, of v' "f r" "{}" "{}"] show thesis by simp
qed

text \<open>Why a page can fail.\<close>

definition creation_fails :: "nat \<Rightarrow> collect_env \<Rightarrow> uuid \<Rightarrow> uuid \<Rightarrow> app_error \<Rightarrow> bool" where
  "creation_fails m E i robot_id e =
     (\<exists>page refs (v :: request_db). queue_ok m v \<and>
        create_pending_enhancements (ce_fresh E page) (ce_now E page) robot_id refs (Some i) None v = Inl e)"

lemma collect_page_ok:
  assumes q: "quiet_others m i E" and c: "collecting m i r l u w v"
    and run: "collect_page E i robot p v = (e, v')" and "set (map sh_id (sr_hits p)) \<subseteq> u"
  shows "case e of
      None \<Rightarrow> collecting m i r (l \<union> set (map sh_id (sr_hits p))) u w v'
    | Some err \<Rightarrow> collecting m i r l u w v' \<and> creation_fails m E i robot err"
proof -
  let ?refs = "map sh_id (sr_hits p)" and ?v1 = "ce_others E (Creating (sr_page p)) v"
  let ?create = "create_pending_enhancements (ce_fresh E (sr_page p)) (ce_now E (sr_page p)) robot ?refs (Some i) None ?v1"
  have c1: "collecting m i r l u w ?v1" by (rule collecting_others [OF q c])
  then have ok: "queue_ok m ?v1" and row: "request_rows i ?v1 = [r]" by (simp_all add: collecting_def)
  show ?thesis
  proof (cases ?create)
    case (Inl err)
    with ok have "creation_fails m E i robot err" unfolding creation_fails_def by blast
    with Inl run c1 show ?thesis by (auto simp: collect_page_def Let_def)
  next
    case (Inr v2)
    from create_requested [OF ok Inr] row have "queue_ok m v2" "request_rows i v2 = [r]"
      "covers_request i (set ?refs) (set ?refs) ?v1 v2" by simp_all
    from collecting_weaken [OF collecting_step [OF c1 this], of "l \<union> set ?refs" u] assms(4)
    have "collecting m i r (l \<union> set ?refs) u w v2" by blast
    moreover from run Inr have "e = None" "v' = v2" by (auto simp: collect_page_def Let_def)
    ultimately show ?thesis by simp
  qed
qed

lemma collect_pages_ok:
  assumes q: "quiet_others m i E" and "collecting m i r l u w v"
    and "collect_pages E i robot ps v = (e, v')" and "set (found_ids ps) \<subseteq> u"
  shows "case e of
      None \<Rightarrow> collecting m i r (l \<union> set (found_ids ps)) u w v'
    | Some err \<Rightarrow> collecting m i r l u w v' \<and> creation_fails m E i robot err"
  using assms(2-)
proof (induction ps arbitrary: l v)
  case Nil
  then show ?case by (auto simp: found_ids_def)
next
  case (Cons p ps)
  have ids: "set (found_ids (p # ps)) = set (map sh_id (sr_hits p)) \<union> set (found_ids ps)" by (simp add: found_ids_def)
  obtain e1 v1 where run: "collect_page E i robot p v = (e1, v1)" by (cases "collect_page E i robot p v")
  have page: "case e1 of
      None \<Rightarrow> collecting m i r (l \<union> set (map sh_id (sr_hits p))) u w v1
    | Some err \<Rightarrow> collecting m i r l u w v1 \<and> creation_fails m E i robot err"
    by (rule collect_page_ok [OF q Cons.prems(1) run]) (use Cons.prems(3) ids in blast)
  show ?case
  proof (cases e1)
    case (Some err)
    with page run Cons.prems(2) show ?thesis by auto
  next
    case None
    with page have c1: "collecting m i r (l \<union> set (map sh_id (sr_hits p))) u w v1" by simp
    from None run Cons.prems(2) have rest: "collect_pages E i robot ps v1 = (e, v')" by simp
    have "case e of
        None \<Rightarrow> collecting m i r (l \<union> set (map sh_id (sr_hits p)) \<union> set (found_ids ps)) u w v'
      | Some err \<Rightarrow> collecting m i r (l \<union> set (map sh_id (sr_hits p))) u w v' \<and> creation_fails m E i robot err"
      by (rule Cons.IH [OF c1 rest]) (use Cons.prems(3) ids in blast)
    then show ?thesis unfolding ids by (auto simp: Un_assoc split: option.splits intro: collecting_weaken)
  qed
qed

lemma searching_valid: "er_search r = Some q \<Longrightarrow> er_reference_ids r = [] \<Longrightarrow> validate_search_xor_reference_ids r"
  by (simp add: validate_search_xor_reference_ids_def)

lemma record_total_ok:
  assumes q: "quiet_others m i E" and c: "collecting m i r l u w v" and "er_search r = Some s" and "er_reference_ids r = []"
  obtains v' where "record_total E i n v = (None, v')"
    and "collecting m i (r\<lparr> er_n_matched := Some (int n) \<rparr>) l u w v'"
proof -
  from collecting_update [OF collecting_others [OF q c, of Recording], of "\<lambda>r. r\<lparr> er_n_matched := Some (int n) \<rparr>"]
    assms(3,4) obtain v' where "record_search_match_total i (int n) (ce_others E Recording v) = Inr v'"
    "collecting m i (r\<lparr> er_n_matched := Some (int n) \<rparr>) l u w v'"
    by (auto simp: record_search_match_total_def searching_valid)
  with that show thesis by (simp add: record_total_def Let_def)
qed

definition settled_row :: "collect_env \<Rightarrow> app_error option \<Rightarrow> search_query enhancement_request \<Rightarrow> search_query enhancement_request" where
  "settled_row E failure r =
     (case failure of
        None \<Rightarrow> r\<lparr> er_search_status := Some SS_COMPLETED \<rparr>
      | Some e \<Rightarrow> r\<lparr> er_search_status := Some SS_FAILED, er_error := Some (''Failed to collect references: '' @ ce_message E e) \<rparr>)"

lemma settle_request_ok:
  assumes q: "quiet_others m i E" and c: "collecting m i r l u w v" and "er_search r = Some s" and "er_reference_ids r = []"
  obtains v' where "settle_request E i failure v = (Inr (), v')" and "collecting m i (settled_row E failure r) l u w v'"
proof -
  have f: "er_id (settled_row E failure r) = er_id r" "validate_search_xor_reference_ids (settled_row E failure r)"
    using assms(3,4) by (auto simp: settled_row_def searching_valid split: option.splits)
  have "(case failure of
      Some e \<Rightarrow> fail_search_enhancement_request i (''Failed to collect references: '' @ ce_message E e) x
    | None \<Rightarrow> complete_search_enhancement_request i x) = update_request i (settled_row E failure) x" for x
    by (auto simp: settled_row_def [abs_def] fail_search_enhancement_request_def complete_search_enhancement_request_def
        split: option.splits)
  moreover from collecting_update [OF collecting_others [OF q c, of Settling], of "settled_row E failure", OF f]
  obtain v' where "update_request i (settled_row E failure) (ce_others E Settling v) = Inr v'"
    "collecting m i (settled_row E failure r) l u w v'" .
  ultimately show thesis using that by (simp add: settle_request_def Let_def)
qed

lemma collect_scan_ok:
  assumes q: "quiet_others m i E" and c: "collecting m i r {} u w v" and r: "er_search r = Some s" "er_reference_ids r = []"
    and ids: "set (found_ids ps) \<subseteq> u" and tot: "list_all (\<lambda>p. tot_value (sr_total p) = n) ps"
    and none: "ps = [] \<Longrightarrow> err = None \<Longrightarrow> n = 0"
    and run: "collect_scan E i robot (ps, err) v = (failure, v')"
  shows "case failure of
      None \<Rightarrow> err = None \<and> collecting m i (r\<lparr> er_n_matched := Some (int n) \<rparr>) (set (found_ids ps)) u w v'
    | Some e \<Rightarrow> (err = Some e \<or> creation_fails m E i robot e) \<and>
        (\<exists>k. collecting m i (r\<lparr> er_n_matched := k \<rparr>) {} u w v')"
proof (cases ps)
  case Nil
  show ?thesis
  proof (cases err)
    case None
    obtain v1 where "record_total E i 0 v = (None, v1)" "collecting m i (r\<lparr> er_n_matched := Some (int 0) \<rparr>) {} u w v1"
      by (rule record_total_ok [OF q c r])
    with run Nil None none show ?thesis by (auto simp: collect_scan_def found_ids_def)
  next
    case (Some e)
    have "r\<lparr> er_n_matched := er_n_matched r \<rparr> = r" by simp
    with run Nil Some c show ?thesis by (auto simp: collect_scan_def intro!: exI [of _ "er_n_matched r"])
  qed
next
  case (Cons p rest)
  let ?r = "r\<lparr> er_n_matched := Some (int n) \<rparr>"
  obtain v1 where rec: "record_total E i n v = (None, v1)" and c1: "collecting m i ?r {} u w v1"
    by (rule record_total_ok [OF q c r])
  obtain e v2 where pages: "collect_pages E i robot ps v1 = (e, v2)" by (cases "collect_pages E i robot ps v1")
  note ok = collect_pages_ok [OF q c1 pages ids]
  have result: "(failure, v') = (case e of Some x \<Rightarrow> Some x | None \<Rightarrow> err, v2)"
    using run rec pages tot Cons by (auto simp: collect_scan_def split: option.splits)
  show ?thesis
  proof (cases e)
    case None
    with ok have done_all: "collecting m i ?r (set (found_ids ps)) u w v2" by simp
    moreover have "collecting m i ?r {} u w v2" by (rule collecting_weaken [OF done_all]) auto
    ultimately show ?thesis using None result by (auto split: option.splits)
  qed (use ok result in auto)
qed

lemma claim_ok:
  assumes "queue_ok m w" and "r \<in> set (w_requests w)" and i: "er_id r = i"
    and "er_search_status r \<in> {Some SS_PENDING, Some SS_SEARCHING}" and "er_search r = Some s" and "er_reference_ids r = []"
  obtains w1 where "claim_search_enhancement_request i w = Inr (Some (r\<lparr> er_search_status := Some SS_SEARCHING \<rparr>), w1)"
    and "collecting m i (r\<lparr> er_search_status := Some SS_SEARCHING \<rparr>) {} {} w w1"
proof -
  let ?r = "r\<lparr> er_search_status := Some SS_SEARCHING \<rparr>"
  have "distinct (map er_id (w_requests w))" using assms(1) by (simp add: queue_ok_def)
  moreover have "distinct (map er_id xs) \<Longrightarrow> r \<in> set xs \<Longrightarrow> filter (\<lambda>x. er_id x = er_id r) xs = [r]" for xs
    by (induction xs) (auto simp: filter_empty_conv intro: rev_image_eqI)
  ultimately have row: "request_rows i w = [r]" using assms(2) i by (simp add: request_rows_def)
  obtain c w1 where cl: "claim_search_request w i = (c, w1)" by (cases "claim_search_request w i")
  have c: c using cl assms(2-4) by (auto simp: claim_search_request_def Let_def list_ex_iff)
  have ok: "queue_ok m w1" by (rule queue_ok_around [OF assms(1) claim_search_around [OF cl assms(1)]])
  have w1: "w1 = w\<lparr> w_requests := map (\<lambda>r. if er_id r = i \<and> er_search_status r \<in> {Some SS_PENDING, Some SS_SEARCHING}
      then r\<lparr> er_search_status := Some SS_SEARCHING \<rparr> else r) (w_requests w) \<rparr>"
    using cl by (simp add: claim_search_request_def Let_def)
  have "filter (\<lambda>r. er_id r = i) (map (\<lambda>r. if er_id r = i \<and> P r then f r else r) xs) =
      map (\<lambda>r. if P r then f r else r) (filter (\<lambda>r. er_id r = i) xs)"
    if "\<And>r. er_id (f r) = er_id r" for P f and xs :: "search_query enhancement_request list"
    using that by (induction xs) auto
  from this [of "\<lambda>r. r\<lparr> er_search_status := Some SS_SEARCHING \<rparr>"] row assms(4)
  have row1: "request_rows i w1 = [?r]" by (simp add: request_rows_def w1)
  have cov: "covers_request i {} {} w w1" by (rule covers_request_same) (simp_all add: w1)
  have "claim_search_enhancement_request i w = Inr (Some ?r, w1)"
    using cl c assms(5,6)
    by (simp add: claim_search_enhancement_request_def repo_get_by_pk_def request_row_found [OF row1] searching_valid)
  with that ok row1 cov show thesis by (simp add: collecting_def)
qed

section \<open>Properties\<close>


text \<open>A request over the two references of the sample index, one page each.\<close>

definition collect_sample :: collect_env where
  "collect_sample =
     \<lparr> ce_server = scan_server, ce_net = (\<lambda>_. None), ce_index = scan_index, ce_page_size = 1,
       ce_fresh = (\<lambda>page j. 100 + 10 * page + j), ce_now = (\<lambda>_. 0), ce_others = (\<lambda>_ w. w), ce_message = (\<lambda>_. []) \<rparr>"

definition requested_sample :: request_db where
  "requested_sample =
     \<lparr> w_references = [1, 2, 3], w_robots = [7],
       w_requests = [(search_request 5 7 None ''pigs'')\<lparr> er_search := Some sample_search \<rparr>],
       w_batches = [], w_pending = [] \<rparr>"


end
