(* ===== verification/Ris_Records.thy ===== *)
theory Ris_Records
  imports Projections
begin

text \<open>
  The RIS citation format: \<^verbatim>\<open>src/app/domain/references/models/ris.py\<close>, the repair of text in
  \<^verbatim>\<open>src/app/utils/strings.py\<close>, and the projection of a reference to a record
  (\<^verbatim>\<open>ReferenceRisProjection\<close> in \<^verbatim>\<open>models/projections.py\<close>).

  The texts of a record are lists of code points, since repairing a text can produce any code
  point; the strings of the other models hold code points below 256.
\<close>

section \<open>Text\<close>

type_synonym utext = "nat list"

definition code_points :: "string \<Rightarrow> utext" where
  "code_points s = map of_char s"

definition newline_points :: "nat list" where
  "newline_points = [10, 13, 133, 8232, 8233]"

definition flatten_newlines :: "utext \<Rightarrow> utext" where
  "flatten_newlines t = map (\<lambda>c. if c \<in> set newline_points then 32 else c) t"

text \<open>\<^verbatim>\<open>MOJIBAKE_SIGNATURE.search\<close>.\<close>

definition utf8_continuation :: "nat \<Rightarrow> bool" where
  "utf8_continuation b = (128 \<le> b \<and> b \<le> 191)"

fun mojibake_signature :: "utext \<Rightarrow> bool" where
  "mojibake_signature [] = False"
| "mojibake_signature [c] = (128 \<le> c \<and> c \<le> 159)"
| "mojibake_signature (c # d # cs) =
     (194 \<le> c \<and> c \<le> 244 \<and> utf8_continuation d \<or> 128 \<le> c \<and> c \<le> 159 \<or> mojibake_signature (d # cs))"

text \<open>\<^verbatim>\<open>bytes.decode("utf-8")\<close>, strict: no overlong forms, no surrogates.\<close>

fun utf8_decode :: "nat list \<Rightarrow> utext option" where
  "utf8_decode [] = Some []"
| "utf8_decode (b # bs) =
     (if b < 128 then map_option (Cons b) (utf8_decode bs)
      else if 194 \<le> b \<and> b \<le> 223 then
        (case bs of
           c # r \<Rightarrow>
             if utf8_continuation c
             then map_option (Cons ((b - 192) * 64 + (c - 128))) (utf8_decode r) else None
         | _ \<Rightarrow> None)
      else if 224 \<le> b \<and> b \<le> 239 then
        (case bs of
           c # d # r \<Rightarrow>
             (let u = (b - 224) * 4096 + (c - 128) * 64 + (d - 128)
              in if utf8_continuation c \<and> utf8_continuation d \<and> 2048 \<le> u \<and> \<not> (55296 \<le> u \<and> u \<le> 57343)
                 then map_option (Cons u) (utf8_decode r) else None)
         | _ \<Rightarrow> None)
      else if 240 \<le> b \<and> b \<le> 244 then
        (case bs of
           c # d # e # r \<Rightarrow>
             (let u = (b - 240) * 262144 + (c - 128) * 4096 + (d - 128) * 64 + (e - 128)
              in if utf8_continuation c \<and> utf8_continuation d \<and> utf8_continuation e \<and> 65536 \<le> u \<and> u \<le> 1114111
                 then map_option (Cons u) (utf8_decode r) else None)
         | _ \<Rightarrow> None)
      else None)"

definition latin1_encode :: "utext \<Rightarrow> nat list option" where
  "latin1_encode t = (if list_all (\<lambda>c. c < 256) t then Some t else None)"

definition demojibake :: "utext \<Rightarrow> utext" where
  "demojibake t =
     (if \<not> mojibake_signature t then t
      else (case Option.bind (latin1_encode t) utf8_decode of None \<Rightarrow> t | Some u \<Rightarrow> u))"

section \<open>Records\<close>

datatype ris_type = RIS_JOURNAL | RIS_CONFERENCE | RIS_SERIAL | RIS_BOOK | RIS_GENERIC

fun ris_type_value :: "ris_type \<Rightarrow> string" where
  "ris_type_value RIS_JOURNAL = ''JOUR''"
| "ris_type_value RIS_CONFERENCE = ''CONF''"
| "ris_type_value RIS_SERIAL = ''SER''"
| "ris_type_value RIS_BOOK = ''BOOK''"
| "ris_type_value RIS_GENERIC = ''GEN''"

record ris_record =
  ris_reference_type :: ris_type
  ris_title :: "utext option"
  ris_authors :: "utext list"
  ris_publication_year :: "int option"
  ris_publication_date :: "py_date option"
  ris_journal :: "utext option"
  ris_volume :: "utext option"
  ris_issue :: "utext option"
  ris_start_page :: "utext option"
  ris_end_page :: "utext option"
  ris_publisher :: "utext option"
  ris_issns :: "utext list"
  ris_doi :: "utext option"
  ris_accession :: "utext option"
  ris_database :: "utext option"
  ris_pdf_url :: "utext option"
  ris_urls :: "utext list"
  ris_abstract :: "utext option"

text \<open>The values of a field, and \<^verbatim>\<open>_field_tags\<close>: names and tags in the order of declaration.\<close>

datatype ris_value = RisList "utext list" | RisText "utext option" | RisInt "int option" | RisDate "py_date option"

definition ris_fields :: "ris_record \<Rightarrow> (string \<times> string \<times> ris_value) list" where
  "ris_fields r =
     [(''title'', ''TI'', RisText (ris_title r)), (''authors'', ''AU'', RisList (ris_authors r)),
      (''publication_year'', ''PY'', RisInt (ris_publication_year r)),
      (''publication_date'', ''DA'', RisDate (ris_publication_date r)),
      (''journal'', ''T2'', RisText (ris_journal r)), (''volume'', ''VL'', RisText (ris_volume r)),
      (''issue'', ''IS'', RisText (ris_issue r)), (''start_page'', ''SP'', RisText (ris_start_page r)),
      (''end_page'', ''EP'', RisText (ris_end_page r)), (''publisher'', ''PB'', RisText (ris_publisher r)),
      (''issns'', ''SN'', RisList (ris_issns r)), (''doi'', ''DO'', RisText (ris_doi r)),
      (''accession'', ''AN'', RisText (ris_accession r)), (''database'', ''DB'', RisText (ris_database r)),
      (''pdf_url'', ''L1'', RisText (ris_pdf_url r)), (''urls'', ''UR'', RisList (ris_urls r)),
      (''abstract'', ''AB'', RisText (ris_abstract r))]"

text \<open>\<^verbatim>\<open>strftime("%Y/%m/%d")\<close>, with the year as long as it is.\<close>

definition pad2 :: "nat \<Rightarrow> string" where
  "pad2 n = (if n < 10 then ''0'' @ str_nat n else str_nat n)"

definition ris_date :: "py_date \<Rightarrow> string" where
  "ris_date d = str_int (date_year d) @ ''/'' @ pad2 (date_month d) @ ''/'' @ pad2 (date_day d)"

fun ris_values :: "ris_value \<Rightarrow> utext list" where
  "ris_values (RisList vs) = filter (\<lambda>v. v \<noteq> []) vs"
| "ris_values (RisText v) = (case v of Some (c # cs) \<Rightarrow> [c # cs] | _ \<Rightarrow> [])"
| "ris_values (RisInt v) = (case v of Some n \<Rightarrow> [code_points (str_int n)] | None \<Rightarrow> [])"
| "ris_values (RisDate v) = (case v of Some d \<Rightarrow> [code_points (ris_date d)] | None \<Rightarrow> [])"

definition ris_line :: "string \<Rightarrow> utext \<Rightarrow> utext" where
  "ris_line tag v = code_points (tag @ ''  - '') @ flatten_newlines (demojibake v)"

fun join_lines :: "utext list \<Rightarrow> utext" where
  "join_lines [] = []"
| "join_lines [l] = l"
| "join_lines (l # ls) = l @ 10 # join_lines ls"

definition ris_lines :: "string list \<Rightarrow> ris_record \<Rightarrow> utext list" where
  "ris_lines exclude r =
     [ris_line ''TY'' (code_points (ris_type_value (ris_reference_type r)))] @
     concat (map (\<lambda>(name, tag, v). if name \<in> set exclude then [] else map (ris_line tag) (ris_values v)) (ris_fields r)) @
     [code_points ''ER  - '']"

definition ris_render :: "string list \<Rightarrow> ris_record \<Rightarrow> utext result" where
  "ris_render exclude r =
     (if \<not> set exclude \<subseteq> set (map fst (ris_fields r)) then Inl PyValueError
      else Inr (join_lines (ris_lines exclude r)))"

section \<open>Projection\<close>

record ris_acc =
  ra_title :: "string option"
  ra_authorship :: "authorship list"
  ra_year :: "int option"
  ra_date :: "py_date option"
  ra_publisher :: "string option"
  ra_abstract :: "string option"
  ra_pagination :: "pagination option"
  ra_venue :: "publication_venue option"
  ra_urls :: "string list"
  ra_pdf_url :: "string option"

definition ris_acc0 :: ris_acc where
  "ris_acc0 = \<lparr> ra_title = None, ra_authorship = [], ra_year = None, ra_date = None, ra_publisher = None,
     ra_abstract = None, ra_pagination = None, ra_venue = None, ra_urls = [], ra_pdf_url = None \<rparr>"

definition ris_step :: "enhancement \<Rightarrow> ris_acc \<Rightarrow> ris_acc" where
  "ris_step e acc =
     (case enh_content e of
        BibliographicMetadataEnhancement b \<Rightarrow>
          acc \<lparr> ra_title := or_str (bib_title b) (ra_title acc),
                ra_authorship := or_list (bib_authorship b) (ra_authorship acc),
                ra_year := or_int (bib_year b) (ra_year acc),
                ra_date := or_opt (bib_publication_date b) (ra_date acc),
                ra_publisher := or_str (bib_publisher b) (ra_publisher acc),
                ra_pagination := or_opt (bib_pagination b) (ra_pagination acc),
                ra_venue := or_opt (bib_publication_venue b) (ra_venue acc) \<rparr>
      | AbstractContentEnhancement a \<Rightarrow> acc \<lparr> ra_abstract := Some (abs_abstract a) \<rparr>
      | LocationEnhancement ls \<Rightarrow>
          acc \<lparr> ra_urls := or_list (Some (List.map_filter loc_landing_page_url ls)) (ra_urls acc),
                ra_pdf_url := (case List.map_filter loc_pdf_url ls of [] \<Rightarrow> ra_pdf_url acc | u # _ \<Rightarrow> Some u) \<rparr>
      | _ \<Rightarrow> acc)"

definition venue_type_to_ris_type :: "publication_venue_type \<Rightarrow> ris_type" where
  "venue_type_to_ris_type t =
     (case t of
        VT_JOURNAL \<Rightarrow> RIS_JOURNAL
      | VT_CONFERENCE \<Rightarrow> RIS_CONFERENCE
      | VT_REPOSITORY \<Rightarrow> RIS_GENERIC
      | VT_BOOK_SERIES \<Rightarrow> RIS_SERIAL
      | VT_EBOOK_PLATFORM \<Rightarrow> RIS_BOOK
      | VT_OTHER \<Rightarrow> RIS_GENERIC)"

definition ris_type_of :: "publication_venue option \<Rightarrow> ris_type" where
  "ris_type_of venue =
     (case Option.bind venue pv_venue_type of None \<Rightarrow> RIS_GENERIC | Some t \<Rightarrow> venue_type_to_ris_type t)"

definition identifier_value :: "external_identifier_type \<Rightarrow> linked_external_identifier list \<Rightarrow> string option" where
  "identifier_value t ids =
     map_option (\<lambda>l. identifier_str (lei_identifier l)) (find (\<lambda>l. identifier_type (lei_identifier l) = t) ids)"

text \<open>The templates: what stands before and after the identifier.\<close>

definition identifier_url_template :: "external_identifier_type \<Rightarrow> (string \<times> string) option" where
  "identifier_url_template t =
     (case t of
        ID_DOI \<Rightarrow> Some (''https://doi.org/'', [])
      | ID_PM_ID \<Rightarrow> Some (''https://pubmed.ncbi.nlm.nih.gov/'', ''/'')
      | ID_OPEN_ALEX \<Rightarrow> Some (''https://openalex.org/'', [])
      | ID_ERIC \<Rightarrow> Some (''https://eric.ed.gov/?id='', [])
      | ID_PRO_QUEST \<Rightarrow> Some (''https://www.proquest.com/docview/'', [])
      | ID_URL \<Rightarrow> Some ([], [])
      | ID_OTHER \<Rightarrow> None)"

definition identifier_urls :: "linked_external_identifier list \<Rightarrow> string list" where
  "identifier_urls ids =
     List.map_filter (\<lambda>l. map_option (\<lambda>(pre, post). pre @ identifier_str (lei_identifier l) @ post)
       (identifier_url_template (identifier_type (lei_identifier l)))) ids"

definition ris_of_acc :: "uuid \<Rightarrow> linked_external_identifier list \<Rightarrow> ris_acc \<Rightarrow> ris_record" where
  "ris_of_acc i ids acc =
     (let t = map_option code_points;
          venue = ra_venue acc;
          pg = ra_pagination acc
      in \<lparr> ris_reference_type = ris_type_of venue,
           ris_title = t (ra_title acc),
           ris_authors = map code_points (order_authorship_by_position False (ra_authorship acc)),
           ris_publication_year = ra_year acc,
           ris_publication_date = ra_date acc,
           ris_journal = t (Option.bind venue pv_display_name),
           ris_volume = t (Option.bind pg pg_volume),
           ris_issue = t (Option.bind pg pg_issue),
           ris_start_page = t (Option.bind pg pg_first_page),
           ris_end_page = t (Option.bind pg pg_last_page),
           ris_publisher = t (or_str (ra_publisher acc) (Option.bind venue pv_host_organization_name)),
           ris_issns = map code_points (opt_list (Option.bind venue pv_issn)),
           ris_doi = t (identifier_value ID_DOI ids),
           ris_accession = Some (code_points (str_uuid i)),
           ris_database = Some (code_points ''Evidence Repository''),
           ris_pdf_url = t (ra_pdf_url acc),
           ris_urls = map code_points (dict_fromkeys (ra_urls acc @ identifier_urls ids)),
           ris_abstract = t (ra_abstract acc) \<rparr>)"

definition ris_from_reference :: "'r reference_t \<Rightarrow> ris_record result" where
  "ris_from_reference reference =
     as_projection_error
       (res_bind (priority_sorted_enhancements (ref_id reference) (ref_enhancements reference)) (\<lambda>es.
          Inr (ris_of_acc (ref_id reference) (opt_list (ref_identifiers reference)) (fold ris_step es ris_acc0))))"

section \<open>Reading RIS\<close>

text \<open>
  A reader of the format: lines end at line feeds, a line is a tag of two characters, two spaces, a
  hyphen and a space, and the value; a record ends at the tag \<^verbatim>\<open>ER\<close>.
\<close>

fun split_lines :: "utext \<Rightarrow> utext list" where
  "split_lines [] = []"
| "split_lines (c # cs) =
     (if c = 10 then [] # split_lines cs
      else (case split_lines cs of [] \<Rightarrow> [[c]] | l # ls \<Rightarrow> (c # l) # ls))"

definition read_line :: "utext \<Rightarrow> utext \<times> utext" where
  "read_line l = (take 2 l, drop 6 l)"

fun read_records :: "(utext \<times> utext) list \<Rightarrow> (utext \<times> utext) list \<Rightarrow> (utext \<times> utext) list list" where
  "read_records acc [] = (if acc = [] then [] else [rev acc])"
| "read_records acc ((tag, v) # ls) =
     (if tag = code_points ''ER'' then rev acc # read_records [] ls else read_records ((tag, v) # acc) ls)"

definition read_ris :: "utext \<Rightarrow> (utext \<times> utext) list list" where
  "read_ris t = read_records [] (map read_line (split_lines t))"

text \<open>What a record says: its type and the non-empty values of its fields, each on one line.\<close>

definition ris_entries :: "string list \<Rightarrow> ris_record \<Rightarrow> (utext \<times> utext) list" where
  "ris_entries exclude r =
     map (\<lambda>(tag, v). (code_points tag, flatten_newlines (demojibake v)))
       ((''TY'', code_points (ris_type_value (ris_reference_type r))) #
        concat (map (\<lambda>(name, tag, v). if name \<in> set exclude then [] else map (Pair tag) (ris_values v)) (ris_fields r)))"

lemma split_lines_line: "10 \<notin> set l \<Longrightarrow> split_lines (l @ 10 # rest) = l # split_lines rest"
  by (induction l) auto

lemma flatten_no_newline [simp]: "10 \<notin> set (flatten_newlines t)"
  by (auto simp: flatten_newlines_def newline_points_def)

lemma split_join_lines:
  "ls \<noteq> [] \<Longrightarrow> \<forall>l \<in> set ls. 10 \<notin> set l \<Longrightarrow> split_lines (join_lines ls @ 10 # rest) = ls @ split_lines rest"
  by (induction ls rule: join_lines.induct) (auto simp: split_lines_line)

definition good_tag :: "string \<Rightarrow> bool" where
  "good_tag tag = (length tag = 2 \<and> 10 \<notin> set (code_points tag) \<and> tag \<noteq> ''ER'')"

lemma ris_fields_tags: "(name, tag, v) \<in> set (ris_fields r) \<Longrightarrow> good_tag tag"
  by (auto simp: ris_fields_def good_tag_def code_points_def)

lemma code_points_inj [simp]: "code_points s = code_points t \<longleftrightarrow> s = t"
  unfolding code_points_def by (rule inj_map_eq_map [OF inj_of_char])

lemma ris_line_no_newline: "good_tag tag \<Longrightarrow> 10 \<notin> set (ris_line tag v)"
  by (auto simp: ris_line_def good_tag_def code_points_def)

lemma read_ris_line: "good_tag tag \<Longrightarrow> read_line (ris_line tag v) = (code_points tag, flatten_newlines (demojibake v))"
  by (simp add: read_line_def ris_line_def good_tag_def code_points_def)

text \<open>The tagged values of a record, before they are laid out as lines.\<close>

definition tagged_values :: "string list \<Rightarrow> ris_record \<Rightarrow> (string \<times> utext) list" where
  "tagged_values exclude r =
     (''TY'', code_points (ris_type_value (ris_reference_type r))) #
     concat (map (\<lambda>(name, tag, v). if name \<in> set exclude then [] else map (Pair tag) (ris_values v)) (ris_fields r))"

lemma tagged_values_tags: "(tag, v) \<in> set (tagged_values exclude r) \<Longrightarrow> good_tag tag"
proof -
  have "good_tag ''TY''" by (simp add: good_tag_def code_points_def)
  then show "(tag, v) \<in> set (tagged_values exclude r) \<Longrightarrow> good_tag tag"
    by (auto simp: tagged_values_def split: if_splits intro: ris_fields_tags)
qed

lemma ris_lines_tagged:
  "ris_lines exclude r = map (\<lambda>(tag, v). ris_line tag v) (tagged_values exclude r) @ [code_points ''ER  - '']"
proof -
  have "concat (map (\<lambda>(name, tag, v). if name \<in> set exclude then [] else map (ris_line tag) (ris_values v)) fs) =
      map (\<lambda>(tag, v). ris_line tag v)
        (concat (map (\<lambda>(name, tag, v). if name \<in> set exclude then [] else map (Pair tag) (ris_values v)) fs))" for fs
    by (induction fs) auto
  then show ?thesis by (simp add: ris_lines_def tagged_values_def)
qed

lemma read_records_tagged:
  "\<forall>(tag, v) \<in> set es. good_tag tag \<Longrightarrow>
     read_records acc (map (\<lambda>(tag, v). (code_points tag, f v)) es @ (code_points ''ER'', x) # rest) =
     (rev acc @ map (\<lambda>(tag, v). (code_points tag, f v)) es) # read_records [] rest"
  by (induction es arbitrary: acc) (auto simp: good_tag_def)

lemma read_one_record:
  "map read_line (ris_lines exclude r) = ris_entries exclude r @ [(code_points ''ER'', [])]"
proof -
  have "map (\<lambda>x. read_line (ris_line (fst x) (snd x))) (tagged_values exclude r) =
      map (\<lambda>x. (code_points (fst x), flatten_newlines (demojibake (snd x)))) (tagged_values exclude r)"
    using tagged_values_tags read_ris_line by (intro map_cong) auto
  then show ?thesis
    by (simp add: ris_lines_tagged ris_entries_def tagged_values_def [symmetric] comp_def case_prod_beta
        read_line_def [of "code_points ''ER  - ''"]) (simp add: code_points_def)
qed

lemma ris_lines_no_newline: "l \<in> set (ris_lines exclude r) \<Longrightarrow> 10 \<notin> set l"
  using tagged_values_tags ris_line_no_newline by (fastforce simp: ris_lines_tagged code_points_def)

definition ris_names :: "string list" where
  "ris_names =
     [''title'', ''authors'', ''publication_year'', ''publication_date'', ''journal'', ''volume'', ''issue'',
      ''start_page'', ''end_page'', ''publisher'', ''issns'', ''doi'', ''accession'', ''database'', ''pdf_url'',
      ''urls'', ''abstract'']"

lemma ris_fields_names: "map fst (ris_fields r) = ris_names"
  by (simp add: ris_fields_def ris_names_def)

section \<open>Properties\<close>


text \<open>A title with a line break and a forged end of record.\<close>

definition forged_record :: ris_record where
  "forged_record =
     \<lparr> ris_reference_type = RIS_BOOK, ris_title = Some (code_points ''a\<newline>ER  - ''), ris_authors = [],
       ris_publication_year = Some 1999, ris_publication_date = None, ris_journal = None, ris_volume = None,
       ris_issue = None, ris_start_page = None, ris_end_page = None, ris_publisher = None, ris_issns = [],
       ris_doi = None, ris_accession = None, ris_database = None, ris_pdf_url = None, ris_urls = [],
       ris_abstract = Some (code_points ''b'') \<rparr>"


end
