(* ===== verification/Exports.thy ===== *)
theory Exports
  imports Search_Scans Ris_Records Blob_Repository Access_Control
begin

text \<open>
  Export jobs: \<^verbatim>\<open>src/app/domain/references/services/export_service.py\<close>, the rows of exports in
  \<^verbatim>\<open>models/sql.py\<close>, the streaming of references to blob storage in \<^verbatim>\<open>service.py\<close>, and the routes
  that queue a job. The two services share a base class; what a subclass provides is a record of
  operations, and what the base class relies on is the locale \<open>export_service\<close>.

  The JSON that pydantic prints for a reference, the broker and the storage account are parameters.
\<close>

section \<open>Rows\<close>

datatype export_status = EX_PENDING | EX_RUNNING | EX_COMPLETED | EX_FAILED

datatype export_format = EF_JSONL | EF_RIS

fun export_extension :: "export_format \<Rightarrow> string" where
  "export_extension EF_JSONL = ''jsonl''"
| "export_extension EF_RIS = ''ris''"

text \<open>A job with what is particular to its kind, and its row with the columns of its kind.\<close>

record 'k export =
  ex_id :: uuid
  ex_format :: export_format
  ex_status :: export_status
  ex_result_file :: "blob_storage_file option"
  ex_n_references :: "nat option"
  ex_error :: "string option"
  ex_spec :: 'k

record 'c export_row =
  xr_id :: uuid
  xr_format :: export_format
  xr_status :: export_status
  xr_result_file :: "string option"
  xr_n_references :: "nat option"
  xr_error :: "string option"
  xr_columns :: 'c

text \<open>
  What a subclass provides: the columns of a job and back, its directory, and how a job resolves to
  references, with an update of columns to make on completion.
\<close>

record ('k, 'c) export_kind =
  xk_columns :: "'k \<Rightarrow> 'c"
  xk_spec :: "'c \<Rightarrow> 'k result"
  xk_blob_path :: string
  xk_resolve :: "'k \<Rightarrow> (uuid list \<times> ('c \<Rightarrow> 'c)) result"

definition export_from_domain :: "('k, 'c) export_kind \<Rightarrow> 'k export \<Rightarrow> 'c export_row" where
  "export_from_domain K e =
     \<lparr> xr_id = ex_id e, xr_format = ex_format e, xr_status = ex_status e,
       xr_result_file = map_option to_uri (ex_result_file e), xr_n_references = ex_n_references e,
       xr_error = ex_error e, xr_columns = xk_columns K (ex_spec e) \<rparr>"

definition export_to_domain :: "('k, 'c) export_kind \<Rightarrow> 'c export_row \<Rightarrow> 'k export result" where
  "export_to_domain K r =
     res_bind (xk_spec K (xr_columns r)) (\<lambda>spec.
     res_bind (if truthy_opt_str (xr_result_file r)
               then res_bind (from_uri (the (xr_result_file r))) (\<lambda>f. Inr (Some f)) else Inr None) (\<lambda>f.
       Inr \<lparr> ex_id = xr_id r, ex_format = xr_format r, ex_status = xr_status r, ex_result_file = f,
             ex_n_references = xr_n_references r, ex_error = xr_error r, ex_spec = spec \<rparr>))"

definition export_readable :: "('k, 'c) export_kind \<Rightarrow> 'c export_row \<Rightarrow> bool" where
  "export_readable K r = (case export_to_domain K r of Inr _ \<Rightarrow> True | Inl _ \<Rightarrow> False)"

section \<open>Streaming references\<close>

record export_env =
  xe_db :: db
  xe_entitlements :: "entitlement set"
  xe_account :: blob_account
  xe_chunk_size :: nat
  xe_jsonl :: "reference \<Rightarrow> string result"
  xe_message :: "app_error \<Rightarrow> string"

text \<open>The UTF-8 encoding of a code point, and of a text as the bytes of a file.\<close>

definition utf8_bytes :: "nat \<Rightarrow> nat list" where
  "utf8_bytes u =
     (if u < 128 then [u]
      else if u < 2048 then [192 + u div 64, 128 + u mod 64]
      else if u < 65536 then [224 + u div 4096, 128 + u div 64 mod 64, 128 + u mod 64]
      else [240 + u div 262144, 128 + u div 4096 mod 64, 128 + u div 64 mod 64, 128 + u mod 64])"

definition utf8_encode :: "utext \<Rightarrow> string" where
  "utf8_encode t = map char_of (concat (map utf8_bytes t))"

definition serialize_reference :: "export_env \<Rightarrow> export_format \<Rightarrow> reference \<Rightarrow> string result" where
  "serialize_reference E fmt r =
     (case fmt of
        EF_RIS \<Rightarrow> res_bind (ris_from_reference r) (\<lambda>rec.
                  res_bind (ris_render [''abstract''] rec) (\<lambda>t. Inr (utf8_encode t)))
      | EF_JSONL \<Rightarrow> xe_jsonl E r)"

definition serialize_references :: "export_env \<Rightarrow> export_format \<Rightarrow> uuid list \<Rightarrow> string list result" where
  "serialize_references E fmt reference_ids =
     res_bind (get_deduplicated_references (xe_db E) (Some reference_ids) None) (\<lambda>rs.
       res_mapM (\<lambda>r. serialize_reference E fmt (redact_reference (xe_entitlements E) r)) rs)"

definition stream_references_to_blob ::
    "export_env \<Rightarrow> uuid list \<Rightarrow> export_format \<Rightarrow> string \<Rightarrow> string \<Rightarrow> blobs \<Rightarrow>
     ((blob_storage_file \<times> nat) \<times> blobs) result" where
  "stream_references_to_blob E reference_ids fmt path filename blobs =
     res_bind (list_chunker reference_ids (xe_chunk_size E)) (\<lambda>chunked.
     res_bind (upload_file_to_blob_storage (xe_account E) (file_stream (serialize_references E fmt) chunked)
                 path filename blobs) (\<lambda>(f, blobs').
       Inr ((f, length reference_ids), blobs')))"

section \<open>The life of a job\<close>

record 'c export_store =
  xs_rows :: "'c export_row list"
  xs_blobs :: blobs

definition export_update_by_pk ::
    "('k, 'c) export_kind \<Rightarrow> uuid \<Rightarrow> ('c export_row \<Rightarrow> 'c export_row) \<Rightarrow> 'c export_row list \<Rightarrow> 'c export_row list result" where
  "export_update_by_pk K i f rows =
     res_bind (repo_update_by_pk xr_id (\<lambda>tbl. distinct (map xr_id tbl)) (export_readable K) f i rows) (\<lambda>(_, tbl). Inr tbl)"

definition fail_export :: "('k, 'c) export_kind \<Rightarrow> uuid \<Rightarrow> string \<Rightarrow> 'c export_row list \<Rightarrow> 'c export_row list result" where
  "fail_export K i err = export_update_by_pk K i (\<lambda>r. r\<lparr> xr_status := EX_FAILED, xr_error := Some err \<rparr>)"

definition complete_export ::
    "('k, 'c) export_kind \<Rightarrow> uuid \<Rightarrow> blob_storage_file \<Rightarrow> nat \<Rightarrow> ('c \<Rightarrow> 'c) \<Rightarrow> 'c export_row list \<Rightarrow> 'c export_row list result" where
  "complete_export K i f n extra =
     export_update_by_pk K i (\<lambda>r. r\<lparr> xr_status := EX_COMPLETED, xr_result_file := Some (to_uri f),
       xr_n_references := Some n, xr_columns := extra (xr_columns r) \<rparr>)"

definition claim_export ::
    "('k, 'c) export_kind \<Rightarrow> uuid \<Rightarrow> 'c export_row list \<Rightarrow> ('k export option \<times> 'c export_row list) result" where
  "claim_export K i rows =
     res_bind (repo_bulk_update_by_filter (\<lambda>tbl. distinct (map xr_id tbl))
                 [\<lambda>r. xr_id r = i, \<lambda>r. xr_status r = EX_PENDING] (\<lambda>r. r\<lparr> xr_status := EX_RUNNING \<rparr>) rows)
       (\<lambda>(updated, rows').
          if updated = 0 then Inr (None, rows')
          else res_bind (repo_get_by_pk xr_id rows' i) (\<lambda>r.
               res_bind (export_to_domain K r) (\<lambda>e. Inr (Some e, rows'))))"

definition export_filename :: "uuid \<Rightarrow> export_format \<Rightarrow> string" where
  "export_filename i fmt = str_uuid i @ ''.'' @ export_extension fmt"

text \<open>Resolving and streaming: what the \<^verbatim>\<open>try\<close> block does before the row is completed.\<close>

definition produce_export ::
    "('k, 'c) export_kind \<Rightarrow> export_env \<Rightarrow> 'k export \<Rightarrow> blobs \<Rightarrow>
     (('c \<Rightarrow> 'c) \<times> (blob_storage_file \<times> nat) \<times> blobs) result" where
  "produce_export K E e blobs =
     res_bind (xk_resolve K (ex_spec e)) (\<lambda>(reference_ids, extra).
     res_bind (stream_references_to_blob E reference_ids (ex_format e) (xk_blob_path K)
                 (export_filename (ex_id e) (ex_format e)) blobs) (\<lambda>(result, blobs').
       Inr (extra, result, blobs')))"

definition fail_run ::
    "('k, 'c) export_kind \<Rightarrow> export_env \<Rightarrow> uuid \<Rightarrow> app_error \<Rightarrow> 'c export_store \<Rightarrow> unit result \<times> 'c export_store" where
  "fail_run K E i err st =
     (case fail_export K i (''Failed to run export task: '' @ xe_message E err) (xs_rows st) of
        Inl e \<Rightarrow> (Inl e, st)
      | Inr rows \<Rightarrow> (Inr (), st\<lparr> xs_rows := rows \<rparr>))"

definition run_export ::
    "('k, 'c) export_kind \<Rightarrow> export_env \<Rightarrow> uuid \<Rightarrow> 'c export_store \<Rightarrow> unit result \<times> 'c export_store" where
  "run_export K E i st =
     (case claim_export K i (xs_rows st) of
        Inl e \<Rightarrow> (Inl e, st)
      | Inr (None, _) \<Rightarrow> (Inr (), st)
      | Inr (Some e, rows) \<Rightarrow>
          (case produce_export K E e (xs_blobs st) of
             Inl err \<Rightarrow> fail_run K E i err (st\<lparr> xs_rows := rows \<rparr>)
           | Inr (extra, (f, n), blobs') \<Rightarrow>
               (case complete_export K i f n extra rows of
                  Inl err \<Rightarrow> fail_run K E i err (st\<lparr> xs_rows := rows, xs_blobs := blobs' \<rparr>)
                | Inr rows' \<Rightarrow> (Inr (), st\<lparr> xs_rows := rows', xs_blobs := blobs' \<rparr>))))"

section \<open>The two kinds\<close>

definition reference_export_kind :: "(uuid list, uuid list) export_kind" where
  "reference_export_kind =
     \<lparr> xk_columns = (\<lambda>ids. ids), xk_spec = Inr, xk_blob_path = ''reference_exports'',
       xk_resolve = (\<lambda>ids. Inr (ids, \<lambda>c. c)) \<rparr>"

definition pending_export :: "uuid \<Rightarrow> export_format \<Rightarrow> 'k \<Rightarrow> 'k export" where
  "pending_export new_id fmt spec =
     \<lparr> ex_id = new_id, ex_format = fmt, ex_status = EX_PENDING, ex_result_file = None, ex_n_references = None,
       ex_error = None, ex_spec = spec \<rparr>"

definition export_add ::
    "('k, 'c) export_kind \<Rightarrow> 'k export \<Rightarrow> 'c export_row list \<Rightarrow> 'c export_row list result" where
  "export_add K e rows =
     res_bind (repo_add xr_id (\<lambda>tbl. distinct (map xr_id tbl)) (export_readable K) (export_from_domain K e) rows)
       (\<lambda>(_, tbl). Inr tbl)"

definition request_reference_export ::
    "uuid list \<Rightarrow> uuid \<Rightarrow> uuid list \<Rightarrow> export_format \<Rightarrow> uuid list export_row list \<Rightarrow>
     (uuid list export \<times> uuid list export_row list) result" where
  "request_reference_export stored new_id reference_ids fmt rows =
     (let ids = dict_fromkeys reference_ids;
          e = pending_export new_id fmt ids
      in res_bind (repo_verify_pk_existence id stored ids) (\<lambda>_.
         res_bind (export_add reference_export_kind e rows) (\<lambda>rows'. Inr (e, rows'))))"

record search_spec =
  sx_query :: search_query
  sx_sort :: "string list option"
  sx_truncated :: bool

record search_columns =
  sxc_query :: string
  sxc_annotation_filters :: "annotation_filter list option"
  sxc_concept_filters :: "concept_filter list option"
  sxc_country_filters :: "country_filter list option"
  sxc_region_filters :: "region_filter list option"
  sxc_start_year :: "int option"
  sxc_end_year :: "int option"
  sxc_sort :: "string list option"
  sxc_truncated :: bool

definition list_or_none :: "'a list \<Rightarrow> 'a list option" where
  "list_or_none xs = (if xs = [] then None else Some xs)"

definition search_columns_of :: "search_spec \<Rightarrow> search_columns" where
  "search_columns_of s =
     (let q = sx_query s
      in \<lparr> sxc_query = sq_query_string q, sxc_annotation_filters = list_or_none (sq_annotation_filters q),
           sxc_concept_filters = list_or_none (sq_concept_filters q),
           sxc_country_filters = list_or_none (sq_country_filters q),
           sxc_region_filters = list_or_none (sq_region_filters q),
           sxc_start_year = Option.bind (sq_publication_year_range q) yr_start,
           sxc_end_year = Option.bind (sq_publication_year_range q) yr_end,
           sxc_sort = sx_sort s, sxc_truncated = sx_truncated s \<rparr>)"

definition search_spec_of :: "search_columns \<Rightarrow> search_spec result" where
  "search_spec_of c =
     (let range = (if sxc_start_year c \<noteq> None \<or> sxc_end_year c \<noteq> None
                   then Some \<lparr> yr_start = sxc_start_year c, yr_end = sxc_end_year c \<rparr> else None)
      in if (case range of None \<Rightarrow> True | Some y \<Rightarrow> year_range_valid y) \<and>
            list_all annotation_filter_valid (opt_list (sxc_annotation_filters c)) \<and>
            list_all concept_filter_valid (opt_list (sxc_concept_filters c)) \<and>
            list_all country_filter_valid (opt_list (sxc_country_filters c)) \<and>
            list_all region_filter_valid (opt_list (sxc_region_filters c))
         then Inr \<lparr> sx_query = \<lparr> sq_query_string = sxc_query c,
                      sq_annotation_filters = opt_list (sxc_annotation_filters c), sq_publication_year_range = range,
                      sq_concept_filters = opt_list (sxc_concept_filters c),
                      sq_country_filters = opt_list (sxc_country_filters c),
                      sq_region_filters = opt_list (sxc_region_filters c) \<rparr>,
                    sx_sort = sxc_sort c, sx_truncated = sxc_truncated c \<rparr>
         else Inl ValidationError)"

definition max_result_window :: nat where "max_result_window = 10000"

definition collect_search_export_ids ::
    "es_server \<Rightarrow> es_index \<Rightarrow> search_spec \<Rightarrow> (uuid list \<times> bool) result" where
  "collect_search_export_ids srv idx s =
     res_bind (search_references srv idx (sx_query s) 1 max_result_window (sx_sort s) True) (\<lambda>r.
       Inr (map sh_id (sr_hits r),
            tot_relation (sr_total r) = ''gte'' \<or> max_result_window < tot_value (sr_total r)))"

definition search_export_kind :: "es_server \<Rightarrow> es_index \<Rightarrow> (search_spec, search_columns) export_kind" where
  "search_export_kind srv idx =
     \<lparr> xk_columns = search_columns_of, xk_spec = search_spec_of, xk_blob_path = ''search_exports'',
       xk_resolve = (\<lambda>s. res_bind (collect_search_export_ids srv idx s) (\<lambda>(ids, truncated).
         Inr (ids, \<lambda>c. c\<lparr> sxc_truncated := truncated \<rparr>))) \<rparr>"

definition request_search_export ::
    "es_server \<Rightarrow> es_index \<Rightarrow> uuid \<Rightarrow> search_query \<Rightarrow> string list option \<Rightarrow> export_format \<Rightarrow>
     search_columns export_row list \<Rightarrow> (search_spec export \<times> search_columns export_row list) result" where
  "request_search_export srv idx new_id q sort_by fmt rows =
     (let e = pending_export new_id fmt \<lparr> sx_query = q, sx_sort = sort_by, sx_truncated = False \<rparr>
      in res_bind (export_add (search_export_kind srv idx) e rows) (\<lambda>rows'. Inr (e, rows')))"

text \<open>\<open>_enqueue_export_task\<close>: when the broker refuses the task the job fails and the caller gets 503.\<close>

definition enqueue_export_task ::
    "('k, 'c) export_kind \<Rightarrow> (app_error \<Rightarrow> string) \<Rightarrow> unit result \<Rightarrow> uuid \<Rightarrow> 'c export_row list \<Rightarrow>
     nat result \<times> 'c export_row list" where
  "enqueue_export_task K message enqueue i rows =
     (case enqueue of
        Inr _ \<Rightarrow> (Inr 202, rows)
      | Inl e \<Rightarrow>
          (case fail_export K i (''Failed to enqueue export task: '' @ message e) rows of
             Inl e' \<Rightarrow> (Inl e', rows)
           | Inr rows' \<Rightarrow> (Inr 503, rows')))"

section \<open>What is exported\<close>

text \<open>The view of a stored reference that goes into a file: deduplicated, then redacted.\<close>

definition dedup_view :: "db \<Rightarrow> reference_row \<Rightarrow> reference" where
  "dedup_view db row =
     (case deduplicated_reference_from_reference (domain_of db view_preloads row) of Inr v \<Rightarrow> v | Inl _ \<Rightarrow> domain_of db [] row)"

definition exported_view :: "export_env \<Rightarrow> reference_row \<Rightarrow> reference" where
  "exported_view E row = redact_reference (xe_entitlements E) (dedup_view (xe_db E) row)"

lemma dedup_view_Inr: "deduplicated_reference_from_reference (domain_of db view_preloads row) = Inr (dedup_view db row)"
  by (simp add: dedup_view_def deduplicated_reference_from_reference_def domain_of_def base_of_def view_preloads_def)

lemma view_chunk:
  assumes "db_ok db" and "c \<noteq> []"
  shows "get_deduplicated_references db (Some c) None =
    (if set c \<subseteq> refr_id ` set (db_references db)
     then Inr (map (dedup_view db) (filter (\<lambda>r. refr_id r \<in> set c) (db_references db))) else Inl SQLNotFoundError)"
proof -
  have "references_of_arguments db (Some c) None = references_get_by_pks db c view_preloads True"
    using assms(2) by (simp add: references_of_arguments_def truthy_list_def opt_list_def)
  moreover have "references_get_by_pks db c view_preloads True =
      (if set c \<subseteq> refr_id ` set (db_references db)
       then Inr (map (domain_of db view_preloads) (filter (\<lambda>r. refr_id r \<in> set c) (db_references db)))
       else Inl SQLNotFoundError)"
    by (auto simp: references_get_by_pks_def repo_get_by_pks_def Let_def
        res_mapM_total [where g = "domain_of db view_preloads"] reference_to_domain_ok [OF assms(1)])
  moreover have "res_mapM deduplicated_reference_from_reference (map (domain_of db view_preloads) rs) =
      Inr (map (dedup_view db) rs)" for rs
    by (induction rs) (simp_all add: dedup_view_Inr)
  ultimately show ?thesis by (simp add: get_deduplicated_references_def)
qed

text \<open>The rows a chunk exports, and the serialisations of a chunk.\<close>

lemma res_mapM_map: "res_mapM f (map g xs) = res_mapM (\<lambda>x. f (g x)) xs"
  by (induction xs) simp_all

lemma serialized_chunk:
  assumes ok: "db_ok (xe_db E)" and c: "c \<noteq> []" "distinct c" and run: "serialize_references E fmt c = Inr items"
  obtains rows where "list_all2 (\<lambda>row item. serialize_reference E fmt (exported_view E row) = Inr item) rows items"
    and "mset (map refr_id rows) = mset c" and "set rows \<subseteq> set (db_references (xe_db E))"
proof -
  let ?refs = "db_references (xe_db E)"
  let ?rows = "filter (\<lambda>r. refr_id r \<in> set c) ?refs"
  have sub: "set c \<subseteq> refr_id ` set ?refs"
    and m: "res_mapM (\<lambda>r. serialize_reference E fmt (redact_reference (xe_entitlements E) r)) (map (dedup_view (xe_db E)) ?rows) = Inr items"
    using run by (auto simp: serialize_references_def view_chunk [OF ok c(1)] split: if_splits)
  have "res_mapM (\<lambda>row. serialize_reference E fmt (exported_view E row)) ?rows = Inr items"
    using m by (simp add: exported_view_def res_mapM_map)
  then have "list_all2 (\<lambda>row item. serialize_reference E fmt (exported_view E row) = Inr item) ?rows items"
    by (auto simp: list_all2_conv_all_nth res_mapM_Inr_length dest: res_mapM_Inr_nth)
  moreover have "mset (map refr_id ?rows) = mset c"
  proof (rule set_eq_iff_mset_eq_distinct [THEN iffD1])
    show "distinct (map refr_id ?rows)" using ok by (simp add: db_ok_def distinct_map_filter)
    show "set (map refr_id ?rows) = set c" using sub by auto
  qed (rule c(2))
  ultimately show thesis using that by auto
qed

lemma serialized_chunks:
  assumes ok: "db_ok (xe_db E)" and cs: "\<forall>c \<in> set cs. c \<noteq> []" "distinct (concat cs)"
    and run: "res_mapM (serialize_references E fmt) cs = Inr itemss"
  shows "\<exists>rows. list_all2 (\<lambda>row item. serialize_reference E fmt (exported_view E row) = Inr item) rows (concat itemss) \<and>
    mset (map refr_id rows) = mset (concat cs) \<and> set rows \<subseteq> set (db_references (xe_db E))"
  using cs run
proof (induction cs arbitrary: itemss)
  case (Cons c cs)
  from Cons.prems(3) obtain items rest where c: "serialize_references E fmt c = Inr items"
    and rest: "res_mapM (serialize_references E fmt) cs = Inr rest" and eq: "itemss = items # rest"
    by (auto simp: result_simps)
  obtain rows where rows: "list_all2 (\<lambda>row item. serialize_reference E fmt (exported_view E row) = Inr item) rows items"
    "mset (map refr_id rows) = mset c" "set rows \<subseteq> set (db_references (xe_db E))"
    using serialized_chunk [OF ok _ _ c] Cons.prems by auto
  obtain more where "list_all2 (\<lambda>row item. serialize_reference E fmt (exported_view E row) = Inr item) more (concat rest)"
    "mset (map refr_id more) = mset (concat cs)" "set more \<subseteq> set (db_references (xe_db E))"
    using Cons.IH [OF _ _ rest] Cons.prems by auto
  with rows show ?case unfolding eq
    by (intro exI [of _ "rows @ more"]) (simp add: list_all2_appendI)
qed simp

text \<open>
  The content of a file that exports a list of references: for each of them one item, the stored
  reference deduplicated, redacted for the caller's entitlements and serialised.
\<close>

definition exported_file :: "export_env \<Rightarrow> export_format \<Rightarrow> uuid list \<Rightarrow> string \<Rightarrow> bool" where
  "exported_file E fmt ids body =
     (\<exists>rows items. body = stream_to_str items \<and> mset (map refr_id rows) = mset ids \<and>
        set rows \<subseteq> set (db_references (xe_db E)) \<and>
        list_all2 (\<lambda>row item. serialize_reference E fmt (exported_view E row) = Inr item) rows items)"

lemma stream_references_Inr:
  assumes ok: "db_ok (xe_db E)" and d: "distinct ids"
    and run: "stream_references_to_blob E ids fmt path filename blobs = Inr ((f, n), blobs')"
  obtains body where "map_of blobs' f = Some body" and "exported_file E fmt ids body"
    and "n = length ids" and "blob_file_valid f" and "bsf_path f = path" and "bsf_filename f = filename"
    and "\<forall>g. g \<noteq> f \<longrightarrow> map_of blobs' g = map_of blobs g"
proof -
  from run have n: "n = length ids" and size: "0 < xe_chunk_size E"
    and up: "upload_file_to_blob_storage (xe_account E)
      (file_stream (serialize_references E fmt) (chunks (xe_chunk_size E) ids)) path filename blobs = Inr (f, blobs')"
    by (auto simp: stream_references_to_blob_def list_chunker_def result_simps split: if_splits)
  from up obtain body where fs: "file_stream (serialize_references E fmt) (chunks (xe_chunk_size E) ids) = Inr body"
    and b: "blob_file_valid f" "bsf_path f = path" "bsf_filename f = filename" "map_of blobs' f = Some body"
    "\<And>g. g \<noteq> f \<Longrightarrow> map_of blobs' g = map_of blobs g"
    by (rule upload_Inr) blast
  from fs obtain itemss where items: "res_mapM (serialize_references E fmt) (chunks (xe_chunk_size E) ids) = Inr itemss"
    "body = stream_to_str (concat itemss)" by (auto simp: file_stream_Inr)
  have "exported_file E fmt ids body"
    using serialized_chunks [OF ok _ _ items(1)] d chunks_bounds items(2)
    unfolding exported_file_def concat_chunks [OF size] by blast
  with b n show thesis by (intro that) auto
qed

section \<open>How a job ends\<close>

definition failed_row :: "export_env \<Rightarrow> app_error \<Rightarrow> 'c export_row \<Rightarrow> 'c export_row" where
  "failed_row E err r =
     r\<lparr> xr_status := EX_FAILED, xr_error := Some (''Failed to run export task: '' @ xe_message E err) \<rparr>"

definition completed_row :: "blob_storage_file \<Rightarrow> nat \<Rightarrow> ('c \<Rightarrow> 'c) \<Rightarrow> 'c export_row \<Rightarrow> 'c export_row" where
  "completed_row f n extra r =
     r\<lparr> xr_status := EX_COMPLETED, xr_result_file := Some (to_uri f), xr_n_references := Some n,
        xr_columns := extra (xr_columns r) \<rparr>"

definition settled :: "('k, 'c) export_kind \<Rightarrow> export_env \<Rightarrow> 'c export_row \<Rightarrow> 'k export \<Rightarrow> 'c export_store \<Rightarrow> 'c export_store" where
  "settled K E r e st =
     (case produce_export K E e (xs_blobs st) of
        Inl err \<Rightarrow> st\<lparr> xs_rows := replace_row xr_id (failed_row E err r) (xs_rows st) \<rparr>
      | Inr (extra, (f, n), blobs) \<Rightarrow>
          st\<lparr> xs_rows := replace_row xr_id (completed_row f n extra r) (xs_rows st), xs_blobs := blobs \<rparr>)"

lemma export_readable_iff: "export_readable K r \<longleftrightarrow> (\<exists>e. export_to_domain K r = Inr e)"
  by (auto simp: export_readable_def split: sum.splits)

lemma export_update_row:
  assumes "distinct (map xr_id rows)" and "r \<in> set rows" and "xr_id (f r) = xr_id r" and "export_readable K (f r)"
  shows "export_update_by_pk K (xr_id r) f rows = Inr (replace_row xr_id (f r) rows)"
  using assms by (simp add: export_update_by_pk_def repo_update_by_pk_def find_unique flush_and_read_def)

lemma produce_export_status: "produce_export K E (e\<lparr> ex_status := s \<rparr>) blobs = produce_export K E e blobs"
  by (simp add: produce_export_def)

text \<open>
  What the base class relies on: the columns that a subclass writes on completion still read as a
  job. The laws of its rows follow.
\<close>

locale export_service =
  fixes K :: "('k, 'c) export_kind"
  assumes spec_extra:
    "xk_spec K c = Inr s \<Longrightarrow> xk_resolve K s = Inr (ids, extra) \<Longrightarrow> \<exists>s'. xk_spec K (extra c) = Inr s'"
begin

lemma to_domain_running:
  "export_to_domain K r = Inr e \<Longrightarrow>
     export_to_domain K (r\<lparr> xr_status := s \<rparr>) = Inr (e\<lparr> ex_status := s \<rparr>)"
  by (auto simp: export_to_domain_def result_simps)

lemma claim_pending:
  assumes "distinct (map xr_id rows)" and "r \<in> set rows" and "xr_status r = EX_PENDING"
    and "export_to_domain K r = Inr e"
  shows "claim_export K (xr_id r) rows =
    Inr (Some (e\<lparr> ex_status := EX_RUNNING \<rparr>), replace_row xr_id (r\<lparr> xr_status := EX_RUNNING \<rparr>) rows)"
proof -
  have upd: "map (\<lambda>x. if xr_id x = xr_id r \<and> xr_status x = EX_PENDING then x\<lparr> xr_status := EX_RUNNING \<rparr> else x) rows =
      replace_row xr_id (r\<lparr> xr_status := EX_RUNNING \<rparr>) rows"
    unfolding replace_row_def using assms(1-3) by (auto simp: distinct_map inj_on_def)
  have "filter (\<lambda>x. xr_id x = xr_id r \<and> xr_status x = EX_PENDING) rows \<noteq> []"
    using assms(2,3) by (auto simp: filter_empty_conv)
  then show ?thesis
    using assms(1,2) to_domain_running [OF assms(4)]
    by (simp add: claim_export_def repo_bulk_update_by_filter_def update_where_def upd Let_def
        repo_get_by_pk_def find_replace_row)
qed

lemma claim_not_pending:
  assumes "distinct (map xr_id rows)" and "\<forall>r \<in> set rows. xr_id r = i \<longrightarrow> xr_status r \<noteq> EX_PENDING"
  shows "claim_export K i rows = Inr (None, rows)"
proof -
  have "map (\<lambda>x. if xr_id x = i \<and> xr_status x = EX_PENDING then x\<lparr> xr_status := EX_RUNNING \<rparr> else x) rows = rows"
    using assms(2) by (intro map_idI) auto
  moreover have "filter (\<lambda>x. xr_id x = i \<and> xr_status x = EX_PENDING) rows = []"
    using assms(2) by (auto simp: filter_empty_conv)
  ultimately show ?thesis
    using assms(1) by (simp add: claim_export_def repo_bulk_update_by_filter_def update_where_def Let_def)
qed

lemma completed_readable:
  assumes "export_to_domain K r = Inr e" and "xk_resolve K (ex_spec e) = Inr (ids, extra)" and "blob_file_valid f"
  shows "export_readable K (completed_row f n extra r)"
proof -
  from assms(1) have "xk_spec K (xr_columns r) = Inr (ex_spec e)" by (auto simp: export_to_domain_def result_simps)
  with spec_extra assms(2) obtain s' where "xk_spec K (extra (xr_columns r)) = Inr s'" by blast
  moreover have "truthy_opt_str (Some (to_uri f))" by (cases "bsf_location f") (simp_all add: to_uri_def truthy_opt_str_def)
  ultimately show ?thesis
    using from_uri_to_uri [OF assms(3)] by (simp add: export_readable_iff export_to_domain_def completed_row_def)
qed

lemma run_settles:
  assumes d: "distinct (map xr_id (xs_rows st))" and r: "r \<in> set (xs_rows st)" "xr_status r = EX_PENDING"
    and e: "export_to_domain K r = Inr e"
  shows "run_export K E (xr_id r) st = (Inr (), settled K E r e st)"
proof -
  let ?r = "r\<lparr> xr_status := EX_RUNNING \<rparr>"
  let ?rows = "replace_row xr_id ?r (xs_rows st)"
  have rows: "distinct (map xr_id ?rows)" "?r \<in> set ?rows" using d r(1) by (auto simp: set_replace_row)
  have twice: "replace_row xr_id a ?rows = replace_row xr_id a (xs_rows st)" if "xr_id a = xr_id r" for a
    using that by (simp add: replace_row_twice)
  show ?thesis
  proof (cases "produce_export K E e (xs_blobs st)")
    case (Inl err)
    have "export_readable K (failed_row E err ?r)"
      using e by (auto simp: export_readable_iff failed_row_def export_to_domain_def result_simps)
    with rows have "fail_export K (xr_id r) (''Failed to run export task: '' @ xe_message E err) ?rows =
        Inr (replace_row xr_id (failed_row E err r) ?rows)"
      unfolding fail_export_def by (subst export_update_row [of _ ?r, simplified]) (simp_all add: failed_row_def)
    with Inl twice [of "failed_row E err r"] show ?thesis
      by (simp add: run_export_def claim_pending [OF d r e] produce_export_status fail_run_def settled_def failed_row_def)
  next
    case (Inr p)
    then obtain extra f n blobs where p: "produce_export K E e (xs_blobs st) = Inr (extra, (f, n), blobs)"
      by (metis surj_pair)
    then obtain ids where res: "xk_resolve K (ex_spec e) = Inr (ids, extra)" and v: "blob_file_valid f"
      by (auto simp: produce_export_def stream_references_to_blob_def result_simps elim!: upload_Inr)
    have "export_readable K (completed_row f n extra ?r)"
      using completed_readable [OF to_domain_running [OF e] _ v] res by simp
    with rows have "complete_export K (xr_id r) f n extra ?rows = Inr (replace_row xr_id (completed_row f n extra r) ?rows)"
      unfolding complete_export_def by (subst export_update_row [of _ ?r, simplified]) (simp_all add: completed_row_def)
    with p twice [of "completed_row f n extra r"] show ?thesis
      by (simp add: run_export_def claim_pending [OF d r e] produce_export_status settled_def completed_row_def)
  qed
qed

text \<open>The task may be delivered again: a job that has been claimed stays as it is.\<close>

lemma run_again:
  assumes "distinct (map xr_id (xs_rows st))" and "\<forall>r \<in> set (xs_rows st). xr_id r = i \<longrightarrow> xr_status r \<noteq> EX_PENDING"
  shows "run_export K E i st = (Inr (), st)"
  by (simp add: run_export_def claim_not_pending [OF assms])

end

interpretation reference_exports: export_service reference_export_kind
  by unfold_locales (simp add: reference_export_kind_def)

interpretation search_exports: export_service "search_export_kind srv idx" for srv idx
proof
  fix c s ids extra
  assume "xk_spec (search_export_kind srv idx) c = Inr s"
    and "xk_resolve (search_export_kind srv idx) s = Inr (ids, extra)"
  then obtain t where "search_spec_of c = Inr s" and "extra = (\<lambda>c. c\<lparr> sxc_truncated := t \<rparr>)"
    by (auto simp: search_export_kind_def result_simps)
  then show "\<exists>s'. xk_spec (search_export_kind srv idx) (extra c) = Inr s'"
    by (auto simp: search_export_kind_def search_spec_of_def Let_def split: if_splits)
qed

section \<open>Searches\<close>

lemma search_export_ids:
  assumes ok: "es_hits_ok srv" and d: "distinct (map fst idx)"
    and run: "collect_search_export_ids srv idx s = Inr (ids, truncated)"
  defines "matched \<equiv> ids_matching srv idx (scan_query (sx_query s) True)"
  shows "distinct ids" and "set ids \<subseteq> set matched" and "length ids = min max_result_window (length matched)"
    and "truncated \<longleftrightarrow> max_result_window < length matched"
proof -
  let ?q = "scan_query (sx_query s) True"
    and ?keys = "map normalize_sort_key (sort_or (sx_sort s) [''relevance'']) @ [tiebreaker]"
  define rq where "rq = \<lparr> ess_query = ?q, ess_sort = ?keys, ess_from = 0, ess_size = max_result_window,
      ess_search_after = None, ess_track_total_hits = Some True \<rparr>"
  obtain ranked where m: "mset (map hit_id ranked) = mset matched"
    and all: "\<forall>rq. ess_query rq = ?q \<and> ess_sort rq = ?keys \<longrightarrow> answers_ranked srv idx ranked rq"
    using ok unfolding es_hits_ok_def matched_def by blast
  have a: "answers_ranked srv idx ranked rq" using all by (simp add: rq_def)
  from run obtain hits t where h: "esv_search srv rq idx = Some (hits, Some t)"
    and ids: "ids = map hit_id hits" and tr: "truncated \<longleftrightarrow> tot_relation t = ''gte'' \<or> max_result_window < tot_value t"
    by (auto simp: collect_search_export_ids_def search_references_def search_with_query_string_def
        execute_search_def extract_total_def scan_query_def rq_def parse_hits_def result_simps comp_def
        split: option.splits)
  have hits: "hits = take max_result_window ranked" and t: "t = exact_total (length ranked)"
    using a h by (auto simp: answers_ranked_def rq_def)
  have len: "length ranked = length matched" using arg_cong [OF m, of size] by simp
  have "distinct (map hit_id ranked)"
    using m distinct_ids_matching [OF d, of srv ?q] unfolding matched_def by (metis mset_eq_imp_distinct_iff)
  then show "distinct ids" by (simp add: ids hits flip: take_map)
  have "set ids \<subseteq> set (map hit_id ranked)" by (auto simp: ids hits dest: in_set_takeD)
  with m show "set ids \<subseteq> set matched" by (metis set_mset_mset)
  show "length ids = min max_result_window (length matched)" by (simp add: ids hits len min.commute)
  show "truncated \<longleftrightarrow> max_result_window < length matched" by (simp add: tr t exact_total_def len)
qed

text \<open>The file of a search export, and the row that tells of it.\<close>

definition search_exported ::
    "es_server \<Rightarrow> es_index \<Rightarrow> export_env \<Rightarrow> search_spec export \<Rightarrow> blobs \<Rightarrow> blobs \<Rightarrow> search_columns export_row \<Rightarrow> bool" where
  "search_exported srv idx E e blobs blobs' r =
     (let matched = ids_matching srv idx (scan_query (sx_query (ex_spec e)) True) in
      \<exists>f body ids. xr_result_file r = Some (to_uri f) \<and> bsf_path f = ''search_exports'' \<and>
        bsf_filename f = export_filename (ex_id e) (ex_format e) \<and>
        map_of blobs' f = Some body \<and> (\<forall>g. g \<noteq> f \<longrightarrow> map_of blobs' g = map_of blobs g) \<and>
        exported_file E (ex_format e) ids body \<and> xr_n_references r = Some (length ids) \<and>
        distinct ids \<and> set ids \<subseteq> set matched \<and> length ids = min max_result_window (length matched) \<and>
        (sxc_truncated (xr_columns r) \<longleftrightarrow> max_result_window < length matched))"

lemma produce_search_export:
  assumes ok: "db_ok (xe_db E)" "es_hits_ok srv" "distinct (map fst idx)"
    and p: "produce_export (search_export_kind srv idx) E e blobs = Inr (extra, (f, n), blobs')"
  shows "search_exported srv idx E e blobs blobs' (completed_row f n extra r)"
proof -
  from p obtain ids t where c: "collect_search_export_ids srv idx (ex_spec e) = Inr (ids, t)"
    and x: "extra = (\<lambda>c. c\<lparr> sxc_truncated := t \<rparr>)"
    and s: "stream_references_to_blob E ids (ex_format e) ''search_exports''
      (export_filename (ex_id e) (ex_format e)) blobs = Inr ((f, n), blobs')"
    by (auto simp: produce_export_def search_export_kind_def result_simps)
  note i = search_export_ids [OF ok(2,3) c]
  obtain body where "map_of blobs' f = Some body" "exported_file E (ex_format e) ids body" "n = length ids"
    "bsf_path f = ''search_exports''" "bsf_filename f = export_filename (ex_id e) (ex_format e)"
    "\<forall>g. g \<noteq> f \<longrightarrow> map_of blobs' g = map_of blobs g"
    using stream_references_Inr [OF ok(1) i(1) s] by metis
  with i x show ?thesis
    unfolding search_exported_def Let_def completed_row_def by (intro exI [of _ f] exI [of _ body] exI [of _ ids]) simp
qed

text \<open>
  A job that is queued is stored as a pending row that reads back as the job: the columns keep the
  search, except that a year range with neither end reads back as no range.
\<close>

definition search_valid :: "search_query \<Rightarrow> bool" where
  "search_valid q =
     ((case sq_publication_year_range q of
         None \<Rightarrow> True
       | Some y \<Rightarrow> year_range_valid y \<and> (yr_start y \<noteq> None \<or> yr_end y \<noteq> None)) \<and>
      list_all annotation_filter_valid (sq_annotation_filters q) \<and> list_all concept_filter_valid (sq_concept_filters q) \<and>
      list_all country_filter_valid (sq_country_filters q) \<and> list_all region_filter_valid (sq_region_filters q))"

lemma opt_list_or_none [simp]: "opt_list (list_or_none xs) = xs"
  by (simp add: list_or_none_def opt_list_def)

lemma search_columns_roundtrip:
  assumes "search_valid (sx_query s)"
  shows "search_spec_of (search_columns_of s) = Inr s"
  using assms
  by (cases "sq_publication_year_range (sx_query s)")
    (auto simp: search_spec_of_def search_columns_of_def search_valid_def year_range_valid_def Let_def)

lemma request_search_export_pending:
  fixes srv idx fmt sort_by
  assumes "search_valid q" and "new_id \<notin> xr_id ` set rows" and "distinct (map xr_id rows)"
  defines "K \<equiv> search_export_kind srv idx"
    and "e \<equiv> pending_export new_id fmt \<lparr> sx_query = q, sx_sort = sort_by, sx_truncated = False \<rparr>"
  shows "request_search_export srv idx new_id q sort_by fmt rows = Inr (e, rows @ [export_from_domain K e])"
    and "export_to_domain K (export_from_domain K e) = Inr e"
proof -
  show rt: "export_to_domain K (export_from_domain K e) = Inr e"
    using search_columns_roundtrip assms(1)
    by (simp add: K_def e_def export_to_domain_def export_from_domain_def search_export_kind_def pending_export_def
        truthy_opt_str_def)
  have "xr_id (export_from_domain K e) = new_id" by (simp add: e_def pending_export_def export_from_domain_def)
  with rt assms(2,3) show "request_search_export srv idx new_id q sort_by fmt rows = Inr (e, rows @ [export_from_domain K e])"
    by (auto simp: request_search_export_def export_add_def repo_add_def flush_and_read_def export_readable_iff
        Let_def simp flip: K_def e_def)
qed

text \<open>Queueing a list of references drops repetitions, and refuses a list that names an unknown one.\<close>

lemma request_reference_export_Inr:
  assumes "request_reference_export stored new_id ids fmt rows = Inr (e, rows')"
  shows "e = pending_export new_id fmt (dict_fromkeys ids)" and "set ids \<subseteq> set stored"
    and "rows' = rows @ [export_from_domain reference_export_kind e]"
  using assms
  by (auto simp: request_reference_export_def repo_verify_pk_existence_def export_add_def repo_add_def Let_def
      result_simps split: if_splits)

lemma enqueue_refused:
  assumes "distinct (map xr_id rows)" and "r \<in> set rows" and "export_readable K r"
  shows "enqueue_export_task K message (Inl err) (xr_id r) rows =
    (Inr 503, replace_row xr_id
       (r\<lparr> xr_status := EX_FAILED, xr_error := Some (''Failed to enqueue export task: '' @ message err) \<rparr>) rows)"
proof -
  have "export_readable K (r\<lparr> xr_status := EX_FAILED, xr_error := Some (''Failed to enqueue export task: '' @ message err) \<rparr>)"
    using assms(3) by (auto simp: export_readable_iff export_to_domain_def result_simps)
  then show ?thesis
    using assms(1,2) by (simp add: enqueue_export_task_def fail_export_def export_update_row)
qed

section \<open>Properties\<close>

text \<open>
  C26 (liveness). A pending search export that is run leaves the queue: the task returns without an
  exception, and the row is either completed or failed, no other row having changed. Completed, its
  file holds one item for each of the first ten thousand references that match the search, each
  deduplicated and redacted to the entitlements of the job, the row points to the file and counts
  its references, and it is marked truncated exactly when more references match; no other file
  changed. Failed, it carries the message of what was raised, and no file changed. A second
  delivery of the task changes nothing.
\<close>

theorem search_export_settles:
  assumes "db_ok (xe_db E)" and "es_hits_ok srv" and "distinct (map fst idx)"
    and "distinct (map xr_id (xs_rows st))" and "r \<in> set (xs_rows st)" and "xr_status r = EX_PENDING"
    and "export_to_domain (search_export_kind srv idx) r = Inr e"
  shows "\<exists>st' r'. run_export (search_export_kind srv idx) E (xr_id r) st = (Inr (), st') \<and>
    run_export (search_export_kind srv idx) E (xr_id r) st' = (Inr (), st') \<and>
    xs_rows st' = replace_row xr_id r' (xs_rows st) \<and> xr_id r' = xr_id r \<and>
    (case xr_status r' of
       EX_COMPLETED \<Rightarrow> search_exported srv idx E e (xs_blobs st) (xs_blobs st') r'
     | EX_FAILED \<Rightarrow> xs_blobs st' = xs_blobs st \<and>
         (\<exists>err. produce_export (search_export_kind srv idx) E e (xs_blobs st) = Inl err \<and> r' = failed_row E err r)
     | _ \<Rightarrow> False)"
proof -
  let ?K = "search_export_kind srv idx" and ?st = "settled (search_export_kind srv idx) E r e st"
  have run: "run_export ?K E (xr_id r) st = (Inr (), ?st)"
    using search_exports.run_settles assms(4-7) by blast
  have "\<exists>r'. xs_rows ?st = replace_row xr_id r' (xs_rows st) \<and> xr_id r' = xr_id r \<and>
      (case xr_status r' of
         EX_COMPLETED \<Rightarrow> search_exported srv idx E e (xs_blobs st) (xs_blobs ?st) r'
       | EX_FAILED \<Rightarrow> xs_blobs ?st = xs_blobs st \<and> (\<exists>err. produce_export ?K E e (xs_blobs st) = Inl err \<and> r' = failed_row E err r)
       | _ \<Rightarrow> False)"
  proof (cases "produce_export ?K E e (xs_blobs st)")
    case (Inl err)
    then show ?thesis by (intro exI [of _ "failed_row E err r"]) (simp add: settled_def failed_row_def)
  next
    case (Inr p)
    then obtain extra f n blobs where p: "produce_export ?K E e (xs_blobs st) = Inr (extra, (f, n), blobs)" by (metis surj_pair)
    then show ?thesis using produce_search_export [OF assms(1-3) p, of r]
      by (intro exI [of _ "completed_row f n extra r"]) (simp add: settled_def completed_row_def)
  qed
  then obtain r' where r': "xs_rows ?st = replace_row xr_id r' (xs_rows st)" "xr_id r' = xr_id r"
    "case xr_status r' of
         EX_COMPLETED \<Rightarrow> search_exported srv idx E e (xs_blobs st) (xs_blobs ?st) r'
       | EX_FAILED \<Rightarrow> xs_blobs ?st = xs_blobs st \<and> (\<exists>err. produce_export ?K E e (xs_blobs st) = Inl err \<and> r' = failed_row E err r)
       | _ \<Rightarrow> False" by blast
  have "\<forall>x \<in> set (xs_rows ?st). xr_id x = xr_id r \<longrightarrow> xr_status x \<noteq> EX_PENDING"
    using r' by (auto simp: set_replace_row)
  then have "run_export ?K E (xr_id r) ?st = (Inr (), ?st)"
    using search_exports.run_again [of ?st] assms(4) r'(1) by simp
  with run r' show ?thesis by blast
qed

definition sample_export_env :: export_env where
  "sample_export_env =
     \<lparr> xe_db = sample_db, xe_entitlements = {},
       xe_account = \<lparr> ba_location = BL_AZURE, ba_operations_container = ''operations'', ba_refuses = (\<lambda>_ _. False) \<rparr>,
       xe_chunk_size = 1, xe_jsonl = (\<lambda>_. Inr ''{}''), xe_message = (\<lambda>_. ''error'') \<rparr>"

definition sample_export :: "search_spec export" where
  "sample_export = pending_export 7 EF_JSONL \<lparr> sx_query = sample_search, sx_sort = None, sx_truncated = False \<rparr>"

text \<open>Two references match and are streamed in chunks of one.\<close>

lemma sample_export_produced:
  "\<exists>f. produce_export (search_export_kind scan_server scan_index) sample_export_env sample_export [] =
     Inr (\<lambda>c. c\<lparr> sxc_truncated := False \<rparr>, (f, 2), [(f, ''{}\<newline>{}\<newline>'')])"
proof -
  have ids: "collect_search_export_ids scan_server scan_index (ex_spec sample_export) = Inr ([1, 2], False)" by code_simp
  have body: "file_stream (serialize_references sample_export_env EF_JSONL) [[1], [2]] = Inr ''{}\<newline>{}\<newline>''" by code_simp
  have cs: "chunks 1 [1, 2 :: uuid] = [[1], [2]]" by code_simp
  have env: "xe_chunk_size sample_export_env = 1" "ba_refuses (xe_account sample_export_env) f t \<longleftrightarrow> False" for f t
    by (simp_all add: sample_export_env_def)
  obtain f where f: "destination (xe_account sample_export_env) ''search_exports'' (export_filename 7 EF_JSONL) = Inr f"
    by (simp add: destination_def blob_file_valid_def export_filename_def sample_export_env_def)
  have "stream_references_to_blob sample_export_env [1, 2] EF_JSONL ''search_exports'' (export_filename 7 EF_JSONL) [] =
      Inr ((f, 2), [(f, ''{}\<newline>{}\<newline>'')])"
    by (simp add: stream_references_to_blob_def list_chunker_def upload_file_to_blob_storage_def upload_file_def env cs f body
        del: One_nat_def)
  moreover have "ex_format sample_export = EF_JSONL" "ex_id sample_export = 7"
    by (simp_all add: sample_export_def pending_export_def)
  ultimately show ?thesis
    by (intro exI [of _ f]) (simp only: produce_export_def search_export_kind_def export_kind.simps ids res_bind.simps prod.case)
qed

theorem search_export_settles_witness:
  "\<exists>st' r'. (let K = search_export_kind scan_server scan_index; r = export_from_domain K sample_export in
     run_export K sample_export_env 7 \<lparr> xs_rows = [r], xs_blobs = [] \<rparr> = (Inr (), st') \<and>
     xs_rows st' = [r'] \<and> xr_status r' = EX_COMPLETED \<and>
     search_exported scan_server scan_index sample_export_env sample_export [] (xs_blobs st') r')"
proof -
  let ?K = "search_export_kind scan_server scan_index"
  let ?r = "export_from_domain ?K sample_export" 
  have ok: "es_hits_ok scan_server" unfolding scan_server_def by (rule documented_scan.hits_ok)
  have db: "db_ok (xe_db sample_export_env)" using sample_db_ok by (simp add: sample_export_env_def)
  have v: "search_valid sample_search" by code_simp
  have rt: "export_to_domain ?K ?r = Inr sample_export"
    unfolding sample_export_def by (rule request_search_export_pending(2) [OF v, of 7 "[]"]) simp_all
  have i: "xr_id ?r = 7" "xr_status ?r = EX_PENDING"
    by (simp_all add: export_from_domain_def sample_export_def pending_export_def)
  have d: "distinct (map fst scan_index)" by (simp add: scan_index_def)
  from search_export_settles [OF db ok d, of "\<lparr> xs_rows = [?r], xs_blobs = [] \<rparr>" ?r sample_export] rt i
    sample_export_produced
  show ?thesis by (fastforce simp: Let_def replace_row_def split: export_status.splits)
qed

end
