(* ===== verification/Index_Management.thy ===== *)
theory Index_Management
  imports Reference_Models Sql_Repository
begin

text \<open>
  The manager of an Elasticsearch index, \<^verbatim>\<open>src/app/persistence/es/index_manager.py\<close>: versions of an
  index behind an alias, their creation, migration, rollback and repair.

  The Elasticsearch client is a parameter over an unknown world; \<open>Index_Migration\<close> says what is relied
  on of it.
\<close>

section \<open>Calls\<close>

text \<open>A method may not return, since it polls a task.\<close>

type_synonym ('a, 'w) es_op = "'w \<Rightarrow> ('a result \<times> 'w) option"

definition op_return :: "'a \<Rightarrow> ('a, 'w) es_op" where
  "op_return x w = Some (Inr x, w)"

definition op_raise :: "app_error \<Rightarrow> ('a, 'w) es_op" where
  "op_raise e w = Some (Inl e, w)"

definition op_call :: "('w \<Rightarrow> 'a result \<times> 'w) \<Rightarrow> ('a, 'w) es_op" where
  "op_call f w = Some (f w)"

definition op_bind :: "('a, 'w) es_op \<Rightarrow> ('a \<Rightarrow> ('b, 'w) es_op) \<Rightarrow> ('b, 'w) es_op" where
  "op_bind m f w =
     (case m w of
        None \<Rightarrow> None
      | Some (Inl e, w') \<Rightarrow> Some (Inl e, w')
      | Some (Inr x, w') \<Rightarrow> f x w')"

definition op_catch :: "('a, 'w) es_op \<Rightarrow> (app_error \<Rightarrow> ('a, 'w) es_op option) \<Rightarrow> ('a, 'w) es_op" where
  "op_catch m h w =
     (case m w of
        Some (Inl e, w') \<Rightarrow> (case h e of None \<Rightarrow> Some (Inl e, w') | Some m' \<Rightarrow> m' w')
      | r \<Rightarrow> r)"

text \<open>The calls of the client that the manager makes.\<close>

record 'w es_client =
  ec_get_alias :: "string \<Rightarrow> 'w \<Rightarrow> string list result \<times> 'w"
  ec_index_aliases :: "string \<Rightarrow> 'w \<Rightarrow> string list result \<times> 'w"
  ec_exists :: "string \<Rightarrow> 'w \<Rightarrow> bool result \<times> 'w"
  ec_get_settings :: "string \<Rightarrow> 'w \<Rightarrow> json_dict option result \<times> 'w"
  ec_create :: "string \<Rightarrow> json_dict \<Rightarrow> 'w \<Rightarrow> unit result \<times> 'w"
  ec_delete_index :: "string \<Rightarrow> 'w \<Rightarrow> unit result \<times> 'w"
  ec_put_alias :: "string \<Rightarrow> string \<Rightarrow> 'w \<Rightarrow> unit result \<times> 'w"
  ec_delete_alias :: "string \<Rightarrow> string \<Rightarrow> 'w \<Rightarrow> unit result \<times> 'w"
  ec_move_alias :: "string \<Rightarrow> string \<Rightarrow> string \<Rightarrow> 'w \<Rightarrow> unit result \<times> 'w"
  ec_block_writes :: "string \<Rightarrow> 'w \<Rightarrow> unit result \<times> 'w"
  ec_count :: "string \<Rightarrow> 'w \<Rightarrow> nat result \<times> 'w"
  ec_reindex :: "string \<Rightarrow> string \<Rightarrow> string option \<Rightarrow> 'w \<Rightarrow> nat result \<times> 'w"
  ec_task_completed :: "nat \<Rightarrow> 'w \<Rightarrow> bool result \<times> 'w"
  ec_put_script :: "string \<Rightarrow> string \<Rightarrow> 'w \<Rightarrow> unit result \<times> 'w"
  ec_delete_script :: "string \<Rightarrow> 'w \<Rightarrow> unit result \<times> 'w"
  ec_queue_repair :: "uuid list option \<Rightarrow> 'w \<Rightarrow> unit result \<times> 'w"

record 'w index_manager =
  im_client :: "'w es_client"
  im_alias_name :: string
  im_reindex_script :: "string option"
  im_repair_task :: bool
  im_repair_subset_task :: bool

section \<open>Names and versions\<close>

definition generate_index_name :: "string \<Rightarrow> int \<Rightarrow> string" where
  "generate_index_name alias version = alias @ ''_v'' @ str_int version"

text \<open>\<^verbatim>\<open>name.split("_v")\<close>.\<close>

fun split_version :: "string \<Rightarrow> string list" where
  "split_version [] = [[]]"
| "split_version [c] = [[c]]"
| "split_version (c # d # cs) =
     (if c = CHR ''_'' \<and> d = CHR ''v'' then [] # split_version cs
      else (case split_version (d # cs) of [] \<Rightarrow> [[c]] | p # ps \<Rightarrow> (c # p) # ps))"

text \<open>\<^verbatim>\<open>int(text)\<close>: spaces around, a sign, digits with single underscores between them.\<close>

fun int_digits :: "string \<Rightarrow> bool" where
  "int_digits [] = False"
| "int_digits [c] = is_digit c"
| "int_digits (c # d # cs) = (is_digit c \<and> (if d = CHR ''_'' then int_digits cs else int_digits (d # cs)))"

definition py_int :: "string \<Rightarrow> int option" where
  "py_int text =
     (let s = py_strip text;
          digits = (if s \<noteq> [] \<and> hd s \<in> {CHR ''+'', CHR ''-''} then tl s else s);
          n = int (nat_of_digits (filter is_digit digits))
      in if int_digits digits then Some (if s \<noteq> [] \<and> hd s = CHR ''-'' then - n else n) else None)"

definition index_version :: "string \<Rightarrow> int option" where
  "index_version index_name = py_int (last (split_version index_name))"

definition get_current_index_name :: "'w index_manager \<Rightarrow> (string option, 'w) es_op" where
  "get_current_index_name M =
     op_catch
       (op_bind (op_call (ec_get_alias (im_client M) (im_alias_name M))) (\<lambda>indices.
          op_return (case indices of [] \<Rightarrow> None | i # _ \<Rightarrow> Some i)))
       (\<lambda>e. if e = ClientNotFoundError then Some (op_return None) else None)"

definition get_current_version :: "'w index_manager \<Rightarrow> string option \<Rightarrow> (int option, 'w) es_op" where
  "get_current_version M index_name =
     op_bind (case index_name of
                Some (c # cs) \<Rightarrow> op_return (Some (c # cs))
              | _ \<Rightarrow> get_current_index_name M) (\<lambda>current.
       op_return (Option.bind current index_version))"

section \<open>Settings\<close>

function update_nested_settings :: "json_dict \<Rightarrow> json_dict \<Rightarrow> json_dict" where
  "update_nested_settings current [] = current"
| "update_nested_settings current ((key, v) # changeset) =
     update_nested_settings
       (AList.update key
          (case (map_of current key, v) of
             (Some (JObj old), JObj new) \<Rightarrow> JObj (update_nested_settings old new)
           | _ \<Rightarrow> v) current)
       changeset"
  by pat_completeness auto
termination
  by (relation "measure (\<lambda>(_, changeset). size_list (size_prod (\<lambda>_. 0) size) changeset)") auto

definition non_reusable_index_settings :: "string list" where
  "non_reusable_index_settings =
     [''creation_date'', ''uuid'', ''version'', ''provided_name'', ''routing'', ''blocks'']"

definition get_reusable_index_settings :: "'w index_manager \<Rightarrow> string \<Rightarrow> (json_dict, 'w) es_op" where
  "get_reusable_index_settings M index_name =
     op_bind (op_call (ec_get_settings (im_client M) index_name)) (\<lambda>source_settings.
       case source_settings of
         None \<Rightarrow> op_raise NotFoundError
       | Some s \<Rightarrow> op_return (filter (\<lambda>(k, _). k \<notin> set non_reusable_index_settings) s))"

definition get_updated_settings :: "'w index_manager \<Rightarrow> string \<Rightarrow> json_dict \<Rightarrow> (json_dict, 'w) es_op" where
  "get_updated_settings M index_name changeset =
     op_bind (get_reusable_index_settings M index_name) (\<lambda>s. op_return (update_nested_settings s changeset))"

section \<open>Creation, repair and rollback\<close>

definition create_index_with_mapping :: "'w index_manager \<Rightarrow> string \<Rightarrow> json_dict \<Rightarrow> (unit, 'w) es_op" where
  "create_index_with_mapping M index_name settings = op_call (ec_create (im_client M) index_name settings)"

definition initialize_index :: "'w index_manager \<Rightarrow> json_dict option \<Rightarrow> (string, 'w) es_op" where
  "initialize_index M settings =
     op_bind (get_current_index_name M) (\<lambda>current.
       case current of
         Some i \<Rightarrow> op_return i
       | None \<Rightarrow>
           (let index_name = generate_index_name (im_alias_name M) 1
            in op_bind (create_index_with_mapping M index_name (opt_list settings)) (\<lambda>_.
               op_bind (op_call (ec_put_alias (im_client M) index_name (im_alias_name M))) (\<lambda>_.
                 op_return index_name))))"

definition switch_alias :: "'w index_manager \<Rightarrow> string \<Rightarrow> string \<Rightarrow> (unit, 'w) es_op" where
  "switch_alias M old_index new_index = op_call (ec_move_alias (im_client M) (im_alias_name M) old_index new_index)"

definition delete_index_safely :: "'w index_manager \<Rightarrow> string \<Rightarrow> (unit, 'w) es_op" where
  "delete_index_safely M index_name =
     op_bind (op_catch (op_call (ec_index_aliases (im_client M) index_name))
                (\<lambda>e. if e \<in> {NotFoundError, SQLNotFoundError, ESNotFoundError, DeduplicationNotFoundError}
                     then Some (op_return []) else None)) (\<lambda>aliases.
       if aliases \<noteq> [] then op_return () else op_call (ec_delete_index (im_client M) index_name))"

definition repair_index :: "'w index_manager \<Rightarrow> uuid list option \<Rightarrow> (unit, 'w) es_op" where
  "repair_index M document_ids =
     (if \<not> (if document_ids \<noteq> None then im_repair_subset_task M else im_repair_task M) then op_raise NotFoundError
      else op_call (ec_queue_repair (im_client M) document_ids))"

definition rebuild_index :: "'w index_manager \<Rightarrow> (unit, 'w) es_op" where
  "rebuild_index M =
     op_bind (get_current_index_name M) (\<lambda>current.
       case current of
         None \<Rightarrow> op_raise NotFoundError
       | Some [] \<Rightarrow> op_raise NotFoundError
       | Some i \<Rightarrow>
           op_bind (get_updated_settings M i []) (\<lambda>settings.
           op_bind (op_call (ec_delete_alias (im_client M) i (im_alias_name M))) (\<lambda>_.
           op_bind (delete_index_safely M i) (\<lambda>_.
           op_bind (create_index_with_mapping M i settings) (\<lambda>_.
           op_bind (op_call (ec_put_alias (im_client M) i (im_alias_name M))) (\<lambda>_.
             repair_index M None))))))"

definition rollback_target :: "'w index_manager \<Rightarrow> int \<Rightarrow> int option \<Rightarrow> string option \<Rightarrow> string result" where
  "rollback_target M current_version target_version target_index =
     (case target_index of
        Some t \<Rightarrow> Inr t
      | None \<Rightarrow>
          (let v = (case target_version of Some v \<Rightarrow> v | None \<Rightarrow> current_version - 1)
           in if v < 1 then Inl PyValueError else Inr (generate_index_name (im_alias_name M) v)))"

definition rollback :: "'w index_manager \<Rightarrow> int option \<Rightarrow> string option \<Rightarrow> (string, 'w) es_op" where
  "rollback M target_version target_index =
     op_bind (get_current_index_name M) (\<lambda>current.
       case current of
         None \<Rightarrow> op_raise NotFoundError
       | Some current_index \<Rightarrow>
           op_bind (get_current_version M (Some current_index)) (\<lambda>version.
             case version of
               None \<Rightarrow> op_raise PyValueError
             | Some current_version \<Rightarrow>
                 if current_version = 1 \<and> target_index = None then op_raise PyValueError
                 else (case rollback_target M current_version target_version target_index of
                         Inl e \<Rightarrow> op_raise e
                       | Inr target \<Rightarrow>
                           op_bind (op_call (ec_exists (im_client M) target)) (\<lambda>exists.
                             if \<not> exists then op_raise NotFoundError
                             else op_bind (switch_alias M current_index target) (\<lambda>_. op_return target)))))"

section \<open>Migration\<close>

definition validate_reindex_script :: "'w index_manager \<Rightarrow> (unit, 'w) es_op" where
  "validate_reindex_script M =
     (case im_reindex_script M of
        None \<Rightarrow> op_return ()
      | Some script \<Rightarrow>
          (let script_id = im_alias_name M @ ''-reindex-validation''
           in op_bind (op_catch (op_call (ec_put_script (im_client M) script_id script))
                         (\<lambda>e. if e = ClientBadRequestError then Some (op_raise ESError) else None)) (\<lambda>_.
                op_call (ec_delete_script (im_client M) script_id))))"

partial_function (option) poll_task :: "'w es_client \<Rightarrow> nat \<Rightarrow> 'w \<Rightarrow> (unit result \<times> 'w) option" where
  "poll_task C t w =
     (case ec_task_completed C t w of
        (Inl e, w') \<Rightarrow> Some (Inl e, w')
      | (Inr completed, w') \<Rightarrow> if completed then Some (Inr (), w') else poll_task C t w')"

declare poll_task.simps [code]

definition reindex_data :: "'w index_manager \<Rightarrow> string \<Rightarrow> string \<Rightarrow> (unit, 'w) es_op" where
  "reindex_data M source_index dest_index =
     op_bind (op_call (ec_count (im_client M) source_index)) (\<lambda>total_docs.
       if total_docs = 0 then op_return ()
       else op_bind (op_call (ec_reindex (im_client M) source_index dest_index (im_reindex_script M))) (\<lambda>t.
              poll_task (im_client M) t))"

definition migrate_from :: "'w index_manager \<Rightarrow> string \<Rightarrow> json_dict \<Rightarrow> (string, 'w) es_op" where
  "migrate_from M source_index changeset =
     op_bind (get_updated_settings M source_index changeset) (\<lambda>settings.
     op_bind (get_current_version M (Some source_index)) (\<lambda>version.
       (let dest_index = generate_index_name (im_alias_name M) ((case version of None \<Rightarrow> 0 | Some v \<Rightarrow> v) + 1)
        in op_bind (create_index_with_mapping M dest_index settings) (\<lambda>_.
           op_bind (reindex_data M source_index dest_index) (\<lambda>_.
           op_bind (switch_alias M source_index dest_index) (\<lambda>_.
           op_bind (op_call (ec_block_writes (im_client M) source_index)) (\<lambda>_.
           op_bind (reindex_data M source_index dest_index) (\<lambda>_.
             op_return dest_index))))))))"

definition migrate :: "'w index_manager \<Rightarrow> json_dict option \<Rightarrow> (string, 'w) es_op" where
  "migrate M settings_changeset =
     op_bind (validate_reindex_script M) (\<lambda>_.
     op_bind (get_current_index_name M) (\<lambda>source.
       case source of
         None \<Rightarrow> initialize_index M (Some (opt_list settings_changeset))
       | Some source_index \<Rightarrow> migrate_from M source_index (opt_list settings_changeset)))"

section \<open>Command line and route\<close>

text \<open>\<^verbatim>\<open>src/app/utils/es/es_migration.py\<close>: exceptions are logged and dropped.\<close>

record slowlog_thresholds =
  slt_warn :: "string option"
  slt_info :: "string option"
  slt_debug :: "string option"
  slt_trace :: "string option"

definition json_opt :: "string option \<Rightarrow> json" where
  "json_opt s = (case s of None \<Rightarrow> JNull | Some t \<Rightarrow> JStr t)"

definition get_index_settings_changeset :: "int option \<Rightarrow> slowlog_thresholds \<Rightarrow> json_dict" where
  "get_index_settings_changeset number_of_shards th =
     [(''search'', JObj [(''slowlog'', JObj [(''threshold'', JObj [(''query'', JObj
        [(''warn'', json_opt (slt_warn th)), (''info'', json_opt (slt_info th)),
         (''debug'', json_opt (slt_debug th)), (''trace'', json_opt (slt_trace th))])])])])] @
     (case number_of_shards of
        Some n \<Rightarrow> if n \<noteq> 0 then [(''number_of_shards'', JNum (of_int n))] else []
      | None \<Rightarrow> [])"

definition logged :: "('a, 'w) es_op \<Rightarrow> (unit, 'w) es_op" where
  "logged m = op_catch (op_bind m (\<lambda>_. op_return ())) (\<lambda>_. Some (op_return ()))"

definition run_migration :: "'w index_manager \<Rightarrow> slowlog_thresholds \<Rightarrow> int option \<Rightarrow> (unit, 'w) es_op" where
  "run_migration M th number_of_shards = logged (migrate M (Some (get_index_settings_changeset number_of_shards th)))"

definition run_rollback :: "'w index_manager \<Rightarrow> string option \<Rightarrow> (unit, 'w) es_op" where
  "run_rollback M target_index =
     logged (case target_index of Some (c # cs) \<Rightarrow> rollback M None (Some (c # cs)) | _ \<Rightarrow> rollback M None None)"

definition delete_old_index :: "'w es_client \<Rightarrow> string \<Rightarrow> (unit, 'w) es_op" where
  "delete_old_index C index_to_delete =
     logged
       (op_bind (op_catch (op_call (ec_index_aliases C index_to_delete))
                   (\<lambda>e. if e = ClientNotFoundError then Some (op_return []) else None)) (\<lambda>aliases.
          if aliases \<noteq> [] then op_return () else op_call (ec_delete_index C index_to_delete)))"

text \<open>The route that repairs an index (\<^verbatim>\<open>src/app/system/routes.py\<close>); \<open>stored\<close> are the stored references.\<close>

definition repair_elasticsearch_index ::
    "uuid list \<Rightarrow> bool \<Rightarrow> bool \<Rightarrow> uuid list option \<Rightarrow> 'w index_manager \<Rightarrow> (unit, 'w) es_op" where
  "repair_elasticsearch_index stored rebuild repair_all document_ids M =
     (if of_bool rebuild + of_bool repair_all + of_bool (document_ids \<noteq> None) \<noteq> (1 :: nat) then op_raise InvalidPayloadError
      else (case document_ids of
              Some ids \<Rightarrow>
                if \<not> im_repair_subset_task M then op_raise InvalidPayloadError
                else (case (if im_alias_name M = ''reference'' then repo_verify_pk_existence id stored ids else Inr ()) of
                        Inl e \<Rightarrow> op_raise e
                      | Inr _ \<Rightarrow> repair_index M (Some ids))
            | None \<Rightarrow> if rebuild then rebuild_index M else repair_index M None))"

text \<open>What the route queues: nothing unless exactly one action is asked for, and a subset as given.\<close>

lemma repair_route_queues:
  assumes "repair_elasticsearch_index stored rebuild repair_all document_ids M w = Some (Inr (), w')"
  shows "of_bool rebuild + of_bool repair_all + of_bool (document_ids \<noteq> None) = (1 :: nat)"
    and "document_ids = Some ids \<Longrightarrow> im_alias_name M = ''reference'' \<Longrightarrow> set ids \<subseteq> set stored"
    and "\<not> rebuild \<Longrightarrow> ec_queue_repair (im_client M) document_ids w = (Inr (), w')"
  using assms
  by (auto simp: repair_elasticsearch_index_def repair_index_def op_raise_def op_call_def repo_verify_pk_existence_def of_bool_def
      split: if_splits option.splits sum.splits)

section \<open>Settings and versions in names\<close>

text \<open>Every key of the changeset gets its value, dictionaries being merged; the others are kept.\<close>

lemma update_nested_settings_lookup:
  "distinct (map fst changeset) \<Longrightarrow>
     map_of (update_nested_settings current changeset) k =
       (case map_of changeset k of
          None \<Rightarrow> map_of current k
        | Some v \<Rightarrow> Some (case (map_of current k, v) of
                           (Some (JObj old), JObj new) \<Rightarrow> JObj (update_nested_settings old new)
                         | _ \<Rightarrow> v))"
proof (induction changeset arbitrary: current)
  case (Cons p changeset)
  obtain key v where p: "p = (key, v)" by fastforce
  with Cons.prems have "k = key \<Longrightarrow> map_of changeset k = None" by (auto simp: map_of_eq_None_iff)
  with Cons show ?case by (auto simp: p update_conv' split: option.splits)
qed simp

lemma split_version_not_Nil [simp]: "split_version s \<noteq> []"
  by (induction s rule: split_version.induct) (auto split: list.splits)

lemma split_version_last:
  assumes "CHR ''_'' \<notin> set t" and "t \<noteq> []"
  shows "last (split_version (s @ ''_v'' @ t)) = t"
proof -
  have single: "split_version t = [t]" if "CHR ''_'' \<notin> set t" for t
    using that by (induction t rule: split_version.induct) auto
  show ?thesis
  proof (induction s rule: split_version.induct)
    case 1
    then show ?case using single [OF assms(1)] by simp
  next
    case (2 c)
    then show ?case using single [OF assms(1)] by simp
  next
    case (3 c d cs)
    show ?case
    proof (cases "c = CHR ''_'' \<and> d = CHR ''v''")
      case True
      then show ?thesis using 3(1) by simp
    next
      case False
      then have ih: "last (split_version (d # cs @ ''_v'' @ t)) = t" using 3(2) by simp
      obtain p ps where sp: "split_version (d # cs @ ''_v'' @ t) = p # ps"
        by (cases "split_version (d # cs @ ''_v'' @ t)") auto
      have "length (split_version (d # cs @ ''_v'' @ t)) > 1"
      proof -
        have "1 < length (split_version (xs @ ''_v'' @ t))" for xs
          by (induction xs rule: split_version.induct) (auto split: list.splits)
        from this [of "d # cs"] show ?thesis by simp
      qed
      with sp ih have "ps \<noteq> []" "last ps = t" by auto
      with False sp show ?thesis by auto
    qed
  qed
qed

lemma int_digits_all: "s \<noteq> [] \<Longrightarrow> list_all is_digit s \<Longrightarrow> int_digits s"
  by (induction s rule: int_digits.induct) (auto simp: is_digit_def)

lemma py_int_str_nat: "py_int (str_nat n) = Some (int n)"
proof -
  have d: "list_all is_digit (str_nat n)" by (simp add: list_all_iff str_nat_digits)
  have "stripped (str_nat n)"
    using str_nat_digits [of "hd (str_nat n)" n] str_nat_digits [of "last (str_nat n)" n]
    by (auto simp: stripped_def is_digit_def py_isspace_def Let_def)
  then have s: "py_strip (str_nat n) = str_nat n" by (rule py_strip_stripped)
  have h: "hd (str_nat n) \<notin> {CHR ''+'', CHR ''-''}"
    using str_nat_digits [of "hd (str_nat n)" n] by (auto simp: is_digit_def)
  have "filter is_digit (str_nat n) = str_nat n" using d by (simp add: list_all_iff)
  with s h d show ?thesis by (auto simp: py_int_def Let_def int_digits_all)
qed

text \<open>The version of a generated name is read back, whatever the alias is called.\<close>

lemma index_version_generated: "0 \<le> n \<Longrightarrow> index_version (generate_index_name alias n) = Some n"
proof -
  assume "0 \<le> n"
  moreover have "CHR ''_'' \<notin> set (str_nat (nat n))" using str_nat_digits [of "CHR ''_''" "nat n"] by (auto simp: is_digit_def)
  ultimately show ?thesis
    by (simp add: index_version_def generate_index_name_def str_int_def split_version_last [simplified] py_int_str_nat)
qed

end
