(* ===== verification/Index_Migration.thy ===== *)
theory Index_Migration
  imports Index_Management
begin

text \<open>
  Migrations of an index while other clients write to it. What is relied on of the client is stated
  over a view of the cluster, in which other clients write through the alias, and tasks copy
  documents, between any two calls.
\<close>

section \<open>The cluster\<close>

text \<open>
  A view of the cluster. A document has a version; searches see the documents as of the last
  refresh; \<open>cl_written\<close> are the documents written while the alias pointed to an index. A task has a
  destination and the documents it has still to copy.
\<close>

record 'd index_state =
  ix_docs :: "uuid \<rightharpoonup> nat \<times> 'd"
  ix_visible :: "uuid \<rightharpoonup> nat \<times> 'd"
  ix_blocked :: bool
  ix_settings :: json_dict

record 'd cluster =
  cl_index :: "string \<rightharpoonup> 'd index_state"
  cl_alias :: "(string \<times> string) list"
  cl_tasks :: "nat \<rightharpoonup> string \<times> (uuid \<rightharpoonup> nat \<times> 'd)"
  cl_written :: "(string \<times> uuid) set"

definition put_index :: "string \<Rightarrow> 'd index_state \<Rightarrow> 'd cluster \<Rightarrow> 'd cluster" where
  "put_index x ix c = c\<lparr> cl_index := (cl_index c)(x \<mapsto> ix) \<rparr>"

definition next_version :: "(nat \<times> 'd) option \<Rightarrow> nat" where
  "next_version e = (case e of None \<Rightarrow> 1 | Some (v, _) \<Rightarrow> Suc v)"

text \<open>Copying under \<^verbatim>\<open>version_type: external\<close>: only a greater version replaces a document.\<close>

definition copied :: "nat \<Rightarrow> 'd \<Rightarrow> (nat \<times> 'd) option \<Rightarrow> (nat \<times> 'd) option" where
  "copied v d e = (case e of None \<Rightarrow> Some (v, d) | Some (v', d') \<Rightarrow> if v' < v then Some (v, d) else Some (v', d'))"

text \<open>
  What happens between calls: other clients write or delete documents through the alias \<open>a\<close>, deleting
  only documents in \<open>D\<close>, indexes are refreshed, and tasks copy documents, applying the script \<open>f\<close>.
\<close>

inductive background :: "string \<Rightarrow> ('d \<Rightarrow> 'd) \<Rightarrow> uuid set \<Rightarrow> 'd cluster \<Rightarrow> 'd cluster \<Rightarrow> bool" for a f D where
  bg_write: "(a, x) \<in> set (cl_alias c) \<Longrightarrow> cl_index c x = Some ix \<Longrightarrow> \<not> ix_blocked ix \<Longrightarrow>
    background a f D c (put_index x (ix\<lparr> ix_docs := (ix_docs ix)(i \<mapsto> (next_version (ix_docs ix i), d)) \<rparr>)
      (c\<lparr> cl_written := insert (x, i) (cl_written c) \<rparr>))"
| bg_delete: "(a, x) \<in> set (cl_alias c) \<Longrightarrow> cl_index c x = Some ix \<Longrightarrow> \<not> ix_blocked ix \<Longrightarrow> i \<in> D \<Longrightarrow>
    background a f D c (put_index x (ix\<lparr> ix_docs := (ix_docs ix)(i := None) \<rparr>) c)"
| bg_refresh: "cl_index c x = Some ix \<Longrightarrow> background a f D c (put_index x (ix\<lparr> ix_visible := ix_docs ix \<rparr>) c)"
| bg_copy: "cl_tasks c t = Some (x, todo) \<Longrightarrow> todo i = Some (v, d) \<Longrightarrow> cl_index c x = Some ix \<Longrightarrow> \<not> ix_blocked ix \<Longrightarrow>
    background a f D c (put_index x (ix\<lparr> ix_docs := (ix_docs ix)(i := copied v (f d) (ix_docs ix i)) \<rparr>)
      (c\<lparr> cl_tasks := (cl_tasks c)(t \<mapsto> (x, todo(i := None))) \<rparr>))"

section \<open>What the client promises\<close>

definition call_law ::
    "('w \<Rightarrow> 'c) \<Rightarrow> ('c \<Rightarrow> 'c \<Rightarrow> bool) \<Rightarrow> ('a \<Rightarrow> 'c \<Rightarrow> 'c \<Rightarrow> bool) \<Rightarrow> (app_error \<Rightarrow> 'c \<Rightarrow> 'c \<Rightarrow> bool) \<Rightarrow>
     ('w \<Rightarrow> 'a result \<times> 'w) \<Rightarrow> bool" where
  "call_law view bg eff err f =
     (\<forall>w r w'. f w = (r, w') \<longrightarrow>
        (\<exists>u v. bg\<^sup>*\<^sup>* (view w) u \<and> bg\<^sup>*\<^sup>* v (view w') \<and> (case r of Inr x \<Rightarrow> eff x u v | Inl e \<Rightarrow> err e u v)))"

text \<open>A call that raises may or may not have had its effect.\<close>

definition in_doubt :: "('a \<Rightarrow> 'c \<Rightarrow> 'c \<Rightarrow> bool) \<Rightarrow> app_error \<Rightarrow> 'c \<Rightarrow> 'c \<Rightarrow> bool" where
  "in_doubt eff e u v = (v = u \<or> (\<exists>x. eff x u v))"

definition indices_of :: "string \<Rightarrow> 'd cluster \<Rightarrow> string set" where
  "indices_of a c = {x. (a, x) \<in> set (cl_alias c)}"

definition eff_get_alias :: "string \<Rightarrow> string list \<Rightarrow> 'd cluster \<Rightarrow> 'd cluster \<Rightarrow> bool" where
  "eff_get_alias a xs u v = (v = u \<and> set xs = indices_of a u)"

definition err_get_alias :: "string \<Rightarrow> app_error \<Rightarrow> 'd cluster \<Rightarrow> 'd cluster \<Rightarrow> bool" where
  "err_get_alias a e u v = (v = u \<and> (e = ClientNotFoundError \<longrightarrow> indices_of a u = {}))"

definition eff_exists :: "string \<Rightarrow> bool \<Rightarrow> 'd cluster \<Rightarrow> 'd cluster \<Rightarrow> bool" where
  "eff_exists x b u v = (v = u \<and> b = (cl_index u x \<noteq> None))"

definition eff_create :: "string \<Rightarrow> json_dict \<Rightarrow> unit \<Rightarrow> 'd cluster \<Rightarrow> 'd cluster \<Rightarrow> bool" where
  "eff_create x s y u v =
     (cl_index u x = None \<and>
      v = put_index x \<lparr> ix_docs = Map.empty, ix_visible = Map.empty, ix_blocked = False, ix_settings = s \<rparr> u)"

definition eff_put_alias :: "string \<Rightarrow> string \<Rightarrow> unit \<Rightarrow> 'd cluster \<Rightarrow> 'd cluster \<Rightarrow> bool" where
  "eff_put_alias x a y u v = (cl_index u x \<noteq> None \<and> v = u\<lparr> cl_alias := (a, x) # cl_alias u \<rparr>)"

definition eff_move_alias :: "string \<Rightarrow> string \<Rightarrow> string \<Rightarrow> unit \<Rightarrow> 'd cluster \<Rightarrow> 'd cluster \<Rightarrow> bool" where
  "eff_move_alias a old new y u v =
     (cl_index u new \<noteq> None \<and> v = u\<lparr> cl_alias := (a, new) # removeAll (a, old) (cl_alias u) \<rparr>)"

definition eff_block :: "string \<Rightarrow> unit \<Rightarrow> 'd cluster \<Rightarrow> 'd cluster \<Rightarrow> bool" where
  "eff_block x y u v = (\<exists>ix. cl_index u x = Some ix \<and> v = put_index x (ix\<lparr> ix_blocked := True \<rparr>) u)"

definition eff_count :: "string \<Rightarrow> nat \<Rightarrow> 'd cluster \<Rightarrow> 'd cluster \<Rightarrow> bool" where
  "eff_count x n u v = (v = u \<and> (\<exists>ix. cl_index u x = Some ix \<and> (n = 0 \<longleftrightarrow> ix_visible ix = Map.empty)))"

definition eff_reindex :: "string \<Rightarrow> string \<Rightarrow> nat \<Rightarrow> 'd cluster \<Rightarrow> 'd cluster \<Rightarrow> bool" where
  "eff_reindex src dst t u v =
     (\<exists>ix. cl_index u src = Some ix \<and> cl_tasks u t = None \<and>
        v = u\<lparr> cl_tasks := (cl_tasks u)(t \<mapsto> (dst, ix_visible ix)) \<rparr>)"

definition eff_task :: "nat \<Rightarrow> bool \<Rightarrow> 'd cluster \<Rightarrow> 'd cluster \<Rightarrow> bool" where
  "eff_task t completed u v =
     (v = u \<and> (completed \<longrightarrow> (\<forall>x todo. cl_tasks u t = Some (x, todo) \<longrightarrow> todo = Map.empty)))"

definition eff_none :: "'a \<Rightarrow> 'd cluster \<Rightarrow> 'd cluster \<Rightarrow> bool" where
  "eff_none x u v = (v = u)"

definition err_none :: "app_error \<Rightarrow> 'd cluster \<Rightarrow> 'd cluster \<Rightarrow> bool" where
  "err_none e u v = (v = u)"

definition es_client_ok ::
    "('w \<Rightarrow> 'd cluster) \<Rightarrow> string \<Rightarrow> string option \<Rightarrow> ('d \<Rightarrow> 'd) \<Rightarrow> uuid set \<Rightarrow> 'w es_client \<Rightarrow> bool" where
  "es_client_ok view a script f D C =
     ((script = None \<longrightarrow> f = id) \<and>
      call_law view (background a f D) (eff_get_alias a) (err_get_alias a) (ec_get_alias C a) \<and>
      (\<forall>x. call_law view (background a f D) (eff_exists x) (in_doubt (eff_exists x)) (ec_exists C x)) \<and>
      (\<forall>x. call_law view (background a f D) eff_none err_none (ec_get_settings C x)) \<and>
      (\<forall>x s. call_law view (background a f D) (eff_create x s) (in_doubt (eff_create x s)) (ec_create C x s)) \<and>
      (\<forall>x. call_law view (background a f D) (eff_put_alias x a) (in_doubt (eff_put_alias x a)) (ec_put_alias C x a)) \<and>
      (\<forall>x y. call_law view (background a f D) (eff_move_alias a x y) (in_doubt (eff_move_alias a x y)) (ec_move_alias C a x y)) \<and>
      (\<forall>x. call_law view (background a f D) (eff_block x) (in_doubt (eff_block x)) (ec_block_writes C x)) \<and>
      (\<forall>x. call_law view (background a f D) (eff_count x) (in_doubt (eff_count x)) (ec_count C x)) \<and>
      (\<forall>x y. call_law view (background a f D) (eff_reindex x y) (in_doubt (eff_reindex x y)) (ec_reindex C x y script)) \<and>
      (\<forall>i s. call_law view (background a f D) eff_none err_none (ec_put_script C i s)) \<and>
      (\<forall>i. call_law view (background a f D) eff_none err_none (ec_delete_script C i)))"

text \<open>
  Three further hypotheses. A task that is completed has copied everything: the manager does not look
  at the failures a task reports. Tasks end. And when the write block of an index is answered,
  searches see all its documents: the manager does not ask for a refresh before the second copy.
\<close>

definition tasks_complete :: "('w \<Rightarrow> 'd cluster) \<Rightarrow> string \<Rightarrow> ('d \<Rightarrow> 'd) \<Rightarrow> uuid set \<Rightarrow> 'w es_client \<Rightarrow> bool" where
  "tasks_complete view a f D C =
     (\<forall>t. call_law view (background a f D) (eff_task t) (in_doubt (eff_task t)) (ec_task_completed C t))"

fun polls :: "'w es_client \<Rightarrow> nat \<Rightarrow> nat \<Rightarrow> 'w \<Rightarrow> bool" where
  "polls C t 0 w = False"
| "polls C t (Suc n) w = (case ec_task_completed C t w of (Inr False, w') \<Rightarrow> polls C t n w' | _ \<Rightarrow> True)"

definition tasks_end :: "'w es_client \<Rightarrow> bool" where
  "tasks_end C = (\<forall>t w. \<exists>n. polls C t n w)"

definition refreshed_at_block :: "('w \<Rightarrow> 'd cluster) \<Rightarrow> 'w es_client \<Rightarrow> bool" where
  "refreshed_at_block view C =
     (\<forall>x w w'. ec_block_writes C x w = (Inr (), w') \<longrightarrow>
        (\<forall>ix. cl_index (view w') x = Some ix \<longrightarrow> ix_visible ix = ix_docs ix))"

section \<open>Reasoning about calls\<close>

text \<open>
  From a state of the cluster that satisfies \<open>P\<close> a method returns, with \<open>Q\<close> for its result, or raises
  with \<open>E\<close>. Conditions have to be stable under what happens between calls.
\<close>

definition ensures ::
    "('w \<Rightarrow> 'c) \<Rightarrow> ('c \<Rightarrow> bool) \<Rightarrow> ('a, 'w) es_op \<Rightarrow> ('a \<Rightarrow> 'c \<Rightarrow> bool) \<Rightarrow> ('c \<Rightarrow> bool) \<Rightarrow> bool" where
  "ensures view P m Q E =
     (\<forall>w. P (view w) \<longrightarrow>
        (\<exists>r w'. m w = Some (r, w') \<and> (case r of Inr x \<Rightarrow> Q x (view w') | Inl _ \<Rightarrow> E (view w'))))"

definition steady :: "('c \<Rightarrow> 'c \<Rightarrow> bool) \<Rightarrow> ('c \<Rightarrow> bool) \<Rightarrow> bool" where
  "steady bg P = (\<forall>c c'. P c \<longrightarrow> bg c c' \<longrightarrow> P c')"

lemma steady_run:
  assumes "steady bg P" and "bg\<^sup>*\<^sup>* c c'" and "P c"
  shows "P c'"
  using assms(2,3) by (induction rule: rtranclp_induct) (use assms(1) in \<open>auto simp: steady_def\<close>)

lemma ensures_return: "(\<And>c. P c \<Longrightarrow> Q x c) \<Longrightarrow> ensures view P (op_return x) Q E"
  by (simp add: ensures_def op_return_def)

lemma ensures_raise: "(\<And>c. P c \<Longrightarrow> E c) \<Longrightarrow> ensures view P (op_raise e) Q E"
  by (simp add: ensures_def op_raise_def)

lemma ensures_bind:
  assumes "ensures view P m R E" and "\<And>x. ensures view (R x) (f x) Q E"
  shows "ensures view P (op_bind m f) Q E"
  unfolding ensures_def
proof (intro allI impI)
  fix w assume "P (view w)"
  with assms(1) obtain r w' where m: "m w = Some (r, w')" "case r of Inr x \<Rightarrow> R x (view w') | Inl _ \<Rightarrow> E (view w')"
    unfolding ensures_def by blast
  show "\<exists>r w'. op_bind m f w = Some (r, w') \<and> (case r of Inr x \<Rightarrow> Q x (view w') | Inl _ \<Rightarrow> E (view w'))"
  proof (cases r)
    case (Inr x)
    with m assms(2) [of x] show ?thesis by (simp add: ensures_def op_bind_def)
  qed (use m in \<open>auto simp: op_bind_def\<close>)
qed

lemma ensures_fact: "(b \<Longrightarrow> ensures view P m Q E) \<Longrightarrow> ensures view (\<lambda>c. b \<and> P c) m Q E"
  by (auto simp: ensures_def)

lemma ensures_weaken:
  assumes "ensures view P m Q E" and "\<And>c. P' c \<Longrightarrow> P c" and "\<And>x c. Q x c \<Longrightarrow> Q' x c" and "\<And>c. E c \<Longrightarrow> E' c"
  shows "ensures view P' m Q' E'"
  unfolding ensures_def
proof (intro allI impI)
  fix w assume "P' (view w)"
  with assms(1,2) obtain r w' where m: "m w = Some (r, w')" "case r of Inr x \<Rightarrow> Q x (view w') | Inl _ \<Rightarrow> E (view w')"
    unfolding ensures_def by blast
  with assms(3,4) show "\<exists>r w'. m w = Some (r, w') \<and> (case r of Inr x \<Rightarrow> Q' x (view w') | Inl _ \<Rightarrow> E' (view w'))"
    by (auto split: sum.splits)
qed

lemma ensures_call:
  assumes law: "call_law view bg eff err f" and P: "steady bg P" and Q: "\<And>x. steady bg (Q x)" and E: "steady bg E"
    and eff: "\<And>x u v. P u \<Longrightarrow> eff x u v \<Longrightarrow> Q x v" and err: "\<And>e u v. P u \<Longrightarrow> err e u v \<Longrightarrow> E v"
  shows "ensures view P (op_call f) Q E"
  unfolding ensures_def
proof (intro allI impI)
  fix w assume "P (view w)"
  obtain r w' where f: "f w = (r, w')" by fastforce
  with law obtain u v where uv: "bg\<^sup>*\<^sup>* (view w) u" "bg\<^sup>*\<^sup>* v (view w')"
    "case r of Inr x \<Rightarrow> eff x u v | Inl e \<Rightarrow> err e u v" unfolding call_law_def by blast
  have "P u" by (rule steady_run [OF P uv(1)]) fact
  with uv(3) eff err have "case r of Inr x \<Rightarrow> Q x v | Inl _ \<Rightarrow> E v" by (auto split: sum.splits)
  then have "case r of Inr x \<Rightarrow> Q x (view w') | Inl _ \<Rightarrow> E (view w')"
    using steady_run [OF Q uv(2)] steady_run [OF E uv(2)] by (cases r) auto
  with f show "\<exists>r w'. op_call f w = Some (r, w') \<and> (case r of Inr x \<Rightarrow> Q x (view w') | Inl _ \<Rightarrow> E (view w'))"
    by (simp add: op_call_def)
qed

text \<open>A call that reads or may not matter.\<close>

lemma ensures_reading:
  assumes "call_law view bg eff_none err f" and "steady bg P" and "\<And>e u v. err e u v \<Longrightarrow> v = u"
    and "\<And>c. P c \<Longrightarrow> E c" and "steady bg E"
  shows "ensures view P (op_call f) (\<lambda>_. P) E"
  using assms by (intro ensures_call [OF assms(1)]) (auto simp: eff_none_def)

lemma poll_ends:
  assumes law: "call_law view bg (eff_task t) (in_doubt (eff_task t)) (ec_task_completed C t)" and "tasks_end C"
    and P: "steady bg P" and Q: "steady bg Q" and E: "steady bg E" "\<And>c. P c \<Longrightarrow> E c"
    and fin: "\<And>c. P c \<Longrightarrow> (\<forall>x todo. cl_tasks c t = Some (x, todo) \<longrightarrow> todo = Map.empty) \<Longrightarrow> Q c"
  shows "ensures view P (poll_task C t) (\<lambda>_. Q) E"
proof -
  have step: "ensures view P (op_call (ec_task_completed C t)) (\<lambda>b c. P c \<and> (b \<longrightarrow> Q c)) E"
    using P Q E fin
    by (intro ensures_call [OF law]) (auto simp: steady_def eff_task_def in_doubt_def)
  have "\<exists>r w'. poll_task C t w = Some (r, w') \<and> (case r of Inr x \<Rightarrow> Q (view w') | Inl _ \<Rightarrow> E (view w'))"
    if "polls C t n w" "P (view w)" for n w
    using that
  proof (induction n arbitrary: w)
    case (Suc n)
    obtain r w1 where call: "ec_task_completed C t w = (r, w1)" by fastforce
    with step Suc.prems(2) have post: "case r of Inr b \<Rightarrow> P (view w1) \<and> (b \<longrightarrow> Q (view w1)) | Inl _ \<Rightarrow> E (view w1)"
      unfolding ensures_def op_call_def by fastforce
    consider e where "r = Inl e" | "r = Inr True" | "r = Inr False" by (cases r) auto
    then show ?case
    proof cases
      case 3
      with Suc.prems(1) call post have "polls C t n w1" "P (view w1)" by auto
      from Suc.IH [OF this] 3 call show ?thesis by (simp add: poll_task.simps [of C t w])
    qed (use call post in \<open>simp_all add: poll_task.simps [of C t w]\<close>)
  qed simp
  with assms(2) show ?thesis unfolding ensures_def tasks_end_def by blast
qed

section \<open>The phases of a migration\<close>

text \<open>\<open>older f s e\<close>: the entry \<open>e\<close> is an earlier state of the entry \<open>s\<close>, after the script.\<close>

definition older :: "('d \<Rightarrow> 'd) \<Rightarrow> (nat \<times> 'd) option \<Rightarrow> (nat \<times> 'd) option \<Rightarrow> bool" where
  "older f s e =
     (case e of
        None \<Rightarrow> True
      | Some (v', d') \<Rightarrow> (case s of None \<Rightarrow> False | Some (v, d) \<Rightarrow> v' < v \<or> v' = v \<and> d' = f d))"

definition todo_of :: "nat option \<Rightarrow> 'd cluster \<Rightarrow> uuid \<rightharpoonup> nat \<times> 'd" where
  "todo_of t c = (case t of None \<Rightarrow> Map.empty | Some t \<Rightarrow> (case cl_tasks c t of None \<Rightarrow> Map.empty | Some (_, todo) \<Rightarrow> todo))"

definition only_task :: "nat option \<Rightarrow> string \<Rightarrow> 'd cluster \<Rightarrow> bool" where
  "only_task t dst c = (\<forall>t' x todo. cl_tasks c t' = Some (x, todo) \<longrightarrow> todo = Map.empty \<or> Some t' = t \<and> x = dst)"

lemma older_None [simp]: "older f s None"
  by (simp add: older_def)

lemma older_next: "older f s e \<Longrightarrow> older f (Some (next_version s, d)) e"
  by (auto simp: older_def next_version_def split: option.splits)

lemma older_refl [simp]: "older id s s"
  by (auto simp: older_def split: option.splits)

lemma older_copied: "older id s (Some (v, d)) \<Longrightarrow> older f s e \<Longrightarrow> older f s (copied v (f d) e)"
  by (auto simp: older_def copied_def split: option.splits if_splits)

lemma copied_not_None [simp]: "copied v d e \<noteq> None"
  by (auto simp: copied_def split: option.splits)

lemma put_index_simps [simp]:
  "cl_index (put_index x ix c) = (cl_index c)(x \<mapsto> ix)" "cl_alias (put_index x ix c) = cl_alias c"
  "cl_tasks (put_index x ix c) = cl_tasks c" "cl_written (put_index x ix c) = cl_written c"
  by (simp_all add: put_index_def)

definition docs_of :: "'d cluster \<Rightarrow> string \<Rightarrow> uuid \<rightharpoonup> nat \<times> 'd" where
  "docs_of c x = (case cl_index c x of None \<Rightarrow> Map.empty | Some ix \<Rightarrow> ix_docs ix)"

definition visible_of :: "'d cluster \<Rightarrow> string \<Rightarrow> uuid \<rightharpoonup> nat \<times> 'd" where
  "visible_of c x = (case cl_index c x of None \<Rightarrow> Map.empty | Some ix \<Rightarrow> ix_visible ix)"

lemma docs_of_put [simp]: "docs_of (put_index x ix c) = (docs_of c)(x := ix_docs ix)"
  by (auto simp: docs_of_def)

lemma visible_of_put [simp]: "visible_of (put_index x ix c) = (visible_of c)(x := ix_visible ix)"
  by (auto simp: visible_of_def)

lemma views_other [simp]:
  "docs_of (c\<lparr> cl_alias := al \<rparr>) = docs_of c" "docs_of (c\<lparr> cl_tasks := ts \<rparr>) = docs_of c"
  "docs_of (c\<lparr> cl_written := ws \<rparr>) = docs_of c" "visible_of (c\<lparr> cl_alias := al \<rparr>) = visible_of c"
  "visible_of (c\<lparr> cl_tasks := ts \<rparr>) = visible_of c" "visible_of (c\<lparr> cl_written := ws \<rparr>) = visible_of c"
  by (simp_all add: docs_of_def visible_of_def fun_eq_iff)

text \<open>A step changes one entry of one index, or what is visible of an index.\<close>

lemma background_cases:
  assumes "background a f D c c'"
  obtains (wr) x i d where "x \<in> indices_of a c"
      and "docs_of c' = (docs_of c)(x := (docs_of c x)(i \<mapsto> (next_version (docs_of c x i), d)))"
      and "visible_of c' = visible_of c" and "cl_alias c' = cl_alias c" and "cl_tasks c' = cl_tasks c"
      and "cl_written c' = insert (x, i) (cl_written c)"
  | (del) x i where "x \<in> indices_of a c" and "i \<in> D" and "docs_of c' = (docs_of c)(x := (docs_of c x)(i := None))"
      and "visible_of c' = visible_of c" and "cl_alias c' = cl_alias c" and "cl_tasks c' = cl_tasks c"
      and "cl_written c' = cl_written c"
  | (ref) x where "docs_of c' = docs_of c" and "visible_of c' = (visible_of c)(x := docs_of c x)"
      and "cl_alias c' = cl_alias c" and "cl_tasks c' = cl_tasks c" and "cl_written c' = cl_written c"
  | (cp) t x todo i v d where "cl_tasks c t = Some (x, todo)" and "todo i = Some (v, d)"
      and "docs_of c' = (docs_of c)(x := (docs_of c x)(i := copied v (f d) (docs_of c x i)))"
      and "visible_of c' = visible_of c" and "cl_alias c' = cl_alias c"
      and "cl_tasks c' = (cl_tasks c)(t \<mapsto> (x, todo(i := None)))" and "cl_written c' = cl_written c"
  using assms
proof cases
  case (bg_write x ix i d)
  then have "docs_of c x = ix_docs ix" "visible_of c x = ix_visible ix" by (simp_all add: docs_of_def visible_of_def)
  with bg_write show ?thesis by (intro wr [of x i d]) (auto simp: indices_of_def)
next
  case (bg_delete x ix i)
  then have "docs_of c x = ix_docs ix" "visible_of c x = ix_visible ix" by (simp_all add: docs_of_def visible_of_def)
  with bg_delete show ?thesis by (intro del [of x i]) (auto simp: indices_of_def)
next
  case (bg_refresh x ix)
  then have "docs_of c x = ix_docs ix" "visible_of c x = ix_visible ix" by (simp_all add: docs_of_def visible_of_def)
  with bg_refresh show ?thesis by (intro ref [of x]) (auto simp: fun_eq_iff)
next
  case (bg_copy t x todo i v d ix)
  then have "docs_of c x = ix_docs ix" "visible_of c x = ix_visible ix" by (simp_all add: docs_of_def visible_of_def)
  with bg_copy show ?thesis by (intro cp [of t x todo i v d]) auto
qed

lemma only_taskD:
  assumes "only_task t dst c" and "cl_tasks c t' = Some (x, todo)" and "todo i = Some e"
  shows "t = Some t'" and "x = dst"
proof -
  have "todo \<noteq> Map.empty" using assms(3) by auto
  with assms(1,2) show "t = Some t'" "x = dst" unfolding only_task_def by blast+
qed

lemma same_cluster:
  "cl_tasks c' = cl_tasks c \<Longrightarrow> todo_of t c' = todo_of t c"
  "cl_tasks c' = cl_tasks c \<Longrightarrow> only_task t dst c' = only_task t dst c"
  "cl_alias c' = cl_alias c \<Longrightarrow> indices_of a c' = indices_of a c"
  by (cases t) (simp_all add: todo_of_def only_task_def indices_of_def)

text \<open>Before the switch: the alias points to the source, and the destination runs behind it.\<close>

definition before_switch ::
    "string \<Rightarrow> ('d \<Rightarrow> 'd) \<Rightarrow> uuid set \<Rightarrow> uuid set \<Rightarrow> string \<Rightarrow> string \<Rightarrow> nat option \<Rightarrow> bool \<Rightarrow> 'd cluster \<Rightarrow> bool" where
  "before_switch a f D S src dst t cov c =
     (indices_of a c = {src} \<and> (\<forall>i. (dst, i) \<notin> cl_written c) \<and> only_task t dst c \<and>
      S \<subseteq> dom (visible_of c src) \<union> D \<and> (cov \<longrightarrow> S \<subseteq> dom (docs_of c dst) \<union> dom (todo_of t c) \<union> D) \<and>
      (\<forall>i. i \<notin> D \<longrightarrow> older id (docs_of c src i) (visible_of c src i) \<and> older id (docs_of c src i) (todo_of t c i) \<and>
         older f (docs_of c src i) (docs_of c dst i)))"

lemma before_switchD:
  assumes "before_switch a f D S src dst t cov c"
  shows "indices_of a c = {src}" and "(dst, i) \<notin> cl_written c" and "only_task t dst c"
    and "S \<subseteq> dom (visible_of c src) \<union> D"
    and "i \<notin> D \<Longrightarrow> older id (docs_of c src i) (visible_of c src i)"
    and "i \<notin> D \<Longrightarrow> older id (docs_of c src i) (todo_of t c i)"
    and "i \<notin> D \<Longrightarrow> older f (docs_of c src i) (docs_of c dst i)"
    and "cov \<Longrightarrow> S \<subseteq> dom (docs_of c dst) \<union> dom (todo_of t c) \<union> D"
  using assms unfolding before_switch_def by blast+

lemma before_switch_steady:
  assumes neq: "src \<noteq> dst"
  shows "steady (background a f D) (before_switch a f D S src dst t cov)"
  unfolding steady_def
proof (intro allI impI)
  fix c c' assume P: "before_switch a f D S src dst t cov c" and step: "background a f D c c'"
  note p = before_switchD [OF P]
  from step show "before_switch a f D S src dst t cov c'"
  proof (cases rule: background_cases)
    case (wr x i d)
    from wr(1) p(1) have x: "x = src" by simp
    have m: "older g (docs_of c' src j) e" if "older g (docs_of c src j) e" for g j e
      using that by (auto simp: wr(2) x intro: older_next)
    have dst: "docs_of c' dst = docs_of c dst" using neq by (simp add: wr(2) x)
    note q = m [OF p(5)] m [OF p(6)] m [OF p(7)]
    have "(dst, j) \<notin> cl_written c'" for j using p(2) neq by (simp add: wr(6) x)
    then show ?thesis
      unfolding before_switch_def same_cluster(1,2) [OF wr(5)] same_cluster(3) [OF wr(4)] wr(3) dst
      using p(1,3,4,8) q by blast
  next
    case (del x i)
    from del(1) p(1) have x: "x = src" by simp
    have m: "older g (docs_of c' src j) e" if "older g (docs_of c src j) e" "j \<notin> D" for g j e
      using that del(2) by (auto simp: del(3) x)
    have dst: "docs_of c' dst = docs_of c dst" using neq by (simp add: del(3) x)
    note q = m [OF p(5)] m [OF p(6)] m [OF p(7)]
    show ?thesis
      unfolding before_switch_def same_cluster(1,2) [OF del(6)] same_cluster(3) [OF del(5)] del(4,7) dst
      using p(1-4,8) q by blast
  next
    case (ref x)
    have "S \<subseteq> dom (docs_of c src) \<union> D"
    proof
      fix i assume "i \<in> S"
      with p(4) p(5) [of i] show "i \<in> dom (docs_of c src) \<union> D" by (auto simp: older_def split: option.splits)
    qed
    then have v: "S \<subseteq> dom (visible_of c' src) \<union> D" using p(4) by (auto simp: ref(2))
    have m: "older id (docs_of c src j) (visible_of c' src j)" if "j \<notin> D" for j
      using p(5) [OF that] by (simp add: ref(2))
    show ?thesis
      unfolding before_switch_def same_cluster(1,2) [OF ref(4)] same_cluster(3) [OF ref(3)] ref(1,5)
      using p(1-3) v m p(6-8) by blast
  next
    case (cp t' x todo i v d)
    note t = only_taskD [OF p(3) cp(1,2)]
    have todo: "todo_of t c' = (todo_of t c)(i := None)" "todo_of t c i = Some (v, d)"
      using cp(1,2,6) by (auto simp: todo_of_def t)
    have only: "only_task t dst c'" using p(3) cp(6) by (auto simp: only_task_def t)
    have src: "docs_of c' src = docs_of c src" using neq by (simp add: cp(3) t)
    have m: "older f (docs_of c src j) (docs_of c' dst j)" if "j \<notin> D" for j
      using p(6,7) [OF that] todo(2) by (auto simp: cp(3) t(2) intro: older_copied)
    have n: "older id (docs_of c src j) (todo_of t c' j)" if "j \<notin> D" for j
      using p(6) [OF that] by (simp add: todo(1))
    have s: "S \<subseteq> dom (docs_of c' dst) \<union> dom (todo_of t c') \<union> D" if cov
      using p(8) [OF that] by (auto simp: todo(1) cp(3) t(2))
    show ?thesis
      unfolding before_switch_def same_cluster(3) [OF cp(5)] cp(4,7) src
      using p(1,2,4,5) only m n s by blast
  qed
qed

text \<open>
  After the switch: the alias points to the destination, and the source does not change any more. A
  phase says how the entry of a document in the source, what is left to copy of it, whether it was
  written since, and its entry in the destination go together.
\<close>

type_synonym 'd phase = "(nat \<times> 'd) option \<Rightarrow> (nat \<times> 'd) option \<Rightarrow> bool \<Rightarrow> (nat \<times> 'd) option \<Rightarrow> bool"

definition phase_ok :: "('d \<Rightarrow> 'd) \<Rightarrow> 'd phase \<Rightarrow> bool" where
  "phase_ok f Q =
     ((\<forall>s r w e d. Q s r w e \<longrightarrow> Q s r True (Some (next_version e, d))) \<and>
      (\<forall>s v d w e. Q s (Some (v, d)) w e \<longrightarrow> Q s None w (copied v (f d) e)))"

definition behind :: "('d \<Rightarrow> 'd) \<Rightarrow> 'd phase" where
  "behind f s r w e = (if w then e \<noteq> None else older f s e)"

definition caught_up :: "('d \<Rightarrow> 'd) \<Rightarrow> 'd phase" where
  "caught_up f s r w e =
     (if w then (\<exists>v' d'. e = Some (v', d') \<and> (\<forall>v d. s = Some (v, d) \<longrightarrow> v \<le> v'))
      else e = map_option (apsnd f) s)"

definition copying :: "('d \<Rightarrow> 'd) \<Rightarrow> 'd phase" where
  "copying f s r w e = (if r = None then caught_up f s r w e else r = s \<and> behind f s r w e)"

definition after_switch ::
    "string \<Rightarrow> uuid set \<Rightarrow> uuid set \<Rightarrow> string \<Rightarrow> string \<Rightarrow> nat option \<Rightarrow> bool \<Rightarrow> 'd phase \<Rightarrow> 'd cluster \<Rightarrow> bool" where
  "after_switch a D S src dst t seen Q c =
     (indices_of a c = {dst} \<and> only_task t dst c \<and> S \<subseteq> dom (docs_of c dst) \<union> D \<and>
      (seen \<longrightarrow> visible_of c src = docs_of c src) \<and>
      (\<forall>i. i \<notin> D \<longrightarrow> Q (docs_of c src i) (todo_of t c i) ((dst, i) \<in> cl_written c) (docs_of c dst i)))"

lemma phase_ok_caught_up: "phase_ok f (\<lambda>s r w e. caught_up f s None w e \<and> r = None)"
  by (auto simp: phase_ok_def caught_up_def next_version_def le_Suc_eq split: option.splits if_splits)

lemma phase_ok_copying: "phase_ok f (copying f)"
proof -
  have "copying f s r True (Some (next_version e, d))" if "copying f s r w e" for s r w e d
    using that by (auto simp: copying_def caught_up_def behind_def next_version_def split: option.splits if_splits)
  moreover have "copying f s None w (copied v (f d) e)" if "copying f s (Some (v, d)) w e" for s v d w e
    using that by (auto simp: copying_def caught_up_def behind_def copied_def older_def split: option.splits if_splits)
  ultimately show ?thesis by (simp add: phase_ok_def)
qed

lemma phase_ok_behind: "phase_ok f (\<lambda>s r w e. behind f s r w e \<and> r = None)"
  by (auto simp: phase_ok_def behind_def)

lemma after_switchD:
  assumes "after_switch a D S src dst t seen Q c"
  shows "indices_of a c = {dst}" and "only_task t dst c" and "S \<subseteq> dom (docs_of c dst) \<union> D"
    and "seen \<Longrightarrow> visible_of c src = docs_of c src"
    and "i \<notin> D \<Longrightarrow> Q (docs_of c src i) (todo_of t c i) ((dst, i) \<in> cl_written c) (docs_of c dst i)"
  using assms unfolding after_switch_def by blast+

lemma after_switch_steady:
  assumes neq: "src \<noteq> dst" and Q: "phase_ok f Q"
  shows "steady (background a f D) (after_switch a D S src dst t seen Q)"
  unfolding steady_def
proof (intro allI impI)
  fix c c' assume P: "after_switch a D S src dst t seen Q c" and step: "background a f D c c'"
  note p = after_switchD [OF P]
  from step show "after_switch a D S src dst t seen Q c'"
  proof (cases rule: background_cases)
    case (wr x i d)
    from wr(1) p(1) have x: "x = dst" by simp
    have src: "docs_of c' src = docs_of c src" using neq by (simp add: wr(2) x)
    have d: "S \<subseteq> dom (docs_of c' dst) \<union> D" using p(3) by (auto simp: wr(2) x)
    have m: "Q (docs_of c src j) (todo_of t c j) ((dst, j) \<in> cl_written c') (docs_of c' dst j)" if "j \<notin> D" for j
      using p(5) [OF that] Q by (auto simp: phase_ok_def wr(2,6) x)
    show ?thesis
      unfolding after_switch_def same_cluster(1,2) [OF wr(5)] same_cluster(3) [OF wr(4)] wr(3) src
      using p d m by blast
  next
    case (del x i)
    from del(1) p(1) have x: "x = dst" by simp
    have src: "docs_of c' src = docs_of c src" using neq by (simp add: del(3) x)
    have d: "S \<subseteq> dom (docs_of c' dst) \<union> D" using p(3) del(2) by (auto simp: del(3) x)
    have m: "Q (docs_of c src j) (todo_of t c j) ((dst, j) \<in> cl_written c) (docs_of c' dst j)" if "j \<notin> D" for j
      using p(5) [OF that] that del(2) by (auto simp: del(3) x)
    show ?thesis
      unfolding after_switch_def same_cluster(1,2) [OF del(6)] same_cluster(3) [OF del(5)] del(4,7) src
      using p d m by blast
  next
    case (ref x)
    have v: "visible_of c' src = docs_of c src" if seen using p(4) [OF that] by (simp add: ref(2))
    show ?thesis
      unfolding after_switch_def same_cluster(1,2) [OF ref(4)] same_cluster(3) [OF ref(3)] ref(1,5)
      using p v by blast
  next
    case (cp t' x todo i v d)
    note t = only_taskD [OF p(2) cp(1,2)]
    have todo: "todo_of t c' = (todo_of t c)(i := None)" "todo_of t c i = Some (v, d)"
      using cp(1,2,6) by (auto simp: todo_of_def t)
    have only: "only_task t dst c'" using p(2) cp(6) by (auto simp: only_task_def t)
    have src: "docs_of c' src = docs_of c src" using neq by (simp add: cp(3) t)
    have s: "S \<subseteq> dom (docs_of c' dst) \<union> D" using p(3) by (auto simp: cp(3) t(2))
    have m: "Q (docs_of c src j) (todo_of t c' j) ((dst, j) \<in> cl_written c) (docs_of c' dst j)" if "j \<notin> D" for j
      using p(5) [OF that] Q todo by (auto simp: phase_ok_def cp(3) t(2))
    show ?thesis
      unfolding after_switch_def same_cluster(3) [OF cp(5)] cp(4,7) src
      using p only s m by blast
  qed
qed

text \<open>Whatever is raised, the alias points to one index, with every document that was there.\<close>

definition served :: "string \<Rightarrow> uuid set \<Rightarrow> uuid set \<Rightarrow> string set \<Rightarrow> 'd cluster \<Rightarrow> bool" where
  "served a D S xs c = (\<exists>x \<in> xs. indices_of a c = {x} \<and> S \<subseteq> dom (docs_of c x) \<union> D)"

lemma served_steady: "steady (background a f D) (served a D S xs)"
  unfolding steady_def
proof (intro allI impI)
  fix c c' assume "served a D S xs c" and step: "background a f D c c'"
  then obtain x where x: "x \<in> xs" "indices_of a c = {x}" "S \<subseteq> dom (docs_of c x) \<union> D" by (auto simp: served_def)
  from step have "cl_alias c' = cl_alias c" by (cases rule: background_cases)
  from same_cluster(3) [OF this] have "indices_of a c' = {x}" using x(2) by simp
  moreover from step have "dom (docs_of c x) \<subseteq> dom (docs_of c' x) \<union> D"
  proof (cases rule: background_cases)
    case wr
    show ?thesis unfolding wr(2) by auto
  next
    case del
    show ?thesis unfolding del(3) using del(2) by auto
  next
    case ref
    show ?thesis unfolding ref(1) by auto
  next
    case cp
    show ?thesis unfolding cp(3) by auto
  qed
  then have "S \<subseteq> dom (docs_of c' x) \<union> D" using x(3) by blast
  ultimately show "served a D S xs c'" using x(1) by (auto simp: served_def)
qed

lemma before_served:
  assumes "before_switch a f D S src dst t cov c"
  shows "served a D S {src, dst} c"
proof -
  note p = before_switchD [OF assms]
  have "S \<subseteq> dom (docs_of c src) \<union> D"
  proof
    fix i assume "i \<in> S"
    with p(4) p(5) [of i] show "i \<in> dom (docs_of c src) \<union> D" by (auto simp: older_def split: option.splits)
  qed
  with p(1) show ?thesis by (auto simp: served_def)
qed

lemma after_served: "after_switch a D S src dst t seen Q c \<Longrightarrow> served a D S {src, dst} c"
  by (auto simp: after_switch_def served_def)

lemma todo_of_None [simp]: "todo_of None c = Map.empty"
  by (simp add: todo_of_def)

lemma only_task_finished:
  assumes "only_task (Some t) dst c" and "\<forall>x todo. cl_tasks c t = Some (x, todo) \<longrightarrow> todo = Map.empty"
  shows "only_task None dst c" and "todo_of (Some t) c = Map.empty"
proof -
  show "only_task None dst c" using assms unfolding only_task_def by (metis option.inject)
  show "todo_of (Some t) c = Map.empty" using assms(2) by (auto simp: todo_of_def split: option.splits)
qed

lemma only_task_started:
  assumes "only_task None dst c" and "cl_tasks c t = None"
  shows "only_task (Some t) dst (c\<lparr> cl_tasks := (cl_tasks c)(t \<mapsto> (dst, todo)) \<rparr>)"
    and "todo_of (Some t) (c\<lparr> cl_tasks := (cl_tasks c)(t \<mapsto> (dst, todo)) \<rparr>) = todo"
  using assms by (auto simp: only_task_def todo_of_def)

text \<open>How the phases follow each other.\<close>

lemma created:
  assumes "before_switch a f D S src dst None False u" and "eff_create dst s y u v" and "src \<noteq> dst"
  shows "before_switch a f D S src dst None False v"
  using assms by (auto simp: before_switch_def eff_create_def indices_of_def only_task_def)

lemma nothing_to_copy:
  assumes "before_switch a f D S src dst None False u" and "eff_count src 0 u v"
  shows "before_switch a f D S src dst None True v"
  using assms by (auto simp: before_switch_def eff_count_def visible_of_def)

lemma copy_started:
  assumes "before_switch a f D S src dst None False u" and "eff_reindex src dst t u v"
  shows "before_switch a f D S src dst (Some t) True v"
proof -
  note p = before_switchD [OF assms(1)]
  from assms(2) have v: "v = u\<lparr> cl_tasks := (cl_tasks u)(t \<mapsto> (dst, visible_of u src)) \<rparr>" and t: "cl_tasks u t = None"
    by (auto simp: eff_reindex_def visible_of_def)
  have "indices_of a v = indices_of a u" by (simp add: v indices_of_def)
  with p only_task_started [OF p(3) t, of "visible_of u src"] show ?thesis
    unfolding before_switch_def v by (simp add: Un_assoc) blast
qed

lemma copy_finished:
  assumes "before_switch a f D S src dst (Some t) True c"
    and "\<forall>x todo. cl_tasks c t = Some (x, todo) \<longrightarrow> todo = Map.empty"
  shows "before_switch a f D S src dst None True c"
  using before_switchD [OF assms(1)] only_task_finished [OF _ assms(2)]
  unfolding before_switch_def by simp

lemma switched:
  assumes "before_switch a f D S src dst None True u" and "eff_move_alias a src dst y u v" and "src \<noteq> dst"
  shows "after_switch a D S src dst None False (\<lambda>s r w e. behind f s r w e \<and> r = None) v"
  using before_switchD [OF assms(1)] assms(2,3)
  by (auto simp: after_switch_def eff_move_alias_def indices_of_def only_task_def behind_def)

lemma blocked:
  assumes "after_switch a D S src dst None False Q u" and "eff_block src y u v"
  shows "after_switch a D S src dst None False Q v"
proof -
  from assms(2) have "docs_of v = docs_of u" "visible_of v = visible_of u" "cl_alias v = cl_alias u"
    "cl_tasks v = cl_tasks u" "cl_written v = cl_written u"
    by (auto simp: eff_block_def docs_of_def visible_of_def)
  with assms(1) show ?thesis by (simp add: after_switch_def indices_of_def only_task_def)
qed

lemma topped_up_empty:
  assumes "after_switch a D S src dst None True (\<lambda>s r w e. behind f s r w e \<and> r = None) u" and "eff_count src 0 u v"
  shows "after_switch a D S src dst None True (\<lambda>s r w e. caught_up f s None w e \<and> r = None) v"
proof -
  note p = after_switchD [OF assms(1)]
  from assms(2) have "visible_of u src = Map.empty" and v: "v = u" by (auto simp: eff_count_def visible_of_def)
  with p(4) have none: "docs_of u src = Map.empty" by simp
  have "caught_up f (docs_of u src i) None ((dst, i) \<in> cl_written u) (docs_of u dst i)" if "i \<notin> D" for i
    using p(5) [OF that] none by (auto simp: behind_def caught_up_def older_def split: if_splits option.splits)
  with p show ?thesis unfolding v after_switch_def by simp
qed

lemma top_up_started:
  assumes "after_switch a D S src dst None True (\<lambda>s r w e. behind f s r w e \<and> r = None) u" and "eff_reindex src dst t u v"
  shows "after_switch a D S src dst (Some t) True (copying f) v"
proof -
  note p = after_switchD [OF assms(1)]
  from assms(2) have v: "v = u\<lparr> cl_tasks := (cl_tasks u)(t \<mapsto> (dst, docs_of u src)) \<rparr>" and t: "cl_tasks u t = None"
    using p(4) by (auto simp: eff_reindex_def visible_of_def docs_of_def)
  have "indices_of a v = indices_of a u" by (simp add: v indices_of_def)
  moreover have "copying f (docs_of u src i) (docs_of u src i) ((dst, i) \<in> cl_written u) (docs_of u dst i)" if "i \<notin> D" for i
    using p(5) [OF that] by (auto simp: copying_def behind_def caught_up_def older_def split: if_splits option.splits)
  ultimately show ?thesis
    using p only_task_started [OF p(2) t, of "docs_of u src"] unfolding after_switch_def v by simp
qed

lemma top_up_finished:
  assumes "after_switch a D S src dst (Some t) True (copying f) c"
    and "\<forall>x todo. cl_tasks c t = Some (x, todo) \<longrightarrow> todo = Map.empty"
  shows "after_switch a D S src dst None True (\<lambda>s r w e. caught_up f s None w e \<and> r = None) c"
  using after_switchD [OF assms(1)] only_task_finished [OF _ assms(2)]
  unfolding after_switch_def copying_def by simp

text \<open>What a manager relies on its client for.\<close>

locale index_client =
  fixes view :: "'w \<Rightarrow> 'd cluster" and a :: string and script :: "string option" and f :: "'d \<Rightarrow> 'd"
    and D :: "uuid set" and C :: "'w es_client"
  assumes ok: "es_client_ok view a script f D C"
    and complete: "tasks_complete view a f D C"
    and ends: "tasks_end C"
    and refreshed: "refreshed_at_block view C"
begin

lemmas law = ok [unfolded es_client_ok_def]

lemma reading:
  assumes "call_law view (background a f D) eff_none err_none g" and "steady (background a f D) P"
    and "\<And>c. P c \<Longrightarrow> served a D S xs c"
  shows "ensures view P (op_call g) (\<lambda>_. P) (served a D S xs)"
  using assms served_steady by (intro ensures_reading [OF assms(1)]) (auto simp: err_none_def)

lemma current_index:
  assumes M: "im_client M = C" "im_alias_name M = a" and P: "steady (background a f D) P"
    and i: "\<And>c. P c \<Longrightarrow> indices_of a c = {src}" and E: "\<And>c. P c \<Longrightarrow> served a D S xs c"
  shows "ensures view P (get_current_index_name M) (\<lambda>x c. x = Some src \<and> P c) (served a D S xs)"
proof -
  have l: "call_law view (background a f D) (eff_get_alias a) (err_get_alias a) (ec_get_alias C a)" using law by blast
  show ?thesis
    unfolding ensures_def
  proof (intro allI impI)
    fix w assume w: "P (view w)"
    obtain r w' where call: "ec_get_alias C a w = (r, w')" by fastforce
    with l obtain u v where uv: "(background a f D)\<^sup>*\<^sup>* (view w) u" "(background a f D)\<^sup>*\<^sup>* v (view w')"
      "case r of Inr x \<Rightarrow> eff_get_alias a x u v | Inl e \<Rightarrow> err_get_alias a e u v" unfolding call_law_def by blast
    have u: "P u" by (rule steady_run [OF P uv(1) w])
    have v: "v = u" using uv(3) by (auto simp: eff_get_alias_def err_get_alias_def split: sum.splits)
    have w': "P (view w')" by (rule steady_run [OF P uv(2)]) (simp add: v u)
    show "\<exists>r w'. get_current_index_name M w = Some (r, w') \<and>
        (case r of Inr x \<Rightarrow> x = Some src \<and> P (view w') | Inl _ \<Rightarrow> served a D S xs (view w'))"
    proof (cases r)
      case (Inl e)
      with uv(3) i [OF u] have "e \<noteq> ClientNotFoundError" by (auto simp: err_get_alias_def)
      with Inl call E [OF w'] show ?thesis
        by (simp add: get_current_index_name_def M op_catch_def op_bind_def op_call_def)
    next
      case (Inr xs')
      with uv(3) i [OF u] have "set xs' = {src}" by (simp add: eff_get_alias_def)
      then obtain ys where "xs' = src # ys" by (cases xs') auto
      with Inr call w' show ?thesis
        by (simp add: get_current_index_name_def M op_catch_def op_bind_def op_call_def op_return_def)
    qed
  qed
qed

lemma first_copy:
  assumes M: "im_client M = C" "im_reindex_script M = script" and neq: "src \<noteq> dst"
  shows "ensures view (before_switch a f D S src dst None False) (reindex_data M src dst)
    (\<lambda>_. before_switch a f D S src dst None True) (served a D S {src, dst})"
proof -
  let ?B = "before_switch a f D S src dst"
  note st = before_switch_steady [OF neq, of a f D S]
  have "ensures view (?B None False) (op_call (ec_count C src))
      (\<lambda>n c. ?B None False c \<and> (n = 0 \<longrightarrow> ?B None True c)) (served a D S {src, dst})"
  proof (rule ensures_call [where eff = "eff_count src" and err = "in_doubt (eff_count src)"])
    show "call_law view (background a f D) (eff_count src) (in_doubt (eff_count src)) (ec_count C src)" using law by blast
    show "steady (background a f D) (\<lambda>c. ?B None False c \<and> (n = 0 \<longrightarrow> ?B None True c))" for n :: nat
      using st [of None False] st [of None True] unfolding steady_def by blast
    show "?B None False v \<and> (n = 0 \<longrightarrow> ?B None True v)" if "?B None False u" "eff_count src n u v" for n u v
      using that nothing_to_copy [OF that(1)] by (auto simp: eff_count_def)
    show "served a D S {src, dst} v" if "?B None False u" "in_doubt (eff_count src) e u v" for e u v
      using that before_served by (auto simp: in_doubt_def eff_count_def)
  qed (rule st served_steady)+
  moreover have "ensures view (?B None False) (op_call (ec_reindex C src dst script)) (\<lambda>t. ?B (Some t) True) (served a D S {src, dst})"
  proof (rule ensures_call [where eff = "eff_reindex src dst" and err = "in_doubt (eff_reindex src dst)"])
    show "call_law view (background a f D) (eff_reindex src dst) (in_doubt (eff_reindex src dst)) (ec_reindex C src dst script)"
      using law by blast
    show "served a D S {src, dst} v" if "?B None False u" "in_doubt (eff_reindex src dst) e u v" for e u v
      using that(2) before_served [OF that(1)] before_served [OF copy_started [OF that(1)]] by (auto simp: in_doubt_def)
  qed (rule st served_steady copy_started | assumption)+
  moreover have "ensures view (?B (Some t) True) (poll_task C t) (\<lambda>_. ?B None True) (served a D S {src, dst})" for t
  proof (rule poll_ends)
    show "call_law view (background a f D) (eff_task t) (in_doubt (eff_task t)) (ec_task_completed C t)"
      using complete by (simp add: tasks_complete_def)
    show "?B None True c" if "?B (Some t) True c" "\<forall>x todo. cl_tasks c t = Some (x, todo) \<longrightarrow> todo = Map.empty" for c
      using that by (rule copy_finished)
  qed (rule ends st served_steady before_served | assumption)+
  ultimately show ?thesis
    unfolding reindex_data_def M
    by (intro ensures_bind) (auto intro!: ensures_return ensures_bind elim: ensures_weaken)
qed

lemma second_copy:
  assumes M: "im_client M = C" "im_reindex_script M = script" and neq: "src \<noteq> dst"
  shows "ensures view (after_switch a D S src dst None True (\<lambda>s r w e. behind f s r w e \<and> r = None)) (reindex_data M src dst)
    (\<lambda>_. after_switch a D S src dst None True (\<lambda>s r w e. caught_up f s None w e \<and> r = None)) (served a D S {src, dst})"
    (is "ensures view ?A _ (\<lambda>_. ?F) ?E")
proof -
  note st = after_switch_steady [OF neq, of f _ a D S]
  note sts = st [OF phase_ok_behind] st [OF phase_ok_copying] st [OF phase_ok_caught_up]
  have "ensures view ?A (op_call (ec_count C src)) (\<lambda>n c. ?A c \<and> (n = 0 \<longrightarrow> ?F c)) ?E"
  proof (rule ensures_call [where eff = "eff_count src" and err = "in_doubt (eff_count src)"])
    show "call_law view (background a f D) (eff_count src) (in_doubt (eff_count src)) (ec_count C src)" using law by blast
    show "steady (background a f D) (\<lambda>c. ?A c \<and> (n = 0 \<longrightarrow> ?F c))" for n :: nat
      using sts(1) [of None True] sts(3) [of None True] unfolding steady_def by blast
    show "?A v \<and> (n = 0 \<longrightarrow> ?F v)" if "?A u" "eff_count src n u v" for n u v
      using that topped_up_empty [OF that(1)] by (auto simp: eff_count_def)
    show "?E v" if "?A u" "in_doubt (eff_count src) e u v" for e u v
      using that after_served by (auto simp: in_doubt_def eff_count_def)
  qed (rule sts served_steady)+
  moreover have "ensures view ?A (op_call (ec_reindex C src dst script)) (\<lambda>t. after_switch a D S src dst (Some t) True (copying f)) ?E"
  proof (rule ensures_call [where eff = "eff_reindex src dst" and err = "in_doubt (eff_reindex src dst)"])
    show "call_law view (background a f D) (eff_reindex src dst) (in_doubt (eff_reindex src dst)) (ec_reindex C src dst script)"
      using law by blast
    show "?E v" if "?A u" "in_doubt (eff_reindex src dst) e u v" for e u v
      using that(2) after_served [OF that(1)] after_served [OF top_up_started [OF that(1)]] by (auto simp: in_doubt_def)
  qed (rule sts served_steady top_up_started | assumption)+
  moreover have "ensures view (after_switch a D S src dst (Some t) True (copying f)) (poll_task C t) (\<lambda>_. ?F) ?E" for t
  proof (rule poll_ends)
    show "call_law view (background a f D) (eff_task t) (in_doubt (eff_task t)) (ec_task_completed C t)"
      using complete by (simp add: tasks_complete_def)
    show "?F c" if "after_switch a D S src dst (Some t) True (copying f) c"
      "\<forall>x todo. cl_tasks c t = Some (x, todo) \<longrightarrow> todo = Map.empty" for c
      using that by (rule top_up_finished)
  qed (rule ends sts served_steady after_served | assumption)+
  ultimately show ?thesis
    unfolding reindex_data_def M
    by (intro ensures_bind) (auto intro!: ensures_return ensures_bind elim: ensures_weaken)
qed

lemma switching:
  assumes M: "im_client M = C" "im_alias_name M = a" and neq: "src \<noteq> dst"
  shows "ensures view (before_switch a f D S src dst None True) (switch_alias M src dst)
    (\<lambda>_. after_switch a D S src dst None False (\<lambda>s r w e. behind f s r w e \<and> r = None)) (served a D S {src, dst})"
  unfolding switch_alias_def M
proof (rule ensures_call [where eff = "eff_move_alias a src dst" and err = "in_doubt (eff_move_alias a src dst)"])
  show "call_law view (background a f D) (eff_move_alias a src dst) (in_doubt (eff_move_alias a src dst)) (ec_move_alias C a src dst)"
    using law by blast
  show "served a D S {src, dst} v"
    if "before_switch a f D S src dst None True u" "in_doubt (eff_move_alias a src dst) e u v" for e u v
    using that(2) before_served [OF that(1)] after_served [OF switched [OF that(1) _ neq]] by (auto simp: in_doubt_def)
qed (rule before_switch_steady after_switch_steady phase_ok_behind served_steady switched neq | assumption)+

lemma blocking:
  assumes neq: "src \<noteq> dst"
  shows "ensures view (after_switch a D S src dst None False (\<lambda>s r w e. behind f s r w e \<and> r = None))
    (op_call (ec_block_writes C src))
    (\<lambda>_. after_switch a D S src dst None True (\<lambda>s r w e. behind f s r w e \<and> r = None)) (served a D S {src, dst})"
proof -
  let ?A = "\<lambda>seen. after_switch a D S src dst None seen (\<lambda>s r w e. behind f s r w e \<and> r = None)"
  have "ensures view (?A False) (op_call (ec_block_writes C src)) (\<lambda>_. ?A False) (served a D S {src, dst})"
  proof (rule ensures_call [where eff = "eff_block src" and err = "in_doubt (eff_block src)"])
    show "call_law view (background a f D) (eff_block src) (in_doubt (eff_block src)) (ec_block_writes C src)"
      using law by blast
    show "served a D S {src, dst} v" if "?A False u" "in_doubt (eff_block src) e u v" for e u v
      using that(2) after_served [OF that(1)] after_served [OF blocked [OF that(1)]] by (auto simp: in_doubt_def)
    show "?A False v" if "?A False u" "eff_block src y u v" for y u v using that by (rule blocked)
  qed (rule after_switch_steady phase_ok_behind served_steady neq)+
  then show ?thesis
    unfolding ensures_def op_call_def
  proof (intro allI impI, goal_cases)
    case (1 w)
    then obtain r w' where b: "ec_block_writes C src w = (r, w')"
      "case r of Inr _ \<Rightarrow> ?A False (view w') | Inl _ \<Rightarrow> served a D S {src, dst} (view w')" by fastforce
    have "visible_of (view w') src = docs_of (view w') src" if "r = Inr ()"
      using refreshed b(1) that unfolding refreshed_at_block_def visible_of_def docs_of_def by (auto split: option.splits)
    with b show ?case by (auto simp: after_switch_def split: sum.splits)
  qed
qed

lemma validating:
  assumes M: "im_client M = C" "im_alias_name M = a" "im_reindex_script M = script"
    and P: "steady (background a f D) P" "\<And>c. P c \<Longrightarrow> served a D S xs c"
  shows "ensures view P (validate_reindex_script M) (\<lambda>_. P) (served a D S xs)"
proof (cases script)
  case (Some sc)
  have "ensures view P (op_catch (op_call (ec_put_script C i sc))
      (\<lambda>e. if e = ClientBadRequestError then Some (op_raise ESError) else None)) (\<lambda>_. P) (served a D S xs)" for i
  proof -
    have "ensures view P (op_call (ec_put_script C i sc)) (\<lambda>_. P) (served a D S xs)"
      using law by (intro reading P) blast+
    then show ?thesis
      unfolding ensures_def op_call_def op_catch_def op_raise_def by (fastforce split: sum.splits)
  qed
  moreover have "ensures view P (op_call (ec_delete_script C i)) (\<lambda>_. P) (served a D S xs)" for i
    using law by (intro reading P) blast+
  ultimately show ?thesis
    unfolding validate_reindex_script_def M Some Let_def by (auto intro: ensures_bind)
qed (simp add: validate_reindex_script_def M ensures_return)

lemma updating_settings:
  assumes M: "im_client M = C" and P: "steady (background a f D) P" "\<And>c. P c \<Longrightarrow> served a D S xs c"
  shows "ensures view P (get_updated_settings M x cs) (\<lambda>_. P) (served a D S xs)"
  unfolding get_updated_settings_def get_reusable_index_settings_def M
proof (intro ensures_bind)
  show "ensures view P (op_call (ec_get_settings C x)) (\<lambda>_. P) (served a D S xs)"
    using law by (intro reading P) blast+
  show "ensures view P (case s of None \<Rightarrow> op_raise NotFoundError
      | Some s \<Rightarrow> op_return (filter (\<lambda>(k, _). k \<notin> set non_reusable_index_settings) s)) (\<lambda>_. P) (served a D S xs)" for s
    by (cases s) (auto intro!: ensures_raise ensures_return P)
qed (rule ensures_return)

lemma reading_version:
  assumes "src \<noteq> []"
  shows "ensures view P (get_current_version M (Some src)) (\<lambda>x c. x = index_version src \<and> P c) E"
  using assms unfolding get_current_version_def ensures_def
  by (cases src) (simp_all add: op_bind_def op_return_def)

lemma creating:
  assumes M: "im_client M = C" and neq: "src \<noteq> dst"
  shows "ensures view (before_switch a f D S src dst None False) (create_index_with_mapping M dst s)
    (\<lambda>_. before_switch a f D S src dst None False) (served a D S {src, dst})"
  unfolding create_index_with_mapping_def M
proof (rule ensures_call [where eff = "eff_create dst s" and err = "in_doubt (eff_create dst s)"])
  let ?B = "before_switch a f D S src dst None False"
  show "call_law view (background a f D) (eff_create dst s) (in_doubt (eff_create dst s)) (ec_create C dst s)" using law by blast
  show "served a D S {src, dst} v" if "?B u" "in_doubt (eff_create dst s) e u v" for e u v
    using that(2) before_served [OF that(1)] before_served [OF created [OF that(1) _ neq]] by (auto simp: in_doubt_def)
  show "?B v" if "?B u" "eff_create dst s y u v" for y u v using that neq by (rule created)
qed (rule before_switch_steady [OF neq] served_steady)+

lemma migration:
  assumes M: "im_client M = C" "im_alias_name M = a" "im_reindex_script M = script" and neq: "src \<noteq> dst" and src: "src \<noteq> []"
    and dst: "dst = generate_index_name a ((case index_version src of None \<Rightarrow> 0 | Some v \<Rightarrow> v) + 1)"
  shows "ensures view (before_switch a f D S src dst None False) (migrate M changeset)
    (\<lambda>x c. x = dst \<and> after_switch a D S src dst None True (\<lambda>s r w e. caught_up f s None w e \<and> r = None) c)
    (served a D S {src, dst})"
    (is "ensures view ?B _ ?F ?E")
proof -
  note st = before_switch_steady [OF neq, of a f D S None False]
  have settings: "ensures view ?B (get_updated_settings M src cs) (\<lambda>_. ?B) ?E" for cs
    by (rule updating_settings [OF M(1) st before_served])
  have script: "ensures view ?B (validate_reindex_script M) (\<lambda>_. ?B) ?E"
    by (rule validating [OF M st before_served])
  have current: "ensures view ?B (get_current_index_name M) (\<lambda>x c. x = Some src \<and> ?B c) ?E"
    by (rule current_index [OF M(1,2) st before_switchD(1) before_served])
  have copies: "ensures view ?B
      (op_bind (reindex_data M src dst) (\<lambda>_. op_bind (switch_alias M src dst) (\<lambda>_.
       op_bind (op_call (ec_block_writes C src)) (\<lambda>_. op_bind (reindex_data M src dst) (\<lambda>_. op_return dst))))) ?F ?E"
    by (rule ensures_bind [OF first_copy [OF M(1,3) neq]] ensures_bind [OF switching [OF M(1,2) neq]]
        ensures_bind [OF blocking [OF neq]] ensures_bind [OF second_copy [OF M(1,3) neq]])+ (rule ensures_return, simp)
  have body: "ensures view ?B (migrate_from M src cs) ?F ?E" for cs
    unfolding migrate_from_def
  proof (rule ensures_bind [OF settings],
      rule ensures_bind [OF reading_version [OF src]], rule ensures_fact, goal_cases)
    case (1 s x)
    show ?case unfolding Let_def M 1 dst [symmetric] by (rule ensures_bind [OF creating [OF M(1) neq] copies])
  qed
  show ?thesis
    unfolding migrate_def
  proof (rule ensures_bind [OF script], rule ensures_bind [OF current], rule ensures_fact, goal_cases)
    case (1 x y)
    then show ?case using body by simp
  qed
qed

text \<open>A rollback moves the alias to the target that its arguments name, or leaves it on one of the two.\<close>

lemma rolling_back:
  assumes M: "im_client M = C" "im_alias_name M = a" and cur: "cur \<noteq> []"
    and v: "index_version cur = Some n" "n \<noteq> 1 \<or> target_index \<noteq> None"
    and target: "rollback_target M n target_version target_index = Inr target" and neq: "cur \<noteq> target"
  shows "ensures view (\<lambda>c. indices_of a c = {cur}) (rollback M target_version target_index)
    (\<lambda>x c. x = target \<and> indices_of a c = {target}) (served a D {} {cur, target})"
    (is "ensures view ?P _ ?Q ?E")
proof -
  have st: "steady (background a f D) (\<lambda>c. indices_of a c = {x})" for x
    using served_steady [of a f D "{}" "{x}"] by (simp add: steady_def served_def)
  have served: "?E c" if "indices_of a c = {cur}" for c using that by (simp add: served_def)
  have current: "ensures view ?P (get_current_index_name M) (\<lambda>x c. x = Some cur \<and> ?P c) ?E"
    by (rule current_index [OF M st _ served])
  have "ensures view ?P (op_call (ec_exists C target)) (\<lambda>_. ?P) ?E"
  proof (rule ensures_call [where eff = "eff_exists target" and err = "in_doubt (eff_exists target)"])
    show "call_law view (background a f D) (eff_exists target) (in_doubt (eff_exists target)) (ec_exists C target)"
      using law by blast
  qed (use st served_steady served in \<open>auto simp: eff_exists_def in_doubt_def\<close>)
  moreover have "ensures view ?P (switch_alias M cur target) (\<lambda>_ c. indices_of a c = {target}) ?E"
    unfolding switch_alias_def M
  proof (rule ensures_call [where eff = "eff_move_alias a cur target" and err = "in_doubt (eff_move_alias a cur target)"])
    show "call_law view (background a f D) (eff_move_alias a cur target) (in_doubt (eff_move_alias a cur target))
        (ec_move_alias C a cur target)" using law by blast
    show moved: "indices_of a c' = {target}" if "?P c" "eff_move_alias a cur target y c c'" for y c c'
      using that neq by (auto simp: indices_of_def eff_move_alias_def)
    show "?E c'" if "?P c" "in_doubt (eff_move_alias a cur target) e c c'" for e c c'
      using that moved by (auto simp: in_doubt_def served_def)
  qed (rule st served_steady)+
  ultimately have body: "ensures view ?P (op_bind (op_call (ec_exists C target)) (\<lambda>exists.
      if \<not> exists then op_raise NotFoundError else op_bind (switch_alias M cur target) (\<lambda>_. op_return target))) ?Q ?E"
    by (intro ensures_bind) (auto intro!: ensures_raise ensures_return ensures_bind served)
  show ?thesis
    unfolding rollback_def
  proof (rule ensures_bind [OF current], rule ensures_fact, goal_cases)
    case (1 x)
    show ?case unfolding 1 option.case
    proof (rule ensures_bind [OF reading_version [OF cur]], rule ensures_fact, goal_cases)
      case (1 y)
      with v target body M show ?case by auto
    qed
  qed
qed

end

section \<open>A client as documented\<close>

text \<open>Its world is the cluster. Tasks are finished when they are asked for.\<close>

definition copied_docs :: "('d \<Rightarrow> 'd) \<Rightarrow> (uuid \<rightharpoonup> nat \<times> 'd) \<Rightarrow> (uuid \<rightharpoonup> nat \<times> 'd) \<Rightarrow> uuid \<rightharpoonup> nat \<times> 'd" where
  "copied_docs f todo docs i = (case todo i of None \<Rightarrow> docs i | Some (v, d) \<Rightarrow> copied v (f d) (docs i))"

definition finish_task :: "('d \<Rightarrow> 'd) \<Rightarrow> nat \<Rightarrow> 'd cluster \<Rightarrow> bool result \<times> 'd cluster" where
  "finish_task f t c =
     (case cl_tasks c t of
        None \<Rightarrow> (Inl ClientNotFoundError, c)
      | Some (x, todo) \<Rightarrow>
          (case cl_index c x of
             None \<Rightarrow> (Inl ClientApiError, c)
           | Some ix \<Rightarrow>
               if ix_blocked ix \<or> infinite (dom todo) then (Inl ClientApiError, c)
               else (Inr True, put_index x (ix\<lparr> ix_docs := copied_docs f todo (ix_docs ix) \<rparr>)
                                 (c\<lparr> cl_tasks := (cl_tasks c)(t \<mapsto> (x, Map.empty)) \<rparr>))))"

definition start_task :: "string \<Rightarrow> string \<Rightarrow> 'd cluster \<Rightarrow> nat result \<times> 'd cluster" where
  "start_task src dst c =
     (case cl_index c src of
        None \<Rightarrow> (Inl ClientNotFoundError, c)
      | Some ix \<Rightarrow>
          (case find (\<lambda>t. cl_tasks c t = None) [0, 1] of
             None \<Rightarrow> (Inl ClientApiError, c)
           | Some t \<Rightarrow> (Inr t, c\<lparr> cl_tasks := (cl_tasks c)(t \<mapsto> (dst, ix_visible ix)) \<rparr>)))"

definition on_index :: "string \<Rightarrow> 'd cluster \<Rightarrow> ('d index_state \<Rightarrow> 'a \<times> 'd cluster) \<Rightarrow> 'a result \<times> 'd cluster" where
  "on_index x c g =
     (case cl_index c x of None \<Rightarrow> (Inl ClientNotFoundError, c) | Some ix \<Rightarrow> (case g ix of (y, c') \<Rightarrow> (Inr y, c')))"

definition documented_client :: "('d \<Rightarrow> 'd) \<Rightarrow> 'd cluster es_client" where
  "documented_client f =
     \<lparr> ec_get_alias = (\<lambda>a c. case map snd (filter (\<lambda>p. fst p = a) (cl_alias c)) of
           [] \<Rightarrow> (Inl ClientNotFoundError, c) | xs \<Rightarrow> (Inr xs, c)),
       ec_index_aliases = (\<lambda>x c. (Inr (map fst (filter (\<lambda>p. snd p = x) (cl_alias c))), c)),
       ec_exists = (\<lambda>x c. (Inr (cl_index c x \<noteq> None), c)),
       ec_get_settings = (\<lambda>x c. (Inr (map_option ix_settings (cl_index c x)), c)),
       ec_create = (\<lambda>x s c. if cl_index c x \<noteq> None then (Inl ClientBadRequestError, c)
          else (Inr (), put_index x \<lparr> ix_docs = Map.empty, ix_visible = Map.empty, ix_blocked = False, ix_settings = s \<rparr> c)),
       ec_delete_index = (\<lambda>x c. (Inr (), c\<lparr> cl_index := (cl_index c)(x := None) \<rparr>)),
       ec_put_alias = (\<lambda>x a c. on_index x c (\<lambda>_. ((), c\<lparr> cl_alias := (a, x) # cl_alias c \<rparr>))),
       ec_delete_alias = (\<lambda>x a c. (Inr (), c\<lparr> cl_alias := removeAll (a, x) (cl_alias c) \<rparr>)),
       ec_move_alias = (\<lambda>a x y c. on_index y c (\<lambda>_. ((), c\<lparr> cl_alias := (a, y) # removeAll (a, x) (cl_alias c) \<rparr>))),
       ec_block_writes = (\<lambda>x c. on_index x c (\<lambda>ix. ((), put_index x (ix\<lparr> ix_blocked := True, ix_visible := ix_docs ix \<rparr>) c))),
       ec_count = (\<lambda>x c. on_index x c (\<lambda>ix. (if ix_visible ix = Map.empty then 0 else 1, c))),
       ec_reindex = (\<lambda>x y _. start_task x y), ec_task_completed = finish_task f,
       ec_put_script = (\<lambda>_ _ c. (Inr (), c)), ec_delete_script = (\<lambda>_ c. (Inr (), c)),
       ec_queue_repair = (\<lambda>_ c. (Inr (), c)) \<rparr>"

lemma finish_task_run:
  fixes c :: "'d cluster"
  assumes "finite A" and "cl_tasks c t = Some (x, todo)" and "cl_index c x = Some ix" and "\<not> ix_blocked ix"
  shows "(background a f D)\<^sup>*\<^sup>* c
    (put_index x (ix\<lparr> ix_docs := copied_docs f (todo |` A) (ix_docs ix) \<rparr>)
       (c\<lparr> cl_tasks := (cl_tasks c)(t \<mapsto> (x, todo |` (- A))) \<rparr>))"
  using assms(1)
proof induction
  case empty
  have "copied_docs f Map.empty (ix_docs ix) = ix_docs ix" by (simp add: copied_docs_def fun_eq_iff)
  then have eq: "put_index x (ix\<lparr> ix_docs := copied_docs f Map.empty (ix_docs ix) \<rparr>) (c\<lparr> cl_tasks := (cl_tasks c)(t \<mapsto> (x, todo)) \<rparr>) = c"
    using assms(2,3) by (simp add: put_index_def fun_upd_idem)
  have "todo |` {} = Map.empty" "todo |` (- {}) = todo" by (simp_all add: restrict_map_def)
  with eq show ?case by (simp only: rtranclp.rtrancl_refl)
next
  case (insert i A)
  define u where "u = put_index x (ix\<lparr> ix_docs := copied_docs f (todo |` A) (ix_docs ix) \<rparr>)
       (c\<lparr> cl_tasks := (cl_tasks c)(t \<mapsto> (x, todo |` (- A))) \<rparr>)"
  let ?v = "put_index x (ix\<lparr> ix_docs := copied_docs f (todo |` insert i A) (ix_docs ix) \<rparr>)
       (c\<lparr> cl_tasks := (cl_tasks c)(t \<mapsto> (x, todo |` (- insert i A))) \<rparr>)"
  have ih: "(background a f D)\<^sup>*\<^sup>* c u" unfolding u_def by (rule insert.IH)
  show ?case
  proof (cases "todo i")
    case None
    then have "todo |` insert i A = todo |` A" "todo |` (- insert i A) = todo |` (- A)"
      by (auto simp: restrict_map_def fun_eq_iff)
    with ih show ?thesis unfolding u_def by (simp only:)
  next
    case (Some e)
    obtain v d where e: "e = (v, d)" by fastforce
    have "copied_docs f (todo |` insert i A) (ix_docs ix) =
        (copied_docs f (todo |` A) (ix_docs ix))(i := copied v (f d) (copied_docs f (todo |` A) (ix_docs ix) i))"
      using insert.hyps(2) Some e by (auto simp: copied_docs_def restrict_map_def fun_eq_iff)
    moreover have "todo |` (- insert i A) = (todo |` (- A))(i := None)" by (auto simp: restrict_map_def fun_eq_iff)
    moreover have "background a f D u (put_index x
        ((ix\<lparr> ix_docs := copied_docs f (todo |` A) (ix_docs ix) \<rparr>)
          \<lparr> ix_docs := (copied_docs f (todo |` A) (ix_docs ix))(i := copied v (f d) (copied_docs f (todo |` A) (ix_docs ix) i)) \<rparr>)
        (u\<lparr> cl_tasks := (cl_tasks u)(t \<mapsto> (x, (todo |` (- A))(i := None))) \<rparr>))"
      using bg_copy [of u t x "todo |` (- A)" i v d "ix\<lparr> ix_docs := copied_docs f (todo |` A) (ix_docs ix) \<rparr>" a f D]
        insert.hyps(2) Some e assms(4) by (simp add: u_def)
    ultimately have "background a f D u ?v" by (simp add: u_def put_index_def)
    with ih show ?thesis by (rule rtranclp.rtrancl_into_rtrancl)
  qed
qed

lemma atomic_law:
  assumes "\<And>c r c'. g c = (r, c') \<Longrightarrow> case r of Inr x \<Rightarrow> eff x c c' | Inl e \<Rightarrow> err e c c'"
  shows "call_law id bg eff err g"
  unfolding call_law_def
proof (intro allI impI)
  fix c r c' assume "g c = (r, c')"
  with assms show "\<exists>u v. bg\<^sup>*\<^sup>* (id c) u \<and> bg\<^sup>*\<^sup>* v (id c') \<and> (case r of Inr x \<Rightarrow> eff x u v | Inl e \<Rightarrow> err e u v)"
    by (intro exI [of _ c] exI [of _ c']) auto
qed

lemma finish_task_law: "call_law id (background a f D) (eff_task t) (in_doubt (eff_task t)) (finish_task f t)"
  unfolding call_law_def
proof (intro allI impI)
  fix c r c' assume run: "finish_task f t c = (r, c')"
  show "\<exists>u v. (background a f D)\<^sup>*\<^sup>* (id c) u \<and> (background a f D)\<^sup>*\<^sup>* v (id c') \<and>
      (case r of Inr x \<Rightarrow> eff_task t x u v | Inl e \<Rightarrow> in_doubt (eff_task t) e u v)"
  proof (cases r)
    case (Inl e)
    with run have "c' = c" by (auto simp: finish_task_def split: option.splits if_splits)
    with Inl show ?thesis by (auto simp: in_doubt_def)
  next
    case (Inr b)
    with run obtain x todo ix where t: "cl_tasks c t = Some (x, todo)" "cl_index c x = Some ix" "\<not> ix_blocked ix"
      and fin: "finite (dom todo)" and b: "b = True"
      and c': "c' = put_index x (ix\<lparr> ix_docs := copied_docs f todo (ix_docs ix) \<rparr>) (c\<lparr> cl_tasks := (cl_tasks c)(t \<mapsto> (x, Map.empty)) \<rparr>)"
      by (auto simp: finish_task_def split: option.splits if_splits)
    have "todo |` dom todo = todo" "todo |` (- dom todo) = Map.empty"
      by (auto simp: restrict_map_def fun_eq_iff domIff simp del: not_None_eq)
    with finish_task_run [OF fin t, of a f D] c' have "(background a f D)\<^sup>*\<^sup>* c c'" by simp
    moreover have "eff_task t b c' c'" by (simp add: eff_task_def c')
    ultimately show ?thesis using Inr by (intro exI [of _ c']) simp
  qed
qed

lemma block_law:
  "call_law id (background a f D) (eff_block x) (in_doubt (eff_block x)) (ec_block_writes (documented_client f) x)"
  unfolding call_law_def
proof (intro allI impI)
  fix c r c' assume run: "ec_block_writes (documented_client f) x c = (r, c')"
  show "\<exists>u v. (background a f D)\<^sup>*\<^sup>* (id c) u \<and> (background a f D)\<^sup>*\<^sup>* v (id c') \<and>
      (case r of Inr y \<Rightarrow> eff_block x y u v | Inl e \<Rightarrow> in_doubt (eff_block x) e u v)"
  proof (cases "cl_index c x")
    case None
    with run have "r = Inl ClientNotFoundError" "c' = c" by (simp_all add: documented_client_def on_index_def)
    then show ?thesis by (auto simp: in_doubt_def)
  next
    case (Some ix)
    let ?v = "put_index x (ix\<lparr> ix_blocked := True \<rparr>) c"
    have "background a f D ?v (put_index x ((ix\<lparr> ix_blocked := True \<rparr>)\<lparr> ix_visible := ix_docs (ix\<lparr> ix_blocked := True \<rparr>) \<rparr>) ?v)"
      by (rule bg_refresh) simp
    with run Some have "r = Inr ()" "background a f D ?v c'"
      by (simp_all add: documented_client_def on_index_def put_index_def)
    with Some show ?thesis by (intro exI [of _ c] exI [of _ ?v]) (auto simp: eff_block_def)
  qed
qed

lemma documented_client_ok:
  assumes "script = None \<longrightarrow> f = id"
  shows "es_client_ok id a script f D (documented_client f)"
  unfolding es_client_ok_def
proof (intro conjI allI)
  show "call_law id (background a f D) (eff_get_alias a) (err_get_alias a) (ec_get_alias (documented_client f) a)"
  proof (rule atomic_law)
    fix c r c' assume run: "ec_get_alias (documented_client f) a c = (r, c')"
    define xs where "xs = map snd (filter (\<lambda>p. fst p = a) (cl_alias c))"
    have "set xs = indices_of a c" by (force simp: xs_def indices_of_def)
    moreover have "(case xs of [] \<Rightarrow> (Inl ClientNotFoundError, c) | xs \<Rightarrow> (Inr xs, c)) = (r, c')"
      using run by (simp add: documented_client_def xs_def)
    ultimately show "case r of Inr x \<Rightarrow> eff_get_alias a x c c' | Inl e \<Rightarrow> err_get_alias a e c c'"
      by (auto simp: eff_get_alias_def err_get_alias_def split: list.splits)
  qed
  show "call_law id (background a f D) (eff_reindex x y) (in_doubt (eff_reindex x y)) (ec_reindex (documented_client f) x y script)" for x y
  proof (rule atomic_law)
    fix c r c' assume "ec_reindex (documented_client f) x y script c = (r, c')"
    then show "case r of Inr t \<Rightarrow> eff_reindex x y t c c' | Inl e \<Rightarrow> in_doubt (eff_reindex x y) e c c'"
      by (auto simp: documented_client_def start_task_def eff_reindex_def in_doubt_def split: option.splits if_splits)
  qed
  show "call_law id (background a f D) (eff_block x) (in_doubt (eff_block x)) (ec_block_writes (documented_client f) x)" for x
    by (rule block_law)
qed (use assms in \<open>auto intro!: atomic_law simp: documented_client_def on_index_def eff_exists_def eff_none_def err_none_def
      eff_create_def eff_put_alias_def eff_move_alias_def eff_count_def in_doubt_def split: sum.splits option.splits if_splits\<close>)

lemma documented_client_completes: "tasks_complete id a f D (documented_client f)"
  unfolding tasks_complete_def documented_client_def by (simp add: finish_task_law)

lemma documented_client_ends: "tasks_end (documented_client f)"
proof -
  have "polls (documented_client f) t 1 c" for t c
    by (auto simp: documented_client_def finish_task_def split: option.splits)
  then show ?thesis unfolding tasks_end_def by blast
qed

lemma documented_client_refreshes: "refreshed_at_block id (documented_client f)"
  by (auto simp: refreshed_at_block_def documented_client_def on_index_def split: option.splits)

interpretation documented_index: index_client id a "Some script" f D "documented_client f" for a script f D
  using documented_client_ok [of "Some script"] documented_client_completes documented_client_ends documented_client_refreshes
  by (intro index_client.intro) simp_all

section \<open>Properties\<close>

definition ready_to_migrate :: "string \<Rightarrow> uuid set \<Rightarrow> string \<Rightarrow> string \<Rightarrow> 'd cluster \<Rightarrow> bool" where
  "ready_to_migrate a D src dst c =
     (indices_of a c = {src} \<and> src \<noteq> [] \<and> cl_index c src \<noteq> None \<and> cl_index c dst = None \<and>
      (\<forall>i. (dst, i) \<notin> cl_written c) \<and> (\<forall>t x todo. cl_tasks c t = Some (x, todo) \<longrightarrow> todo = Map.empty) \<and>
      (\<forall>i. i \<notin> D \<longrightarrow> older id (docs_of c src i) (visible_of c src i)))"

lemma ready_before:
  "ready_to_migrate a D src dst c \<Longrightarrow> before_switch a f D (dom (visible_of c src)) src dst None False c"
  unfolding ready_to_migrate_def before_switch_def only_task_def by (simp add: docs_of_def)


text \<open>
  The bound on versions is the most that holds of a document written since the switch: its versions in
  the two indexes are counted apart, so when the old one was written twice since the first copy, the
  second copy replaces a later write.
\<close>

lemma second_copy_replaces_write:
  assumes "first = Some (v, f d)"
  shows "copied (Suc (Suc v)) (f old) (Some (next_version first, new)) = Some (Suc (Suc v), f old)"
  using assms by (simp add: copied_def next_version_def)

text \<open>A cluster with one document, migrated by the client as documented.\<close>

definition sample_cluster :: "string cluster" where
  "sample_cluster =
     \<lparr> cl_index = [''reference_v1'' \<mapsto> \<lparr> ix_docs = [7 \<mapsto> (1, ''doc'')], ix_visible = [7 \<mapsto> (1, ''doc'')], ix_blocked = False,
         ix_settings = [(''uuid'', JStr ''x''), (''number_of_shards'', JNum 1)] \<rparr>],
       cl_alias = [(''reference'', ''reference_v1'')], cl_tasks = Map.empty, cl_written = {} \<rparr>"

definition sample_manager :: "string cluster index_manager" where
  "sample_manager =
     \<lparr> im_client = documented_client id, im_alias_name = ''reference'', im_reindex_script = None, im_repair_task = True,
       im_repair_subset_task = False \<rparr>"

lemma sample_migration: "\<exists>w'. migrate sample_manager None sample_cluster = Some (Inr ''reference_v2'', w')"
proof -
  have n: "generate_index_name ''reference'' 2 = ''reference_v2''" "index_version ''reference_v1'' = Some 1" by code_simp+
  show ?thesis
    by (simp add: migrate_def migrate_from_def validate_reindex_script_def get_current_index_name_def get_updated_settings_def
        get_reusable_index_settings_def get_current_version_def create_index_with_mapping_def reindex_data_def switch_alias_def
        op_bind_def op_call_def op_return_def op_catch_def sample_manager_def documented_client_def sample_cluster_def
        on_index_def start_task_def poll_task.simps finish_task_def n put_index_def opt_list_def Let_def)
qed


end
