(* ===== verification/Eppi_Parser.thy ===== *)
theory Eppi_Parser
  imports Robot_Results Blob_Repository
begin

text \<open>
  The parser of EPPI exports of the SDK: \<^verbatim>\<open>src/libs/sdk/src/destiny_sdk/parsers/eppi_parser.py\<close>. An
  export is a JSON object; \<open>parse_references\<close> makes references for an import file of it and
  \<open>parse_enhancements\<close> raw enhancements of stored references.

  The exports come from another program, so nothing is assumed of the type of a field: a field that is
  no text raises where the code calls a method of \<open>str\<close> or hands the value to a pydantic model.
  \<open>str\<close> of a JSON value and \<open>float\<close> of a text are parameters, because the numbers of the model are
  rationals; so is the validation of a UUID. Reading the file, its checksum and its decoding are not
  modelled.
\<close>

section \<open>The parser\<close>

record eppi_env =
  ee_pydantic :: pydantic
  ee_str :: "json \<Rightarrow> string"
  ee_float :: "string \<Rightarrow> rat option"
  ee_uuid :: "string \<Rightarrow> uuid option"

record eppi_parser =
  ep_tags :: "string list"
  ep_parser_source :: string
  ep_include_raw_data :: bool
  ep_include_eppi_id :: bool
  ep_source_export_date :: "datetime option"
  ep_data_description :: "string option"
  ep_raw_enhancement_excludes :: "string list"

definition eppi_parser_init ::
    "string list option \<Rightarrow> bool \<Rightarrow> bool \<Rightarrow> datetime option \<Rightarrow> string option \<Rightarrow> string list option \<Rightarrow>
     eppi_parser result" where
  "eppi_parser_init tags with_raw eppi_id export_date description excludes =
     (if with_raw \<and> \<not> (export_date \<noteq> None \<and> truthy_opt_str description) then Inl PyRuntimeError
      else Inr \<lparr> ep_tags = (case tags of None \<Rightarrow> [] | Some ts \<Rightarrow> ts),
                ep_parser_source = ''destiny_sdk.eppi_parser@2.0'',
                ep_include_raw_data = with_raw, ep_include_eppi_id = eppi_id,
                ep_source_export_date = export_date, ep_data_description = description,
                ep_raw_enhancement_excludes = (case excludes of None \<Rightarrow> [] | Some xs \<Rightarrow> xs) \<rparr>)"

section \<open>Access to parsed JSON\<close>

text \<open>\<open>value.get(key)\<close>: \<open>None\<close> and a missing key are both \<open>JNull\<close>; only a dict has the method.\<close>

fun json_get :: "json \<Rightarrow> string \<Rightarrow> json result" where
  "json_get (JObj kvs) key = Inr (case map_of kvs key of None \<Rightarrow> JNull | Some v \<Rightarrow> v)"
| "json_get _ key = Inl PyAttributeError"

text \<open>The receiver of a method of \<open>str\<close>.\<close>

fun json_text :: "json \<Rightarrow> string result" where
  "json_text (JStr s) = Inr s"
| "json_text _ = Inl PyAttributeError"

text \<open>A value for a field of type \<^verbatim>\<open>str | None\<close>.\<close>

fun json_str_field :: "json \<Rightarrow> string option result" where
  "json_str_field JNull = Inr None"
| "json_str_field (JStr s) = Inr (Some s)"
| "json_str_field _ = Inl ValidationError"

text \<open>What a \<open>for\<close> loop over a value runs through.\<close>

fun json_iter :: "json \<Rightarrow> json list result" where
  "json_iter (JArr xs) = Inr xs"
| "json_iter (JObj kvs) = Inr (map (\<lambda>(k, v). JStr k) kvs)"
| "json_iter (JStr s) = Inr (map (\<lambda>c. JStr [c]) s)"
| "json_iter _ = Inl PyTypeError"

text \<open>\<open>p in s\<close>.\<close>

fun str_contains :: "string \<Rightarrow> string \<Rightarrow> bool" where
  "str_contains p [] = (p = [])"
| "str_contains p (c # cs) = (take (length p) (c # cs) = p \<or> str_contains p cs)"

section \<open>Identifiers\<close>

definition parse_doi :: "pydantic \<Rightarrow> string \<Rightarrow> external_identifier option" where
  "parse_doi P doi =
     (case validate_external_identifier P (py_strip doi) ID_DOI None of Inl _ \<Rightarrow> None | Inr i \<Rightarrow> Some i)"

definition url_identifier_class :: "string \<Rightarrow> external_identifier_type option" where
  "url_identifier_class url =
     (if str_contains ''doi.org'' url then Some ID_DOI
      else if str_contains ''eric'' url then Some ID_ERIC
      else if str_contains ''proquest'' url then Some ID_PRO_QUEST
      else if str_contains ''openalex'' url then Some ID_OPEN_ALEX
      else None)"

definition parse_url_to_identifier :: "pydantic \<Rightarrow> string \<Rightarrow> external_identifier option" where
  "parse_url_to_identifier P raw_url =
     (let url = py_strip raw_url
      in case url_identifier_class url of
           None \<Rightarrow> None
         | Some ty \<Rightarrow> (case validate_external_identifier P url ty None of
                        Inl _ \<Rightarrow> None | Inr i \<Rightarrow> Some i))"

definition eppi_item_identifiers :: "eppi_env \<Rightarrow> eppi_parser \<Rightarrow> json \<Rightarrow> external_identifier list result" where
  "eppi_item_identifiers env p entry =
     (if \<not> ep_include_eppi_id p then Inr []
      else res_bind (json_get entry ''ItemId'') (\<lambda>item_id.
        Inr (if json_truthy item_id then [OtherIdentifier (ee_str env item_id) ''EPPI ItemId''] else [])))"

definition eppi_parse_identifiers ::
    "eppi_env \<Rightarrow> eppi_parser \<Rightarrow> json \<Rightarrow> external_identifier list result" where
  "eppi_parse_identifiers env p entry =
     res_bind (eppi_item_identifiers env p entry) (\<lambda>identifiers.
     res_bind (json_get entry ''DOI'') (\<lambda>doi.
     res_bind (if json_truthy doi
               then res_bind (json_text doi) (\<lambda>s. Inr (identifiers @
                      (case parse_doi (ee_pydantic env) s of None \<Rightarrow> [] | Some i \<Rightarrow> [i])))
               else Inr identifiers) (\<lambda>identifiers.
     res_bind (json_get entry ''URL'') (\<lambda>url.
     res_bind (if json_truthy url
               then res_bind (json_text url) (\<lambda>s. Inr
                      (case parse_url_to_identifier (ee_pydantic env) s of
                         None \<Rightarrow> identifiers
                       | Some i \<Rightarrow> if i \<in> set identifiers then identifiers else identifiers @ [i]))
               else Inr identifiers) (\<lambda>identifiers.
     if identifiers = [] then Inl ExternalIdentifierNotFoundError else Inr identifiers)))))"

text \<open>
  \<^verbatim>\<open>/references/([0-9a-fA-F-]{36})/?$\<close>, searched from the left; \<^verbatim>\<open>$\<close> also matches before a final
  line break.
\<close>

definition reference_id_char :: "char \<Rightarrow> bool" where
  "reference_id_char c = (c \<in> set ''0123456789abcdefABCDEF-'')"

definition reference_url_match :: "string \<Rightarrow> string option" where
  "reference_url_match s =
     (let i = take 36 (drop 12 s); rest = drop 48 s
      in if take 12 s = ''/references/'' \<and> length i = 36 \<and> list_all reference_id_char i \<and>
            rest \<in> {[], ''/'', nl, ''/'' @ nl}
         then Some i else None)"

fun reference_url_search :: "string \<Rightarrow> string option" where
  "reference_url_search [] = None"
| "reference_url_search (c # cs) =
     (case reference_url_match (c # cs) of None \<Rightarrow> reference_url_search cs | Some i \<Rightarrow> Some i)"

definition parse_reference_id :: "eppi_env \<Rightarrow> json \<Rightarrow> uuid option result" where
  "parse_reference_id env entry =
     res_bind (json_get entry ''URL'') (\<lambda>raw.
     res_bind (json_text (if json_truthy raw then raw else JStr [])) (\<lambda>url.
     Inr (case reference_url_search (py_strip url) of
            None \<Rightarrow> None
          | Some i \<Rightarrow> ee_uuid env i)))"

section \<open>Enhancements\<close>

definition parse_abstract_enhancement :: "json \<Rightarrow> enhancement_content option result" where
  "parse_abstract_enhancement entry =
     res_bind (json_get entry ''Abstract'') (\<lambda>abstract.
     if \<not> json_truthy abstract then Inr None
     else (case abstract of
             JStr s \<Rightarrow> Inr (Some (AbstractContentEnhancement \<lparr> abs_process = AB_OTHER, abs_abstract = s \<rparr>))
           | _ \<Rightarrow> Inl ValidationError))"

text \<open>\<open>str.isdigit\<close> accepts the superscript digits too, which \<open>int\<close> rejects, as it does long texts.\<close>

definition py_isdigit :: "string \<Rightarrow> bool" where
  "py_isdigit s = (s \<noteq> [] \<and> list_all (\<lambda>c. is_digit c \<or> (of_char c :: nat) \<in> {178, 179, 185}) s)"

definition py_int_of_digits :: "string \<Rightarrow> int result" where
  "py_int_of_digits s =
     (if list_all is_digit s \<and> length s \<le> 4300 then Inr (int (nat_of_digits s)) else Inl PyValueError)"

definition parse_publication_year :: "json \<Rightarrow> int option result" where
  "parse_publication_year year =
     (if \<not> json_truthy year then Inr None
      else res_bind (json_text year) (\<lambda>s.
        if py_isdigit s then res_bind (py_int_of_digits s) (\<lambda>n. Inr (Some n)) else Inr None))"

definition author_position_at :: "nat \<Rightarrow> nat \<Rightarrow> author_position" where
  "author_position_at n i =
     (if i = n - 1 \<and> 0 < i then AP_LAST else if i = 0 then AP_FIRST else AP_MIDDLE)"

definition parse_authorships :: "string \<Rightarrow> authorship list" where
  "parse_authorships authors_string =
     (let authors = filter (\<lambda>a. a \<noteq> []) (map py_strip (str_split (CHR '';'') authors_string))
      in map (\<lambda>(i, author_name). \<lparr> au_display_name = author_name, au_orcid = None,
                                  au_position = author_position_at (length authors) i \<rparr>)
           (enumerate 0 authors))"

definition parse_bibliographic_enhancement :: "json \<Rightarrow> enhancement_content option result" where
  "parse_bibliographic_enhancement entry =
     res_bind (json_get entry ''Title'') (\<lambda>title.
     res_bind (res_bind (json_get entry ''Year'') parse_publication_year) (\<lambda>publication_year.
     res_bind (json_get entry ''Publisher'') (\<lambda>publisher.
     res_bind (json_get entry ''Authors'') (\<lambda>authors_string.
     res_bind (if json_truthy authors_string
               then res_bind (json_text authors_string) (\<lambda>s. Inr (parse_authorships s))
               else Inr []) (\<lambda>authorships.
     if \<not> json_truthy title \<and> \<not> truthy_opt_int publication_year \<and> \<not> json_truthy publisher \<and>
        authorships = []
     then Inr None
     else res_bind (json_str_field title) (\<lambda>title. res_bind (json_str_field publisher) (\<lambda>publisher.
       Inr (Some (BibliographicMetadataEnhancement
         \<lparr> bib_authorship = (if authorships = [] then None else Some authorships),
           bib_cited_by_count = None, bib_created_date = None, bib_updated_date = None,
           bib_publication_date = None, bib_publication_year = publication_year,
           bib_publisher = publisher, bib_title = title, bib_pagination = None,
           bib_publication_venue = None \<rparr>)))))))))"

text \<open>A tag is \<^verbatim>\<open><scheme>/<label>[@<score>]\<close>.\<close>

definition parse_tag :: "eppi_env \<Rightarrow> string \<Rightarrow> annotation result" where
  "parse_tag env tag =
     (let (scheme_label, score) = str_partition ''@'' tag;
          (scheme, label) = str_partition ''/'' scheme_label
      in res_bind (if score = [] then Inr None
                   else (case ee_float env score of None \<Rightarrow> Inl PyValueError | Some q \<Rightarrow> Inr (Some q)))
           (\<lambda>sc. let a = BooleanAnnotation scheme label True sc []
                 in if annotation_valid a then Inr a else Inl ValidationError))"

definition create_annotation_enhancement :: "eppi_env \<Rightarrow> eppi_parser \<Rightarrow> enhancement_content option result" where
  "create_annotation_enhancement env p =
     (if ep_tags p = [] then Inr None
      else res_bind (res_mapM (parse_tag env) (ep_tags p)) (\<lambda>annotations.
        Inr (Some (AnnotationEnhancement annotations))))"

definition raw_enhancement_metadata :: "json_dict \<Rightarrow> json_dict result" where
  "raw_enhancement_metadata data =
     res_bind (json_iter (case map_of data ''CodeSets'' of None \<Rightarrow> JArr [] | Some v \<Rightarrow> v)) (\<lambda>codesets.
     res_bind (res_mapM (\<lambda>codeset. json_get codeset ''SetId'') codesets) (\<lambda>ids.
     Inr [(''codeset_ids'', JArr ids)]))"

text \<open>Both callers have called \<open>get\<close> on the entry before, so that it is a dict.\<close>

definition parse_raw_enhancement :: "eppi_parser \<Rightarrow> json \<Rightarrow> json_dict \<Rightarrow> raw_enhancement result" where
  "parse_raw_enhancement p entry metadata =
     (case entry of
        JObj kvs \<Rightarrow>
          (case (ep_source_export_date p, ep_data_description p) of
             (Some export_date, Some description) \<Rightarrow>
               (let raw = \<lparr> raw_source_export_date = export_date, raw_description = description,
                            raw_metadata = metadata,
                            raw_data = JObj (filter (\<lambda>(k, v). k \<notin> set (ep_raw_enhancement_excludes p)) kvs) \<rparr>
                in if forbid_no_data raw then Inr raw else Inl ValidationError)
           | _ \<Rightarrow> Inl ValidationError)
      | _ \<Rightarrow> Inl PyAttributeError)"

section \<open>References for an import file\<close>

text \<open>
  \<^verbatim>\<open>EnhancementFileInput(...)\<close> reads its version from the keyword \<^verbatim>\<open>processor_version\<close>, the alias of
  the field; pydantic ignores other keywords.
\<close>

definition new_enhancement_file_input ::
    "string \<Rightarrow> visibility \<Rightarrow> enhancement_content \<Rightarrow> (string \<times> string option) list \<Rightarrow> enhancement_file_input" where
  "new_enhancement_file_input source vis content keywords =
     \<lparr> efi_source = source, efi_visibility = vis,
       efi_robot_version = (case map_of keywords ''processor_version'' of None \<Rightarrow> None | Some v \<Rightarrow> v),
       efi_content = SdkContent content \<rparr>"

definition eppi_contents ::
    "eppi_env \<Rightarrow> eppi_parser \<Rightarrow> json_dict \<Rightarrow> json \<Rightarrow> enhancement_content list result" where
  "eppi_contents env p metadata entry =
     res_bind (parse_abstract_enhancement entry) (\<lambda>abstract.
     res_bind (parse_bibliographic_enhancement entry) (\<lambda>bibliographic.
     res_bind (create_annotation_enhancement env p) (\<lambda>annotations.
     let contents = List.map_filter id [abstract, bibliographic, annotations]
     in if ep_include_raw_data p
        then res_bind (parse_raw_enhancement p entry metadata) (\<lambda>raw. Inr (contents @ [RawEnhancement raw]))
        else Inr contents)))"

definition eppi_reference ::
    "eppi_env \<Rightarrow> eppi_parser \<Rightarrow> string \<Rightarrow> string option \<Rightarrow> json_dict \<Rightarrow> json \<Rightarrow> reference_file_input result" where
  "eppi_reference env p source version metadata entry =
     res_bind (eppi_contents env p metadata entry) (\<lambda>contents.
     res_bind (eppi_parse_identifiers env p entry) (\<lambda>identifiers.
     Inr \<lparr> rfi_visibility = VIS_PUBLIC, rfi_identifiers = identifiers,
          rfi_enhancements = map (\<lambda>content.
            new_enhancement_file_input source VIS_PUBLIC content [(''robot_version'', version)]) contents \<rparr>))"

definition parse_references_step ::
    "(json \<Rightarrow> reference_file_input result) \<Rightarrow> json \<Rightarrow> reference_file_input list \<times> json list \<Rightarrow>
     (reference_file_input list \<times> json list) result" where
  "parse_references_step body entry acc =
     (case acc of (references, failed_refs) \<Rightarrow>
        (case body entry of
           Inr r \<Rightarrow> Inr (references @ [r], failed_refs)
         | Inl e \<Rightarrow> if e = ExternalIdentifierNotFoundError then Inr (references, failed_refs @ [entry])
                    else Inl e))"

definition eppi_entries :: "json_dict \<Rightarrow> json list result" where
  "eppi_entries data = json_iter (case map_of data ''References'' of None \<Rightarrow> JArr [] | Some v \<Rightarrow> v)"

definition parse_references ::
    "eppi_env \<Rightarrow> eppi_parser \<Rightarrow> json_dict \<Rightarrow> string option \<Rightarrow> string option \<Rightarrow>
     (reference_file_input list \<times> json list) result" where
  "parse_references env p data source version =
     (let parser_source = (case source of None \<Rightarrow> ep_parser_source p | Some s \<Rightarrow> s)
      in res_bind (raw_enhancement_metadata data) (\<lambda>metadata.
         res_bind (eppi_entries data) (\<lambda>entries.
         res_foldM (parse_references_step (eppi_reference env p parser_source version metadata))
           entries ([], []))))"

section \<open>Enhancements of stored references\<close>

definition parse_enhancements_step ::
    "eppi_env \<Rightarrow> eppi_parser \<Rightarrow> string \<Rightarrow> string option \<Rightarrow> json_dict \<Rightarrow> json \<Rightarrow>
     sdk_enhancement list \<times> json list \<Rightarrow> (sdk_enhancement list \<times> json list) result" where
  "parse_enhancements_step env p source version metadata entry acc =
     (case acc of (enhancements, unidentified_refs) \<Rightarrow>
        res_bind (parse_reference_id env entry) (\<lambda>reference_id.
          (case reference_id of
             None \<Rightarrow> Inr (enhancements, unidentified_refs @ [entry])
           | Some i \<Rightarrow> res_bind (parse_raw_enhancement p entry metadata) (\<lambda>raw.
               Inr (enhancements @ [\<lparr> se_reference_id = i, se_source = source, se_visibility = VIS_PUBLIC,
                                     se_robot_version = version, se_derived_from = None,
                                     se_content = SdkContent (RawEnhancement raw) \<rparr>],
                    unidentified_refs)))))"

definition parse_enhancements ::
    "eppi_env \<Rightarrow> eppi_parser \<Rightarrow> json_dict \<Rightarrow> string \<Rightarrow> string option \<Rightarrow> sdk_enhancement list result" where
  "parse_enhancements env p data source version =
     (if \<not> ep_include_raw_data p then Inl PyRuntimeError
      else res_bind (raw_enhancement_metadata data) (\<lambda>metadata.
           res_bind (eppi_entries data) (\<lambda>entries.
           res_bind (res_foldM (parse_enhancements_step env p source version metadata) entries ([], []))
             (\<lambda>(enhancements, unidentified_refs).
                if unidentified_refs \<noteq> [] then Inl ReferenceIdNotFoundError else Inr enhancements))))"

section \<open>Well-formed exports\<close>

text \<open>What an export and a parser have to be for nothing but a missing identifier to go wrong.\<close>

definition eppi_field_text :: "json_dict \<Rightarrow> string \<Rightarrow> bool" where
  "eppi_field_text kvs key =
     (case map_of kvs key of None \<Rightarrow> True | Some v \<Rightarrow> (case v of JNull \<Rightarrow> True | JStr s \<Rightarrow> True | _ \<Rightarrow> False))"

definition eppi_year_ok :: "json_dict \<Rightarrow> bool" where
  "eppi_year_ok kvs =
     (case map_of kvs ''Year'' of
        Some (JStr s) \<Rightarrow> py_isdigit s \<longrightarrow> list_all is_digit s \<and> length s \<le> 4300
      | _ \<Rightarrow> True)"

definition eppi_raw_data :: "eppi_parser \<Rightarrow> json_dict \<Rightarrow> json_dict" where
  "eppi_raw_data p kvs = filter (\<lambda>(k, v). k \<notin> set (ep_raw_enhancement_excludes p)) kvs"

fun eppi_entry_ok :: "eppi_parser \<Rightarrow> json \<Rightarrow> bool" where
  "eppi_entry_ok p (JObj kvs) =
     (list_all (eppi_field_text kvs)
        [''DOI'', ''URL'', ''Abstract'', ''Title'', ''Year'', ''Publisher'', ''Authors''] \<and>
      eppi_year_ok kvs \<and> (ep_include_raw_data p \<longrightarrow> eppi_raw_data p kvs \<noteq> []))"
| "eppi_entry_ok p _ = False"

fun is_json_object :: "json \<Rightarrow> bool" where
  "is_json_object (JObj _) = True"
| "is_json_object _ = False"

definition eppi_export_ok :: "eppi_parser \<Rightarrow> json_dict \<Rightarrow> bool" where
  "eppi_export_ok p data =
     ((case map_of data ''CodeSets'' of
         None \<Rightarrow> True | Some v \<Rightarrow> (case v of JArr cs \<Rightarrow> list_all is_json_object cs | _ \<Rightarrow> False)) \<and>
      (case map_of data ''References'' of
         None \<Rightarrow> True | Some v \<Rightarrow> (case v of JArr es \<Rightarrow> list_all (eppi_entry_ok p) es | _ \<Rightarrow> False)))"

definition eppi_parser_ok :: "eppi_env \<Rightarrow> eppi_parser \<Rightarrow> bool" where
  "eppi_parser_ok env p =
     (list_all (\<lambda>tag. \<not> isl (parse_tag env tag)) (ep_tags p) \<and>
      (ep_include_raw_data p \<longrightarrow> ep_source_export_date p \<noteq> None \<and> ep_data_description p \<noteq> None))"

text \<open>The identifiers an entry carries, whatever order the parser looks for them in.\<close>

definition eppi_known_item :: "eppi_env \<Rightarrow> eppi_parser \<Rightarrow> json_dict \<Rightarrow> external_identifier list" where
  "eppi_known_item env p kvs =
     (case map_of kvs ''ItemId'' of
        None \<Rightarrow> []
      | Some v \<Rightarrow> if ep_include_eppi_id p \<and> json_truthy v
                 then [OtherIdentifier (ee_str env v) ''EPPI ItemId''] else [])"

definition eppi_known_text ::
    "(string \<Rightarrow> external_identifier option) \<Rightarrow> string \<Rightarrow> json_dict \<Rightarrow> external_identifier list" where
  "eppi_known_text parse key kvs =
     (case map_of kvs key of
        Some (JStr s) \<Rightarrow> (case parse s of None \<Rightarrow> [] | Some i \<Rightarrow> [i])
      | _ \<Rightarrow> [])"

fun eppi_known_identifiers :: "eppi_env \<Rightarrow> eppi_parser \<Rightarrow> json \<Rightarrow> external_identifier list" where
  "eppi_known_identifiers env p (JObj kvs) =
     eppi_known_item env p kvs @
     eppi_known_text (parse_doi (ee_pydantic env)) ''DOI'' kvs @
     eppi_known_text (parse_url_to_identifier (ee_pydantic env)) ''URL'' kvs"
| "eppi_known_identifiers env p _ = []"

section \<open>Lemmas on the parts of an entry\<close>

lemma eppi_parser_init_ok:
  "eppi_parser_init tags with_raw eppi_id export_date description excludes = Inr p \<Longrightarrow>
   list_all (\<lambda>tag. \<not> isl (parse_tag env tag)) (ep_tags p) \<Longrightarrow> eppi_parser_ok env p"
  by (auto simp: eppi_parser_init_def eppi_parser_ok_def truthy_opt_str_def split: if_splits option.splits)

lemma eppi_field_cases:
  assumes "eppi_field_text kvs key"
  obtains "json_get (JObj kvs) key = Inr JNull" "map_of kvs key = None \<or> map_of kvs key = Some JNull"
  | s where "json_get (JObj kvs) key = Inr (JStr s)" "map_of kvs key = Some (JStr s)"
  using assms by (auto simp: eppi_field_text_def split: option.splits json.splits)

lemma parse_doi_Nil [simp]: "parse_doi P [] = None"
  by (simp add: parse_doi_def validate_external_identifier_def canonicalize_doi_def doi_translate_def
      doi_strip_url_def doi_url_rest_def doi_strip_scheme_def strip_ci_def py_lower_def py_strip_def
      py_lstrip_def doi_pattern_def)

lemma parse_url_Nil [simp]: "parse_url_to_identifier P [] = None"
  by (simp add: parse_url_to_identifier_def url_identifier_class_def py_strip_def py_lstrip_def)

lemma validate_external_identifier_type:
  "validate_external_identifier P raw ty other = Inr i \<Longrightarrow> identifier_type i = ty"
  by (auto simp: validate_external_identifier_def Let_def
      split: external_identifier_type.splits if_splits option.splits)

lemma parse_doi_SomeD: "parse_doi P s = Some i \<Longrightarrow> validate_external_identifier P (py_strip s) ID_DOI None = Inr i"
  by (simp add: parse_doi_def split: sum.splits)

lemma parse_url_SomeD:
  "parse_url_to_identifier P s = Some i \<Longrightarrow>
   \<exists>ty \<in> {ID_DOI, ID_ERIC, ID_PRO_QUEST, ID_OPEN_ALEX}. validate_external_identifier P (py_strip s) ty None = Inr i"
  by (auto simp: parse_url_to_identifier_def url_identifier_class_def Let_def split: sum.splits if_splits)

text \<open>
  The identifiers of a well-formed entry are the ones it carries, each once; an entry that carries
  none is the only one that raises.
\<close>

lemma eppi_item_identifiers_known: "eppi_item_identifiers env p (JObj kvs) = Inr (eppi_known_item env p kvs)"
  by (simp add: eppi_item_identifiers_def eppi_known_item_def split: option.splits)

lemma eppi_known_text_simps:
  "map_of kvs key = None \<or> map_of kvs key = Some JNull \<Longrightarrow> eppi_known_text parse key kvs = []"
  "map_of kvs key = Some (JStr s) \<Longrightarrow>
     eppi_known_text parse key kvs = (case parse s of None \<Rightarrow> [] | Some i \<Rightarrow> [i])"
  by (auto simp: eppi_known_text_def)

lemma eppi_known_text_cases:
  obtains "eppi_known_text parse key kvs = []"
  | i s where "eppi_known_text parse key kvs = [i]" "parse s = Some i"
proof (cases "map_of kvs key")
  case (Some v)
  then show ?thesis using that by (cases v; cases "parse (case v of JStr s \<Rightarrow> s)") (auto simp: eppi_known_text_def)
qed (auto simp: eppi_known_text_def that)

lemma eppi_known_types:
  "i \<in> set (eppi_known_item env p kvs) \<Longrightarrow> identifier_type i = ID_OTHER"
  "parse_doi P s = Some i \<Longrightarrow> identifier_type i = ID_DOI"
  "parse_url_to_identifier P s = Some i \<Longrightarrow> identifier_type i \<noteq> ID_OTHER"
  by (auto simp: eppi_known_item_def split: option.splits if_splits
      dest!: parse_doi_SomeD parse_url_SomeD validate_external_identifier_type)

lemma distinct_eppi_known_item: "distinct (eppi_known_item env p kvs)"
  by (simp add: eppi_known_item_def split: option.splits)

lemma eppi_parse_identifiers_known:
  fixes env :: eppi_env and p :: eppi_parser
  assumes "eppi_field_text kvs ''DOI''" "eppi_field_text kvs ''URL''"
  defines "ids \<equiv> eppi_known_item env p kvs @ eppi_known_text (parse_doi (ee_pydantic env)) ''DOI'' kvs"
  defines "all \<equiv> ids @ filter (\<lambda>i. i \<notin> set ids) (eppi_known_text (parse_url_to_identifier (ee_pydantic env)) ''URL'' kvs)"
  shows "eppi_parse_identifiers env p (JObj kvs) =
           (if all = [] then Inl ExternalIdentifierNotFoundError else Inr all)"
proof -
  have nulls: "json_get (JObj kvs) key = Inr v \<Longrightarrow> res_bind (json_get (JObj kvs) key) g = g v" for key v g
    by simp
  note unfolded = eppi_parse_identifiers_def eppi_item_identifiers_known all_def ids_def nulls eppi_known_text_simps
  from assms(1) show ?thesis
  proof (cases rule: eppi_field_cases)
    case 1
    from assms(2) show ?thesis
      by (cases rule: eppi_field_cases; use 1 in \<open>auto simp: unfolded simp del: json_get.simps split: option.splits\<close>)
  next
    case (2 s)
    from assms(2) show ?thesis
      by (cases rule: eppi_field_cases; use 2 in \<open>cases "s = []"; auto simp: unfolded simp del: json_get.simps split: option.splits\<close>)
  qed
qed

lemma eppi_parse_identifiers_spec:
  assumes "eppi_entry_ok p entry"
  shows "if eppi_known_identifiers env p entry = []
         then eppi_parse_identifiers env p entry = Inl ExternalIdentifierNotFoundError
         else \<exists>ids. eppi_parse_identifiers env p entry = Inr ids \<and> distinct ids \<and>
                set ids = set (eppi_known_identifiers env p entry)"
proof -
  from assms obtain kvs where entry: "entry = JObj kvs" and fields: "eppi_field_text kvs ''DOI''" "eppi_field_text kvs ''URL''"
    by (cases entry) auto
  have "distinct (eppi_known_item env p kvs @ eppi_known_text (parse_doi P) ''DOI'' kvs)" for P
    by (cases rule: eppi_known_text_cases [of "parse_doi P" "''DOI''" kvs])
      (auto simp: distinct_eppi_known_item dest!: eppi_known_types(1,2))
  moreover have "distinct (eppi_known_text parse ''URL'' kvs)" for parse
    by (cases rule: eppi_known_text_cases [of parse "''URL''" kvs]) auto
  ultimately show ?thesis
    by (auto simp: entry eppi_parse_identifiers_known [OF fields])
qed

text \<open>Nothing else in a well-formed entry raises.\<close>

definition eppi_abstracts :: "json_dict \<Rightarrow> enhancement_content list" where
  "eppi_abstracts kvs =
     (case map_of kvs ''Abstract'' of
        Some (JStr s) \<Rightarrow> if s = [] then [] else [AbstractContentEnhancement \<lparr> abs_process = AB_OTHER, abs_abstract = s \<rparr>]
      | _ \<Rightarrow> [])"

definition eppi_raws :: "eppi_parser \<Rightarrow> json_dict \<Rightarrow> json_dict \<Rightarrow> enhancement_content list" where
  "eppi_raws p metadata kvs =
     (if ep_include_raw_data p
      then [RawEnhancement \<lparr> raw_source_export_date = the (ep_source_export_date p),
              raw_description = the (ep_data_description p), raw_metadata = metadata,
              raw_data = JObj (eppi_raw_data p kvs) \<rparr>]
      else [])"

definition eppi_annotations :: "eppi_env \<Rightarrow> eppi_parser \<Rightarrow> enhancement_content list" where
  "eppi_annotations env p =
     (if ep_tags p = [] then [] else [AnnotationEnhancement (map (\<lambda>t. projr (parse_tag env t)) (ep_tags p))])"

lemma parse_abstract_total:
  assumes "eppi_field_text kvs ''Abstract''"
  shows "\<exists>a. parse_abstract_enhancement (JObj kvs) = Inr a \<and> List.map_filter id [a] = eppi_abstracts kvs"
  using assms
  by (cases rule: eppi_field_cases)
    (auto simp: parse_abstract_enhancement_def eppi_abstracts_def map_filter_simps simp del: json_get.simps split: if_splits)

lemma parse_annotation_total:
  assumes "eppi_parser_ok env p"
  shows "\<exists>a. create_annotation_enhancement env p = Inr a \<and> List.map_filter id [a] = eppi_annotations env p"
proof -
  have "res_mapM (parse_tag env) (ep_tags p) = Inr (map (\<lambda>t. projr (parse_tag env t)) (ep_tags p))"
    using assms by (intro res_mapM_total) (auto simp: eppi_parser_ok_def list_all_iff)
  then show ?thesis by (simp add: create_annotation_enhancement_def eppi_annotations_def map_filter_simps)
qed

lemma parse_raw_total:
  assumes "eppi_parser_ok env p" "eppi_entry_ok p (JObj kvs)" "ep_include_raw_data p"
  shows "parse_raw_enhancement p (JObj kvs) metadata =
           Inr \<lparr> raw_source_export_date = the (ep_source_export_date p),
                raw_description = the (ep_data_description p), raw_metadata = metadata,
                raw_data = JObj (eppi_raw_data p kvs) \<rparr>"
  using assms by (auto simp: parse_raw_enhancement_def eppi_parser_ok_def eppi_raw_data_def forbid_no_data_def)

lemma parse_year_total:
  assumes "eppi_field_text kvs ''Year''" "eppi_year_ok kvs"
  shows "\<exists>y. res_bind (json_get (JObj kvs) ''Year'') parse_publication_year = Inr y"
  using assms(1)
proof (cases rule: eppi_field_cases)
  case (2 s)
  then show ?thesis using assms(2)
    by (auto simp: parse_publication_year_def eppi_year_ok_def py_int_of_digits_def)
qed (auto simp: parse_publication_year_def)

lemma json_str_field_total:
  "eppi_field_text kvs key \<Longrightarrow> \<exists>v s. json_get (JObj kvs) key = Inr v \<and> json_str_field v = Inr s"
  by (erule eppi_field_cases) (auto simp del: json_get.simps)

lemma not_isl_Inr: "\<not> isl x \<Longrightarrow> \<exists>y. x = Inr y"
  by (cases x) auto

lemma parse_bibliographic_total:
  assumes "eppi_entry_ok p (JObj kvs)"
  shows "\<exists>b. parse_bibliographic_enhancement (JObj kvs) = Inr b \<and>
           (\<forall>c. b = Some c \<longrightarrow> content_type c = ET_BIBLIOGRAPHIC)"
proof -
  have f: "eppi_field_text kvs ''Title''" "eppi_field_text kvs ''Publisher''" "eppi_field_text kvs ''Authors''"
    "eppi_field_text kvs ''Year''" "eppi_year_ok kvs"
    using assms by auto
  obtain t ts where t: "json_get (JObj kvs) ''Title'' = Inr t" "json_str_field t = Inr ts"
    using json_str_field_total [OF f(1)] by blast
  obtain u us where u: "json_get (JObj kvs) ''Publisher'' = Inr u" "json_str_field u = Inr us"
    using json_str_field_total [OF f(2)] by blast
  obtain y where y: "res_bind (json_get (JObj kvs) ''Year'') parse_publication_year = Inr y"
    using parse_year_total [OF f(4,5)] by blast
  have "\<exists>v. json_get (JObj kvs) ''Authors'' = Inr v \<and>
      \<not> isl (if json_truthy v then res_bind (json_text v) (\<lambda>s. Inr (parse_authorships s)) else Inr [])"
    by (rule eppi_field_cases [OF f(3)]) (auto simp del: json_get.simps)
  then obtain v as where "json_get (JObj kvs) ''Authors'' = Inr v"
    "(if json_truthy v then res_bind (json_text v) (\<lambda>s. Inr (parse_authorships s)) else Inr []) = Inr as"
    by (blast dest: not_isl_Inr)
  then show ?thesis
    unfolding parse_bibliographic_enhancement_def t(1) u(1) y
    by (auto simp: t(2) u(2) simp del: json_get.simps)
qed

lemma eppi_contents_total:
  assumes "eppi_parser_ok env p" "eppi_entry_ok p (JObj kvs)"
  shows "\<exists>bibs. eppi_contents env p metadata (JObj kvs) =
           Inr (eppi_abstracts kvs @ bibs @ eppi_annotations env p @ eppi_raws p metadata kvs) \<and>
           length bibs \<le> 1 \<and> (\<forall>c \<in> set bibs. content_type c = ET_BIBLIOGRAPHIC)"
proof -
  have "eppi_field_text kvs ''Abstract''" using assms(2) by simp
  from parse_abstract_total [OF this] obtain a where
    a: "parse_abstract_enhancement (JObj kvs) = Inr a" "List.map_filter id [a] = eppi_abstracts kvs" by blast
  obtain b where b: "parse_bibliographic_enhancement (JObj kvs) = Inr b"
    "\<forall>c. b = Some c \<longrightarrow> content_type c = ET_BIBLIOGRAPHIC"
    using parse_bibliographic_total [OF assms(2)] by blast
  obtain n where n: "create_annotation_enhancement env p = Inr n" "List.map_filter id [n] = eppi_annotations env p"
    using parse_annotation_total [OF assms(1)] by blast
  have "List.map_filter id [a, b, n] = eppi_abstracts kvs @ List.map_filter id [b] @ eppi_annotations env p"
    unfolding a(2) [symmetric] n(2) [symmetric] by (simp add: map_filter_simps split: option.splits)
  then have "eppi_contents env p metadata (JObj kvs) =
      Inr (eppi_abstracts kvs @ List.map_filter id [b] @ eppi_annotations env p @ eppi_raws p metadata kvs)"
    using parse_raw_total [OF assms] by (simp add: eppi_contents_def a(1) b(1) n(1) eppi_raws_def Let_def)
  moreover have "length (List.map_filter id [b]) \<le> 1" "\<forall>c \<in> set (List.map_filter id [b]). content_type c = ET_BIBLIOGRAPHIC"
    using b(2) by (auto simp: map_filter_simps split: option.splits)
  ultimately show ?thesis by blast
qed

section \<open>Authors and links\<close>

text \<open>A list of names printed with semicolons is read back, and the positions mark its ends.\<close>

lemma str_split_join:
  assumes "names \<noteq> []" "\<forall>n \<in> set names. CHR '';'' \<notin> set n"
  shows "str_split (CHR '';'') (str_join ''; '' names) = hd names # map ((#) (CHR '' '')) (tl names)"
  using assms
proof (induction names rule: list_nonempty_induct)
  case (cons n ns)
  then obtain m ms where ns: "ns = m # ms" by (cases ns) auto
  with cons have "str_split (CHR '';'') (str_join ''; '' (m # ms)) = m # map ((#) (CHR '' '')) ms" by simp
  then have "str_split (CHR '';'') (CHR '' '' # str_join ''; '' (m # ms)) = map ((#) (CHR '' '')) (m # ms)" by simp
  with cons show ?case by (simp add: ns str_split_append)
qed (simp add: str_split_single)

lemma parse_authorships_names:
  assumes "\<forall>n \<in> set names. n \<noteq> [] \<and> stripped n \<and> CHR '';'' \<notin> set n"
  shows "map au_display_name (parse_authorships (str_join ''; '' names)) = names"
proof (cases "names = []")
  case True
  then show ?thesis by (simp add: parse_authorships_def py_strip_def py_lstrip_def)
next
  case False
  have "py_strip (CHR '' '' # n) = n" if "n \<in> set names" for n
    using assms that py_strip_stripped [of n] by (simp add: py_strip_def py_lstrip_def py_isspace_def)
  moreover have "py_strip (hd names) = hd names" using assms False by (simp add: py_strip_stripped)
  moreover have "map (\<lambda>n. py_strip (CHR '' '' # n)) (tl names) = map id (tl names)"
    by (rule map_cong) (auto intro: calculation(1) list.set_sel(2) [OF False])
  ultimately have "map py_strip (str_split (CHR '';'') (str_join ''; '' names)) = hd names # map id (tl names)"
    using assms False by (simp add: str_split_join comp_def)
  then have "filter (\<lambda>a. a \<noteq> []) (map py_strip (str_split (CHR '';'') (str_join ''; '' names))) = names"
    using assms False by (simp add: filter_id_conv)
  then show ?thesis by (simp add: parse_authorships_def Let_def comp_def case_prod_beta)
qed

lemma parse_authorships_positions:
  assumes "parse_authorships s = as" "i < length as"
  shows "au_position (as ! i) =
           (if i = 0 then AP_FIRST else if i = length as - 1 then AP_LAST else AP_MIDDLE)"
proof -
  define authors where "authors = filter (\<lambda>a. a \<noteq> []) (map py_strip (str_split (CHR '';'') s))"
  have "as = map (\<lambda>(i, n). \<lparr> au_display_name = n, au_orcid = None,
                            au_position = author_position_at (length authors) i \<rparr>) (enumerate 0 authors)"
    using assms(1) by (simp add: parse_authorships_def authors_def Let_def)
  with assms(2) show ?thesis by (auto simp: author_position_at_def nth_enumerate_eq)
qed

text \<open>The link that the repository shows for a reference is read back as its id.\<close>

lemma reference_url_match_SomeD:
  assumes "reference_url_match s = Some j"
  obtains rest where "s = ''/references/'' @ j @ rest" "length j = 36" "rest \<in> {[], ''/'', nl, ''/'' @ nl}"
proof -
  from assms have m: "take 12 s = ''/references/''" "j = take 36 (drop 12 s)" "length j = 36"
    "drop 48 s \<in> {[], ''/'', nl, ''/'' @ nl}"
    by (auto simp only: reference_url_match_def Let_def option.inject option.distinct split: if_splits)
  have "s = take 12 s @ take 36 (drop 12 s) @ drop 36 (drop 12 s)" by (simp only: append_take_drop_id)
  also have "\<dots> = ''/references/'' @ j @ drop 48 s" unfolding m(1,2) by simp
  finally show thesis using that m(3,4) by blast
qed

lemma reference_url_search_link:
  assumes "length i = 36" "list_all reference_id_char i" "tail \<in> {[], ''/''}"
  shows "reference_url_search (pre @ ''/references/'' @ i @ tail) = Some i"
proof (induction pre)
  case Nil
  have "reference_url_match (''/references/'' @ i @ tail) = Some i"
    using assms by (auto simp: reference_url_match_def)
  then show ?case by simp
next
  case (Cons c pre)
  have ends: "last i \<notin> {CHR ''/'', CHR ''\<newline>''}" "i \<noteq> []"
    using assms(1,2) by (auto simp: list_all_iff reference_id_char_def dest!: bspec [OF _ last_in_set])
  have "reference_url_match (c # pre @ ''/references/'' @ i @ tail) = None"
  proof (rule ccontr)
    assume "reference_url_match (c # pre @ ''/references/'' @ i @ tail) \<noteq> None"
    then obtain j where "reference_url_match (c # pre @ ''/references/'' @ i @ tail) = Some j" by blast
    then obtain rest where rest: "c # pre @ ''/references/'' @ i @ tail = ''/references/'' @ j @ rest"
      "length j = 36" "rest \<in> {[], ''/'', nl, ''/'' @ nl}"
      by (rule reference_url_match_SomeD)
    from rest(1) have "length pre + length tail + 1 = length rest"
      using assms(1) rest(2) by (auto dest!: arg_cong [where f = length])
    moreover from rest(1) have "last (i @ tail) = last (j @ rest)"
      using ends(2) rest(2) by (auto dest!: arg_cong [where f = last] simp: last_append split: if_splits)
    ultimately show False using assms(3) rest(3) ends
      by (elim insertE emptyE) (simp_all add: nl_def)
  qed
  with Cons show ?case by simp
qed

lemma reference_link_parsed:
  assumes "map_of kvs ''URL'' = Some (JStr (pre @ ''/references/'' @ str_uuid u @ tail))"
    and "pre \<noteq> []" "\<not> py_isspace (hd pre)" "tail \<in> {[], ''/''}" "ee_uuid env (str_uuid u) = Some u"
  shows "parse_reference_id env (JObj kvs) = Inr (Some u)"
proof -
  let ?url = "pre @ ''/references/'' @ str_uuid u @ tail"
  have "insert (CHR ''-'') (set ''0123456789abcdef'') \<subseteq> {c. reference_id_char c \<and> \<not> py_isspace c}"
    by (simp add: reference_id_char_def py_isspace_def)
  with set_str_uuid have chars: "set (str_uuid u) \<subseteq> {c. reference_id_char c \<and> \<not> py_isspace c}"
    by (rule subset_trans)
  have i: "length (str_uuid u) = 36" by (simp add: str_uuid_def Let_def)
  have c: "list_all reference_id_char (str_uuid u)" using chars by (auto simp: list_all_iff)
  from i have "str_uuid u \<noteq> []" by auto
  with chars last_in_set [of "str_uuid u"] have "\<not> py_isspace (last (str_uuid u))" by blast
  then have "stripped ?url"
    using assms(2-4) \<open>str_uuid u \<noteq> []\<close> by (auto simp: stripped_def py_isspace_def last_append)
  then have "py_strip ?url = ?url" by (rule py_strip_stripped)
  with assms(1) have "parse_reference_id env (JObj kvs) =
      Inr (case reference_url_search ?url of None \<Rightarrow> None | Some i \<Rightarrow> ee_uuid env i)"
    by (simp add: parse_reference_id_def)
  then show ?thesis
    unfolding reference_url_search_link [OF i c assms(4)] by (simp add: assms(5))
qed

section \<open>Every reference of an export is accounted for\<close>

lemma raw_enhancement_metadata_total:
  "eppi_export_ok p data \<Longrightarrow> \<exists>metadata. raw_enhancement_metadata data = Inr metadata"
proof -
  have "list_all is_json_object cs \<Longrightarrow> \<exists>ids. res_mapM (\<lambda>c. json_get c ''SetId'') cs = Inr ids" for cs
  proof (induction cs)
    case (Cons c cs)
    then show ?case by (cases c) auto
  qed simp
  then show "eppi_export_ok p data \<Longrightarrow> \<exists>metadata. raw_enhancement_metadata data = Inr metadata"
    by (fastforce simp: eppi_export_ok_def raw_enhancement_metadata_def split: option.splits json.splits)
qed

lemma eppi_entries_ok:
  "eppi_export_ok p data \<Longrightarrow> \<exists>entries. eppi_entries data = Inr entries \<and> list_all (eppi_entry_ok p) entries"
  by (auto simp: eppi_export_ok_def eppi_entries_def split: option.splits json.splits)

text \<open>The loop keeps the order of the export in both of its results.\<close>

lemma parse_references_step_made:
  "body e = Inr r \<Longrightarrow> parse_references_step body e (rs, fs) = Inr (rs @ [r], fs)"
  by (simp add: parse_references_step_def)

lemma parse_references_loop:
  assumes "\<And>e. e \<in> set es \<Longrightarrow> (if bad e then body e = Inl ExternalIdentifierNotFoundError else body e = Inr (f e))"
  shows "res_foldM (parse_references_step body) es (rs, fs) =
           Inr (rs @ map f (filter (\<lambda>e. \<not> bad e) es), fs @ filter bad es)"
  using assms
proof (induction es arbitrary: rs fs)
  case (Cons e es)
  have "if bad e then body e = Inl ExternalIdentifierNotFoundError else body e = Inr (f e)"
    by (rule Cons.prems) simp
  with Cons show ?case by (cases "bad e") (auto simp: parse_references_step_def)
qed simp

text \<open>What the reference made of an entry holds.\<close>

definition eppi_reference_made ::
    "eppi_env \<Rightarrow> eppi_parser \<Rightarrow> string \<Rightarrow> json_dict \<Rightarrow> json_dict \<Rightarrow> reference_file_input \<Rightarrow> bool" where
  "eppi_reference_made env p source metadata kvs r =
     (rfi_visibility r = VIS_PUBLIC \<and>
      distinct (rfi_identifiers r) \<and> set (rfi_identifiers r) = set (eppi_known_identifiers env p (JObj kvs)) \<and>
      list_all (\<lambda>e. efi_source e = source \<and> efi_visibility e = VIS_PUBLIC) (rfi_enhancements r) \<and>
      filter (\<lambda>c. \<forall>d. c = SdkContent d \<longrightarrow> content_type d \<noteq> ET_BIBLIOGRAPHIC) (map efi_content (rfi_enhancements r)) =
        map SdkContent (eppi_abstracts kvs @ eppi_annotations env p @ eppi_raws p metadata kvs))"

lemma eppi_reference_spec:
  assumes "eppi_parser_ok env p" "eppi_entry_ok p (JObj kvs)"
  shows "if eppi_known_identifiers env p (JObj kvs) = []
         then eppi_reference env p source version metadata (JObj kvs) = Inl ExternalIdentifierNotFoundError
         else \<exists>r. eppi_reference env p source version metadata (JObj kvs) = Inr r \<and>
                eppi_reference_made env p source metadata kvs r"
proof -
  obtain bibs where c: "eppi_contents env p metadata (JObj kvs) =
      Inr (eppi_abstracts kvs @ bibs @ eppi_annotations env p @ eppi_raws p metadata kvs)"
    and bibs: "\<forall>c \<in> set bibs. content_type c = ET_BIBLIOGRAPHIC"
    using eppi_contents_total [OF assms] by blast
  have rest: "\<forall>c \<in> set (eppi_abstracts kvs) \<union> set (eppi_annotations env p) \<union> set (eppi_raws p metadata kvs).
      content_type c \<noteq> ET_BIBLIOGRAPHIC"
    by (auto simp: eppi_abstracts_def eppi_annotations_def eppi_raws_def split: option.splits json.splits if_splits)
  show ?thesis
    using eppi_parse_identifiers_spec [OF assms(2), of env] bibs rest
    by (auto simp: eppi_reference_def c eppi_reference_made_def new_enhancement_file_input_def list_all_iff
        filter_map comp_def filter_empty_conv filter_id_conv simp del: eppi_known_identifiers.simps)
qed

text \<open>An export of three entries: one with a DOI in two spellings, one without any identifier, one with a link.\<close>

definition sample_eppi_env :: eppi_env where
  "sample_eppi_env =
     \<lparr> ee_pydantic = decimal_pydantic, ee_str = (\<lambda>j. case j of JStr s \<Rightarrow> s | _ \<Rightarrow> ''?''), ee_float = (\<lambda>s. None),
       ee_uuid = (\<lambda>s. if s = str_uuid 7 then Some 7 else None) \<rparr>"

definition sample_eppi_parser :: eppi_parser where
  "sample_eppi_parser =
     \<lparr> ep_tags = [''inclusion/hpv''], ep_parser_source = ''destiny_sdk.eppi_parser@2.0'',
       ep_include_raw_data = True, ep_include_eppi_id = False, ep_source_export_date = Some 0,
       ep_data_description = Some ''export'', ep_raw_enhancement_excludes = [''Abstract''] \<rparr>"

definition sample_eppi_entries :: "json list" where
  "sample_eppi_entries =
     [JObj [(''ItemId'', JNum 1), (''DOI'', JStr ''10.1000/ABC''), (''URL'', JStr ''https://doi.org/10.1000/abc''),
            (''Abstract'', JStr ''A trial.''), (''Authors'', JStr ''Ada L.; Bo M.; ''), (''Year'', JStr ''2001'')],
      JObj [(''ItemId'', JNum 2), (''Title'', JStr ''Untraceable'')]]"

definition sample_eppi_links :: "json list" where
  "sample_eppi_links =
     [JObj [(''ItemId'', JNum 3), (''URL'', JStr (''https://data.example.org/references/'' @ str_uuid 7 @ ''/''))]]"

definition sample_eppi_data :: "json list \<Rightarrow> json_dict" where
  "sample_eppi_data entries = [(''CodeSets'', JArr [JObj [(''SetId'', JNum 5)]]), (''References'', JArr entries)]"

text \<open>
  C36 (functional). Parsing a well-formed export always returns and accounts for every entry, in the
  order of the export: the entries that carry no known identifier come back as failed, untouched, and
  every other entry becomes one reference with exactly the identifiers the entry carries, each once,
  its abstract, the annotations of the tags, and, when raw data is asked for, all its fields but the
  excluded ones.
\<close>

theorem eppi_references_accounted:
  assumes "eppi_parser_ok env p" "eppi_export_ok p data"
  shows "\<exists>entries metadata refs.
           eppi_entries data = Inr entries \<and> raw_enhancement_metadata data = Inr metadata \<and>
           parse_references env p data source version =
             Inr (refs, filter (\<lambda>e. eppi_known_identifiers env p e = []) entries) \<and>
           list_all2 (\<lambda>e r. \<exists>kvs. e = JObj kvs \<and>
               eppi_reference_made env p (case source of None \<Rightarrow> ep_parser_source p | Some s \<Rightarrow> s) metadata kvs r)
             (filter (\<lambda>e. eppi_known_identifiers env p e \<noteq> []) entries) refs"
proof -
  let ?source = "case source of None \<Rightarrow> ep_parser_source p | Some s \<Rightarrow> s"
  obtain metadata where m: "raw_enhancement_metadata data = Inr metadata"
    using raw_enhancement_metadata_total [OF assms(2)] by blast
  obtain entries where e: "eppi_entries data = Inr entries" "list_all (eppi_entry_ok p) entries"
    using eppi_entries_ok [OF assms(2)] by blast
  let ?body = "eppi_reference env p ?source version metadata"
  let ?f = "\<lambda>e. projr (?body e)"
  have spec: "\<exists>kvs. e = JObj kvs \<and> (if eppi_known_identifiers env p e = []
      then ?body e = Inl ExternalIdentifierNotFoundError
      else ?body e = Inr (?f e) \<and> eppi_reference_made env p ?source metadata kvs (?f e))"
    if "e \<in> set entries" for e
  proof -
    have "eppi_entry_ok p e" using that e(2) by (simp add: list_all_iff)
    then obtain kvs where "e = JObj kvs" by (cases e) auto
    with eppi_reference_spec [OF assms(1), of kvs ?source version metadata] \<open>eppi_entry_ok p e\<close> show ?thesis
      by (auto simp del: eppi_known_identifiers.simps split: if_splits)
  qed
  have "res_foldM (parse_references_step ?body) entries ([], []) =
      Inr (map ?f (filter (\<lambda>e. eppi_known_identifiers env p e \<noteq> []) entries),
           filter (\<lambda>e. eppi_known_identifiers env p e = []) entries)"
    by (subst parse_references_loop [where bad = "\<lambda>e. eppi_known_identifiers env p e = []" and f = ?f])
      (use spec in \<open>force split: if_splits\<close>, simp)
  moreover have "list_all2 (\<lambda>e r. \<exists>kvs. e = JObj kvs \<and> eppi_reference_made env p ?source metadata kvs r)
      (filter (\<lambda>e. eppi_known_identifiers env p e \<noteq> []) entries)
      (map ?f (filter (\<lambda>e. eppi_known_identifiers env p e \<noteq> []) entries))"
    unfolding list_all2_map2 list_all2_same using spec by force
  ultimately show ?thesis using m e(1) by (auto simp: parse_references_def Let_def)
qed

theorem eppi_references_accounted_witness:
  "\<exists>r. parse_references sample_eppi_env sample_eppi_parser (sample_eppi_data sample_eppi_entries) None (Some ''v1'') =
     Inr ([r], [JObj [(''ItemId'', JNum 2), (''Title'', JStr ''Untraceable'')]]) \<and>
     rfi_identifiers r = [DOIIdentifier ''10.1000/abc'']"
proof -
  let ?known = "eppi_known_identifiers sample_eppi_env sample_eppi_parser"
  let ?one = "sample_eppi_entries ! 0" and ?two = "sample_eppi_entries ! 1"
  have ok: "eppi_parser_ok sample_eppi_env sample_eppi_parser"
    "eppi_export_ok sample_eppi_parser (sample_eppi_data sample_eppi_entries)" by code_simp+
  have entries: "eppi_entries (sample_eppi_data sample_eppi_entries) = Inr [?one, ?two]"
    by (simp add: eppi_entries_def sample_eppi_data_def sample_eppi_entries_def)
  have "?known ?one = [DOIIdentifier ''10.1000/abc'', DOIIdentifier ''10.1000/abc'']" "?known ?two = []"
    by code_simp+
  moreover obtain refs metadata where
    "parse_references sample_eppi_env sample_eppi_parser (sample_eppi_data sample_eppi_entries) None (Some ''v1'') =
       Inr (refs, filter (\<lambda>e. ?known e = []) [?one, ?two])"
    "list_all2 (\<lambda>e r. \<exists>kvs. e = JObj kvs \<and> eppi_reference_made sample_eppi_env sample_eppi_parser
        (ep_parser_source sample_eppi_parser) metadata kvs r) (filter (\<lambda>e. ?known e \<noteq> []) [?one, ?two]) refs"
    using eppi_references_accounted [OF ok, of None "Some ''v1''"] entries by auto
  ultimately obtain r where "parse_references sample_eppi_env sample_eppi_parser
        (sample_eppi_data sample_eppi_entries) None (Some ''v1'') = Inr ([r], [?two])"
    and made: "distinct (rfi_identifiers r)" "set (rfi_identifiers r) = {DOIIdentifier ''10.1000/abc''}"
    by (auto simp: list_all2_Cons1 eppi_reference_made_def simp del: eppi_known_identifiers.simps)
  moreover from made have "rfi_identifiers r = [DOIIdentifier ''10.1000/abc'']"
    by (cases "rfi_identifiers r") (auto simp: subset_singleton_iff insert_ident)
  ultimately show ?thesis by (auto simp: sample_eppi_entries_def)
qed

text \<open>
  The version of the robot never reaches a reference: the constructor expects it under another
  keyword. The enhancements of \<open>parse_enhancements\<close> do carry it.
\<close>

lemma parse_references_drops_version:
  assumes "parse_references env p data source version = Inr (refs, failed)"
    and "r \<in> set refs" "e \<in> set (rfi_enhancements r)"
  shows "efi_robot_version e = None"
proof -
  have "res_foldM (parse_references_step (eppi_reference env p src version metadata)) es (rs, fs) = Inr (refs, failed) \<Longrightarrow>
      \<forall>r \<in> set rs. \<forall>e \<in> set (rfi_enhancements r). efi_robot_version e = None \<Longrightarrow>
      \<forall>r \<in> set refs. \<forall>e \<in> set (rfi_enhancements r). efi_robot_version e = None" for src metadata es rs fs
  proof (induction es arbitrary: rs fs)
    case (Cons x es)
    show ?case
    proof (cases "eppi_reference env p src version metadata x")
      case (Inl err)
      with Cons show ?thesis by (auto simp: parse_references_step_def split: if_splits)
    next
      case (Inr r)
      then have none: "\<forall>e \<in> set (rfi_enhancements r). efi_robot_version e = None"
        by (clarsimp simp: eppi_reference_def result_simps) (simp add: new_enhancement_file_input_def)
      from Cons.prems(1) Inr have "res_foldM (parse_references_step (eppi_reference env p src version metadata)) es
          (rs @ [r], fs) = Inr (refs, failed)" by (simp add: parse_references_step_made)
      from Cons.IH [OF this] none Cons.prems(2) show ?thesis by auto
    qed
  qed auto
  with assms show ?thesis by (fastforce simp: parse_references_def Let_def result_simps)
qed

section \<open>Enhancements of an export are all or nothing\<close>

definition eppi_reference_id :: "eppi_env \<Rightarrow> json \<Rightarrow> uuid option" where
  "eppi_reference_id env entry = projr (parse_reference_id env entry)"

fun eppi_enhancement_made ::
    "eppi_env \<Rightarrow> eppi_parser \<Rightarrow> string \<Rightarrow> string option \<Rightarrow> json_dict \<Rightarrow> json \<Rightarrow> sdk_enhancement" where
  "eppi_enhancement_made env p source version metadata entry =
     \<lparr> se_reference_id = the (eppi_reference_id env entry), se_source = source, se_visibility = VIS_PUBLIC,
       se_robot_version = version, se_derived_from = None,
       se_content = SdkContent (RawEnhancement
         \<lparr> raw_source_export_date = the (ep_source_export_date p),
           raw_description = the (ep_data_description p), raw_metadata = metadata,
           raw_data = JObj (eppi_raw_data p (case entry of JObj kvs \<Rightarrow> kvs)) \<rparr>) \<rparr>"

lemma parse_reference_id_total:
  assumes "eppi_entry_ok p entry"
  shows "parse_reference_id env entry = Inr (eppi_reference_id env entry)"
proof -
  from assms obtain kvs where "entry = JObj kvs" "eppi_field_text kvs ''URL''" by (cases entry) auto
  from this(2) have "\<not> isl (parse_reference_id env (JObj kvs))"
    by (cases rule: eppi_field_cases) (auto simp: parse_reference_id_def simp del: json_get.simps)
  with \<open>entry = JObj kvs\<close> show ?thesis by (simp add: eppi_reference_id_def)
qed

lemma parse_enhancements_loop:
  assumes "eppi_parser_ok env p" "ep_include_raw_data p" "list_all (eppi_entry_ok p) es"
  shows "res_foldM (parse_enhancements_step env p source version metadata) es (xs, us) =
           Inr (xs @ map (eppi_enhancement_made env p source version metadata)
                      (filter (\<lambda>e. eppi_reference_id env e \<noteq> None) es),
                us @ filter (\<lambda>e. eppi_reference_id env e = None) es)"
  using assms(3)
proof (induction es arbitrary: xs us)
  case (Cons e es)
  then obtain kvs where kvs: "e = JObj kvs" and ok: "eppi_entry_ok p (JObj kvs)" by (cases e) auto
  from Cons parse_reference_id_total [OF ok, of env] parse_raw_total [OF assms(1) ok assms(2), of metadata]
  show ?case by (auto simp: kvs parse_enhancements_step_def simp del: eppi_entry_ok.simps)
qed simp

text \<open>
  Reading the codes of stored references from a well-formed export is all or nothing: when
  every entry names its reference in its URL there is one raw enhancement per entry, in the order of the
  export, for that reference and with the fields of the entry; one entry that names none rejects the
  whole export.
\<close>

lemma eppi_enhancements_all_or_nothing:
  assumes "eppi_parser_ok env p" "ep_include_raw_data p" "eppi_export_ok p data"
  shows "\<exists>entries metadata. eppi_entries data = Inr entries \<and> raw_enhancement_metadata data = Inr metadata \<and>
           parse_enhancements env p data source version =
             (if list_all (\<lambda>e. eppi_reference_id env e \<noteq> None) entries
              then Inr (map (eppi_enhancement_made env p source version metadata) entries)
              else Inl ReferenceIdNotFoundError)"
proof -
  obtain metadata where m: "raw_enhancement_metadata data = Inr metadata"
    using raw_enhancement_metadata_total [OF assms(3)] by blast
  obtain entries where e: "eppi_entries data = Inr entries" "list_all (eppi_entry_ok p) entries"
    using eppi_entries_ok [OF assms(3)] by blast
  have "list_all Q entries \<Longrightarrow> filter Q entries = entries" for Q
    by (simp add: list_all_iff)
  then show ?thesis
    using m e parse_enhancements_loop [OF assms(1,2) e(2), of source version metadata "[]" "[]"] assms(2)
    by (auto simp: parse_enhancements_def list_all_iff filter_empty_conv simp del: eppi_enhancement_made.simps)
qed

lemma eppi_enhancements_all_or_nothing_witness:
  "\<exists>es. parse_enhancements sample_eppi_env sample_eppi_parser (sample_eppi_data sample_eppi_links) ''eppi'' (Some ''v1'') = Inr es \<and>
     map se_reference_id es = [7] \<and>
   parse_enhancements sample_eppi_env sample_eppi_parser (sample_eppi_data (sample_eppi_links @ sample_eppi_entries)) ''eppi'' None =
     Inl ReferenceIdNotFoundError"
proof -
  have ok: "eppi_parser_ok sample_eppi_env sample_eppi_parser" "ep_include_raw_data sample_eppi_parser"
    and one: "eppi_export_ok sample_eppi_parser (sample_eppi_data sample_eppi_links)"
    and three: "eppi_export_ok sample_eppi_parser (sample_eppi_data (sample_eppi_links @ sample_eppi_entries))"
    by code_simp+
  have ids: "map (eppi_reference_id sample_eppi_env) (sample_eppi_links @ sample_eppi_entries) = [Some 7, None, None]"
    "map (eppi_reference_id sample_eppi_env) sample_eppi_links = [Some 7]" by code_simp+
  have entries: "eppi_entries (sample_eppi_data es) = Inr es" for es
    by (simp add: eppi_entries_def sample_eppi_data_def)
  have l: "\<not> list_all (\<lambda>e. eppi_reference_id sample_eppi_env e \<noteq> None) (sample_eppi_links @ sample_eppi_entries)"
    "list_all (\<lambda>e. eppi_reference_id sample_eppi_env e \<noteq> None) sample_eppi_links"
    "map (\<lambda>e. the (eppi_reference_id sample_eppi_env e)) sample_eppi_links = [7]"
    using ids by (auto simp: sample_eppi_links_def sample_eppi_entries_def)
  show ?thesis
    using eppi_enhancements_all_or_nothing [OF ok one, of "''eppi''" "Some ''v1''"] l(1,2)
      eppi_enhancements_all_or_nothing [OF ok three, of "''eppi''" None]
    by (auto simp: entries comp_def l(3))
qed

end
